(* ===== verification/Prelude.thy ===== *)
theory Prelude
  imports Main "HOL-Library.List_Lexorder" "HOL-Library.Char_ord" "HOL-Library.Sublist"
    "HOL-Library.Code_Target_Nat"
begin

text \<open>
  Shared vocabulary of the development.  Go strings and byte slices are HOL
  \<^typ>\<open>string\<close>s (one \<^typ>\<open>char\<close> per byte), compared bytewise by the library's
  lexicographic order; a fallible Go function returns \<^typ>\<open>'e + 'a\<close> with the error on
  the left.  The theory collects the generic facts on lists, association lists, the
  lexicographic order and 64-bit wrap-around that the component theories use.
\<close>

named_theorems wf_intros \<open>introduction rules for well-formedness invariants\<close>
named_theorems validation_intros \<open>results whose only errors are validation errors\<close>
named_theorems result_simps \<open>case splits of Go-style results\<close>

type_synonym duration = int
type_synonym instant = int

section \<open>Results\<close>

definition bind_result :: "'e + 'a \<Rightarrow> ('a \<Rightarrow> 'e + 'b) \<Rightarrow> 'e + 'b" where
  "bind_result r k = (case r of Inl e \<Rightarrow> Inl e | Inr x \<Rightarrow> k x)"

lemma bind_result_simps [simp, result_simps]:
  "bind_result (Inl e) k = Inl e"
  "bind_result (Inr x) k = k x"
  by (simp_all add: bind_result_def)

lemma bind_result_Inr_iff [result_simps]:
  "bind_result r k = Inr y \<longleftrightarrow> (\<exists>x. r = Inr x \<and> k x = Inr y)"
  by (cases r) auto

definition guard_result :: "bool \<Rightarrow> 'e \<Rightarrow> 'e + unit" where
  "guard_result ok e = (if ok then Inr () else Inl e)"

lemma guard_result_simps [simp, result_simps]:
  "guard_result True e = Inr ()"
  "guard_result False e = Inl e"
  by (simp_all add: guard_result_def)

lemma guard_result_Inr_iff [simp, result_simps]: "guard_result b e = Inr u \<longleftrightarrow> b"
  by (simp add: guard_result_def)

lemma guard_result_Inl_iff [simp, result_simps]: "guard_result b e = Inl e' \<longleftrightarrow> \<not> b \<and> e' = e"
  by (auto simp: guard_result_def)

lemma bind_result_Inl_iff [result_simps]:
  "bind_result r k = Inl e \<longleftrightarrow> r = Inl e \<or> (\<exists>x. r = Inr x \<and> k x = Inl e)"
  by (cases r) auto

text \<open>A value that must be present, as after a Go call returning a pointer or an error.\<close>

definition require_some :: "'a option \<Rightarrow> 'e \<Rightarrow> 'e + 'a" where
  "require_some r e = (case r of None \<Rightarrow> Inl e | Some x \<Rightarrow> Inr x)"

lemma require_some_iff [simp, result_simps]:
  "require_some r e = Inr x \<longleftrightarrow> r = Some x"
  "require_some r e = Inl e' \<longleftrightarrow> r = None \<and> e' = e"
  by (auto simp: require_some_def split: option.splits)

lemma require_some_simps [simp, result_simps]:
  "require_some (Some x) e = Inr x" "require_some None e = Inl e"
  by (simp_all add: require_some_def)

lemma map_sum_id_iff [simp, result_simps]:
  "map_sum f id r = Inr x \<longleftrightarrow> r = Inr x"
  "map_sum f id r = Inl y \<longleftrightarrow> (\<exists>e. r = Inl e \<and> y = f e)"
  by (cases r; auto)+

lemma map_sum_bind_result:
  "map_sum id f (bind_result r k) = bind_result r (\<lambda>x. map_sum id f (k x))"
  by (cases r) auto

lemma sum_not_Inr_iff: "(\<forall>x. r \<noteq> Inr x) \<longleftrightarrow> (\<exists>e. r = Inl e)"
  by (cases r) auto

section \<open>Machine integers\<close>

definition int64_min :: int where "int64_min = - (2 ^ 63)"
definition int64_max :: int where "int64_max = 2 ^ 63 - 1"

definition wrap64 :: "int \<Rightarrow> int" where
  "wrap64 x = (x + 2 ^ 63) mod 2 ^ 64 - 2 ^ 63"

lemma wrap64_id: "int64_min \<le> x \<Longrightarrow> x \<le> int64_max \<Longrightarrow> wrap64 x = x"
  by (simp add: wrap64_def int64_min_def int64_max_def)

lemma wrap64_range: "int64_min \<le> wrap64 x \<and> wrap64 x \<le> int64_max"
proof -
  have "0 \<le> (x + 2 ^ 63) mod 2 ^ 64" "(x + 2 ^ 63) mod 2 ^ 64 < (2 :: int) ^ 64"
    by simp_all
  then show ?thesis
    by (simp add: wrap64_def int64_min_def int64_max_def)
qed

definition millisecond :: duration where "millisecond = 1000000"
definition second :: duration where "second = 1000000000"
definition minute :: duration where "minute = 60 * second"
definition hour :: duration where "hour = 60 * minute"

text \<open>The Go conversion \<^verbatim>\<open>time.Duration(ms) * time.Millisecond\<close>, which wraps at 64 bits.\<close>

definition duration_ms :: "int \<Rightarrow> duration" where
  "duration_ms ms = wrap64 (ms * millisecond)"

lemma duration_ms_exact:
  "\<bar>ms\<bar> \<le> 9223372036854 \<Longrightarrow> duration_ms ms = ms * millisecond"
  unfolding duration_ms_def
  by (rule wrap64_id) (simp_all add: millisecond_def int64_min_def int64_max_def)

section \<open>Lists\<close>

lemma less_append_same_length:
  fixes xs xs' ys ys' :: "('a :: linorder) list"
  assumes "length xs = length xs'"
  shows "xs @ ys < xs' @ ys' \<longleftrightarrow> xs < xs' \<or> (xs = xs' \<and> ys < ys')"
  using assms by (induction xs xs' rule: list_induct2) auto

lemma sorted_wrt_filter_le:
  "sorted_wrt P xs \<Longrightarrow> sorted_wrt P (filter Q xs)"
  by (rule sorted_wrt_filter)

lemma filter_all_False: "(\<And>x. x \<in> set xs \<Longrightarrow> \<not> P x) \<Longrightarrow> filter P xs = []"
  by (simp add: filter_empty_conv)

lemma find_None_iff_all: "List.find P xs = None \<longleftrightarrow> (\<forall>x \<in> set xs. \<not> P x)"
  by (auto simp: find_None_iff)

lemma find_SomeD: "List.find P xs = Some x \<Longrightarrow> x \<in> set xs \<and> P x"
  by (auto simp: find_Some_iff)

lemma find_key_mem: "List.find (\<lambda>w. f w = k) xs = Some w \<Longrightarrow> k \<in> f ` set xs"
  by (auto dest!: find_SomeD)

lemma find_append_mono:
  "List.find P xs = Some x \<Longrightarrow> List.find P (xs @ ys) = Some x"
  by (induction xs) (auto split: if_splits)

end
