(* ===== verification/Go_Calendar.thy ===== *)
theory Go_Calendar
  imports Prelude
begin

text \<open>
  Go's \<^verbatim>\<open>time\<close> package as far as the sources use it.  A \<^verbatim>\<open>time.Time\<close> in UTC is an
  \<^typ>\<open>instant\<close>: nanoseconds since the zero time 0001-01-01T00:00:00Z, so that
  \<^verbatim>\<open>IsZero\<close> is equality with 0.  This theory has the proleptic Gregorian calendar and
  the clock fields of an instant, with their inverse and the lexicographic comparison of
  instants by fields that the textual time order rests on.
\<close>

section \<open>Calendar\<close>

definition is_leap :: "int \<Rightarrow> bool" where
  "is_leap y \<longleftrightarrow> 4 dvd y \<and> (\<not> 100 dvd y \<or> 400 dvd y)"

definition days_before_year :: "int \<Rightarrow> int" where
  "days_before_year y = 365 * (y - 1) + (y - 1) div 4 - (y - 1) div 100 + (y - 1) div 400"

definition days_in_year :: "int \<Rightarrow> int" where
  "days_in_year y = (if is_leap y then 366 else 365)"

definition days_in_month :: "bool \<Rightarrow> nat \<Rightarrow> int" where
  "days_in_month leap m =
     (if m = 2 then (if leap then 29 else 28)
      else if m \<in> {4, 6, 9, 11} then 30 else 31)"

definition days_before_month :: "bool \<Rightarrow> nat \<Rightarrow> int" where
  "days_before_month leap m =
     sum_list (map (days_in_month leap) [1..<m])"

definition year_of_day :: "int \<Rightarrow> int" where
  "year_of_day d =
     (let y = (400 * d) div 146097 + 1
      in if d < days_before_year y then y - 1
         else if d \<ge> days_before_year (y + 1) then y + 1 else y)"

fun find_month :: "bool \<Rightarrow> int \<Rightarrow> nat \<Rightarrow> nat" where
  "find_month leap yday 0 = 1"
| "find_month leap yday (Suc m) =
     (if days_before_month leap (Suc m) \<le> yday then Suc m else find_month leap yday m)"

record civil =
  c_year :: int
  c_month :: nat
  c_day :: nat

definition civil_of_day :: "int \<Rightarrow> civil" where
  "civil_of_day d =
     (let y = year_of_day d; yday = d - days_before_year y; leap = is_leap y;
          m = find_month leap yday 12
      in \<lparr>c_year = y, c_month = m, c_day = nat (yday - days_before_month leap m + 1)\<rparr>)"

definition day_of_civil :: "civil \<Rightarrow> int" where
  "day_of_civil c =
     days_before_year (c_year c) + days_before_month (is_leap (c_year c)) (c_month c) + int (c_day c) - 1"

definition valid_civil :: "civil \<Rightarrow> bool" where
  "valid_civil c \<longleftrightarrow> 1 \<le> c_month c \<and> c_month c \<le> 12 \<and> 1 \<le> c_day c
     \<and> int (c_day c) \<le> days_in_month (is_leap (c_year c)) (c_month c)"

lemma div_pred_eq:
  fixes y k :: int
  assumes "0 < k"
  shows "(y - 1) div k = (if k dvd y then y div k - 1 else y div k)"
proof (cases "k dvd y")
  case True
  then obtain q where "y = k * q" ..
  with assms have "(y - 1) div k = q - 1"
    by (intro int_div_pos_eq [where r = "k - 1"]) (auto simp: algebra_simps)
  with True \<open>y = k * q\<close> assms show ?thesis by simp
next
  case False
  then have "y mod k \<noteq> 0" by (simp add: dvd_eq_mod_eq_0)
  moreover have "0 \<le> y mod k" "y mod k < k"
    using assms by simp_all
  ultimately have "0 < y mod k" "y mod k < k"
    by simp_all
  then have "(y - 1) div k = y div k"
    by (intro int_div_pos_eq [where r = "y mod k - 1"]) auto
  with False show ?thesis by simp
qed

lemma days_before_year_Suc:
  "days_before_year (y + 1) = days_before_year y + days_in_year y"
proof -
  have "400 dvd y \<Longrightarrow> 100 dvd y"
    by (rule dvd_trans [of _ 400]) simp_all
  moreover have "100 dvd y \<Longrightarrow> 4 dvd y"
    by (rule dvd_trans [of _ 100]) simp_all
  ultimately show ?thesis
    by (auto simp: days_before_year_def days_in_year_def is_leap_def div_pred_eq split: if_splits)
qed

lemma div_bounds:
  fixes a k :: int
  assumes "0 < k"
  shows "k * (a div k) \<le> a" "a < k * (a div k) + k"
  using assms by (simp_all add: mult.commute [of k] minus_mod_eq_div_mult [symmetric])

lemma year_of_day_bounds:
  "days_before_year (year_of_day d) \<le> d \<and> d < days_before_year (year_of_day d + 1)"
proof -
  define y where "y = (400 * d) div 146097 + 1"
  have *: "146097 * (y - 1) \<le> 400 * d" "400 * d < 146097 * y"
    using div_bounds [of 146097 "400 * d"] by (simp_all add: y_def)
  have "days_before_year (y - 1) \<le> d"
    using * div_bounds [of 4 "y - 2"] div_bounds [of 100 "y - 2"] div_bounds [of 400 "y - 2"]
    by (simp add: days_before_year_def)
  moreover have "d < days_before_year (y + 2)"
    using * div_bounds [of 4 "y + 1"] div_bounds [of 100 "y + 1"] div_bounds [of 400 "y + 1"]
    by (simp add: days_before_year_def)
  ultimately show ?thesis
    unfolding year_of_day_def y_def [symmetric] Let_def
    by (auto simp: algebra_simps)
qed

lemma days_before_year_mono: "x \<le> y \<Longrightarrow> days_before_year x \<le> days_before_year y"
proof (induction "nat (y - x)" arbitrary: y)
  case (Suc n)
  then have "days_before_year x \<le> days_before_year (y - 1)"
    by (intro Suc.hyps) auto
  also have "\<dots> \<le> days_before_year y"
    using days_before_year_Suc [of "y - 1"] by (simp add: days_in_year_def)
  finally show ?case .
qed simp

lemma year_of_day_unique:
  "days_before_year y \<le> d \<Longrightarrow> d < days_before_year (y + 1) \<Longrightarrow> year_of_day d = y"
  using days_before_year_mono [of "y + 1" "year_of_day d"]
    days_before_year_mono [of "year_of_day d + 1" y] year_of_day_bounds [of d]
  by (cases "year_of_day d" y rule: linorder_cases) auto

lemma days_before_month_Suc:
  "1 \<le> m \<Longrightarrow> days_before_month leap (Suc m) = days_before_month leap m + days_in_month leap m"
  by (simp add: days_before_month_def)

lemma days_before_month_1 [simp]: "days_before_month leap (Suc 0) = 0"
  by (simp add: days_before_month_def)

lemma days_before_month_13: "days_before_month leap 13 = (if leap then 366 else 365)"
  by (simp add: days_before_month_def upt_rec days_in_month_def)

lemma days_in_month_bounds: "28 \<le> days_in_month leap m" "days_in_month leap m \<le> 31"
  by (auto simp: days_in_month_def)

lemma days_before_month_mono:
  assumes "1 \<le> m" "m \<le> n"
  shows "days_before_month leap m \<le> days_before_month leap n"
  using assms(2)
proof (induction rule: dec_induct)
  case (step n)
  with assms(1) days_before_month_Suc [of n leap] days_in_month_bounds(1) [of leap n] show ?case by simp
qed simp

lemma find_month_props:
  assumes "0 \<le> yday"
  shows "1 \<le> find_month leap yday n \<and> find_month leap yday n \<le> max 1 n
    \<and> days_before_month leap (find_month leap yday n) \<le> yday
    \<and> (find_month leap yday n < n \<longrightarrow> yday < days_before_month leap (Suc (find_month leap yday n)))"
proof (induction n)
  case (Suc n)
  show ?case
  proof (cases "days_before_month leap (Suc n) \<le> yday")
    case False
    then have "n \<noteq> 0" using assms by (intro notI) simp
    with Suc.IH False show ?thesis
      by (cases "find_month leap yday n = n") auto
  qed simp
qed (use assms in simp)

lemma find_month_12:
  assumes "0 \<le> yday" "yday < (if leap then 366 else 365)"
  defines "m \<equiv> find_month leap yday 12"
  shows "1 \<le> m" "m \<le> 12" "days_before_month leap m \<le> yday"
    "yday < days_before_month leap m + days_in_month leap m"
proof -
  note props = find_month_props [OF assms(1), of leap 12, folded m_def]
  from props show "1 \<le> m" "m \<le> 12" "days_before_month leap m \<le> yday" by simp_all
  have "yday < days_before_month leap (Suc m)"
    using props assms(2) days_before_month_13 [of leap] by (cases "m = 12") auto
  with days_before_month_Suc [of m leap] \<open>1 \<le> m\<close>
  show "yday < days_before_month leap m + days_in_month leap m" by simp
qed

lemma civil_of_day_valid: "valid_civil (civil_of_day d)"
  and day_of_civil_of_day: "day_of_civil (civil_of_day d) = d"
proof -
  have "0 \<le> d - days_before_year (year_of_day d)"
    "d - days_before_year (year_of_day d) < (if is_leap (year_of_day d) then 366 else 365)"
    using year_of_day_bounds [of d] days_before_year_Suc [of "year_of_day d"]
    by (auto simp: days_in_year_def split: if_splits)
  note * = find_month_12 [OF this]
  from * show "valid_civil (civil_of_day d)"
    by (auto simp: valid_civil_def civil_of_day_def Let_def)
  from *(3) show "day_of_civil (civil_of_day d) = d"
    by (simp add: day_of_civil_def civil_of_day_def Let_def)
qed

definition civil_less :: "civil \<Rightarrow> civil \<Rightarrow> bool" where
  "civil_less a b \<longleftrightarrow> c_year a < c_year b
     \<or> c_year a = c_year b \<and> (c_month a < c_month b \<or> c_month a = c_month b \<and> c_day a < c_day b)"

lemma day_of_civil_bounds:
  assumes "valid_civil c"
  shows "days_before_year (c_year c) + days_before_month (is_leap (c_year c)) (c_month c) \<le> day_of_civil c"
    "day_of_civil c < days_before_year (c_year c) + days_before_month (is_leap (c_year c)) (Suc (c_month c))"
    "days_before_year (c_year c) \<le> day_of_civil c"
    "day_of_civil c < days_before_year (c_year c + 1)"
proof -
  let ?l = "is_leap (c_year c)"
  show 1: "days_before_year (c_year c) + days_before_month ?l (c_month c) \<le> day_of_civil c"
    and 2: "day_of_civil c < days_before_year (c_year c) + days_before_month ?l (Suc (c_month c))"
    using assms by (auto simp: valid_civil_def day_of_civil_def days_before_month_Suc)
  have "days_before_month ?l (Suc (c_month c)) \<le> days_before_month ?l 13"
    "days_before_month ?l 1 \<le> days_before_month ?l (c_month c)"
    using assms by (simp_all add: valid_civil_def days_before_month_mono del: One_nat_def)
  with 1 2 show "days_before_year (c_year c) \<le> day_of_civil c" "day_of_civil c < days_before_year (c_year c + 1)"
    by (auto simp: days_before_month_13 days_before_year_Suc days_in_year_def)
qed

lemma day_of_civil_less:
  assumes "valid_civil a" "valid_civil b" "civil_less a b"
  shows "day_of_civil a < day_of_civil b"
proof -
  note bnds = day_of_civil_bounds [OF assms(1)] day_of_civil_bounds [OF assms(2)]
  from assms(3) consider "c_year a < c_year b"
    | "c_year a = c_year b" "c_month a < c_month b"
    | "c_year a = c_year b" "c_month a = c_month b" "c_day a < c_day b"
    by (auto simp: civil_less_def)
  then show ?thesis
  proof cases
    case 1
    with days_before_year_mono [of "c_year a + 1" "c_year b"] bnds show ?thesis by simp
  next
    case 2
    with days_before_month_mono [of "Suc (c_month a)" "c_month b" "is_leap (c_year b)"] bnds
    show ?thesis by simp
  qed (simp add: day_of_civil_def)
qed

lemma civil_less_total: "civil_less a b \<or> (a :: civil) = b \<or> civil_less b a"
  unfolding civil_less_def by (cases a; cases b) (simp, linarith)

lemma day_of_civil_less_iff:
  "valid_civil a \<Longrightarrow> valid_civil b \<Longrightarrow> day_of_civil a < day_of_civil b \<longleftrightarrow> civil_less a b"
  using day_of_civil_less [of a b] day_of_civil_less [of b a] civil_less_total [of a b] by auto

lemma civil_of_day_of_civil:
  "valid_civil c \<Longrightarrow> civil_of_day (day_of_civil c) = c"
  using day_of_civil_less [of "civil_of_day (day_of_civil c)" c]
    day_of_civil_less [of c "civil_of_day (day_of_civil c)"]
    civil_less_total [of c "civil_of_day (day_of_civil c)"]
    civil_of_day_valid [of "day_of_civil c"] day_of_civil_of_day [of "day_of_civil c"]
  by auto

lemma civil_of_day_less_iff: "civil_less (civil_of_day a) (civil_of_day b) \<longleftrightarrow> a < b"
  using day_of_civil_less_iff [OF civil_of_day_valid civil_of_day_valid]
  by (simp add: day_of_civil_of_day)

section \<open>Clock fields\<close>

definition ns_per_day :: int where "ns_per_day = 86400000000000"

definition day_of :: "instant \<Rightarrow> int" where "day_of t = t div ns_per_day"
definition ns_of_day :: "instant \<Rightarrow> int" where "ns_of_day t = t mod ns_per_day"

definition hour_of :: "instant \<Rightarrow> nat" where "hour_of t = nat (ns_of_day t div hour)"
definition minute_of :: "instant \<Rightarrow> nat" where "minute_of t = nat (ns_of_day t mod hour div minute)"
definition second_of :: "instant \<Rightarrow> nat" where
  "second_of t = nat (ns_of_day t mod hour mod minute div second)"
definition nsec_of :: "instant \<Rightarrow> nat" where
  "nsec_of t = nat (ns_of_day t mod hour mod minute mod second)"

definition year_of :: "instant \<Rightarrow> int" where "year_of t = c_year (civil_of_day (day_of t))"

definition instant_of :: "civil \<Rightarrow> nat \<Rightarrow> nat \<Rightarrow> nat \<Rightarrow> nat \<Rightarrow> instant" where
  "instant_of c h m s ns =
     day_of_civil c * ns_per_day + int h * hour + int m * minute + int s * second + int ns"

lemmas clock_units = ns_per_day_def hour_def minute_def second_def

lemma div_mod_less_iff:
  fixes a b k :: int
  assumes "0 < k"
  shows "a < b \<longleftrightarrow> a div k < b div k \<or> (a div k = b div k \<and> a mod k < b mod k)"
proof (cases "a div k" "b div k" rule: linorder_cases)
  case less
  then have "k * (a div k) + k \<le> k * (b div k)"
    using assms by (metis mult_left_mono zless_imp_add1_zle distrib_left mult.right_neutral order_less_imp_le)
  with less div_bounds [OF assms, of a] div_bounds [OF assms, of b] show ?thesis by simp
next
  case equal
  then have "a < b \<longleftrightarrow> a mod k < b mod k"
    using mult_div_mod_eq [of k a] mult_div_mod_eq [of k b] by (metis add_less_cancel_left)
  with equal show ?thesis by simp
next
  case greater
  then have "k * (b div k) + k \<le> k * (a div k)"
    using assms by (metis mult_left_mono zless_imp_add1_zle distrib_left mult.right_neutral order_less_imp_le)
  with greater div_bounds [OF assms, of a] div_bounds [OF assms, of b] show ?thesis by simp
qed

lemma ns_of_day_bounds: "0 \<le> ns_of_day t" "ns_of_day t < ns_per_day"
  by (simp_all add: ns_of_day_def ns_per_day_def)

lemma clock_bounds: "hour_of t < 24" "minute_of t < 60" "second_of t < 60" "nsec_of t < 10 ^ 9"
proof -
  have "ns_of_day t div hour < 24"
    using ns_of_day_bounds [of t] div_bounds [of hour "ns_of_day t"] by (simp add: clock_units)
  moreover have "0 \<le> ns_of_day t div hour"
    using ns_of_day_bounds [of t] by (simp add: clock_units pos_imp_zdiv_nonneg_iff)
  ultimately show "hour_of t < 24" by (simp add: hour_of_def)
  have div60: "x mod (60 * k) div k < 60" if "0 < k" for x k :: int
  proof -
    have "k * (x mod (60 * k) div k) < k * 60"
      using div_bounds(1) [OF that, of "x mod (60 * k)"] pos_mod_bound [of "60 * k" x] that by linarith
    with that show ?thesis by (simp add: mult_less_cancel_left_pos)
  qed
  from div60 [of minute "ns_of_day t"] show "minute_of t < 60"
    by (simp add: minute_of_def hour_def) (simp add: clock_units)
  from div60 [of second "ns_of_day t mod hour"] show "second_of t < 60"
    by (simp add: second_of_def minute_def) (simp add: clock_units)
  show "nsec_of t < 10 ^ 9" by (simp add: nsec_of_def clock_units)
qed

lemma instant_less_iff:
  "a < b \<longleftrightarrow> day_of a < day_of b \<or> day_of a = day_of b \<and>
     (hour_of a < hour_of b \<or> hour_of a = hour_of b \<and>
     (minute_of a < minute_of b \<or> minute_of a = minute_of b \<and>
     (second_of a < second_of b \<or> second_of a = second_of b \<and> nsec_of a < nsec_of b)))"
proof -
  have pos: "0 < ns_per_day" "0 < hour" "0 < minute" "0 < second" by (simp_all add: clock_units)
  have nn: "0 \<le> ns_of_day x div hour" "0 \<le> ns_of_day x mod hour div minute"
    "0 \<le> ns_of_day x mod hour mod minute div second" "0 \<le> ns_of_day x mod hour mod minute mod second" for x
    using ns_of_day_bounds [of x] pos by (simp_all add: pos_imp_zdiv_nonneg_iff)
  have "a < b \<longleftrightarrow> day_of a < day_of b \<or> day_of a = day_of b \<and> ns_of_day a < ns_of_day b"
    unfolding day_of_def ns_of_day_def by (rule div_mod_less_iff [OF pos(1)])
  then show ?thesis
    unfolding div_mod_less_iff [OF pos(2), of "ns_of_day a"]
      div_mod_less_iff [OF pos(3), of "ns_of_day a mod hour"]
      div_mod_less_iff [OF pos(4), of "ns_of_day a mod hour mod minute"]
    using nn [of a] nn [of b]
    by (simp add: hour_of_def minute_of_def second_of_def nsec_of_def nat_less_eq_zless eq_nat_nat_iff
        del: zless_nat_conj)
qed

lemma instant_of_fields:
  "instant_of (civil_of_day (day_of t)) (hour_of t) (minute_of t) (second_of t) (nsec_of t) = t"
proof -
  have pos: "0 < hour" "0 < minute" "0 < second" by (simp_all add: clock_units)
  have nn: "0 \<le> ns_of_day t div hour" "0 \<le> ns_of_day t mod hour div minute"
    "0 \<le> ns_of_day t mod hour mod minute div second" "0 \<le> ns_of_day t mod hour mod minute mod second"
    using ns_of_day_bounds [of t] pos by (simp_all add: pos_imp_zdiv_nonneg_iff)
  have "ns_of_day t = ns_of_day t div hour * hour + (ns_of_day t mod hour div minute * minute
    + (ns_of_day t mod hour mod minute div second * second + ns_of_day t mod hour mod minute mod second))"
    by (metis div_mult_mod_eq)
  moreover have "t = day_of t * ns_per_day + ns_of_day t"
    by (simp add: day_of_def ns_of_day_def)
  ultimately show ?thesis
    using nn by (simp add: instant_of_def day_of_civil_of_day hour_of_def minute_of_def second_of_def nsec_of_def)
qed

lemma quot_rem_unique:
  fixes q r k :: int
  assumes "0 \<le> r" "r < k"
  shows "(q * k + r) div k = q" "(q * k + r) mod k = r"
  using assms by (auto intro: int_div_pos_eq int_mod_pos_eq simp: mult.commute)

lemma fields_of_instant_of:
  assumes "valid_civil c" "h < 24" "m < 60" "s < 60" "ns < 10 ^ 9"
  defines "t \<equiv> instant_of c h m s ns"
  shows "civil_of_day (day_of t) = c" "hour_of t = h" "minute_of t = m" "second_of t = s" "nsec_of t = ns"
proof -
  let ?r = "int h * hour + (int m * minute + (int s * second + int ns))"
  have r: "0 \<le> ?r" "?r < ns_per_day" "0 \<le> int m * minute + (int s * second + int ns)"
    "int m * minute + (int s * second + int ns) < hour"
    "0 \<le> int s * second + int ns" "int s * second + int ns < minute" "0 \<le> int ns" "int ns < second"
    using assms(2-5) by (simp_all add: clock_units)
  have t: "t = day_of_civil c * ns_per_day + ?r" by (simp add: t_def instant_of_def)
  have "day_of t = day_of_civil c" "ns_of_day t = ?r"
    unfolding t day_of_def ns_of_day_def by (rule quot_rem_unique [OF r(1,2)])+
  then show "civil_of_day (day_of t) = c" "hour_of t = h" "minute_of t = m" "second_of t = s" "nsec_of t = ns"
    unfolding hour_of_def minute_of_def second_of_def nsec_of_def
    by (simp_all only: civil_of_day_of_civil [OF assms(1)] quot_rem_unique [OF r(3,4)]
        quot_rem_unique [OF r(5,6)] quot_rem_unique [OF r(7,8)] nat_int)
qed

end
