(* ===== verification/Go_Time.thy ===== *)
theory Go_Time
  imports Go_Calendar
begin

text \<open>
  The text forms of instants: decimal formatting (\<^verbatim>\<open>appendInt\<close>), the layouts
  \<^verbatim>\<open>time.RFC3339Nano\<close> and \<^verbatim>\<open>fixedUTCLayout\<close>, and \<^verbatim>\<open>time.Parse\<close> for both.  Proved: the
  fixed layout orders texts as it orders instants (years 0 to 9999), and parsing a
  formatted instant returns it.
\<close>

section \<open>Durations between instants\<close>

text \<open>\<^verbatim>\<open>Time.Sub\<close> saturates at the bounds of a 64-bit duration.\<close>

definition time_sub :: "instant \<Rightarrow> instant \<Rightarrow> duration" where
  "time_sub a b = max int64_min (min int64_max (a - b))"

lemma time_sub_exact: "int64_min \<le> a - b \<Longrightarrow> a - b \<le> int64_max \<Longrightarrow> time_sub a b = a - b"
  by (simp add: time_sub_def)

section \<open>Decimal digits\<close>

definition digit :: "nat \<Rightarrow> char" where "digit d = char_of (48 + d)"

definition is_digit :: "char \<Rightarrow> bool" where
  "is_digit c \<longleftrightarrow> 48 \<le> (of_char c :: nat) \<and> (of_char c :: nat) \<le> 57"

definition digit_val :: "char \<Rightarrow> nat" where "digit_val c = of_char c - 48"

fun fixed_digits :: "nat \<Rightarrow> nat \<Rightarrow> string" where
  "fixed_digits 0 n = []"
| "fixed_digits (Suc w) n = fixed_digits w (n div 10) @ [digit (n mod 10)]"

fun nat_digits :: "nat \<Rightarrow> string" where
  "nat_digits n = (if n < 10 then [digit n] else nat_digits (n div 10) @ [digit (n mod 10)])"

declare nat_digits.simps [simp del]

definition int_digits :: "int \<Rightarrow> string" where
  "int_digits i = (if i < 0 then CHR ''-'' # nat_digits (nat (- i)) else nat_digits (nat i))"

definition append_int :: "int \<Rightarrow> nat \<Rightarrow> string" where
  "append_int x w =
     (let u = nat \<bar>x\<bar>; ds = (if u < 10 ^ w then fixed_digits w u else nat_digits u)
      in if x < 0 then CHR ''-'' # ds else ds)"

definition digits_val :: "string \<Rightarrow> nat" where
  "digits_val = foldl (\<lambda>acc c. 10 * acc + digit_val c) 0"

lemma of_char_digit: "d < 10 \<Longrightarrow> (of_char (digit d) :: nat) = 48 + d"
  by (simp add: digit_def)

lemma is_digit_digit [simp]: "d < 10 \<Longrightarrow> is_digit (digit d)"
  by (simp add: is_digit_def of_char_digit)

lemma digit_val_digit [simp]: "d < 10 \<Longrightarrow> digit_val (digit d) = d"
  by (simp add: digit_val_def of_char_digit)

lemma digit_less_iff: "d < 10 \<Longrightarrow> e < 10 \<Longrightarrow> digit d < digit e \<longleftrightarrow> d < e"
  by (simp add: less_char_def of_char_digit)

lemma digit_eq_iff: "d < 10 \<Longrightarrow> e < 10 \<Longrightarrow> digit d = digit e \<longleftrightarrow> d = e"
  by (metis digit_val_digit)

lemma length_fixed_digits [simp]: "length (fixed_digits w n) = w"
  by (induction w n rule: fixed_digits.induct) auto

lemma fixed_digits_all_digits: "c \<in> set (fixed_digits w n) \<Longrightarrow> is_digit c"
  by (induction w n rule: fixed_digits.induct) auto

lemma fixed_digits_order:
  "a < 10 ^ w \<Longrightarrow> b < 10 ^ w \<Longrightarrow>
    (fixed_digits w a < fixed_digits w b \<longleftrightarrow> a < b) \<and> (fixed_digits w a = fixed_digits w b \<longleftrightarrow> a = b)"
proof (induction w arbitrary: a b)
  case (Suc w)
  have "a div 10 < 10 ^ w" "b div 10 < 10 ^ w"
    using Suc.prems by (auto simp: less_mult_imp_div_less mult.commute)
  note IH = Suc.IH [OF this]
  have "a < b \<longleftrightarrow> a div 10 < b div 10 \<or> a div 10 = b div 10 \<and> a mod 10 < b mod 10"
    "a = b \<longleftrightarrow> a div 10 = b div 10 \<and> a mod 10 = b mod 10"
    using mult_div_mod_eq [of 10 a] mult_div_mod_eq [of 10 b] mod_less_divisor [of 10 a] mod_less_divisor [of 10 b]
    by (linarith, metis mult_div_mod_eq)
  with IH show ?case
    by (simp add: less_append_same_length digit_less_iff digit_eq_iff)
qed auto

lemmas fixed_digits_less_iff = fixed_digits_order [THEN conjunct1]
lemmas fixed_digits_eq_iff = fixed_digits_order [THEN conjunct2]

lemma digits_val_snoc [simp]: "digits_val (xs @ [c]) = 10 * digits_val xs + digit_val c"
  by (simp add: digits_val_def)

lemma digits_val_fixed [simp]: "a < 10 ^ w \<Longrightarrow> digits_val (fixed_digits w a) = a"
proof (induction w arbitrary: a)
  case (Suc w)
  then have "a div 10 < 10 ^ w" by (auto simp: less_mult_imp_div_less mult.commute)
  with Suc.IH show ?case by simp
qed (simp add: digits_val_def)

lemma nat_digits_all_digits: "c \<in> set (nat_digits n) \<Longrightarrow> is_digit c"
  by (induction n rule: nat_digits.induct) (subst (asm) (2) nat_digits.simps, auto split: if_splits)

lemma digits_val_nat_digits [simp]: "digits_val (nat_digits n) = n"
proof (induction n rule: nat_digits.induct)
  case (1 n)
  then show ?case
    by (subst nat_digits.simps) (auto simp: digits_val_def)
qed

lemma nat_digits_not_Nil [simp]: "nat_digits n \<noteq> []"
  by (subst nat_digits.simps) simp

section \<open>Formatting\<close>

definition date_text :: "instant \<Rightarrow> string" where
  "date_text t =
     (let c = civil_of_day (day_of t)
      in append_int (c_year c) 4 @ ''-'' @ fixed_digits 2 (c_month c) @ ''-'' @ fixed_digits 2 (c_day c))"

definition clock_text :: "instant \<Rightarrow> string" where
  "clock_text t =
     ''T'' @ fixed_digits 2 (hour_of t) @ '':'' @ fixed_digits 2 (minute_of t) @ '':''
       @ fixed_digits 2 (second_of t)"

definition fixedUTC :: "instant \<Rightarrow> string" where
  "fixedUTC t = date_text t @ clock_text t @ ''.'' @ fixed_digits 9 (nsec_of t) @ ''Z''"

definition strip_zeros :: "string \<Rightarrow> string" where
  "strip_zeros s = rev (dropWhile (\<lambda>c. c = CHR ''0'') (rev s))"

definition frac_text :: "nat \<Rightarrow> string" where
  "frac_text ns = (if ns = 0 then [] else ''.'' @ strip_zeros (fixed_digits 9 ns))"

definition rfc3339nano :: "instant \<Rightarrow> string" where
  "rfc3339nano t = date_text t @ clock_text t @ frac_text (nsec_of t) @ ''Z''"

definition text_year :: "instant \<Rightarrow> bool" where
  "text_year t \<longleftrightarrow> 0 \<le> year_of t \<and> year_of t \<le> 9999"

lemma append_int_year:
  "0 \<le> y \<Longrightarrow> y \<le> 9999 \<Longrightarrow> append_int y 4 = fixed_digits 4 (nat y)"
  by (simp add: append_int_def Let_def nat_less_iff)

lemma civil_day_bounds:
  "c_month (civil_of_day d) < 10 ^ 2" "c_day (civil_of_day d) < 10 ^ 2"
  using civil_of_day_valid [of d]
    days_in_month_bounds(2) [of "is_leap (c_year (civil_of_day d))" "c_month (civil_of_day d)"]
  by (auto simp: valid_civil_def)

lemma length_fixedUTC: "text_year t \<Longrightarrow> length (fixedUTC t) = 30"
  by (simp add: fixedUTC_def date_text_def clock_text_def Let_def append_int_year text_year_def year_of_def)

text \<open>The fixed layout compares, byte by byte, exactly as the instants compare.\<close>

lemma fixedUTC_less_iff:
  assumes "text_year a" "text_year b"
  shows "fixedUTC a < fixedUTC b \<longleftrightarrow> a < b"
proof -
  let ?ca = "civil_of_day (day_of a)" and ?cb = "civil_of_day (day_of b)"
  have yr: "append_int (c_year ?ca) 4 = fixed_digits 4 (nat (c_year ?ca))"
    "append_int (c_year ?cb) 4 = fixed_digits 4 (nat (c_year ?cb))"
    "nat (c_year ?ca) < 10 ^ 4" "nat (c_year ?cb) < 10 ^ 4"
    "nat (c_year ?ca) < nat (c_year ?cb) \<longleftrightarrow> c_year ?ca < c_year ?cb"
    "nat (c_year ?ca) = nat (c_year ?cb) \<longleftrightarrow> c_year ?ca = c_year ?cb"
    using assms by (auto simp: text_year_def year_of_def append_int_year)
  have clk: "hour_of x < 10 ^ 2" "minute_of x < 10 ^ 2" "second_of x < 10 ^ 2" "nsec_of x < 10 ^ 9" for x
    using clock_bounds [of x] by auto
  have "day_of a = day_of b \<longleftrightarrow> ?ca = ?cb" "day_of a < day_of b \<longleftrightarrow> civil_less ?ca ?cb"
    by (auto simp: civil_of_day_less_iff) (metis day_of_civil_of_day)
  then have "a < b \<longleftrightarrow> civil_less ?ca ?cb \<or> (?ca = ?cb \<and>
     (hour_of a < hour_of b \<or> hour_of a = hour_of b \<and>
     (minute_of a < minute_of b \<or> minute_of a = minute_of b \<and>
     (second_of a < second_of b \<or> second_of a = second_of b \<and> nsec_of a < nsec_of b))))"
    using instant_less_iff [of a b] by simp
  moreover have "?ca = ?cb \<longleftrightarrow> c_year ?ca = c_year ?cb \<and> c_month ?ca = c_month ?cb \<and> c_day ?ca = c_day ?cb"
    by (metis civil.equality old.unit.exhaust)
  ultimately show ?thesis
    unfolding fixedUTC_def date_text_def clock_text_def Let_def civil_less_def append_assoc yr
    by (auto simp: less_append_same_length fixed_digits_less_iff fixed_digits_eq_iff
        fixed_digits_less_iff [OF yr(3,4)] fixed_digits_eq_iff [OF yr(3,4)]
        yr(5,6) clk civil_day_bounds simp del: power_numeral zless_nat_conj)
qed

lemma fixedUTC_eq_iff:
  "text_year a \<Longrightarrow> text_year b \<Longrightarrow> fixedUTC a = fixedUTC b \<longleftrightarrow> a = b"
  using fixedUTC_less_iff [of a b] fixedUTC_less_iff [of b a] by (metis linorder_neq_iff)

section \<open>Parsing\<close>

fun getnum_fixed :: "string \<Rightarrow> (nat \<times> string) option" where
  "getnum_fixed (a # b # r) =
     (if is_digit a \<and> is_digit b then Some (10 * digit_val a + digit_val b, r) else None)"
| "getnum_fixed _ = None"

fun getnum_loose :: "string \<Rightarrow> (nat \<times> string) option" where
  "getnum_loose (a # b # r) =
     (if \<not> is_digit a then None
      else if is_digit b then Some (10 * digit_val a + digit_val b, r) else Some (digit_val a, b # r))"
| "getnum_loose [a] = (if is_digit a then Some (digit_val a, []) else None)"
| "getnum_loose [] = None"

definition parse_year :: "string \<Rightarrow> (nat \<times> string) option" where
  "parse_year s =
     (if length s < 4 \<or> \<not> list_all is_digit (take 4 s) then None
      else Some (digits_val (take 4 s), drop 4 s))"

fun expect :: "char \<Rightarrow> string \<Rightarrow> string option" where
  "expect c [] = None"
| "expect c (x # r) = (if x = c then Some r else None)"

definition comma_or_period :: "char \<Rightarrow> bool" where
  "comma_or_period c \<longleftrightarrow> c = CHR ''.'' \<or> c = CHR '',''"

fun parse_frac9 :: "string \<Rightarrow> nat \<times> string" where
  "parse_frac9 (c # d # r) =
     (if comma_or_period c \<and> is_digit d
      then (let ds = take 9 (takeWhile is_digit (d # r))
            in (digits_val ds * 10 ^ (9 - length ds), dropWhile is_digit (d # r)))
      else (0, c # d # r))"
| "parse_frac9 s = (0, s)"

text \<open>\<^verbatim>\<open>parseNanoseconds\<close> over exactly nine characters: \<^verbatim>\<open>atoi\<close> admits a sign, and a
  negative value is a range error.\<close>

definition atoi_nonneg :: "string \<Rightarrow> nat option" where
  "atoi_nonneg s =
     (let neg = (s \<noteq> [] \<and> hd s = CHR ''-'');
          body = (if s \<noteq> [] \<and> (hd s = CHR ''-'' \<or> hd s = CHR ''+'') then tl s else s)
      in if \<not> list_all is_digit body then None
         else if neg \<and> digits_val body \<noteq> 0 then None else Some (digits_val body))"

definition parse_frac0 :: "string \<Rightarrow> (nat \<times> string) option" where
  "parse_frac0 s =
     (if length s < 10 \<or> \<not> comma_or_period (hd s) then None
      else map_option (\<lambda>ns. (ns, drop 10 s)) (atoi_nonneg (take 9 (tl s))))"

fun parse_zone :: "string \<Rightarrow> (int \<times> string) option" where
  "parse_zone s =
     (if s \<noteq> [] \<and> hd s = CHR ''Z'' then Some (0, tl s)
      else if length s < 6 \<or> s ! 3 \<noteq> CHR '':'' then None
      else (case (getnum_fixed (take 2 (drop 1 s)), getnum_fixed (take 2 (drop 4 s))) of
              (Some (hr, _), Some (mm, _)) \<Rightarrow>
                if hr > 24 \<or> mm > 60 then None
                else if hd s = CHR ''+'' then Some (int ((hr * 60 + mm) * 60), drop 6 s)
                else if hd s = CHR ''-'' then Some (- int ((hr * 60 + mm) * 60), drop 6 s)
                else None
            | _ \<Rightarrow> None))"

text \<open>The part both layouts share: \<^verbatim>\<open>2006-01-02T15:04:05\<close>.\<close>

definition parse_datetime :: "string \<Rightarrow> ((civil \<times> nat \<times> nat \<times> nat) \<times> string) option" where
  "parse_datetime s0 =
     Option.bind (parse_year s0) (\<lambda>(y, s1).
     Option.bind (expect CHR ''-'' s1) (\<lambda>s2.
     Option.bind (getnum_fixed s2) (\<lambda>(mo, s3).
     if mo < 1 \<or> 12 < mo then None else
     Option.bind (expect CHR ''-'' s3) (\<lambda>s4.
     Option.bind (getnum_fixed s4) (\<lambda>(d, s5).
     Option.bind (expect CHR ''T'' s5) (\<lambda>s6.
     Option.bind (getnum_loose s6) (\<lambda>(h, s7).
     if 24 \<le> h then None else
     Option.bind (expect CHR '':'' s7) (\<lambda>s8.
     Option.bind (getnum_fixed s8) (\<lambda>(mi, s9).
     if 60 \<le> mi then None else
     Option.bind (expect CHR '':'' s9) (\<lambda>s10.
     Option.bind (getnum_fixed s10) (\<lambda>(se, s11).
     if 60 \<le> se then None
     else Some ((\<lparr>c_year = int y, c_month = mo, c_day = d\<rparr>, h, mi, se), s11))))))))))))"

definition parse_rfc3339nano :: "string \<Rightarrow> instant option" where
  "parse_rfc3339nano s =
     (case parse_datetime s of None \<Rightarrow> None
      | Some ((c, h, mi, se), r) \<Rightarrow>
          (let (ns, r') = parse_frac9 r
           in case parse_zone r' of None \<Rightarrow> None
              | Some (off, r'') \<Rightarrow>
                  if r'' \<noteq> [] \<or> \<not> valid_civil c then None
                  else Some (instant_of c h mi se ns - off * second)))"

definition parse_fixedUTC :: "string \<Rightarrow> instant option" where
  "parse_fixedUTC s =
     (case parse_datetime s of None \<Rightarrow> None
      | Some ((c, h, mi, se), r) \<Rightarrow>
          (case parse_frac0 r of None \<Rightarrow> None
           | Some (ns, r') \<Rightarrow>
               if r' \<noteq> ''Z'' \<or> \<not> valid_civil c then None else Some (instant_of c h mi se ns)))"

lemma getnum_fixed_digits [simp]:
  "n < 100 \<Longrightarrow> getnum_fixed (fixed_digits 2 n @ r) = Some (n, r)"
  by (simp add: numeral_2_eq_2)

lemma getnum_loose_digits [simp]:
  "n < 100 \<Longrightarrow> getnum_loose (fixed_digits 2 n @ r) = Some (n, r)"
  by (simp add: numeral_2_eq_2)

lemma parse_year_digits [simp]:
  "n < 10000 \<Longrightarrow> parse_year (fixed_digits 4 n @ r) = Some (n, r)"
  by (auto simp: parse_year_def list_all_iff dest: fixed_digits_all_digits)

lemma parse_datetime_text:
  assumes "text_year t"
  shows "parse_datetime (date_text t @ clock_text t @ r)
    = Some ((civil_of_day (day_of t), hour_of t, minute_of t, second_of t), r)"
proof -
  let ?c = "civil_of_day (day_of t)"
  have y: "append_int (c_year ?c) 4 = fixed_digits 4 (nat (c_year ?c))" "nat (c_year ?c) < 10000"
    "0 \<le> c_year ?c"
    using assms by (auto simp: text_year_def year_of_def append_int_year)
  have b: "0 < c_month ?c" "\<not> 12 < c_month ?c" "c_month ?c < 100" "c_day ?c < 100"
    using civil_of_day_valid [of "day_of t"] civil_day_bounds [of "day_of t"]
    by (auto simp: valid_civil_def)
  have c: "hour_of t < 100" "minute_of t < 100" "second_of t < 100" "\<not> 24 \<le> hour_of t" "\<not> 60 \<le> minute_of t"
    "\<not> 60 \<le> second_of t"
    using clock_bounds [of t] by auto
  show ?thesis
    unfolding parse_datetime_def date_text_def clock_text_def Let_def y(1)
    by (simp add: y b c)
qed

lemma parse_fixedUTC_roundtrip:
  assumes "text_year t"
  shows "parse_fixedUTC (fixedUTC t) = Some t"
proof -
  let ?ds = "fixed_digits 9 (nsec_of t)"
  have ns: "nsec_of t < 10 ^ 9" by (rule clock_bounds)
  have dig: "list_all is_digit ?ds" by (auto simp: list_all_iff dest: fixed_digits_all_digits)
  have "?ds \<noteq> []" by (metis length_fixed_digits list.size(3) zero_neq_numeral)
  then have "is_digit (hd ?ds)" using dig by (auto simp: list_all_iff)
  then have "hd ?ds \<noteq> CHR ''-''" "hd ?ds \<noteq> CHR ''+''" by (auto simp: is_digit_def)
  then have "atoi_nonneg ?ds = Some (nsec_of t)"
    using dig digits_val_fixed [OF ns] by (simp add: atoi_nonneg_def)
  then have "parse_frac0 (''.'' @ ?ds @ ''Z'') = Some (nsec_of t, ''Z'')"
    by (simp add: parse_frac0_def comma_or_period_def)
  then show ?thesis
    unfolding parse_fixedUTC_def fixedUTC_def parse_datetime_text [OF assms]
    using instant_of_fields [of t] civil_of_day_valid [of "day_of t"] by simp
qed

lemma strip_zeros_append: "\<exists>k. s = strip_zeros s @ replicate k CHR ''0''"
proof -
  have "s = strip_zeros s @ rev (takeWhile (\<lambda>c. c = CHR ''0'') (rev s))"
    unfolding strip_zeros_def by (metis rev_append rev_rev_ident takeWhile_dropWhile_id)
  moreover have "rev (takeWhile (\<lambda>c. c = CHR ''0'') (rev s))
      = replicate (length (takeWhile (\<lambda>c. c = CHR ''0'') (rev s))) CHR ''0''"
    by (subst replicate_length_same [symmetric]) (auto dest: set_takeWhileD)
  ultimately show ?thesis by metis
qed

lemma digits_val_zeros: "digits_val (xs @ replicate k CHR ''0'') = digits_val xs * 10 ^ k"
proof (induction k)
  case (Suc k)
  then show ?case
    using digits_val_snoc [of "xs @ replicate k CHR ''0''" "CHR ''0''"]
    by (simp add: replicate_append_same digit_val_def mult.left_commute)
qed simp

lemma parse_frac9_frac_text:
  assumes "ns < 10 ^ 9"
  shows "parse_frac9 (frac_text ns @ ''Z'') = (ns, ''Z'')"
proof (cases "ns = 0")
  case True
  then show ?thesis by (simp add: frac_text_def)
next
  case False
  let ?ds = "fixed_digits 9 ns"
  obtain k where k: "?ds = strip_zeros ?ds @ replicate k CHR ''0''"
    using strip_zeros_append by blast
  have val: "digits_val (strip_zeros ?ds) * 10 ^ k = ns"
    using digits_val_fixed [OF assms] digits_val_zeros [of "strip_zeros ?ds" k] k by simp
  have len: "length (strip_zeros ?ds) + k = 9"
    using k by (metis length_append length_fixed_digits length_replicate)
  have dig: "\<forall>c \<in> set (strip_zeros ?ds). is_digit c"
    using k fixed_digits_all_digits [of _ 9 ns] by (metis Un_iff set_append)
  have "strip_zeros ?ds \<noteq> []"
    using val False by (auto simp: digits_val_def)
  then obtain d r where dr: "strip_zeros ?ds = d # r" by (cases "strip_zeros ?ds") auto
  have "\<not> is_digit CHR ''Z''" by (simp add: is_digit_def)
  then have "takeWhile is_digit (d # r @ ''Z'') = d # r" "dropWhile is_digit (d # r @ ''Z'') = ''Z''"
    using dig dr by (auto simp: takeWhile_append2 dropWhile_append2)
  moreover have "9 - length (d # r) = k" "take 9 (d # r) = d # r"
    using len dr by auto
  ultimately show ?thesis
    using False val dig by (simp add: frac_text_def dr comma_or_period_def)
qed

lemma parse_rfc3339nano_roundtrip:
  "text_year t \<Longrightarrow> parse_rfc3339nano (rfc3339nano t) = Some t"
  unfolding parse_rfc3339nano_def rfc3339nano_def append_assoc [symmetric]
  unfolding append_assoc
  using parse_frac9_frac_text [of "nsec_of t"] clock_bounds(4) [of t]
    instant_of_fields [of t] civil_of_day_valid [of "day_of t"]
  by (simp add: parse_datetime_text)

lemma length_rfc3339nano:
  assumes "text_year t"
  shows "20 \<le> length (rfc3339nano t)" "length (rfc3339nano t) \<le> 30"
proof -
  have "length (strip_zeros s) \<le> length s" for s
    unfolding strip_zeros_def by (metis length_dropWhile_le length_rev)
  from this [of "fixed_digits 9 (nsec_of t)"] assms
  show "20 \<le> length (rfc3339nano t)" "length (rfc3339nano t) \<le> 30"
    by (auto simp: rfc3339nano_def date_text_def clock_text_def Let_def append_int_year text_year_def
        year_of_def frac_text_def)
qed

section \<open>Bounds of parsed instants\<close>

lemma digit_val_less: "is_digit c \<Longrightarrow> digit_val c < 10"
  by (auto simp: is_digit_def digit_val_def)

lemma nat_digits_length: "n < 10 ^ k \<Longrightarrow> 0 < k \<Longrightarrow> length (nat_digits n) \<le> k"
proof (induction n arbitrary: k rule: nat_digits.induct)
  case (1 n)
  show ?case
  proof (cases "n < 10")
    case True
    with "1.prems" show ?thesis by (subst nat_digits.simps) simp
  next
    case False
    then obtain j where j: "k = Suc j" "0 < j"
      using "1.prems" by (cases k; cases "k - 1") auto
    then have "n div 10 < 10 ^ j" using "1.prems" by (auto simp: less_mult_imp_div_less mult.commute)
    with "1.IH" [of j] False j show ?thesis by (subst nat_digits.simps) simp
  qed
qed

lemma nat_digits_length_ge: "10 ^ k \<le> n \<Longrightarrow> k < length (nat_digits n)"
proof (induction n arbitrary: k rule: nat_digits.induct)
  case (1 n)
  show ?case
  proof (cases k)
    case 0
    then show ?thesis by simp
  next
    case (Suc j)
    have "10 ^ j \<le> n div 10" using "1.prems" Suc by (simp add: less_eq_div_iff_mult_less_eq mult.commute)
    moreover have "\<not> n < 10" using "1.prems" Suc by (metis le_trans not_le one_le_power one_le_numeral mult_le_mono2 mult.right_neutral power_Suc)
    ultimately show ?thesis using "1.IH" [of j] Suc by (subst nat_digits.simps) simp
  qed
qed

lemma parse_datetime_fields:
  assumes "parse_datetime s = Some ((c, h, mi, se), r)"
  shows "0 \<le> c_year c" "c_year c \<le> 9999" "h < 24" "mi < 60" "se < 60" "s \<noteq> []" "is_digit (hd s)"
proof -
  obtain y s1 where y: "parse_year s = Some (y, s1)" "c_year c = int y" "h < 24" "mi < 60" "se < 60"
    using assms by (auto simp: parse_datetime_def bind_eq_Some_conv split: if_splits)
  then have yr: "y = digits_val (take 4 s)" "4 \<le> length s" "list_all is_digit (take 4 s)"
    by (auto simp: parse_year_def split: if_splits)
  obtain a b c' d r' where s: "s = a # b # c' # d # r'"
    using yr(2) by (cases s; cases "tl s"; cases "tl (tl s)"; cases "tl (tl (tl s))") auto
  have "digit_val x \<le> 9" if "is_digit x" for x using digit_val_less [OF that] by simp
  with yr s have "digit_val a \<le> 9" "digit_val b \<le> 9" "digit_val c' \<le> 9" "digit_val d \<le> 9" by auto
  then have "y \<le> 9999" by (simp add: yr(1) s digits_val_def)
  with y show "0 \<le> c_year c" "c_year c \<le> 9999" "h < 24" "mi < 60" "se < 60" by simp_all
  show "s \<noteq> []" "is_digit (hd s)" using yr s by auto
qed

lemma parse_zone_bound: "parse_zone s = Some (off, r) \<Longrightarrow> \<bar>off\<bar> \<le> 90000"
  by (auto split: if_splits option.splits)

lemma digits_val_bound: "\<forall>c \<in> set s. is_digit c \<Longrightarrow> digits_val s < 10 ^ length s"
proof (induction s rule: rev_induct)
  case (snoc c s)
  moreover have "digit_val c < 10" using snoc.prems by (simp add: digit_val_less)
  ultimately show ?case by simp
qed (simp add: digits_val_def)

lemma parse_frac9_bound: "fst (parse_frac9 s) < 10 ^ 9"
proof (cases s rule: parse_frac9.cases)
  case (1 c d r)
  define ds where "ds = take 9 (takeWhile is_digit (d # r))"
  have "\<forall>c \<in> set ds. is_digit c" unfolding ds_def by (meson in_set_takeD set_takeWhileD)
  then have "digits_val ds * 10 ^ (9 - length ds) < 10 ^ length ds * 10 ^ (9 - length ds)"
    using digits_val_bound [of ds] by simp
  also have "\<dots> = 10 ^ 9" by (simp add: ds_def flip: power_add)
  finally have "digits_val ds * 10 ^ (9 - length ds) < 10 ^ 9" .
  then show ?thesis
    unfolding 1 parse_frac9.simps Let_def ds_def [symmetric] by (simp del: parse_frac9.simps)
qed simp_all

lemma year_of_day_near:
  assumes "days_before_year 0 - 3 \<le> d" "d < days_before_year 10000 + 3"
  shows "- 1 \<le> year_of_day d" "year_of_day d \<le> 10000"
proof -
  have "days_before_year (- 1) \<le> days_before_year 0 - 3" "days_before_year 10000 + 3 \<le> days_before_year 10001"
    by (simp_all add: days_before_year_def)
  with assms year_of_day_bounds [of d] days_before_year_mono [of "year_of_day d + 1" "- 1"]
    days_before_year_mono [of 10001 "year_of_day d"]
  show "- 1 \<le> year_of_day d" "year_of_day d \<le> 10000" by linarith+
qed

lemma parse_rfc3339nano_year:
  assumes "parse_rfc3339nano s = Some t"
  shows "- 1 \<le> year_of t" "year_of t \<le> 10000" "s \<noteq> []" "is_digit (hd s)"
proof -
  from assms obtain c h mi se r ns r' off where p: "parse_datetime s = Some ((c, h, mi, se), r)"
    "parse_frac9 r = (ns, r')" "parse_zone r' = Some (off, [])" "valid_civil c"
    "t = instant_of c h mi se ns - off * second"
    by (auto simp: parse_rfc3339nano_def Let_def split: option.splits prod.splits if_splits simp del: parse_zone.simps parse_frac9.simps)
  note f = parse_datetime_fields [OF p(1)]
  show "s \<noteq> []" "is_digit (hd s)" by (rule f)+
  have ns: "ns < 10 ^ 9" using parse_frac9_bound [of r] p(2) by simp
  have off: "\<bar>off\<bar> \<le> 90000" by (rule parse_zone_bound [OF p(3)])
  have "days_before_year 0 \<le> day_of_civil c" "day_of_civil c < days_before_year 10000"
    using day_of_civil_bounds(3,4) [OF p(4)] days_before_year_mono [of 0 "c_year c"]
      days_before_year_mono [of "c_year c + 1" 10000] f(1,2) by linarith+
  moreover have "day_of_civil c - 3 < day_of t" "day_of t < day_of_civil c + 3"
    using off f(3-5) ns div_bounds [of ns_per_day t]
    by (auto simp: p(5) day_of_def instant_of_def clock_units)
  ultimately show "- 1 \<le> year_of t" "year_of t \<le> 10000"
    using year_of_day_near [of "day_of t"]
    by (simp_all add: year_of_def civil_of_day_def Let_def)
qed

lemma atoi_nonneg_bound: "atoi_nonneg s = Some n \<Longrightarrow> n < 10 ^ length s"
proof -
  assume *: "atoi_nonneg s = Some n"
  let ?body = "if s \<noteq> [] \<and> (hd s = CHR ''-'' \<or> hd s = CHR ''+'') then tl s else s"
  have "n = digits_val ?body" "list_all is_digit ?body" using * by (auto simp: atoi_nonneg_def Let_def split: if_splits)
  then have "n < 10 ^ length ?body" using digits_val_bound [of ?body] by (simp only: list_all_iff)
  also have "\<dots> \<le> 10 ^ length s" by (intro power_increasing) auto
  finally show ?thesis .
qed

lemma text_year_range:
  assumes "text_year a" "text_year b" "a \<le> t" "t \<le> b" shows "text_year t"
proof -
  have mono: "year_of x \<le> year_of y" if "x \<le> y" for x y
  proof (rule ccontr)
    assume "\<not> year_of x \<le> year_of y"
    then have "civil_less (civil_of_day (day_of y)) (civil_of_day (day_of x))" by (simp add: year_of_def civil_less_def)
    then have "day_of y < day_of x" by (simp add: civil_of_day_less_iff)
    moreover have "day_of x \<le> day_of y" using that by (simp add: day_of_def zdiv_mono1 ns_per_day_def)
    ultimately show False by simp
  qed
  from mono [OF assms(3)] mono [OF assms(4)] assms(1,2) show ?thesis by (simp add: text_year_def)
qed

lemma parse_fixedUTC_year: "parse_fixedUTC s = Some t \<Longrightarrow> text_year t"
proof -
  assume "parse_fixedUTC s = Some t"
  then obtain c h mi se r ns where p: "parse_datetime s = Some ((c, h, mi, se), r)" and f: "parse_frac0 r = Some (ns, ''Z'')"
    and v: "valid_civil c" and t: "t = instant_of c h mi se ns"
    by (auto simp: parse_fixedUTC_def split: option.splits prod.splits if_splits)
  have "ns < 10 ^ 9" using f by (auto simp: parse_frac0_def split: if_splits dest: atoi_nonneg_bound)
  with fields_of_instant_of [of c h mi se ns] parse_datetime_fields [OF p] v show ?thesis
    by (auto simp: t text_year_def year_of_def)
qed

section \<open>Texts and whole seconds\<close>

text \<open>
  The variable layout compares like the instants only down to the second: within one second a text without a fraction sorts after
  every text with one, because \<^verbatim>\<open>.\<close> is below \<^verbatim>\<open>Z\<close>.
\<close>

definition whole_text :: "instant \<Rightarrow> string" where
  "whole_text t = date_text t @ clock_text t"

lemma scaled_div_mod:
  fixes q r c k :: int
  assumes "0 \<le> r" "r < c" "0 \<le> k"
  shows "(c * q + r) div (c * k) = q div k" "(c * q + r) mod (c * k) = c * (q mod k) + r"
proof -
  have "(c * q + r) div c = q" "(c * q + r) mod c = r" using assms by auto
  then show "(c * q + r) div (c * k) = q div k" "(c * q + r) mod (c * k) = c * (q mod k) + r"
    using assms(3) by (simp_all add: zdiv_zmult2_eq zmod_zmult2_eq)
qed

lemma fields_of_second:
  "day_of t = t div second div 86400" "hour_of t = nat (t div second mod 86400 div 3600)"
  "minute_of t = nat (t div second mod 86400 mod 3600 div 60)" "second_of t = nat (t div second mod 86400 mod 3600 mod 60)"
  "nsec_of t = nat (t mod second)"
proof -
  let ?q = "t div second" and ?r = "t mod second"
  have r: "0 \<le> ?r" "?r < second" by (simp_all add: second_def)
  have units: "ns_per_day = second * 86400" "hour = second * 3600" "minute = second * 60"
    by (simp_all add: ns_per_day_def hour_def minute_def second_def)
  have t: "t = second * ?q + ?r" by simp
  note s = scaled_div_mod [OF r]
  have ns: "ns_of_day t = second * (?q mod 86400) + ?r" unfolding ns_of_day_def units by (subst t) (rule s(2), simp)
  have h: "ns_of_day t mod hour = second * (?q mod 86400 mod 3600) + ?r" unfolding ns units by (rule s(2)) simp
  have m: "ns_of_day t mod hour mod minute = second * (?q mod 86400 mod 3600 mod 60) + ?r" unfolding h units(3) by (rule s(2)) simp
  show "day_of t = t div second div 86400" unfolding day_of_def units by (subst t) (rule s(1), simp)
  show "hour_of t = nat (t div second mod 86400 div 3600)" unfolding hour_of_def ns units(2) by (subst s(1)) simp_all
  show "minute_of t = nat (t div second mod 86400 mod 3600 div 60)" unfolding minute_of_def h units(3) by (subst s(1)) simp_all
  show "second_of t = nat (t div second mod 86400 mod 3600 mod 60)" unfolding second_of_def m using r by simp
  show "nsec_of t = nat (t mod second)" unfolding nsec_of_def m using r by simp
qed

lemma whole_text_cong: "a div second = b div second \<Longrightarrow> whole_text a = whole_text b"
  by (simp add: whole_text_def date_text_def clock_text_def fields_of_second(1-4))

lemma whole_text_length: "text_year t \<Longrightarrow> length (whole_text t) = 19"
  using length_fixedUTC [of t] by (simp add: whole_text_def fixedUTC_def)

lemma text_year_second: "a div second = b div second \<Longrightarrow> text_year a = text_year b"
  by (simp add: text_year_def year_of_def fields_of_second(1))

lemma whole_text_less:
  assumes "text_year a" "text_year b" "a div second < b div second"
  shows "whole_text a < whole_text b"
proof -
  let ?a = "a div second * second" and ?b = "b div second * second"
  have s: "0 < second" by (simp add: second_def)
  then have d: "?a div second = a div second" "?b div second = b div second" by simp_all
  have lt: "?a < ?b" using assms(3) s by simp
  have n: "nsec_of ?a = 0" "nsec_of ?b = 0" by (simp_all add: fields_of_second(5))
  have y: "text_year ?a" "text_year ?b" using text_year_second [OF d(1)] text_year_second [OF d(2)] assms by simp_all
  have f: "fixedUTC t = whole_text t @ ''.'' @ fixed_digits 9 (nsec_of t) @ ''Z''" for t by (simp add: fixedUTC_def whole_text_def)
  from fixedUTC_less_iff [OF y] lt have "fixedUTC ?a < fixedUTC ?b" by simp
  then have "whole_text ?a < whole_text ?b"
    unfolding f n using whole_text_length [OF y(1)] whole_text_length [OF y(2)] by (simp add: less_append_same_length)
  then show ?thesis using whole_text_cong [OF d(1)] whole_text_cong [OF d(2)] by simp
qed

lemma rfc3339nano_whole: "rfc3339nano t = whole_text t @ frac_text (nsec_of t) @ ''Z''"
  by (simp add: rfc3339nano_def whole_text_def)

lemma rfc3339nano_second_less:
  assumes "text_year a" "text_year b" "a div second < b div second"
  shows "rfc3339nano a < rfc3339nano b"
  using whole_text_less [OF assms] whole_text_length [OF assms(1)] whole_text_length [OF assms(2)]
  by (simp add: rfc3339nano_whole less_append_same_length)

lemma rfc3339nano_fraction_less:
  assumes "text_year a" "a div second = b div second" "nsec_of a \<noteq> 0" "nsec_of b = 0"
  shows "rfc3339nano a < rfc3339nano b"
proof -
  have "CHR ''.'' < CHR ''Z''" by code_simp
  then show ?thesis
    using assms(3,4) whole_text_cong [OF assms(2)] by (simp add: rfc3339nano_whole frac_text_def less_append_same_length)
qed

end
