(* ===== verification/Go_Text.thy ===== *)
theory Go_Text
  imports Go_Time
begin

text \<open>
  Go's text handling as far as the sources use it: UTF-8 decoding of a byte string into
  runes (\<^verbatim>\<open>unicode/utf8\<close>), \<^verbatim>\<open>unicode.IsSpace\<close>, \<^verbatim>\<open>unicode.IsControl\<close>,
  \<^verbatim>\<open>strings.TrimSpace\<close>, \<^verbatim>\<open>strings.HasSuffix\<close>, \<^verbatim>\<open>strconv.ParseInt\<close> and
  the unpadded URL alphabet of \<^verbatim>\<open>encoding/base64\<close>, with the round trips the cursors use.
\<close>

section \<open>UTF-8\<close>

definition byte :: "char \<Rightarrow> nat" where "byte c = of_char c"

definition is_cont :: "char \<Rightarrow> bool" where "is_cont c \<longleftrightarrow> 128 \<le> byte c \<and> byte c < 192"

definition in_range :: "nat \<Rightarrow> nat \<Rightarrow> char \<Rightarrow> bool" where
  "in_range lo hi c \<longleftrightarrow> lo \<le> byte c \<and> byte c \<le> hi"

text \<open>\<^verbatim>\<open>utf8.DecodeRune\<close>: the rune (\<^const>\<open>None\<close> for an invalid byte) and the rest.\<close>

fun decode_rune :: "string \<Rightarrow> nat option \<times> string" where
  "decode_rune [] = (None, [])"
| "decode_rune (c # s) =
     (if byte c < 128 then (Some (byte c), s)
      else if 194 \<le> byte c \<and> byte c \<le> 223 then
        (case s of c1 # r \<Rightarrow> if is_cont c1 then (Some ((byte c - 192) * 64 + (byte c1 - 128)), r) else (None, s)
         | _ \<Rightarrow> (None, s))
      else if 224 \<le> byte c \<and> byte c \<le> 239 then
        (case s of c1 # c2 # r \<Rightarrow>
           if in_range (if byte c = 224 then 160 else 128) (if byte c = 237 then 159 else 191) c1 \<and> is_cont c2
           then (Some ((byte c - 224) * 4096 + (byte c1 - 128) * 64 + (byte c2 - 128)), r) else (None, s)
         | _ \<Rightarrow> (None, s))
      else if 240 \<le> byte c \<and> byte c \<le> 244 then
        (case s of c1 # c2 # c3 # r \<Rightarrow>
           if in_range (if byte c = 240 then 144 else 128) (if byte c = 244 then 143 else 191) c1
              \<and> is_cont c2 \<and> is_cont c3
           then (Some ((byte c - 240) * 262144 + (byte c1 - 128) * 4096 + (byte c2 - 128) * 64
                  + (byte c3 - 128)), r) else (None, s)
         | _ \<Rightarrow> (None, s))
      else (None, s))"

lemma decode_rune_shorter: "length (snd (decode_rune (c # s))) \<le> length s"
  by (simp split: list.split)

declare decode_rune.simps [simp del]

text \<open>The string cut into its runes, each with its bytes.\<close>

function rune_chunks :: "string \<Rightarrow> (nat option \<times> string) list" where
  "rune_chunks [] = []"
| "rune_chunks (c # s) =
     (let (r, rest) = decode_rune (c # s)
      in (r, take (Suc (length s) - length rest) (c # s)) # rune_chunks rest)"
  by pat_completeness auto
termination
  by (relation "measure length")
     (auto simp: less_Suc_eq_le, metis decode_rune_shorter snd_conv)

definition valid_utf8 :: "string \<Rightarrow> bool" where
  "valid_utf8 s \<longleftrightarrow> list_all (\<lambda>(r, _). r \<noteq> None) (rune_chunks s)"

definition runes :: "string \<Rightarrow> nat list" where
  "runes s = map (\<lambda>(r, _). case r of None \<Rightarrow> 65533 | Some x \<Rightarrow> x) (rune_chunks s)"

fun encode_rune :: "nat \<Rightarrow> string" where
  "encode_rune r =
     (if r < 128 then [char_of r]
      else if r < 2048 then [char_of (192 + r div 64), char_of (128 + r mod 64)]
      else if r < 55296 \<or> (57344 \<le> r \<and> r < 65536)
        then [char_of (224 + r div 4096), char_of (128 + r div 64 mod 64), char_of (128 + r mod 64)]
      else if 65536 \<le> r \<and> r < 1114112
        then [char_of (240 + r div 262144), char_of (128 + r div 4096 mod 64),
              char_of (128 + r div 64 mod 64), char_of (128 + r mod 64)]
      else [char_of (239 :: nat), char_of (191 :: nat), char_of (189 :: nat)])"

definition rune_error_bytes :: string where
  "rune_error_bytes = [char_of (239 :: nat), char_of (191 :: nat), char_of (189 :: nat)]"

section \<open>Character classes and trimming\<close>

definition is_space_rune :: "nat option \<Rightarrow> bool" where
  "is_space_rune r =
     (case r of None \<Rightarrow> False
      | Some x \<Rightarrow> (9 \<le> x \<and> x \<le> 13) \<or> x = 32 \<or> x = 133 \<or> x = 160 \<or> x = 5760
          \<or> (8192 \<le> x \<and> x \<le> 8202) \<or> x = 8232 \<or> x = 8233 \<or> x = 8239 \<or> x = 8287 \<or> x = 12288)"

definition is_control_rune :: "nat \<Rightarrow> bool" where
  "is_control_rune x \<longleftrightarrow> x < 32 \<or> (127 \<le> x \<and> x < 160)"

definition trim_space :: "string \<Rightarrow> string" where
  "trim_space s =
     (let sp = (\<lambda>p. is_space_rune (fst p))
      in concat (map snd (rev (dropWhile sp (rev (dropWhile sp (rune_chunks s)))))))"

definition has_suffix :: "string \<Rightarrow> string \<Rightarrow> bool" where
  "has_suffix s suf \<longleftrightarrow> length suf \<le> length s \<and> drop (length s - length suf) s = suf"

definition has_prefix :: "string \<Rightarrow> string \<Rightarrow> bool" where
  "has_prefix s pre \<longleftrightarrow> take (length pre) s = pre"

text \<open>SQLite's \<^verbatim>\<open>length(X)\<close> of a TEXT value: the characters before the first NUL.\<close>

definition sql_length :: "string \<Rightarrow> nat" where
  "sql_length s = length (filter (\<lambda>c. \<not> is_cont c) (takeWhile (\<lambda>c. byte c \<noteq> 0) s))"

section \<open>Integers in decimal\<close>

definition parse_int64 :: "string \<Rightarrow> int option" where
  "parse_int64 s =
     (let neg = (s \<noteq> [] \<and> hd s = CHR ''-'');
          body = (if s \<noteq> [] \<and> (hd s = CHR ''-'' \<or> hd s = CHR ''+'') then tl s else s);
          v = (if neg then - int (digits_val body) else int (digits_val body))
      in if body = [] \<or> \<not> list_all is_digit body then None
         else if int64_min \<le> v \<and> v \<le> int64_max then Some v else None)"

lemma parse_int64_range: "parse_int64 s = Some v \<Longrightarrow> int64_min \<le> v \<and> v \<le> int64_max"
  by (auto simp: parse_int64_def Let_def split: if_splits)

lemma hd_nat_digits: "is_digit (hd (nat_digits n))"
  using nat_digits_all_digits hd_in_set nat_digits_not_Nil by blast

lemma parse_int64_int_digits:
  assumes "int64_min \<le> i" "i \<le> int64_max"
  shows "parse_int64 (int_digits i) = Some i"
proof -
  have "list_all is_digit (nat_digits n)" for n
    by (auto simp: list_all_iff dest: nat_digits_all_digits)
  moreover have "hd (nat_digits n) \<noteq> CHR ''-''" "hd (nat_digits n) \<noteq> CHR ''+''" for n
    using hd_nat_digits [of n] by (auto simp: is_digit_def)
  ultimately show ?thesis
    using assms by (simp add: parse_int64_def int_digits_def Let_def)
qed

section \<open>Plain ASCII text\<close>

definition plain_ascii :: "string \<Rightarrow> bool" where
  "plain_ascii s \<longleftrightarrow> (\<forall>c \<in> set s. 0 < byte c \<and> byte c < 128)"

lemma plain_ascii_simps [simp]:
  "plain_ascii []" "plain_ascii (c # s) \<longleftrightarrow> 0 < byte c \<and> byte c < 128 \<and> plain_ascii s"
  "plain_ascii (s @ t) \<longleftrightarrow> plain_ascii s \<and> plain_ascii t"
  by (auto simp: plain_ascii_def)

lemma plain_ascii_digits: "\<forall>c \<in> set s. is_digit c \<Longrightarrow> plain_ascii s"
  by (auto simp: plain_ascii_def is_digit_def byte_def)

lemma sql_length_plain: "plain_ascii s \<Longrightarrow> sql_length s = length s"
  by (induction s) (auto simp: sql_length_def is_cont_def)

lemma sql_length_le: "sql_length s \<le> length s"
  unfolding sql_length_def by (rule order_trans [OF length_filter_le length_takeWhile_le])

lemma sql_length_pos: "0 < byte c \<Longrightarrow> \<not> is_cont c \<Longrightarrow> 1 \<le> sql_length (c # s)"
  by (simp add: sql_length_def)

lemma plain_fixed_digits [simp]: "plain_ascii (fixed_digits w n)"
  by (rule plain_ascii_digits) (blast dest: fixed_digits_all_digits)

lemma plain_nat_digits [simp]: "plain_ascii (nat_digits n)"
  by (rule plain_ascii_digits) (blast dest: nat_digits_all_digits)

lemma plain_rfc3339nano: "plain_ascii (rfc3339nano t)"
proof -
  have b: "byte (CHR ''-'') = 45" "byte (CHR ''T'') = 84" "byte (CHR '':'') = 58" "byte (CHR ''.'') = 46" "byte (CHR ''Z'') = 90"
    by (simp_all add: byte_def)
  have "plain_ascii (strip_zeros s)" if "plain_ascii s" for s
    using that strip_zeros_append [of s] by (metis plain_ascii_simps(3))
  then show ?thesis
    by (simp add: rfc3339nano_def date_text_def clock_text_def frac_text_def append_int_def Let_def b)
qed

text \<open>A column constraint \<^verbatim>\<open>CHECK (length(x) BETWEEN lo AND hi)\<close>.\<close>

definition between :: "nat \<Rightarrow> nat \<Rightarrow> string \<Rightarrow> bool" where
  "between lo hi s \<longleftrightarrow> lo \<le> sql_length s \<and> sql_length s \<le> hi"

lemma rfc3339nano_between:
  assumes "-99999 \<le> year_of t" "year_of t \<le> 99999"
  shows "between 20 35 (rfc3339nano t)"
proof -
  let ?y = "c_year (civil_of_day (day_of t))"
  have "length (strip_zeros s) \<le> length s" for s
    unfolding strip_zeros_def by (metis length_dropWhile_le length_rev)
  from this [of "fixed_digits 9 (nsec_of t)"] have frac: "length (frac_text (nsec_of t)) \<le> 10"
    by (simp add: frac_text_def)
  have "4 \<le> length (append_int ?y 4)" "length (append_int ?y 4) \<le> 6"
    using assms nat_digits_length [of "nat \<bar>?y\<bar>" 5] nat_digits_length_ge [of 4 "nat \<bar>?y\<bar>"]
    by (auto simp: append_int_def Let_def year_of_def nat_less_iff le_nat_iff)
  with frac show ?thesis
    unfolding between_def sql_length_plain [OF plain_rfc3339nano]
    by (simp add: rfc3339nano_def date_text_def clock_text_def Let_def)
qed

lemma text_year_between: "text_year t \<Longrightarrow> between 20 35 (rfc3339nano t)"
  by (rule rfc3339nano_between) (auto simp: text_year_def)

end
