(* ===== verification/Go_Json.thy ===== *)
theory Go_Json
  imports Go_Text
begin

text \<open>
  Go's \<^verbatim>\<open>encoding/json\<close> as far as the sources use it: the scanner for strings, numbers and
  literals; \<^verbatim>\<open>Decoder.Token\<close> with its nine token states; \<^verbatim>\<open>Decoder.More\<close>; decoding of one
  value into struct fields; and \<^verbatim>\<open>Marshal\<close>.  The decoder reads its whole input from a
  byte slice, so its future is a function of the bytes: \<open>lex\<close> lists the tokens it will
  deliver, each with the byte \<^verbatim>\<open>More\<close> would peek at and its position, and how the stream ends.
\<close>

section \<open>Values and tokens\<close>

datatype json =
    JNull
  | JBool bool
  | JNumber string
  | JString string
  | JArray "json list"
  | JObject "(string \<times> json) list"

datatype jtoken = TDelim char | TStr string | TNum string | TBool bool | TNull

fun tokens_of :: "json \<Rightarrow> jtoken list"
  and tokens_elems :: "json list \<Rightarrow> jtoken list"
  and tokens_members :: "(string \<times> json) list \<Rightarrow> jtoken list" where
  "tokens_of JNull = [TNull]"
| "tokens_of (JBool b) = [TBool b]"
| "tokens_of (JNumber n) = [TNum n]"
| "tokens_of (JString s) = [TStr s]"
| "tokens_of (JArray vs) = TDelim CHR ''['' # tokens_elems vs @ [TDelim CHR '']'']"
| "tokens_of (JObject ms) = TDelim CHR ''{'' # tokens_members ms @ [TDelim CHR ''}'']"
| "tokens_elems [] = []"
| "tokens_elems (v # vs) = tokens_of v @ tokens_elems vs"
| "tokens_members [] = []"
| "tokens_members ((k, v) # ms) = TStr k # tokens_of v @ tokens_members ms"

text \<open>Container depth: 0 for a scalar, 1 for a container of scalars.\<close>

fun jdepth :: "json \<Rightarrow> nat"
  and jdepth_elems :: "json list \<Rightarrow> nat"
  and jdepth_members :: "(string \<times> json) list \<Rightarrow> nat" where
  "jdepth (JArray vs) = Suc (jdepth_elems vs)"
| "jdepth (JObject ms) = Suc (jdepth_members ms)"
| "jdepth _ = 0"
| "jdepth_elems [] = 0"
| "jdepth_elems (v # vs) = max (jdepth v) (jdepth_elems vs)"
| "jdepth_members [] = 0"
| "jdepth_members ((k, v) # ms) = max (jdepth v) (jdepth_members ms)"

definition is_object :: "json \<Rightarrow> bool" where
  "is_object v = (case v of JObject _ \<Rightarrow> True | _ \<Rightarrow> False)"

section \<open>Scanning\<close>

fun skip_ws :: "string \<Rightarrow> string" where
  "skip_ws [] = []"
| "skip_ws (c # s) = (if byte c \<in> {9, 10, 13, 32} then skip_ws s else c # s)"

lemma skip_ws_length: "length (skip_ws s) \<le> length s"
  by (induction s) auto

lemma skip_ws_Cons: "skip_ws s = c # r \<Longrightarrow> length r < length s"
  using skip_ws_length [of s] by simp

definition hex_val :: "char \<Rightarrow> nat option" where
  "hex_val c =
     (if is_digit c then Some (digit_val c)
      else if 97 \<le> byte c \<and> byte c \<le> 102 then Some (byte c - 87)
      else if 65 \<le> byte c \<and> byte c \<le> 70 then Some (byte c - 55) else None)"

fun get_u4 :: "string \<Rightarrow> (nat \<times> string) option" where
  "get_u4 (a # b # c # d # s) =
     (case (hex_val a, hex_val b, hex_val c, hex_val d) of
        (Some w, Some x, Some y, Some z) \<Rightarrow> Some (((w * 16 + x) * 16 + y) * 16 + z, s)
      | _ \<Rightarrow> None)"
| "get_u4 _ = None"

lemma get_u4_length: "get_u4 s = Some (r, t) \<Longrightarrow> length t < length s"
  by (induction s rule: get_u4.induct) (auto split: option.splits)

text \<open>A second \<^verbatim>\<open>\u\<close> escape after a high surrogate, as \<^verbatim>\<open>utf16.DecodeRune\<close> combines it.\<close>

definition low_surrogate :: "nat \<Rightarrow> string \<Rightarrow> (nat \<times> string) option" where
  "low_surrogate r s =
     (case s of
        b # u # s' \<Rightarrow>
          if b = CHR 0x5C \<and> u = CHR ''u'' then
            (case get_u4 s' of
               Some (r1, s'') \<Rightarrow>
                 if 55296 \<le> r \<and> r < 56320 \<and> 56320 \<le> r1 \<and> r1 < 57344
                 then Some ((r - 55296) * 1024 + (r1 - 56320) + 65536, s'') else None
             | None \<Rightarrow> None)
          else None
      | _ \<Rightarrow> None)"

lemma low_surrogate_length: "low_surrogate r s = Some (x, t) \<Longrightarrow> length t \<le> length s"
  by (auto simp: low_surrogate_def split: list.splits if_splits option.splits dest!: get_u4_length)

fun simple_escape :: "char \<Rightarrow> char option" where
  "simple_escape c =
     (if c = CHR 0x22 \<or> c = CHR 0x5C \<or> c = CHR ''/'' then Some c
      else if c = CHR ''b'' then Some (char_of (8 :: nat))
      else if c = CHR ''f'' then Some (char_of (12 :: nat))
      else if c = CHR ''n'' then Some (char_of (10 :: nat))
      else if c = CHR ''r'' then Some (char_of (13 :: nat))
      else if c = CHR ''t'' then Some (char_of (9 :: nat)) else None)"

text \<open>One character of a JSON string body: its decoded bytes and the rest.\<close>

definition scan_char :: "char \<Rightarrow> string \<Rightarrow> (string \<times> string) option" where
  "scan_char c s =
     (if c = CHR 0x5C then
        (case s of [] \<Rightarrow> None
         | e # s1 \<Rightarrow>
             if e = CHR ''u'' then
               (case get_u4 s1 of None \<Rightarrow> None
                | Some (r, s2) \<Rightarrow>
                    if 55296 \<le> r \<and> r < 57344 then
                      (case low_surrogate r s2 of
                         Some (x, s3) \<Rightarrow> Some (encode_rune x, s3)
                       | None \<Rightarrow> Some (rune_error_bytes, s2))
                    else Some (encode_rune r, s2))
             else map_option (\<lambda>x. ([x], s1)) (simple_escape e))
      else if byte c < 32 then None
      else if byte c < 128 then Some ([c], s)
      else (let (r, s') = decode_rune (c # s)
            in Some (if r = None then rune_error_bytes
                     else take (Suc (length s) - length s') (c # s), s')))"

lemma scan_char_length: "scan_char c s = Some (x, t) \<Longrightarrow> length t \<le> length s"
  using decode_rune_shorter [of c s]
  by (auto simp: scan_char_def simp del: simple_escape.simps encode_rune.simps
      split: if_splits list.splits option.splits prod.splits
      dest!: get_u4_length low_surrogate_length)

text \<open>The body of a JSON string after its opening quote: the decoded bytes and the rest.\<close>

function scan_string :: "string \<Rightarrow> (string \<times> string) option" where
  "scan_string [] = None"
| "scan_string (c # s) =
     (if c = CHR 0x22 then Some ([], s)
      else (case scan_char c s of None \<Rightarrow> None
            | Some (x, t) \<Rightarrow> map_option (apfst ((@) x)) (scan_string t)))"
  by pat_completeness auto
termination
  by (relation "measure length") (auto dest: scan_char_length simp: less_Suc_eq_le)

lemma scan_string_length: "scan_string s = Some (x, t) \<Longrightarrow> length t < length s"
  by (induction s arbitrary: x t rule: scan_string.induct)
     (fastforce split: if_splits option.splits dest: scan_char_length)+

fun scan_lit :: "string \<Rightarrow> string \<Rightarrow> string option" where
  "scan_lit [] s = Some s"
| "scan_lit (l # ls) [] = None"
| "scan_lit (l # ls) (c # s) = (if l = c then scan_lit ls s else None)"

lemma scan_lit_length: "scan_lit ls s = Some t \<Longrightarrow> length t + length ls = length s"
  by (induction ls s rule: scan_lit.induct) (auto split: if_splits)

definition scan_digits :: "string \<Rightarrow> string \<times> string" where
  "scan_digits s = (takeWhile is_digit s, dropWhile is_digit s)"

text \<open>Integer part, fraction and exponent of a number, as the scanner's states accept them.\<close>

fun scan_intpart :: "string \<Rightarrow> (string \<times> string) option" where
  "scan_intpart [] = None"
| "scan_intpart (c # s) =
     (if c = CHR ''0'' then Some ([c], s)
      else if is_digit c then Some (takeWhile is_digit (c # s), dropWhile is_digit (c # s)) else None)"

fun scan_frac :: "string \<Rightarrow> (string \<times> string) option" where
  "scan_frac (c # s) =
     (if c = CHR ''.'' then
        (if takeWhile is_digit s = [] then None
         else Some (c # takeWhile is_digit s, dropWhile is_digit s))
      else Some ([], c # s))"
| "scan_frac [] = Some ([], [])"

fun scan_exp :: "string \<Rightarrow> (string \<times> string) option" where
  "scan_exp (c # s) =
     (if c = CHR ''e'' \<or> c = CHR ''E'' then
        (let sg = takeWhile (\<lambda>x. x = CHR ''+'' \<or> x = CHR ''-'') (take 1 s); s' = drop (length sg) s
         in if takeWhile is_digit s' = [] then None
            else Some (c # sg @ takeWhile is_digit s', dropWhile is_digit s'))
      else Some ([], c # s))"
| "scan_exp [] = Some ([], [])"

definition scan_number :: "string \<Rightarrow> (string \<times> string) option" where
  "scan_number s =
     (let (sg, s0) = (if s \<noteq> [] \<and> hd s = CHR ''-'' then (''-'', tl s) else ([], s))
      in Option.bind (scan_intpart s0) (\<lambda>(i, s1).
         Option.bind (scan_frac s1) (\<lambda>(f, s2).
         Option.bind (scan_exp s2) (\<lambda>(e, s3). Some (sg @ i @ f @ e, s3)))))"

lemma scan_intpart_length: "scan_intpart s = Some (x, t) \<Longrightarrow> length t < length s"
  by (cases s) (auto split: if_splits simp: less_Suc_eq_le length_dropWhile_le)

lemma scan_frac_length: "scan_frac s = Some (x, t) \<Longrightarrow> length t \<le> length s"
  by (cases s) (auto split: if_splits simp: le_Suc_eq length_dropWhile_le)

lemma scan_exp_length: "scan_exp s = Some (x, t) \<Longrightarrow> length t \<le> length s"
  by (cases s)
     (auto split: if_splits simp: Let_def intro: le_SucI le_trans [OF length_dropWhile_le])

lemma scan_number_length: "scan_number s = Some (x, t) \<Longrightarrow> length t < length s"
  by (cases s)
     (auto simp: scan_number_def bind_eq_Some_conv split: if_splits
       simp del: scan_intpart.simps dest!: scan_intpart_length scan_frac_length scan_exp_length)

definition scan_scalar :: "string \<Rightarrow> (jtoken \<times> string) option" where
  "scan_scalar s =
     (case s of [] \<Rightarrow> None
      | c # r \<Rightarrow>
          if c = CHR 0x22 then map_option (apfst TStr) (scan_string r)
          else if c = CHR ''t'' then map_option (Pair (TBool True)) (scan_lit ''true'' s)
          else if c = CHR ''f'' then map_option (Pair (TBool False)) (scan_lit ''false'' s)
          else if c = CHR ''n'' then map_option (Pair TNull) (scan_lit ''null'' s)
          else map_option (apfst TNum) (scan_number s))"

lemma scan_scalar_length: "scan_scalar s = Some (x, t) \<Longrightarrow> length t < length s"
  by (auto simp: scan_scalar_def split: list.splits if_splits
      dest!: scan_string_length scan_lit_length scan_number_length)

section \<open>The token stream of a decoder\<close>

datatype tok_state =
    TopValue | ArrayStart | ArrayValue | ArrayComma
  | ObjectStart | ObjectKey | ObjectColon | ObjectValue | ObjectComma

definition value_allowed :: "tok_state \<Rightarrow> bool" where
  "value_allowed st \<longleftrightarrow> st \<in> {TopValue, ArrayStart, ArrayValue, ObjectValue}"

fun value_end :: "tok_state \<Rightarrow> tok_state" where
  "value_end ArrayStart = ArrayComma"
| "value_end ArrayValue = ArrayComma"
| "value_end ObjectValue = ObjectComma"
| "value_end st = st"

text \<open>
  An item: the byte \<^verbatim>\<open>More\<close> peeks at before the token is read, the token, the input from the
  token's first byte, and the input after it.
\<close>

record jitem =
  it_peek :: char
  it_tok :: jtoken
  it_from :: string
  it_rest :: string

text \<open>The end of the stream: \<^verbatim>\<open>io.EOF\<close> or another error, and the byte peeked before it.\<close>

datatype lex_end = LexEnd (le_eof: bool) (le_peek: "char option")

definition peeked :: "char option \<Rightarrow> char \<Rightarrow> char" where
  "peeked pk c = (case pk of None \<Rightarrow> c | Some p \<Rightarrow> p)"

text \<open>
  One turn of the loop in \<^verbatim>\<open>Decoder.Token\<close>: it stops the stream, skips a colon or comma, or
  delivers a token with the next token state and stack.
\<close>

datatype lex_turn =
    LStop lex_end
  | LSkip tok_state char string
  | LTok jitem tok_state "tok_state list"

definition lex_close :: "char \<Rightarrow> char \<Rightarrow> string \<Rightarrow> bool \<Rightarrow> tok_state list \<Rightarrow> lex_turn" where
  "lex_close p c r ok stk =
     (case stk of
        st' # stk' \<Rightarrow>
          if ok then LTok \<lparr>it_peek = p, it_tok = TDelim c, it_from = c # r, it_rest = r\<rparr> (value_end st') stk'
          else LStop (LexEnd False (Some p))
      | [] \<Rightarrow> LStop (LexEnd False (Some p)))"

definition lex_scalar :: "char \<Rightarrow> char \<Rightarrow> string \<Rightarrow> tok_state \<Rightarrow> tok_state list \<Rightarrow> lex_turn" where
  "lex_scalar p c r st stk =
     (case scan_scalar (c # r) of
        Some (t, r') \<Rightarrow> LTok \<lparr>it_peek = p, it_tok = t, it_from = c # r, it_rest = r'\<rparr> st stk
      | None \<Rightarrow> LStop (LexEnd False (Some p)))"

definition lex_step :: "tok_state \<Rightarrow> tok_state list \<Rightarrow> char option \<Rightarrow> string \<Rightarrow> lex_turn" where
  "lex_step st stk pk s =
     (case skip_ws s of
        [] \<Rightarrow> LStop (LexEnd True pk)
      | c # r \<Rightarrow>
          let p = peeked pk c; bad = LStop (LexEnd False (Some p)) in
          if c = CHR ''['' then
            (if value_allowed st
             then LTok \<lparr>it_peek = p, it_tok = TDelim c, it_from = c # r, it_rest = r\<rparr> ArrayStart (st # stk) else bad)
          else if c = CHR ''{'' then
            (if value_allowed st
             then LTok \<lparr>it_peek = p, it_tok = TDelim c, it_from = c # r, it_rest = r\<rparr> ObjectStart (st # stk) else bad)
          else if c = CHR '']'' then lex_close p c r (st = ArrayStart \<or> st = ArrayComma) stk
          else if c = CHR ''}'' then lex_close p c r (st = ObjectStart \<or> st = ObjectComma) stk
          else if c = CHR '':'' then (if st = ObjectColon then LSkip ObjectValue p r else bad)
          else if c = CHR '','' then
            (if st = ArrayComma then LSkip ArrayValue p r
             else if st = ObjectComma then LSkip ObjectKey p r else bad)
          else if c = CHR 0x22 \<and> (st = ObjectStart \<or> st = ObjectKey) then lex_scalar p c r ObjectColon stk
          else if value_allowed st then lex_scalar p c r (value_end st) stk
          else bad)"

lemmas lex_step_defs = lex_step_def lex_close_def lex_scalar_def Let_def

lemma lex_step_shorter:
  "lex_step st stk pk s = LSkip st' p r \<Longrightarrow> length r < length s"
  "lex_step st stk pk s = LTok i st' stk' \<Longrightarrow> length (it_rest i) < length s"
  by (auto simp: lex_step_defs split: list.splits if_splits option.splits
      dest!: skip_ws_Cons scan_scalar_length)

function lex :: "tok_state \<Rightarrow> tok_state list \<Rightarrow> char option \<Rightarrow> string \<Rightarrow> jitem list \<times> lex_end" where
  "lex st stk pk s =
     (case lex_step st stk pk s of
        LStop e \<Rightarrow> ([], e)
      | LSkip st' p r \<Rightarrow> lex st' stk (Some p) r
      | LTok i st' stk' \<Rightarrow> apfst (Cons i) (lex st' stk' None (it_rest i)))"
  by pat_completeness auto
termination
  by (relation "measure (\<lambda>(_, _, _, s). length s)") (auto dest: lex_step_shorter)

declare lex.simps [simp del]

text \<open>\<^verbatim>\<open>More\<close> peeks at a closing delimiter exactly when the next token is one.\<close>

definition is_open :: "jtoken \<Rightarrow> bool" where
  "is_open t \<longleftrightarrow> t = TDelim CHR ''['' \<or> t = TDelim CHR ''{''"

definition is_close :: "jtoken \<Rightarrow> bool" where
  "is_close t \<longleftrightarrow> t = TDelim CHR '']'' \<or> t = TDelim CHR ''}''"

definition pk_ok :: "tok_state \<Rightarrow> char option \<Rightarrow> bool" where
  "pk_ok st pk \<longleftrightarrow> pk = None \<or>
     (pk = Some CHR '','' \<or> pk = Some CHR '':'') \<and> (st = ArrayValue \<or> st = ObjectKey \<or> st = ObjectValue)"

definition peek_ok :: "jitem \<Rightarrow> bool" where
  "peek_ok i \<longleftrightarrow> (it_peek i = CHR '']'' \<or> it_peek i = CHR ''}'') = is_close (it_tok i)"

lemma scan_scalar_not_delim: "scan_scalar s = Some (t, r) \<Longrightarrow> t \<noteq> TDelim d"
  by (auto simp: scan_scalar_def split: list.splits if_splits)

lemma lex_step_peek:
  "pk_ok st pk \<Longrightarrow> lex_step st stk pk s = LSkip st' p r \<Longrightarrow> pk_ok st' (Some p)"
  "pk_ok st pk \<Longrightarrow> lex_step st stk pk s = LTok i st' stk' \<Longrightarrow> peek_ok i"
  by (auto simp: lex_step_defs pk_ok_def peeked_def peek_ok_def is_close_def value_allowed_def
      split: list.splits if_splits option.splits dest: scan_scalar_not_delim)

lemma lex_peek: "pk_ok st pk \<Longrightarrow> list_all peek_ok (fst (lex st stk pk s))"
proof (induction st stk pk s rule: lex.induct)
  case (1 st stk pk s)
  then show ?case
    by (subst lex.simps)
       (auto split: lex_turn.splits dest: lex_step_peek simp: pk_ok_def [of _ None])
qed

definition decoder_items :: "string \<Rightarrow> jitem list \<times> lex_end" where
  "decoder_items raw = lex TopValue [] None raw"

definition decoder_tokens :: "string \<Rightarrow> jtoken list \<times> bool" where
  "decoder_tokens raw = (let (is, e) = decoder_items raw in (map it_tok is, le_eof e))"

section \<open>Decoding one value into a struct\<close>

text \<open>The items of the value at the front of the stream, below \<open>d\<close> open containers.\<close>

fun split_value :: "nat \<Rightarrow> jitem list \<Rightarrow> (jitem list \<times> jitem list) option" where
  "split_value d [] = None"
| "split_value d (i # is) =
     (if is_close (it_tok i) \<and> d = 0 then None
      else (let d' = (if is_open (it_tok i) then Suc d else if is_close (it_tok i) then d - 1 else d)
            in if d' = 0 then Some ([i], is) else map_option (apfst (Cons i)) (split_value d' is)))"

lemma split_value_append: "split_value d is = Some (v, rest) \<Longrightarrow> is = v @ rest \<and> v \<noteq> []"
  by (induction d "is" arbitrary: v rule: split_value.induct) (auto split: if_splits simp: Let_def)

fun nesting :: "nat \<Rightarrow> jitem list \<Rightarrow> nat" where
  "nesting d [] = d"
| "nesting d (i # is) =
     (if is_open (it_tok i) then nesting (Suc d) is
      else if is_close (it_tok i) then max d (nesting (d - 1) is) else nesting d is)"

definition max_nesting_depth :: nat where "max_nesting_depth = 10000"

text \<open>\<^verbatim>\<open>Decoder.Decode\<close> reads one complete value; what follows it stays unread.\<close>

definition decode_value :: "string \<Rightarrow> (jitem list \<times> jitem list \<times> lex_end) option" where
  "decode_value raw =
     (let (is, e) = decoder_items raw
      in case split_value 0 is of None \<Rightarrow> None
         | Some (v, rest) \<Rightarrow> if nesting 0 v > max_nesting_depth then None else Some (v, rest, e))"

definition item_slice :: "jitem list \<Rightarrow> string" where
  "item_slice v =
     (if v = [] then []
      else take (length (it_from (hd v)) - length (it_rest (last v))) (it_from (hd v)))"

function obj_members :: "jitem list \<Rightarrow> (string \<times> jitem list) list option" where
  "obj_members [] = None"
| "obj_members (i # is) =
     (case it_tok i of
        TStr k \<Rightarrow>
          (case split_value 0 is of None \<Rightarrow> None
           | Some (v, rest) \<Rightarrow> map_option (Cons (k, v)) (obj_members rest))
      | t \<Rightarrow> if t = TDelim CHR ''}'' then Some [] else None)"
  by pat_completeness auto
termination
  by (relation "measure length") (auto dest!: split_value_append)

definition value_members :: "jitem list \<Rightarrow> (string \<times> jitem list) list option" where
  "value_members v =
     (case v of i # is \<Rightarrow> if it_tok i = TDelim CHR ''{'' then obj_members is else None | [] \<Rightarrow> None)"

text \<open>Field names match exactly, or else up to Unicode case folding.\<close>

function fold_name :: "string \<Rightarrow> string" where
  "fold_name [] = []"
| "fold_name (c # s) =
     (if 65 \<le> byte c \<and> byte c \<le> 90 then char_of (byte c + 32) # fold_name s
      else if byte c = 197 \<and> s \<noteq> [] \<and> byte (hd s) = 191 then CHR ''s'' # fold_name (tl s)
      else if byte c = 226 \<and> 2 \<le> length s \<and> byte (hd s) = 132 \<and> byte (s ! 1) = 170
        then CHR ''k'' # fold_name (drop 2 s)
      else c # fold_name s)"
  by pat_completeness auto
termination by (relation "measure length") auto

definition resolve_field :: "string list \<Rightarrow> string \<Rightarrow> string option" where
  "resolve_field names key =
     (if key \<in> set names then Some key
      else List.find (\<lambda>n. fold_name n = fold_name key) names)"

fun decode_members ::
    "string list \<Rightarrow> (string \<Rightarrow> jitem list \<Rightarrow> 's \<Rightarrow> 's option) \<Rightarrow> (string \<times> jitem list) list \<Rightarrow> 's \<Rightarrow> 's option" where
  "decode_members names setf [] st = Some st"
| "decode_members names setf ((k, v) # ms) st =
     (case resolve_field names k of None \<Rightarrow> None
      | Some n \<Rightarrow> Option.bind (setf n v st) (decode_members names setf ms))"

text \<open>\<^verbatim>\<open>Decode(&x)\<close> with \<^verbatim>\<open>DisallowUnknownFields\<close> for a struct \<open>x\<close>: JSON null leaves it unchanged.\<close>

definition decode_struct ::
    "string list \<Rightarrow> (string \<Rightarrow> jitem list \<Rightarrow> 's \<Rightarrow> 's option) \<Rightarrow> jitem list \<Rightarrow> 's \<Rightarrow> 's option" where
  "decode_struct names setf v st =
     (if map it_tok v = [TNull] then Some st
      else Option.bind (value_members v) (\<lambda>ms. decode_members names setf ms st))"

definition dec_int :: "jitem list \<Rightarrow> int \<Rightarrow> int option" where
  "dec_int v old = (case map it_tok v of [TNull] \<Rightarrow> Some old | [TNum n] \<Rightarrow> parse_int64 n | _ \<Rightarrow> None)"

definition dec_int_ptr :: "jitem list \<Rightarrow> int option option" where
  "dec_int_ptr v =
     (case map it_tok v of [TNull] \<Rightarrow> Some None | [TNum n] \<Rightarrow> map_option Some (parse_int64 n) | _ \<Rightarrow> None)"

definition dec_str :: "jitem list \<Rightarrow> string \<Rightarrow> string option" where
  "dec_str v old = (case map it_tok v of [TNull] \<Rightarrow> Some old | [TStr s] \<Rightarrow> Some s | _ \<Rightarrow> None)"

fun dec_str_elems :: "jtoken list \<Rightarrow> string list option" where
  "dec_str_elems [] = None"
| "dec_str_elems (t # ts) =
     (case t of TStr s \<Rightarrow> map_option (Cons s) (dec_str_elems ts)
      | TNull \<Rightarrow> map_option (Cons []) (dec_str_elems ts)
      | TDelim c \<Rightarrow> if c = CHR '']'' \<and> ts = [] then Some [] else None
      | _ \<Rightarrow> None)"

definition dec_str_list_ptr :: "jitem list \<Rightarrow> string list option option" where
  "dec_str_list_ptr v =
     (case map it_tok v of [TNull] \<Rightarrow> Some None
      | TDelim c # ts \<Rightarrow> if c = CHR ''['' then map_option Some (dec_str_elems ts) else None
      | _ \<Rightarrow> None)"

section \<open>Marshalling\<close>

definition hex_digit :: "nat \<Rightarrow> char" where
  "hex_digit d = (if d < 10 then digit d else char_of (87 + d))"

definition u_escape :: "nat \<Rightarrow> string" where
  "u_escape x =
     [CHR 0x5C, CHR ''u'', hex_digit (x div 4096 mod 16), hex_digit (x div 256 mod 16),
      hex_digit (x div 16 mod 16), hex_digit (x mod 16)]"

definition escape_chunk :: "nat option \<times> string \<Rightarrow> string" where
  "escape_chunk p =
     (case fst p of None \<Rightarrow> u_escape 65533
      | Some x \<Rightarrow>
          if x = 34 \<or> x = 92 then [CHR 0x5C, char_of x]
          else if x = 8 then [CHR 0x5C, CHR ''b''] else if x = 12 then [CHR 0x5C, CHR ''f'']
          else if x = 10 then [CHR 0x5C, CHR ''n''] else if x = 13 then [CHR 0x5C, CHR ''r'']
          else if x = 9 then [CHR 0x5C, CHR ''t'']
          else if x < 32 \<or> x \<in> {38, 60, 62, 8232, 8233} then u_escape x else snd p)"

definition quote :: "string \<Rightarrow> string" where
  "quote s = CHR 0x22 # concat (map escape_chunk (rune_chunks s)) @ [CHR 0x22]"

fun join :: "string \<Rightarrow> string list \<Rightarrow> string" where
  "join sep [] = []"
| "join sep [x] = x"
| "join sep (x # xs) = x @ sep @ join sep xs"

fun marshal :: "json \<Rightarrow> string"
  and marshal_elems :: "json list \<Rightarrow> string list"
  and marshal_members :: "(string \<times> json) list \<Rightarrow> (string \<times> string) list" where
  "marshal JNull = ''null''"
| "marshal (JBool b) = (if b then ''true'' else ''false'')"
| "marshal (JNumber n) = n"
| "marshal (JString s) = quote s"
| "marshal (JArray vs) = ''['' @ join '','' (marshal_elems vs) @ '']''"
| "marshal (JObject ms) =
     ''{'' @ join '','' (map (\<lambda>(k, t). quote k @ '':'' @ t) (sort_key fst (marshal_members ms))) @ ''}''"
| "marshal_elems [] = []"
| "marshal_elems (v # vs) = marshal v # marshal_elems vs"
| "marshal_members [] = []"
| "marshal_members ((k, v) # ms) = (k, marshal v) # marshal_members ms"

text \<open>A struct is marshalled with its fields in declaration order.\<close>

definition marshal_struct :: "(string \<times> string) list \<Rightarrow> string" where
  "marshal_struct flds = ''{'' @ join '','' (map (\<lambda>(k, t). quote k @ '':'' @ t) flds) @ ''}''"

end
