(* ===== verification/Strict_Json.thy ===== *)
theory Strict_Json
  imports Go_Json
begin

text \<open>
  \<^verbatim>\<open>internal/strictjson/keys.go\<close>: the container stack machine that validates one JSON value
  over the decoder's tokens and rejects duplicate, unexpected and missing object keys.
  The abstract contract is \<open>strict_value\<close>: a tree whose token sequence is the input and whose
  objects, down to the checked depth, have distinct keys.
\<close>

section \<open>The validator\<close>

datatype strict_error =
    ErrDuplicateObjectKey
  | ErrUnexpectedObjectKey string
  | ErrMissingObjectKey string
  | ErrDecodeToken
  | ErrOther string

record container =
  delimiter :: char
  expectKey :: bool
  keys :: "string list option"

record vstate =
  stack :: "container list"  \<comment> \<open>innermost container first\<close>
  rootValues :: nat

definition containsExact :: "string list \<Rightarrow> string \<Rightarrow> bool" where
  "containsExact values target = list_ex (\<lambda>v. v = target) values"

definition matchingDelimiters :: "char \<Rightarrow> char \<Rightarrow> bool" where
  "matchingDelimiters opening closing \<longleftrightarrow>
     (opening = CHR ''{'' \<and> closing = CHR ''}'') \<or> (opening = CHR ''['' \<and> closing = CHR '']'')"

definition completeValue :: "vstate \<Rightarrow> strict_error + vstate" where
  "completeValue st =
     (case stack st of
        [] \<Rightarrow>
          if rootValues st + 1 > 1 then Inl (ErrOther ''JSON contains multiple root values'')
          else Inr (st\<lparr>rootValues := rootValues st + 1\<rparr>)
      | parent # outer \<Rightarrow>
          if delimiter parent = CHR ''{'' then
            (if expectKey parent then Inl (ErrOther ''JSON object contains a value without a key'')
             else Inr (st\<lparr>stack := parent\<lparr>expectKey := True\<rparr> # outer\<rparr>))
          else Inr st)"

definition openContainer :: "int \<Rightarrow> bool \<Rightarrow> char \<Rightarrow> vstate \<Rightarrow> strict_error + vstate" where
  "openContainer checked exact d st =
     (let push = Inr (st\<lparr>stack :=
            \<lparr>delimiter = d, expectKey = (d = CHR ''{''),
             keys = (if d = CHR ''{'' \<and> (checked = 0 \<or> int (length (stack st)) + 1 \<le> checked) then Some [] else None)\<rparr>
            # stack st\<rparr>)
      in case stack st of
           parent # outer \<Rightarrow>
             if delimiter parent = CHR ''{'' \<and> expectKey parent
             then Inl (ErrOther ''JSON object key must be a string'') else push
         | [] \<Rightarrow>
             if rootValues st \<noteq> 0 then Inl (ErrOther ''JSON contains multiple root values'')
             else if exact \<and> d \<noteq> CHR ''{'' then Inl (ErrOther ''JSON root value must be an object'')
             else push)"

definition closeContainer :: "char \<Rightarrow> vstate \<Rightarrow> strict_error + vstate" where
  "closeContainer d st =
     (case stack st of
        [] \<Rightarrow> Inl (ErrOther ''JSON container delimiters do not match'')
      | current # outer \<Rightarrow>
          if \<not> matchingDelimiters (delimiter current) d
          then Inl (ErrOther ''JSON container delimiters do not match'')
          else if delimiter current = CHR ''{'' \<and> \<not> expectKey current
          then Inl (ErrOther ''JSON object key has no value'')
          else completeValue (st\<lparr>stack := outer\<rparr>))"

definition keyToken :: "bool \<Rightarrow> string list \<Rightarrow> jtoken \<Rightarrow> container \<Rightarrow> container list \<Rightarrow> vstate \<Rightarrow> strict_error + vstate" where
  "keyToken exact allowed t current outer st =
     (case t of
        TStr key \<Rightarrow>
          bind_result
            (case keys current of
               Some seen \<Rightarrow> if key \<in> set seen then Inl ErrDuplicateObjectKey else Inr (Some (key # seen))
             | None \<Rightarrow> Inr None)
            (\<lambda>ks.
               if outer = [] \<and> exact \<and> \<not> containsExact allowed key then Inl (ErrUnexpectedObjectKey key)
               else Inr (st\<lparr>stack := current\<lparr>keys := ks, expectKey := False\<rparr> # outer\<rparr>))
      | _ \<Rightarrow> Inl (ErrOther ''JSON object key must be a string''))"

definition stepToken :: "int \<Rightarrow> bool \<Rightarrow> string list \<Rightarrow> jtoken \<Rightarrow> vstate \<Rightarrow> strict_error + vstate" where
  "stepToken checked exact allowed t st =
     (case t of
        TDelim d \<Rightarrow>
          if d = CHR ''{'' \<or> d = CHR ''['' then openContainer checked exact d st
          else if d = CHR ''}'' \<or> d = CHR '']'' then closeContainer d st
          else Inl (ErrOther ''JSON contains an unexpected delimiter'')
      | _ \<Rightarrow>
          (case stack st of
             current # outer \<Rightarrow>
               if delimiter current = CHR ''{'' \<and> expectKey current
               then keyToken exact allowed t current outer st
               else completeValue st
           | [] \<Rightarrow>
               if exact then Inl (ErrOther ''JSON root value must be an object'') else completeValue st))"

fun runTokens :: "int \<Rightarrow> bool \<Rightarrow> string list \<Rightarrow> bool \<Rightarrow> jtoken list \<Rightarrow> vstate \<Rightarrow> strict_error + vstate" where
  "runTokens checked exact allowed eof [] st = (if eof then Inr st else Inl ErrDecodeToken)"
| "runTokens checked exact allowed eof (t # ts) st =
     bind_result (stepToken checked exact allowed t st) (runTokens checked exact allowed eof ts)"

definition validateObjectKeys :: "string \<Rightarrow> int \<Rightarrow> string list \<Rightarrow> bool \<Rightarrow> strict_error + unit" where
  "validateObjectKeys raw checkedContainerDepth allowedRootKeys exactRootObject =
     (let (ts, eof) = decoder_tokens raw
      in bind_result
           (runTokens checkedContainerDepth exactRootObject allowedRootKeys eof ts \<lparr>stack = [], rootValues = 0\<rparr>)
           (\<lambda>st. if stack st \<noteq> [] then Inl (ErrOther ''JSON container is not closed'')
                 else if rootValues st \<noteq> 1 then Inl (ErrOther ''JSON must contain exactly one value'')
                 else Inr ()))"

definition ValidateObjectKeys :: "string \<Rightarrow> int \<Rightarrow> strict_error + unit" where
  "ValidateObjectKeys raw checkedContainerDepth = validateObjectKeys raw checkedContainerDepth [] False"

definition ValidateExactRootObject :: "string \<Rightarrow> int \<Rightarrow> string list \<Rightarrow> strict_error + unit" where
  "ValidateExactRootObject raw checkedContainerDepth allowedRootKeys =
     validateObjectKeys raw checkedContainerDepth allowedRootKeys True"

text \<open>\<^verbatim>\<open>json.Unmarshal\<close> into \<^verbatim>\<open>map[string]json.RawMessage\<close> yields the root object's keys.\<close>

definition unmarshal_root_keys :: "string \<Rightarrow> string list option" where
  "unmarshal_root_keys raw =
     (case decode_value raw of
        Some (v, rest, e) \<Rightarrow>
          if rest \<noteq> [] \<or> \<not> le_eof e then None
          else if map it_tok v = [TNull] then Some []
          else map_option (map fst) (value_members v)
      | None \<Rightarrow> None)"

definition ValidateExactRootObjectRequired :: "string \<Rightarrow> int \<Rightarrow> string list \<Rightarrow> strict_error + unit" where
  "ValidateExactRootObjectRequired raw checkedContainerDepth requiredRootKeys =
     bind_result (ValidateExactRootObject raw checkedContainerDepth requiredRootKeys) (\<lambda>_.
       case unmarshal_root_keys raw of
         None \<Rightarrow> Inl (ErrOther ''decode JSON root object'')
       | Some root \<Rightarrow>
           (case List.find (\<lambda>key. key \<notin> set root) requiredRootKeys of
              Some key \<Rightarrow> Inl (ErrMissingObjectKey key)
            | None \<Rightarrow> Inr ()))"

section \<open>The contract\<close>

text \<open>Objects whose container depth is checked have pairwise distinct keys.\<close>

definition checked_depth :: "int \<Rightarrow> nat \<Rightarrow> bool" where
  "checked_depth chk n \<longleftrightarrow> chk = 0 \<or> int n + 1 \<le> chk"

fun keys_ok :: "int \<Rightarrow> nat \<Rightarrow> json \<Rightarrow> bool"
  and keys_ok_elems :: "int \<Rightarrow> nat \<Rightarrow> json list \<Rightarrow> bool"
  and keys_ok_members :: "int \<Rightarrow> nat \<Rightarrow> (string \<times> json) list \<Rightarrow> bool" where
  "keys_ok chk n (JArray vs) = keys_ok_elems chk (Suc n) vs"
| "keys_ok chk n (JObject ms) =
     ((checked_depth chk n \<longrightarrow> distinct (map fst ms)) \<and> keys_ok_members chk (Suc n) ms)"
| "keys_ok chk n _ = True"
| "keys_ok_elems chk n [] = True"
| "keys_ok_elems chk n (v # vs) = (keys_ok chk n v \<and> keys_ok_elems chk n vs)"
| "keys_ok_members chk n [] = True"
| "keys_ok_members chk n ((k, v) # ms) = (keys_ok chk n v \<and> keys_ok_members chk n ms)"

definition root_ok :: "bool \<Rightarrow> string list \<Rightarrow> json \<Rightarrow> bool" where
  "root_ok exact allowed v \<longleftrightarrow>
     (exact \<longrightarrow> (case v of JObject ms \<Rightarrow> set (map fst ms) \<subseteq> set allowed | _ \<Rightarrow> False))"

definition strict_value :: "int \<Rightarrow> bool \<Rightarrow> string list \<Rightarrow> json \<Rightarrow> bool" where
  "strict_value chk exact allowed v \<longleftrightarrow> keys_ok chk 0 v \<and> root_ok exact allowed v"

lemma containsExact_iff [simp]: "containsExact vs t \<longleftrightarrow> t \<in> set vs"
  by (auto simp: containsExact_def list_ex_iff)

lemma tokens_elems_append [simp]: "tokens_elems (vs @ ws) = tokens_elems vs @ tokens_elems ws"
  by (induction vs) auto

lemma tokens_members_append [simp]: "tokens_members (ms @ ns) = tokens_members ms @ tokens_members ns"
  by (induction ms) auto

lemma keys_ok_elems_append [simp]:
  "keys_ok_elems chk n (vs @ ws) \<longleftrightarrow> keys_ok_elems chk n vs \<and> keys_ok_elems chk n ws"
  by (induction vs) auto

lemma keys_ok_members_append [simp]:
  "keys_ok_members chk n (ms @ ns) \<longleftrightarrow> keys_ok_members chk n ms \<and> keys_ok_members chk n ns"
  by (induction ms) auto

section \<open>Every strict value is accepted\<close>

definition value_position :: "bool \<Rightarrow> string list \<Rightarrow> json \<Rightarrow> vstate \<Rightarrow> bool" where
  "value_position exact allowed v st =
     (case stack st of
        [] \<Rightarrow> rootValues st = 0 \<and> root_ok exact allowed v
      | c # cs \<Rightarrow> delimiter c = CHR ''{'' \<longrightarrow> \<not> expectKey c)"

lemmas step_defs = stepToken_def openContainer_def closeContainer_def completeValue_def keyToken_def
  matchingDelimiters_def Let_def

abbreviation array_frame :: container where
  "array_frame \<equiv> \<lparr>delimiter = CHR ''['', expectKey = False, keys = None\<rparr>"

abbreviation object_frame :: "string list option \<Rightarrow> container" where
  "object_frame ks \<equiv> \<lparr>delimiter = CHR ''{'', expectKey = True, keys = ks\<rparr>"

lemma step_open_array:
  "value_position exact allowed (JArray vs) st \<Longrightarrow>
    stepToken chk exact allowed (TDelim CHR ''['') st = Inr (st\<lparr>stack := array_frame # stack st\<rparr>)"
  by (auto simp: step_defs value_position_def root_ok_def split: list.splits)

lemma step_open_object:
  "value_position exact allowed (JObject ms) st \<Longrightarrow>
    stepToken chk exact allowed (TDelim CHR ''{'') st
      = Inr (st\<lparr>stack := object_frame (if checked_depth chk (length (stack st)) then Some [] else None) # stack st\<rparr>)"
  by (auto simp: step_defs value_position_def root_ok_def checked_depth_def split: list.splits)

lemma step_close:
  "stepToken chk exact allowed (TDelim CHR '']'') (st\<lparr>stack := array_frame # stack st\<rparr>) = completeValue st"
  "stepToken chk exact allowed (TDelim CHR ''}'') (st\<lparr>stack := object_frame ks # stack st\<rparr>) = completeValue st"
  by (cases st; simp add: step_defs)+

lemma step_scalar:
  "value_position exact allowed v st \<Longrightarrow> tokens_of v = [t] \<Longrightarrow> stepToken chk exact allowed t st = completeValue st"
  by (cases v) (auto simp: step_defs value_position_def root_ok_def split: list.splits)

lemma runTokens_accepts:
  "keys_ok chk (length (stack st)) v \<Longrightarrow> value_position exact allowed v st \<Longrightarrow>
     runTokens chk exact allowed eof (tokens_of v @ ts) st
       = bind_result (completeValue st) (runTokens chk exact allowed eof ts)"
  "keys_ok_elems chk (Suc (length cs)) vs \<Longrightarrow> stack st = c # cs \<Longrightarrow> delimiter c = CHR ''['' \<Longrightarrow>
     runTokens chk exact allowed eof (tokens_elems vs @ ts) st = runTokens chk exact allowed eof ts st"
  "keys_ok_members chk (Suc (length cs)) ms \<Longrightarrow> stack st = c # cs \<Longrightarrow> delimiter c = CHR ''{'' \<Longrightarrow>
     expectKey c \<Longrightarrow> keys c = (if checked_depth chk (length cs) then Some seen else None) \<Longrightarrow>
     (checked_depth chk (length cs) \<longrightarrow> distinct (rev seen @ map fst ms)) \<Longrightarrow>
     (cs = [] \<and> exact \<longrightarrow> set (map fst ms) \<subseteq> set allowed) \<Longrightarrow>
     runTokens chk exact allowed eof (tokens_members ms @ ts) st
       = runTokens chk exact allowed eof ts
           (st\<lparr>stack := c\<lparr>keys := (if checked_depth chk (length cs) then Some (rev (map fst ms) @ seen) else None)\<rparr> # cs\<rparr>)"
proof (induction v and vs and ms arbitrary: st ts and st ts c cs and st ts c cs seen
    rule: tokens_of_tokens_elems_tokens_members.induct)
  case (5 vs)
  let ?st = "st\<lparr>stack := array_frame # stack st\<rparr>"
  have "runTokens chk exact allowed eof (tokens_elems vs @ TDelim CHR '']'' # ts) ?st
      = runTokens chk exact allowed eof (TDelim CHR '']'' # ts) ?st"
    using "5.prems"(1) by (intro "5.IH" [where cs = "stack st" and c = array_frame]) simp_all
  with step_open_array [OF "5.prems"(2)] show ?case by (simp add: step_close)
next
  case (6 ms)
  let ?ks = "if checked_depth chk (length (stack st)) then Some [] else None"
  let ?st = "st\<lparr>stack := object_frame ?ks # stack st\<rparr>"
  have "stack st = [] \<and> exact \<longrightarrow> set (map fst ms) \<subseteq> set allowed"
    using "6.prems"(2) by (cases "stack st") (simp_all add: value_position_def root_ok_def)
  then have "runTokens chk exact allowed eof (tokens_members ms @ TDelim CHR ''}'' # ts) ?st
      = runTokens chk exact allowed eof (TDelim CHR ''}'' # ts)
          (?st\<lparr>stack := object_frame ?ks
             \<lparr>keys := if checked_depth chk (length (stack st)) then Some (rev (map fst ms) @ []) else None\<rparr> # stack st\<rparr>)"
    using "6.prems"(1) by (intro "6.IH" [where cs = "stack st" and c = "object_frame ?ks" and seen = "[]"]) simp_all
  with step_open_object [OF "6.prems"(2)] show ?case by (simp add: step_close)
next
  case (8 v vs)
  have "value_position exact allowed v st" using "8.prems" by (simp add: value_position_def)
  then have "runTokens chk exact allowed eof (tokens_of v @ tokens_elems vs @ ts) st
      = bind_result (completeValue st) (runTokens chk exact allowed eof (tokens_elems vs @ ts))"
    using "8.prems" by (intro "8.IH"(1)) simp_all
  also have "completeValue st = Inr st" using "8.prems" by (simp add: completeValue_def)
  finally show ?case using "8.IH"(2) [of cs st c ts] "8.prems" by simp
next
  case 9
  then show ?case by (cases st; cases c) auto
next
  case (10 k v ms)
  let ?c = "c\<lparr>keys := (if checked_depth chk (length cs) then Some (k # seen) else None), expectKey := False\<rparr>"
  let ?st = "st\<lparr>stack := ?c # cs\<rparr>"
  have key: "stepToken chk exact allowed (TStr k) st = Inr ?st"
    using "10.prems" by (auto simp: step_defs)
  have "value_position exact allowed v ?st" by (simp add: value_position_def)
  then have val: "runTokens chk exact allowed eof (tokens_of v @ tokens_members ms @ ts) ?st
      = bind_result (completeValue ?st) (runTokens chk exact allowed eof (tokens_members ms @ ts))"
    using "10.prems"(1) by (intro "10.IH"(1)) simp_all
  have comp: "completeValue ?st = Inr (st\<lparr>stack := ?c\<lparr>expectKey := True\<rparr> # cs\<rparr>)"
    using "10.prems" by (simp add: completeValue_def)
  have "runTokens chk exact allowed eof (tokens_members ms @ ts) (st\<lparr>stack := ?c\<lparr>expectKey := True\<rparr> # cs\<rparr>)
      = runTokens chk exact allowed eof ts
          (st\<lparr>stack := ?c\<lparr>expectKey := True\<rparr> # cs\<rparr>\<lparr>stack := ?c\<lparr>expectKey := True\<rparr>
            \<lparr>keys := if checked_depth chk (length cs) then Some (rev (map fst ms) @ k # seen) else None\<rparr> # cs\<rparr>)"
    using "10.prems" by (intro "10.IH"(2) [where c = "?c\<lparr>expectKey := True\<rparr>" and cs = cs and seen = "k # seen"]) auto
  moreover have "c\<lparr>expectKey := True\<rparr> = c" using "10.prems"(4) by simp
  ultimately show ?case using key val comp by simp
qed (simp_all add: step_scalar)

section \<open>Only strict values are accepted\<close>

text \<open>
  A container on the stack stands for the part of it read so far.  The stack simulates a
  list of such partial containers, whose tokens are the tokens consumed.
\<close>

datatype frame = FArr "json list" | FObj "(string \<times> json) list" "string option"

fun frame_tokens :: "frame \<Rightarrow> jtoken list" where
  "frame_tokens (FArr vs) = TDelim CHR ''['' # tokens_elems vs"
| "frame_tokens (FObj ms ko) =
     TDelim CHR ''{'' # tokens_members ms @ (case ko of None \<Rightarrow> [] | Some k \<Rightarrow> [TStr k])"

definition frame_keys :: "(string \<times> json) list \<Rightarrow> string option \<Rightarrow> string list" where
  "frame_keys ms ko = map fst ms @ (case ko of None \<Rightarrow> [] | Some k \<Rightarrow> [k])"

fun frame_ok :: "int \<Rightarrow> bool \<Rightarrow> string list \<Rightarrow> nat \<Rightarrow> container \<Rightarrow> frame \<Rightarrow> bool" where
  "frame_ok chk exact allowed n c (FArr vs) \<longleftrightarrow>
     delimiter c = CHR ''['' \<and> keys_ok_elems chk (Suc n) vs \<and> (n = 0 \<longrightarrow> \<not> exact)"
| "frame_ok chk exact allowed n c (FObj ms ko) \<longleftrightarrow>
     delimiter c = CHR ''{'' \<and> expectKey c = (ko = None) \<and> keys_ok_members chk (Suc n) ms
     \<and> keys c = (if checked_depth chk n then Some (rev (frame_keys ms ko)) else None)
     \<and> (checked_depth chk n \<longrightarrow> distinct (frame_keys ms ko))
     \<and> (n = 0 \<and> exact \<longrightarrow> set (frame_keys ms ko) \<subseteq> set allowed)"

fun frames_ok :: "int \<Rightarrow> bool \<Rightarrow> string list \<Rightarrow> container list \<Rightarrow> frame list \<Rightarrow> bool" where
  "frames_ok chk exact allowed [] [] = True"
| "frames_ok chk exact allowed (c # cs) (f # fs) =
     (frame_ok chk exact allowed (length cs) c f \<and> frames_ok chk exact allowed cs fs)"
| "frames_ok chk exact allowed _ _ = False"

definition prefix_tokens :: "frame list \<Rightarrow> jtoken list" where
  "prefix_tokens fs = concat (map frame_tokens (rev fs))"

definition consumed_ok :: "int \<Rightarrow> bool \<Rightarrow> string list \<Rightarrow> jtoken list \<Rightarrow> vstate \<Rightarrow> bool" where
  "consumed_ok chk exact allowed ts st \<longleftrightarrow>
     (\<exists>fs. frames_ok chk exact allowed (stack st) fs \<and> rootValues st = 0 \<and> ts = prefix_tokens fs)
     \<or> (stack st = [] \<and> rootValues st = 1 \<and> (\<exists>v. strict_value chk exact allowed v \<and> ts = tokens_of v))"

lemma prefix_tokens_Cons [simp]: "prefix_tokens (f # fs) = prefix_tokens fs @ frame_tokens f"
  and prefix_tokens_Nil [simp]: "prefix_tokens [] = []"
  by (simp_all add: prefix_tokens_def)

lemma frames_ok_Cons_left:
  "frames_ok chk exact allowed (c # cs) fs \<longleftrightarrow>
     (\<exists>f fs'. fs = f # fs' \<and> frame_ok chk exact allowed (length cs) c f \<and> frames_ok chk exact allowed cs fs')"
  by (cases fs) auto

lemma frames_ok_Nil_left: "frames_ok chk exact allowed [] fs \<longleftrightarrow> fs = []"
  by (cases fs) auto

lemma completeValue_consumed:
  assumes "frames_ok chk exact allowed (stack st) fs" "rootValues st = 0"
    and "keys_ok chk (length (stack st)) v" "stack st = [] \<Longrightarrow> root_ok exact allowed v"
    and "completeValue st = Inr st'"
  shows "consumed_ok chk exact allowed (prefix_tokens fs @ tokens_of v) st'"
proof (cases "stack st")
  case Nil
  with assms have "st' = st\<lparr>rootValues := 1\<rparr>" "fs = []" "strict_value chk exact allowed v"
    by (auto simp: completeValue_def frames_ok_Nil_left strict_value_def)
  with Nil show ?thesis by (auto simp: consumed_ok_def)
next
  case (Cons c cs)
  with assms(1) obtain f fs' where f: "fs = f # fs'" "frame_ok chk exact allowed (length cs) c f"
    "frames_ok chk exact allowed cs fs'"
    by (auto simp: frames_ok_Cons_left)
  show ?thesis
  proof (cases f)
    case (FArr vs)
    with f Cons assms have "st' = st" "frames_ok chk exact allowed (stack st) (FArr (vs @ [v]) # fs')"
      by (auto simp: completeValue_def)
    with assms(2) f FArr show ?thesis
      unfolding consumed_ok_def by (intro disjI1 exI [of _ "FArr (vs @ [v]) # fs'"]) simp
  next
    case (FObj ms ko)
    with f Cons assms obtain k where k: "ko = Some k" "st' = st\<lparr>stack := c\<lparr>expectKey := True\<rparr> # cs\<rparr>"
      by (cases ko) (auto simp: completeValue_def)
    with f Cons assms(2,3) FObj show ?thesis
      unfolding consumed_ok_def
      by (intro disjI1 exI [of _ "FObj (ms @ [(k, v)]) None # fs'"]) (simp add: frame_keys_def)
  qed
qed

lemma openContainer_consumed:
  assumes "frames_ok chk exact allowed (stack st) fs"
    "rootValues st = 0" "d = CHR ''{'' \<or> d = CHR ''[''" "openContainer chk exact d st = Inr st'"
  shows "consumed_ok chk exact allowed (prefix_tokens fs @ [TDelim d]) st'"
proof -
  let ?f = "if d = CHR ''{'' then FObj [] None else FArr []"
  have "frames_ok chk exact allowed (stack st') (?f # fs)" "rootValues st' = 0"
    using assms by (auto simp: openContainer_def Let_def checked_depth_def frame_keys_def
        split: list.splits if_splits)
  with assms(3) show ?thesis
    unfolding consumed_ok_def by (intro disjI1 exI [of _ "?f # fs"]) auto
qed

lemma closeContainer_consumed:
  assumes "frames_ok chk exact allowed (stack st) fs"
    "rootValues st = 0" "closeContainer d st = Inr st'"
  shows "consumed_ok chk exact allowed (prefix_tokens fs @ [TDelim d]) st'"
proof -
  obtain c cs where c: "stack st = c # cs" using assms(3) by (auto simp: closeContainer_def split: list.splits)
  with assms(1) obtain f fs' where f: "fs = f # fs'" "frame_ok chk exact allowed (length cs) c f"
    "frames_ok chk exact allowed cs fs'"
    by (auto simp: frames_ok_Cons_left)
  obtain v where v: "prefix_tokens fs @ [TDelim d] = prefix_tokens fs' @ tokens_of v"
    "keys_ok chk (length cs) v" "cs = [] \<Longrightarrow> root_ok exact allowed v"
    "completeValue (st\<lparr>stack := cs\<rparr>) = Inr st'"
  proof (cases f)
    case (FArr vs)
    with f c assms(3) show thesis
      by (intro that [of "JArray vs"]) (auto simp: closeContainer_def matchingDelimiters_def root_ok_def split: if_splits)
  next
    case (FObj ms ko)
    with f c assms(3) show thesis
      by (intro that [of "JObject ms"])
         (auto simp: closeContainer_def matchingDelimiters_def root_ok_def frame_keys_def split: if_splits)
  qed
  show ?thesis
    unfolding v(1) using f(3) v(2-4) assms(2) by (intro completeValue_consumed [where st = "st\<lparr>stack := cs\<rparr>"]) simp_all
qed

fun scalar_of :: "jtoken \<Rightarrow> json" where
  "scalar_of (TStr s) = JString s"
| "scalar_of (TNum n) = JNumber n"
| "scalar_of (TBool b) = JBool b"
| "scalar_of _ = JNull"

lemma scalar_of_props:
  "\<forall>d. t \<noteq> TDelim d \<Longrightarrow> tokens_of (scalar_of t) = [t]"
  "\<forall>d. t \<noteq> TDelim d \<Longrightarrow> keys_ok chk n (scalar_of t)"
  "root_ok False allowed v"
  by (cases t; simp add: root_ok_def)+

lemma keyToken_consumed:
  assumes "frames_ok chk exact allowed (stack st) fs" "rootValues st = 0"
    "stack st = c # cs" "delimiter c = CHR ''{''" "expectKey c"
    "keyToken exact allowed t c cs st = Inr st'"
  shows "consumed_ok chk exact allowed (prefix_tokens fs @ [t]) st'"
proof -
  obtain ms fs' where f: "fs = FObj ms None # fs'" "frame_ok chk exact allowed (length cs) c (FObj ms None)"
    "frames_ok chk exact allowed cs fs'"
    using assms(1,3-5) by (auto simp: frames_ok_Cons_left elim!: frame_ok.elims)
  obtain key where "t = TStr key" using assms(6) by (cases t) (auto simp: keyToken_def)
  with f assms show ?thesis
    unfolding consumed_ok_def
    by (intro disjI1 exI [of _ "FObj ms (Some key) # fs'"])
       (auto simp: keyToken_def frame_keys_def split: if_splits)
qed

lemma stepToken_consumed:
  assumes "consumed_ok chk exact allowed ts st" "stepToken chk exact allowed t st = Inr st'"
  shows "consumed_ok chk exact allowed (ts @ [t]) st'"
proof (cases "rootValues st = 0")
  case False
  with assms(1) have "stack st = []" "rootValues st = 1" by (auto simp: consumed_ok_def)
  with assms(2) show ?thesis
    by (auto simp: step_defs split: jtoken.splits if_splits)
next
  case True
  with assms(1) obtain fs where fs: "frames_ok chk exact allowed (stack st) fs" "ts = prefix_tokens fs"
    by (auto simp: consumed_ok_def)
  show ?thesis
  proof (cases "\<exists>d. t = TDelim d")
    case True
    then obtain d where "t = TDelim d" by blast
    with assms(2) fs \<open>rootValues st = 0\<close> show ?thesis
      by (auto simp: stepToken_def split: if_splits
          intro: openContainer_consumed closeContainer_consumed)
  next
    case False
    show ?thesis
    proof (cases "stack st \<noteq> [] \<and> delimiter (hd (stack st)) = CHR ''{'' \<and> expectKey (hd (stack st))")
      case True
      then obtain c cs where "stack st = c # cs" "delimiter c = CHR ''{''" "expectKey c"
        by (cases "stack st") auto
      moreover from this False assms(2) have "keyToken exact allowed t c cs st = Inr st'"
        by (auto simp: stepToken_def split: jtoken.splits)
      ultimately show ?thesis
        unfolding fs(2) using keyToken_consumed [OF fs(1) \<open>rootValues st = 0\<close>] by blast
    next
      case notkey: False
      with False assms(2) have "completeValue st = Inr st'" "stack st = [] \<Longrightarrow> \<not> exact"
        by (auto simp: stepToken_def split: jtoken.splits list.splits if_splits)
      with fs \<open>rootValues st = 0\<close> False show ?thesis
        using completeValue_consumed [of chk exact allowed st fs "scalar_of t" st']
        by (auto simp: scalar_of_props)
    qed
  qed
qed

lemma runTokens_consumed:
  "consumed_ok chk exact allowed ts st \<Longrightarrow> runTokens chk exact allowed eof us st = Inr st' \<Longrightarrow>
     eof \<and> consumed_ok chk exact allowed (ts @ us) st'"
proof (induction us arbitrary: ts st)
  case (Cons u us)
  then obtain st1 where "stepToken chk exact allowed u st = Inr st1" "runTokens chk exact allowed eof us st1 = Inr st'"
    by (auto simp: bind_result_Inr_iff)
  with Cons.IH [of "ts @ [u]" st1] stepToken_consumed [OF Cons.prems(1)] show ?case by simp
qed (simp split: if_splits)

lemma validateObjectKeys_iff:
  "validateObjectKeys raw chk allowed exact = Inr () \<longleftrightarrow>
     (\<exists>v. decoder_tokens raw = (tokens_of v, True) \<and> strict_value chk exact allowed v)"
proof
  assume ok: "validateObjectKeys raw chk allowed exact = Inr ()"
  obtain ts eof where ts: "decoder_tokens raw = (ts, eof)" by fastforce
  with ok obtain st where st: "runTokens chk exact allowed eof ts \<lparr>stack = [], rootValues = 0\<rparr> = Inr st"
    "stack st = []" "rootValues st = 1"
    by (auto simp: validateObjectKeys_def bind_result_Inr_iff split: if_splits)
  have "consumed_ok chk exact allowed [] \<lparr>stack = [], rootValues = 0\<rparr>"
    unfolding consumed_ok_def by (intro disjI1 exI [of _ "[]"]) simp
  from runTokens_consumed [OF this st(1)] st(2,3) ts
  show "\<exists>v. decoder_tokens raw = (tokens_of v, True) \<and> strict_value chk exact allowed v"
    by (auto simp: consumed_ok_def)
next
  assume "\<exists>v. decoder_tokens raw = (tokens_of v, True) \<and> strict_value chk exact allowed v"
  then obtain v where v: "decoder_tokens raw = (tokens_of v, True)" "keys_ok chk 0 v" "root_ok exact allowed v"
    by (auto simp: strict_value_def)
  have "runTokens chk exact allowed True (tokens_of v @ []) \<lparr>stack = [], rootValues = 0\<rparr>
      = bind_result (completeValue \<lparr>stack = [], rootValues = 0\<rparr>) (runTokens chk exact allowed True [])"
    using v by (intro runTokens_accepts(1)) (simp_all add: value_position_def)
  with v(1) show "validateObjectKeys raw chk allowed exact = Inr ()"
    by (simp add: validateObjectKeys_def completeValue_def)
qed

section \<open>Properties\<close>

text \<open>
  C8: \<^verbatim>\<open>ValidateExactRootObject\<close> accepts a byte string exactly when the JSON decoder reads it as
  the tokens of one value followed by nothing, that value is an object whose keys are all
  among the allowed ones, and every object down to the checked depth has distinct keys.
\<close>

theorem exact_root_object_correct:
  "ValidateExactRootObject raw chk allowed = Inr () \<longleftrightarrow>
     (\<exists>ms. decoder_tokens raw = (tokens_of (JObject ms), True) \<and> set (map fst ms) \<subseteq> set allowed
        \<and> keys_ok chk 0 (JObject ms))"
proof -
  have "strict_value chk True allowed v \<longleftrightarrow>
      (\<exists>ms. v = JObject ms \<and> set (map fst ms) \<subseteq> set allowed \<and> keys_ok chk 0 (JObject ms))" for v
    by (cases v) (simp_all add: strict_value_def root_ok_def conj_commute)
  then show ?thesis
    unfolding ValidateExactRootObject_def validateObjectKeys_iff by metis
qed

end
