(* ===== verification/Store_Base.thy ===== *)
theory Store_Base
  imports Strict_Json
begin

text \<open>
  The event store's shared vocabulary: the error values of
  \<^verbatim>\<open>internal/eventstore/errors.go\<close>, the classification of database faults of
  \<^verbatim>\<open>store.go\<close>, the store's limits and collector policies, the third-party functions the
  store calls (SHA-256 in hex and SQLite's \<^verbatim>\<open>json_valid\<close>) as parameters, and the fault plan
  that says which database statement of an operation fails.
\<close>

section \<open>Errors\<close>

abbreviation (input) "CodePathInvalid \<equiv> ''STORE_PATH_INVALID''"
abbreviation (input) "CodeOpenFailed \<equiv> ''STORE_OPEN_FAILED''"
abbreviation (input) "CodePragmaFailed \<equiv> ''STORE_PRAGMA_FAILED''"
abbreviation (input) "CodeMigrationFailed \<equiv> ''STORE_MIGRATION_FAILED''"
abbreviation (input) "CodeMigrationUnsupported \<equiv> ''STORE_MIGRATION_UNSUPPORTED''"
abbreviation (input) "CodeBusy \<equiv> ''STORE_BUSY''"
abbreviation (input) "CodeReadOnly \<equiv> ''STORE_READ_ONLY''"
abbreviation (input) "CodeWriteFailed \<equiv> ''STORE_WRITE_FAILED''"
abbreviation (input) "CodeQueryFailed \<equiv> ''STORE_QUERY_FAILED''"
abbreviation (input) "CodeCanceled \<equiv> ''STORE_CANCELED''"

text \<open>\<^verbatim>\<open>*validationError\<close> carries a code; \<^verbatim>\<open>*Error\<close> a code and the failed operation.\<close>

datatype go_error = ValidationErr string | StoreErr string string

definition wrap :: "string \<Rightarrow> string \<Rightarrow> go_error" where
  "wrap code operation = StoreErr code operation"

fun ErrorCode :: "go_error \<Rightarrow> string" where
  "ErrorCode (StoreErr code _) = code"
| "ErrorCode (ValidationErr _) = CodeOpenFailed"

fun ValidationCode :: "go_error \<Rightarrow> string" where
  "ValidationCode (ValidationErr code) = code"
| "ValidationCode (StoreErr _ _) = []"

definition reject :: "bool \<Rightarrow> string \<Rightarrow> go_error + unit" where
  "reject bad code = guard_result (\<not> bad) (ValidationErr code)"

lemma reject_iff [simp, result_simps]:
  "reject bad code = Inr u \<longleftrightarrow> \<not> bad"
  "reject bad code = Inl e \<longleftrightarrow> bad \<and> e = ValidationErr code"
  by (auto simp: reject_def)

text \<open>A computation whose only errors are validation errors.\<close>

definition validation_only :: "go_error + 'a \<Rightarrow> bool" where
  "validation_only r \<longleftrightarrow> (\<forall>e. r = Inl e \<longrightarrow> (\<exists>code. e = ValidationErr code))"

lemma validation_only_intros [validation_intros]:
  "validation_only r \<Longrightarrow> (\<And>x. validation_only (k x)) \<Longrightarrow> validation_only (bind_result r k)"
  "validation_only (reject b code)"
  "validation_only (require_some v (ValidationErr code))"
  "validation_only (map_sum ValidationErr id s)"
  "validation_only (Inr y)"
  by (auto simp: validation_only_def bind_result_Inl_iff map_sum_def split: sum.splits)

lemma validation_only_prod [validation_intros]:
  "(\<And>x y. validation_only (f x y)) \<Longrightarrow> validation_only (case p of (x, y) \<Rightarrow> f x y)"
  by (cases p) simp

text \<open>What a database call can report: cancellation, an SQLite result code, or another error.\<close>

datatype sql_fault = FaultCanceled | FaultSqlite int | FaultOther

definition classifySQLiteError :: "string \<Rightarrow> string \<Rightarrow> sql_fault \<Rightarrow> go_error" where
  "classifySQLiteError defaultCode operation err =
     (case err of
        FaultCanceled \<Rightarrow> wrap CodeCanceled operation
      | FaultSqlite code \<Rightarrow>
          if code mod 256 = 5 \<or> code mod 256 = 6 then wrap CodeBusy operation
          else if code mod 256 = 8 then wrap CodeReadOnly operation
          else wrap defaultCode operation
      | FaultOther \<Rightarrow> wrap defaultCode operation)"

text \<open>The extended result code of a violated CHECK constraint.\<close>

definition sqlite_constraint_check :: int where "sqlite_constraint_check = 275"

text \<open>A fault plan: for each labelled call of an operation and item index, whether it fails.\<close>

type_synonym faults = "string \<Rightarrow> nat \<Rightarrow> sql_fault option"

definition no_faults :: faults where "no_faults = (\<lambda>_ _. None)"

definition db_call :: "faults \<Rightarrow> string \<Rightarrow> string \<Rightarrow> nat \<Rightarrow> go_error + unit" where
  "db_call flt code label i =
     (case flt label i of None \<Rightarrow> Inr () | Some f \<Rightarrow> Inl (classifySQLiteError code label f))"

text \<open>The same for calls whose error is wrapped without classification.\<close>

definition db_read :: "faults \<Rightarrow> string \<Rightarrow> string \<Rightarrow> nat \<Rightarrow> go_error + unit" where
  "db_read flt code label i = (if flt label i = None then Inr () else Inl (wrap code label))"

lemma db_call_Inr_iff [simp]: "db_call flt code label i = Inr u \<longleftrightarrow> flt label i = None"
  by (auto simp: db_call_def split: option.splits)

lemma db_read_Inr_iff [simp]: "db_read flt code label i = Inr u \<longleftrightarrow> flt label i = None"
  by (auto simp: db_read_def)

lemma no_faults_simps [simp]: "db_call no_faults c l i = Inr ()" "db_read no_faults c l i = Inr ()"
  by (simp_all add: no_faults_def)

lemma classify_cases:
  "classifySQLiteError d op f \<in> {StoreErr CodeCanceled op, StoreErr CodeBusy op, StoreErr CodeReadOnly op, StoreErr d op}"
  by (auto simp: classifySQLiteError_def wrap_def split: sql_fault.splits)

section \<open>Store configuration and parameters\<close>

record collector_policy =
  Kind :: string
  HeartbeatPeriod :: duration

record store_cfg =
  maxBatchEvents :: int
  maxEventBytes :: int
  maxPayloadDepth :: int
  maxPageSize :: int
  maxTimelineProjectionBytes :: int
  collectorPolicies :: "string \<rightharpoonup> collector_policy"

record store_options =
  BusyTimeout :: duration
  MaxOpenConnections :: int
  MaxBatchEvents :: int
  MaxEventBytes :: int
  MaxPayloadDepth :: int
  MaxPageSize :: int
  CollectorPolicies :: "string \<rightharpoonup> collector_policy"

text \<open>Third-party functions: hexadecimal SHA-256 and SQLite's \<^verbatim>\<open>json_valid\<close>.\<close>

record ext =
  sha256_hex :: "string \<Rightarrow> string"
  json_valid :: "string \<Rightarrow> bool"

text \<open>The documented behaviour of SHA-256: a digest has 32 bytes, 64 hexadecimal digits.\<close>

definition sha256_documented :: "ext \<Rightarrow> bool" where
  "sha256_documented X \<longleftrightarrow> (\<forall>s. length (sha256_hex X s) = 64 \<and> list_all (\<lambda>c. hex_val c \<noteq> None) (sha256_hex X s))"

text \<open>
  \<^verbatim>\<open>Open\<close> up to the database calls: the path and option checks in order, then the pragma
  checks of \<^verbatim>\<open>verifyPragmas\<close> on what the connection reports.
\<close>

record pragmas =
  journalMode :: string
  foreignKeys :: int
  configuredBusyTimeout :: int

definition verifyPragmas :: "faults \<Rightarrow> pragmas \<Rightarrow> duration \<Rightarrow> go_error + unit" where
  "verifyPragmas flt p busyTimeout =
     bind_result (db_call flt CodePragmaFailed ''read journal mode'' 0) (\<lambda>_.
     bind_result (guard_result (journalMode p = ''wal'') (StoreErr CodePragmaFailed ''journal mode'')) (\<lambda>_.
     bind_result (db_call flt CodePragmaFailed ''read foreign key mode'' 0) (\<lambda>_.
     bind_result (guard_result (foreignKeys p = 1) (StoreErr CodePragmaFailed ''foreign keys'')) (\<lambda>_.
     bind_result (db_call flt CodePragmaFailed ''read busy timeout'' 0) (\<lambda>_.
       guard_result (configuredBusyTimeout p = busyTimeout div millisecond)
         (StoreErr CodePragmaFailed ''busy timeout''))))))"

definition openOptionsValid :: "store_options \<Rightarrow> bool" where
  "openOptionsValid opts \<longleftrightarrow>
     \<not> (BusyTimeout opts < 100 * millisecond \<or> BusyTimeout opts > 30 * second \<or>
        MaxOpenConnections opts < 1 \<or> MaxBatchEvents opts < 1 \<or> MaxEventBytes opts < 1 \<or>
        MaxPayloadDepth opts < 1 \<or> MaxPageSize opts < 1)"

definition newStore :: "store_options \<Rightarrow> store_cfg" where
  "newStore opts =
     \<lparr>maxBatchEvents = MaxBatchEvents opts, maxEventBytes = MaxEventBytes opts,
      maxPayloadDepth = MaxPayloadDepth opts, maxPageSize = MaxPageSize opts,
      maxTimelineProjectionBytes = 32 * 2 ^ 20, collectorPolicies = CollectorPolicies opts\<rparr>"

text \<open>Well-formed limits: what \<^verbatim>\<open>Open\<close> guarantees of every store it returns.\<close>

definition cfg_ok :: "store_cfg \<Rightarrow> bool" where
  "cfg_ok C \<longleftrightarrow> 1 \<le> maxBatchEvents C \<and> 1 \<le> maxEventBytes C \<and> 1 \<le> maxPayloadDepth C \<and> 1 \<le> maxPageSize C"

lemma newStore_cfg_ok: "openOptionsValid opts \<Longrightarrow> cfg_ok (newStore opts)"
  by (auto simp: openOptionsValid_def newStore_def cfg_ok_def)

section \<open>Documented behaviour of the parameters\<close>

text \<open>
  SQLite documents that \<^verbatim>\<open>json_valid\<close> accepts RFC 8259 text nested at most 1000 deep.
\<close>

definition json_valid_documented :: "ext \<Rightarrow> bool" where
  "json_valid_documented X \<longleftrightarrow>
     (\<forall>raw v. decoder_tokens raw = (tokens_of v, True) \<and> jdepth v \<le> 1000 \<longrightarrow> json_valid X raw)"

lemma sha256_plain: "sha256_documented X \<Longrightarrow> sql_length (sha256_hex X s) = 64"
proof -
  assume *: "sha256_documented X"
  have "hex_val c \<noteq> None \<Longrightarrow> 0 < byte c \<and> byte c < 128" for c
    by (auto simp: hex_val_def is_digit_def byte_def split: if_splits)
  with * have "plain_ascii (sha256_hex X s)"
    by (auto simp: sha256_documented_def plain_ascii_def list_all_iff)
  with * show ?thesis by (simp add: sql_length_plain sha256_documented_def)
qed

section \<open>A sample store\<close>

definition sample_ext :: ext where
  "sample_ext = \<lparr>sha256_hex = (\<lambda>s. replicate 64 CHR ''a''), json_valid = (\<lambda>s. True)\<rparr>"

definition sample_cfg :: store_cfg where
  "sample_cfg = \<lparr>maxBatchEvents = 10, maxEventBytes = 4096, maxPayloadDepth = 8, maxPageSize = 50,
     maxTimelineProjectionBytes = 1024,
     collectorPolicies = [''phone'' \<mapsto> \<lparr>Kind = ''phone'', HeartbeatPeriod = 60 * second\<rparr>]\<rparr>"

lemma sample_ext_documented: "sha256_documented sample_ext" "json_valid_documented sample_ext"
  by (simp_all add: sha256_documented_def json_valid_documented_def sample_ext_def hex_val_def is_digit_def
      byte_def list_all_iff)

lemma json_valid_documentedD:
  "json_valid_documented X \<Longrightarrow> decoder_tokens raw = (tokens_of v, True) \<Longrightarrow> jdepth v \<le> 1000 \<Longrightarrow> json_valid X raw"
  unfolding json_valid_documented_def by blast

end
