(* ===== verification/Idempotent_Log.thy ===== *)
theory Idempotent_Log
  imports Store_Base
begin

text \<open>
  The interface the store's append-only tables share.  A provider adds one validated item
  under a (collector, idempotency key) pair; the contract says what an addition does when
  the key is new and when it is taken, and how the batch loop runs the additions.  The
  laws the clients use -- rows are only appended, keys stay unique and ids increase, and a
  replayed batch changes nothing -- are proved here once, for raw events and heartbeats.
\<close>

definition next_id :: "('row \<Rightarrow> int) \<Rightarrow> 'row list \<Rightarrow> int" where
  "next_id rid rows = foldr (\<lambda>w m. max (rid w) m) rows 0 + 1"

lemma next_id_greater: "w \<in> set rows \<Longrightarrow> rid w < next_id rid rows"
  unfolding next_id_def by (induction rows) (auto simp: less_max_iff_disj)

lemma next_id_pos: "1 \<le> next_id rid rows"
  unfolding next_id_def by (induction rows) auto

definition log_ok :: "('row \<Rightarrow> int) \<Rightarrow> ('row \<Rightarrow> 'k) \<Rightarrow> 'row list \<Rightarrow> bool" where
  "log_ok rid rkey rows \<longleftrightarrow>
     distinct (map rkey rows) \<and> sorted_wrt (<) (map rid rows) \<and> list_all (\<lambda>w. 1 \<le> rid w) rows"

lemma log_ok_Nil [wf_intros]: "log_ok rid rkey []"
  by (simp add: log_ok_def)

lemma log_ok_snoc [wf_intros]:
  "log_ok rid rkey rows \<Longrightarrow> rkey w \<notin> rkey ` set rows \<Longrightarrow> rid w = next_id rid rows \<Longrightarrow> log_ok rid rkey (rows @ [w])"
  by (auto simp: log_ok_def sorted_wrt_append next_id_greater next_id_pos)

lemma log_ok_find:
  "log_ok rid rkey rows \<Longrightarrow> w \<in> set rows \<Longrightarrow> List.find (\<lambda>w'. rkey w' = rkey w) rows = Some w"
  by (induction rows) (auto simp: log_ok_def image_iff)

locale idempotent_log =
  fixes rid :: "'row \<Rightarrow> int" and rkey :: "'row \<Rightarrow> string \<times> string" and rhash :: "'row \<Rightarrow> string"
    and ikey :: "'item \<Rightarrow> string \<times> string" and ihash :: "'item \<Rightarrow> string"
    and stored :: "'item \<Rightarrow> 'row \<Rightarrow> bool" and admissible :: "'item \<Rightarrow> bool"
    and status :: "'res \<Rightarrow> string" and res_id :: "'res \<Rightarrow> int"
    and add :: "faults \<Rightarrow> nat \<Rightarrow> 'item \<Rightarrow> 'row list \<Rightarrow> go_error + 'res \<times> 'row list"
    and loop :: "faults \<Rightarrow> nat \<Rightarrow> ('res \<times> 'item option) list \<Rightarrow> 'row list \<Rightarrow> go_error + 'res list \<times> 'row list"
  assumes stored_key: "stored x w \<Longrightarrow> rkey w = ikey x \<and> rhash w = ihash x"
    and add_new: "add flt i x rows = Inr (r, rows') \<Longrightarrow> ikey x \<notin> rkey ` set rows \<Longrightarrow>
      status r = ''accepted'' \<and> res_id r = next_id rid rows
      \<and> (\<exists>w. rows' = rows @ [w] \<and> rid w = next_id rid rows \<and> stored x w)"
    and add_taken: "add flt i x rows = Inr (r, rows') \<Longrightarrow> List.find (\<lambda>w. rkey w = ikey x) rows = Some w \<Longrightarrow>
      rows' = rows \<and> res_id r = rid w \<and> status r = (if rhash w = ihash x then ''duplicate'' else ''conflict'')"
    and add_total: "admissible x \<Longrightarrow> \<exists>r rows'. add no_faults i x rows = Inr (r, rows')"
    and loop_Nil: "loop flt i [] rows = Inr ([], rows)"
    and loop_skip: "loop flt i ((r, None) # its) rows
      = bind_result (loop flt (Suc i) its rows) (\<lambda>(rs, rows'). Inr (r # rs, rows'))"
    and loop_add: "loop flt i ((r0, Some x) # its) rows
      = bind_result (add flt i x rows) (\<lambda>(r, rows1).
          bind_result (loop flt (Suc i) its rows1) (\<lambda>(rs, rows'). Inr (r # rs, rows')))"
begin

lemma add_cases:
  assumes "add flt i x rows = Inr (r, rows')"
  obtains (new) w where "ikey x \<notin> rkey ` set rows" "rows' = rows @ [w]" "rid w = next_id rid rows"
      "stored x w" "status r = ''accepted''" "res_id r = rid w"
  | (taken) w where "w \<in> set rows" "rkey w = ikey x" "rows' = rows" "res_id r = rid w"
      "status r = (if rhash w = ihash x then ''duplicate'' else ''conflict'')"
proof (cases "List.find (\<lambda>w. rkey w = ikey x) rows")
  case None
  then have "ikey x \<notin> rkey ` set rows" by (auto simp: find_None_iff)
  with add_new [OF assms] new show thesis by auto
next
  case (Some w)
  then have "w \<in> set rows" "rkey w = ikey x" by (auto dest: find_SomeD)
  with add_taken [OF assms Some] taken show thesis by auto
qed

lemma add_appends: "add flt i x rows = Inr (r, rows') \<Longrightarrow> \<exists>new. rows' = rows @ new"
  by (erule add_cases) auto

lemma add_log_ok: "add flt i x rows = Inr (r, rows') \<Longrightarrow> log_ok rid rkey rows \<Longrightarrow> log_ok rid rkey rows'"
  by (erule add_cases) (auto intro!: wf_intros dest: stored_key)

lemma loop_cases:
  assumes "loop flt i ((r0, it) # its) rows = Inr (rs, rows')"
  obtains (skip) rs' where "it = None" "rs = r0 # rs'" "loop flt (Suc i) its rows = Inr (rs', rows')"
  | (item) x r rows1 rs' where "it = Some x" "rs = r # rs'" "add flt i x rows = Inr (r, rows1)"
      "loop flt (Suc i) its rows1 = Inr (rs', rows')"
  using assms by (cases it) (auto simp: loop_skip loop_add bind_result_Inr_iff intro: that)

text \<open>A successful batch only appends rows.\<close>

lemma loop_appends: "loop flt i its rows = Inr (rs, rows') \<Longrightarrow> \<exists>new. rows' = rows @ new"
proof (induction its arbitrary: i rows rs)
  case (Cons p its)
  obtain r0 it where p: "p = (r0, it)" by fastforce
  from Cons.prems [unfolded p] show ?case
    by (rule loop_cases) (use Cons.IH add_appends in fastforce)+
qed (simp add: loop_Nil)

lemma loop_log_ok:
  "loop flt i its rows = Inr (rs, rows') \<Longrightarrow> log_ok rid rkey rows \<Longrightarrow> log_ok rid rkey rows'"
proof (induction its arbitrary: i rows rs)
  case (Cons p its)
  obtain r0 it where p: "p = (r0, it)" by fastforce
  from Cons.prems(1) [unfolded p] show ?case
    by (rule loop_cases) (use Cons.IH Cons.prems(2) add_log_ok in blast)+
qed (simp add: loop_Nil)

lemma loop_length: "loop flt i its rows = Inr (rs, rows') \<Longrightarrow> length rs = length its"
proof (induction its arbitrary: i rows rs)
  case (Cons p its)
  obtain r0 it where p: "p = (r0, it)" by fastforce
  from Cons.prems [unfolded p] show ?case
    by (rule loop_cases) (use Cons.IH in fastforce)+
qed (simp add: loop_Nil)

text \<open>What each result of a batch says about the table the batch leaves behind.\<close>

definition result_of :: "'row list \<Rightarrow> 'row list \<Rightarrow> 'item \<Rightarrow> 'res \<Rightarrow> bool" where
  "result_of rows rows' x r \<longleftrightarrow>
     (\<exists>w \<in> set rows'. rkey w = ikey x \<and> rid w = res_id r \<and>
        (status r = ''accepted'' \<and> stored x w \<and> w \<notin> set rows
         \<or> status r = ''duplicate'' \<and> rhash w = ihash x
         \<or> status r = ''conflict'' \<and> rhash w \<noteq> ihash x))"

lemma loop_result_of:
  "loop flt i its rows = Inr (rs, rows') \<Longrightarrow> n < length its \<Longrightarrow> snd (its ! n) = Some x \<Longrightarrow> result_of rows rows' x (rs ! n)"
proof (induction its arbitrary: i rows rs n)
  case (Cons p its)
  obtain r0 it where p: "p = (r0, it)" by fastforce
  from Cons.prems(1) [unfolded p] show ?case
  proof (cases rule: loop_cases)
    case (skip rs')
    with Cons.prems p obtain n' where "n = Suc n'" by (cases n) auto
    with Cons.IH [OF skip(3), of n'] Cons.prems skip(2) show ?thesis by simp
  next
    case (item y r rows1 rs')
    obtain more where more: "rows' = rows1 @ more" using loop_appends [OF item(4)] by blast
    show ?thesis
    proof (cases n)
      case 0
      with Cons.prems(3) p item have "y = x" "rs ! n = r" by simp_all
      from item(3) show ?thesis
      proof (cases rule: add_cases)
        case (new w)
        then have "w \<notin> set rows" using next_id_greater [of w rows rid] by auto
        with new stored_key more \<open>y = x\<close> \<open>rs ! n = r\<close> show ?thesis
          unfolding result_of_def by (intro bexI [of _ w]) auto
      next
        case (taken w)
        with more \<open>y = x\<close> \<open>rs ! n = r\<close> show ?thesis
          unfolding result_of_def by (intro bexI [of _ w]) auto
      qed
    next
      case (Suc n')
      with Cons.IH [OF item(4), of n'] Cons.prems item(2) have "result_of rows1 rows' x (rs ! n)" by simp
      moreover have "set rows \<subseteq> set rows1" using add_appends [OF item(3)] by auto
      ultimately show ?thesis unfolding result_of_def by blast
    qed
  qed
qed simp

text \<open>
  Replay: running the same items again on the table a batch left, or on any later one,
  adds nothing, reports \<open>duplicate\<close> where the first run accepted, and the same id.
\<close>

definition replayed :: "'res \<Rightarrow> 'res \<Rightarrow> bool" where
  "replayed r r' \<longleftrightarrow> res_id r' = res_id r \<and>
     status r' = (if status r = ''accepted'' then ''duplicate'' else status r)"

definition same_item :: "'item \<Rightarrow> 'item \<Rightarrow> bool" where
  "same_item x y \<longleftrightarrow> ikey x = ikey y \<and> ihash x = ihash y"

lemma add_replay:
  assumes "log_ok rid rkey rows'" "result_of rows rows' x r" "same_item x y" "add flt i y rows' = Inr (r', rows'')"
  shows "rows'' = rows' \<and> replayed r r'"
proof -
  from assms(2) obtain w where w: "w \<in> set rows'" "rkey w = ikey x" "rid w = res_id r"
    "status r = ''accepted'' \<and> stored x w \<or> status r = ''duplicate'' \<and> rhash w = ihash x
      \<or> status r = ''conflict'' \<and> rhash w \<noteq> ihash x"
    by (auto simp: result_of_def)
  have "List.find (\<lambda>w'. rkey w' = ikey y) rows' = Some w"
    using log_ok_find [OF assms(1) w(1)] w(2) assms(3) by (simp add: same_item_def)
  from add_taken [OF assms(4) this] w(3,4) stored_key [of x w] assms(3) show ?thesis
    unfolding replayed_def same_item_def by auto
qed

lemma loop_replay_aux:
  "loop flt i its rows = Inr (rs, rows') \<Longrightarrow> log_ok rid rkey rows' \<Longrightarrow>
   list_all2 (\<lambda>p r. \<forall>y. snd p = Some y \<longrightarrow> (\<exists>x. same_item x y \<and> result_of rows0 rows x r)) its rs0 \<Longrightarrow>
   rows' = rows \<and> list_all2 (\<lambda>(p, r0) r. snd p \<noteq> None \<longrightarrow> replayed r0 r) (zip its rs0) rs"
proof (induction its arbitrary: i rows rs rs0)
  case (Cons p its)
  obtain r0 it where p: "p = (r0, it)" by fastforce
  from Cons.prems(3) obtain q rs0' where rs0: "rs0 = q # rs0'"
    "\<forall>y. it = Some y \<longrightarrow> (\<exists>x. same_item x y \<and> result_of rows0 rows x q)"
    "list_all2 (\<lambda>p r. \<forall>y. snd p = Some y \<longrightarrow> (\<exists>x. same_item x y \<and> result_of rows0 rows x r)) its rs0'"
    by (auto simp: list_all2_Cons1 p)
  from Cons.prems(1) [unfolded p] show ?case
  proof (cases rule: loop_cases)
    case (skip rs')
    with Cons.IH [OF skip(3) Cons.prems(2) rs0(3)] rs0 p show ?thesis by simp
  next
    case (item y r rows1 rs')
    have ok: "log_ok rid rkey rows"
      using loop_appends [OF item(4)] add_appends [OF item(3)] Cons.prems(2)
      by (auto simp: log_ok_def sorted_wrt_append)
    from rs0(2) item(1) obtain x where "same_item x y" "result_of rows0 rows x q" by blast
    with add_replay [OF ok _ _ item(3)] have "rows1 = rows" "replayed q r" by blast+
    then have "loop flt (Suc i) its rows = Inr (rs', rows')" using item(4) by simp
    from Cons.IH [OF this Cons.prems(2) rs0(3)] rs0 p item \<open>replayed q r\<close> show ?thesis by simp
  qed
qed (simp add: loop_Nil)

lemma loop_skipped:
  "loop flt i its rows = Inr (rs, rows') \<Longrightarrow> n < length its \<Longrightarrow> snd (its ! n) = None \<Longrightarrow> rs ! n = fst (its ! n)"
proof (induction its arbitrary: i rows rs n)
  case (Cons p its)
  obtain r0 it where p: "p = (r0, it)" by fastforce
  from Cons.prems(1) [unfolded p] show ?case
  proof (cases rule: loop_cases)
    case (skip rs')
    with Cons.IH [OF skip(3)] Cons.prems p show ?thesis by (cases n) auto
  next
    case (item x r rows1 rs')
    with Cons.IH [OF item(4)] Cons.prems p show ?thesis by (cases n) auto
  qed
qed simp

lemma result_of_mono: "result_of rows rows' x r \<Longrightarrow> result_of rows (rows' @ later) x r"
  unfolding result_of_def by (metis Un_iff set_append)

lemma loop_replay:
  assumes first: "loop flt i its rows = Inr (rs, rows')"
    and again: "loop flt' j its' (rows' @ later) = Inr (rs', rows'')" and ok: "log_ok rid rkey (rows' @ later)"
    and same: "list_all2 (\<lambda>p p'. rel_option same_item (snd p) (snd p')) its its'"
  shows "rows'' = rows' @ later \<and> length rs' = length rs
    \<and> (\<forall>n < length its. snd (its ! n) \<noteq> None \<longrightarrow> replayed (rs ! n) (rs' ! n))"
proof -
  have len: "length its = length its'" using same by (rule list_all2_lengthD)
  have rel: "rel_option same_item (snd (its ! n)) (snd (its' ! n))" if "n < length its" for n
    using same that by (simp add: list_all2_conv_all_nth)
  have "\<exists>x. same_item x y \<and> result_of rows (rows' @ later) x (rs ! n)"
    if "n < length its'" "snd (its' ! n) = Some y" for n y
    using rel [of n] that len loop_result_of [OF first, of n]
    by (auto simp: option_rel_Some2 intro: result_of_mono)
  then have "list_all2 (\<lambda>p r. \<forall>y. snd p = Some y \<longrightarrow> (\<exists>x. same_item x y \<and> result_of rows (rows' @ later) x r)) its' rs"
    using loop_length [OF first] len by (auto simp: list_all2_conv_all_nth)
  from loop_replay_aux [OF again loop_log_ok [OF again ok] this]
  show ?thesis
    using loop_length [OF first] loop_length [OF again] len rel
    by (fastforce simp: list_all2_conv_all_nth)
qed

text \<open>Without database faults a batch of admissible items always completes.\<close>

lemma loop_total:
  "\<forall>p \<in> set its. \<forall>x. snd p = Some x \<longrightarrow> admissible x \<Longrightarrow> \<exists>rs rows'. loop no_faults i its rows = Inr (rs, rows')"
proof (induction its arbitrary: i rows)
  case (Cons p its)
  obtain r0 it where p: "p = (r0, it)" by fastforce
  show ?case
  proof (cases it)
    case None
    with Cons.IH [of "Suc i" rows] Cons.prems p show ?thesis by (auto simp: loop_skip)
  next
    case (Some x)
    with Cons.prems p obtain r rows1 where "add no_faults i x rows = Inr (r, rows1)"
      using add_total by fastforce
    with Some Cons.IH [of "Suc i" rows1] Cons.prems p show ?thesis by (auto simp: loop_add)
  qed
qed (simp add: loop_Nil)

end

text \<open>
  A batch operation over such a log: it either fails and leaves the table alone, or it is a
  successful run of the loop over the batch's items.
\<close>

locale batch_log = idempotent_log +
  fixes batch :: "faults \<Rightarrow> 'a list \<Rightarrow> (go_error + 'c list) \<times> 'a list"
    and items :: "('c \<times> 'b option) list"
  assumes batch_cases: "batch flt rows = (res, rows') \<Longrightarrow>
      (\<exists>e. res = Inl e \<and> rows' = rows) \<or> (\<exists>rs. res = Inr rs \<and> loop flt 0 items rows = Inr (rs, rows'))"
begin

lemma batch_append_only:
  "case batch flt rows of (Inl e, rows') \<Rightarrow> rows' = rows | (Inr rs, rows') \<Rightarrow> \<exists>new. rows' = rows @ new"
  using batch_cases [of flt rows "fst (batch flt rows)" "snd (batch flt rows)"] loop_appends [of flt 0 items rows]
  by (auto simp: case_prod_beta split: sum.splits)

lemma batch_invariant:
  "log_ok rid rkey rows \<Longrightarrow> log_ok rid rkey (snd (batch flt rows))"
  using batch_cases [of flt rows "fst (batch flt rows)" "snd (batch flt rows)"] loop_log_ok [of flt 0 items rows]
  by auto

lemma batch_InrD: "batch flt rows = (Inr rs, rows') \<Longrightarrow> loop flt 0 items rows = Inr (rs, rows')"
  using batch_cases [of flt rows "Inr rs" rows'] by auto

end

end
