(* ===== verification/Raw_Events.thy ===== *)
theory Raw_Events
  imports Idempotent_Log
begin

text \<open>
  \<^verbatim>\<open>internal/eventstore/event.go\<close>: validation of one candidate event (\<^verbatim>\<open>prepare\<close>,
  \<^verbatim>\<open>parsePayload\<close>, \<^verbatim>\<open>parseJSONValue\<close>, \<^verbatim>\<open>validIdentifier\<close>) and the transactional,
  idempotent append of a batch to the append-only table \<^verbatim>\<open>raw_events\<close>.
\<close>

abbreviation (input) "StatusAccepted \<equiv> ''accepted''"
abbreviation (input) "StatusDuplicate \<equiv> ''duplicate''"
abbreviation (input) "StatusRejected \<equiv> ''rejected''"
abbreviation (input) "StatusConflict \<equiv> ''conflict''"

abbreviation (input) "CodeBatchEmpty \<equiv> ''EVENT_BATCH_EMPTY''"
abbreviation (input) "CodeBatchTooLarge \<equiv> ''EVENT_BATCH_TOO_LARGE''"
abbreviation (input) "CodeEventTooLarge \<equiv> ''EVENT_TOO_LARGE''"
abbreviation (input) "CodeEventDecodeInvalid \<equiv> ''EVENT_JSON_INVALID''"
abbreviation (input) "CodeEventSchemaInvalid \<equiv> ''EVENT_SCHEMA_UNSUPPORTED''"
abbreviation (input) "CodeCollectorInvalid \<equiv> ''EVENT_COLLECTOR_INVALID''"
abbreviation (input) "CodeEventTypeInvalid \<equiv> ''EVENT_TYPE_INVALID''"
abbreviation (input) "CodeDeviceTimeInvalid \<equiv> ''EVENT_DEVICE_TIME_INVALID''"
abbreviation (input) "CodeClockOffsetInvalid \<equiv> ''EVENT_CLOCK_OFFSET_INVALID''"
abbreviation (input) "CodeClockErrorInvalid \<equiv> ''EVENT_CLOCK_ERROR_INVALID''"
abbreviation (input) "CodeIdempotencyInvalid \<equiv> ''EVENT_IDEMPOTENCY_KEY_INVALID''"
abbreviation (input) "CodePayloadInvalid \<equiv> ''EVENT_PAYLOAD_INVALID''"
abbreviation (input) "CodePayloadTooDeep \<equiv> ''EVENT_PAYLOAD_TOO_DEEP''"
abbreviation (input) "CodeIdempotencyConflict \<equiv> ''EVENT_IDEMPOTENCY_CONFLICT''"

definition EventSchemaVersion :: int where "EventSchemaVersion = 1"

section \<open>Data\<close>

record WriteResult =
  Index :: nat
  Status :: string
  EventID :: int
  wr_ErrorCode :: string

record eventInput =
  in_SchemaVersion :: int
  in_CollectorID :: string
  in_EventType :: string
  in_DeviceTimestampRaw :: string
  in_ClockOffsetMS :: "int option"
  in_ClockErrorMS :: "int option"
  in_IdempotencyKey :: string
  in_Payload :: string

definition eventInputJSONFields :: "string list" where
  "eventInputJSONFields =
     [''schema_version'', ''collector_id'', ''event_type'', ''device_timestamp_raw'',
      ''clock_offset_ms'', ''clock_error_ms'', ''idempotency_key'', ''payload'']"

record preparedEvent =
  ev_SchemaVersion :: int
  ev_CollectorID :: string
  ev_EventType :: string
  ev_DeviceTimestampRaw :: string
  ev_DeviceTimeUTC :: string
  ev_ReceivedAtUTC :: string
  ev_ClockOffsetMS :: int
  ev_ClockErrorMS :: int
  ev_IdempotencyKey :: string
  ev_PayloadJSON :: string
  ev_PayloadHash :: string
  ev_ContentHash :: string

text \<open>A row of \<^verbatim>\<open>raw_events\<close>: the primary key and the stored columns.\<close>

record raw_row =
  row_id :: int
  row_event :: preparedEvent

section \<open>Identifiers\<close>

definition validIdentifier :: "string \<Rightarrow> nat \<Rightarrow> bool" where
  "validIdentifier value maximum \<longleftrightarrow>
     \<not> (value = [] \<or> length value > maximum \<or> trim_space value \<noteq> value \<or> \<not> valid_utf8 value)
     \<and> list_all (\<lambda>character. \<not> is_control_rune character) (runes value)"

section \<open>Payload parsing\<close>

type_synonym decoder = "jitem list \<times> lex_end"

definition dec_more :: "decoder \<Rightarrow> bool" where
  "dec_more d =
     (case fst d of
        i # _ \<Rightarrow> it_peek i \<noteq> CHR '']'' \<and> it_peek i \<noteq> CHR ''}''
      | [] \<Rightarrow> (case le_peek (snd d) of None \<Rightarrow> False | Some c \<Rightarrow> c \<noteq> CHR '']'' \<and> c \<noteq> CHR ''}''))"

definition ensureJSONEOF :: "decoder \<Rightarrow> bool" where
  "ensureJSONEOF d \<longleftrightarrow> fst d = [] \<and> le_eof (snd d)"

abbreviation (input) payload_invalid :: "(string + json \<times> decoder) option" where
  "payload_invalid \<equiv> Some (Inl CodePayloadInvalid)"

text \<open>The result of a parser: out of fuel, a validation code, or a value and the rest.\<close>

type_synonym parse_result = "(string + json \<times> decoder) option"

text \<open>\<^verbatim>\<open>Decoder.Token\<close>.\<close>

definition dec_token :: "decoder \<Rightarrow> (jtoken \<times> decoder) option" where
  "dec_token d = (case fst d of [] \<Rightarrow> None | i # is \<Rightarrow> Some (it_tok i, (is, snd d)))"

fun delim_of :: "jtoken \<Rightarrow> char option" where
  "delim_of (TDelim c) = Some c"
| "delim_of _ = None"

fun string_of :: "jtoken \<Rightarrow> string option" where
  "string_of (TStr s) = Some s"
| "string_of _ = None"

definition parse_then :: "parse_result \<Rightarrow> (json \<Rightarrow> decoder \<Rightarrow> parse_result) \<Rightarrow> parse_result" where
  "parse_then r k =
     (case r of None \<Rightarrow> None | Some (Inl err) \<Rightarrow> Some (Inl err) | Some (Inr (v, d)) \<Rightarrow> k v d)"

text \<open>The closing delimiter of a container whose contents are read.\<close>

definition parse_close :: "char \<Rightarrow> json \<Rightarrow> decoder \<Rightarrow> parse_result" where
  "parse_close c v d =
     (case dec_token d of
        None \<Rightarrow> payload_invalid
      | Some (t, d') \<Rightarrow> if t = TDelim c then Some (Inr (v, d')) else payload_invalid)"

text \<open>
  \<^verbatim>\<open>parseJSONValue\<close> and its two loops, with fuel; \<^const>\<open>None\<close> is running out of fuel.
\<close>

function (sequential) parseJSONValue :: "nat \<Rightarrow> int \<Rightarrow> int \<Rightarrow> decoder \<Rightarrow> parse_result"
  and parseObject :: "nat \<Rightarrow> int \<Rightarrow> int \<Rightarrow> (string \<times> json) list \<Rightarrow> decoder \<Rightarrow> parse_result"
  and parseArray :: "nat \<Rightarrow> int \<Rightarrow> int \<Rightarrow> json list \<Rightarrow> decoder \<Rightarrow> parse_result" where
  "parseJSONValue 0 depth maxDepth d = None"
| "parseJSONValue (Suc fuel) depth maxDepth d =
     (if dec_token d = None then payload_invalid
      else let (t, d') = the (dec_token d) in
        if delim_of t = None then Some (Inr (scalar_of t, d'))
        else if depth > maxDepth then Some (Inl CodePayloadTooDeep)
        else if t = TDelim CHR ''{'' then parseObject fuel depth maxDepth [] d'
        else if t = TDelim CHR ''['' then parseArray fuel depth maxDepth [] d'
        else payload_invalid)"
| "parseObject 0 depth maxDepth obj d = None"
| "parseObject (Suc fuel) depth maxDepth obj d =
     (if dec_more d then
        (if dec_token d = None then payload_invalid
         else let (t, d') = the (dec_token d); key = the (string_of t) in
           if string_of t = None then payload_invalid
           else if key \<in> set (map fst obj) then payload_invalid
           else parse_then (parseJSONValue fuel (depth + 1) maxDepth d')
                  (\<lambda>v d''. parseObject fuel depth maxDepth (obj @ [(key, v)]) d''))
      else parse_close CHR ''}'' (JObject obj) d)"
| "parseArray 0 depth maxDepth arr d = None"
| "parseArray (Suc fuel) depth maxDepth arr d =
     (if dec_more d then
        parse_then (parseJSONValue fuel (depth + 1) maxDepth d)
          (\<lambda>v d'. parseArray fuel depth maxDepth (arr @ [v]) d')
      else parse_close CHR '']'' (JArray arr) d)"
  by pat_completeness auto
termination
  by (relation "measure (case_sum fst (case_sum fst fst))") auto

definition parsePayload :: "string \<Rightarrow> int \<Rightarrow> string + json" where
  "parsePayload raw maxDepth =
     (if raw = [] then Inl CodePayloadInvalid
      else let d = decoder_items raw
           in case parseJSONValue (2 * length (fst d) + 2) 1 maxDepth d of
                None \<Rightarrow> Inl CodePayloadInvalid
              | Some (Inl code) \<Rightarrow> Inl code
              | Some (Inr (v, d')) \<Rightarrow>
                  if \<not> ensureJSONEOF d' then Inl CodePayloadInvalid
                  else if \<not> is_object v then Inl CodePayloadInvalid
                  else Inr v)"

section \<open>Validation of one event\<close>

definition zeroEventInput :: eventInput where
  "zeroEventInput =
     \<lparr>in_SchemaVersion = 0, in_CollectorID = [], in_EventType = [], in_DeviceTimestampRaw = [],
      in_ClockOffsetMS = None, in_ClockErrorMS = None, in_IdempotencyKey = [], in_Payload = []\<rparr>"

definition setEventField :: "string \<Rightarrow> jitem list \<Rightarrow> eventInput \<Rightarrow> eventInput option" where
  "setEventField name v st =
     (if name = ''schema_version''
        then map_option (\<lambda>x. st\<lparr>in_SchemaVersion := x\<rparr>) (dec_int v (in_SchemaVersion st))
      else if name = ''collector_id''
        then map_option (\<lambda>x. st\<lparr>in_CollectorID := x\<rparr>) (dec_str v (in_CollectorID st))
      else if name = ''event_type''
        then map_option (\<lambda>x. st\<lparr>in_EventType := x\<rparr>) (dec_str v (in_EventType st))
      else if name = ''device_timestamp_raw''
        then map_option (\<lambda>x. st\<lparr>in_DeviceTimestampRaw := x\<rparr>) (dec_str v (in_DeviceTimestampRaw st))
      else if name = ''clock_offset_ms''
        then map_option (\<lambda>x. st\<lparr>in_ClockOffsetMS := x\<rparr>) (dec_int_ptr v)
      else if name = ''clock_error_ms''
        then map_option (\<lambda>x. st\<lparr>in_ClockErrorMS := x\<rparr>) (dec_int_ptr v)
      else if name = ''idempotency_key''
        then map_option (\<lambda>x. st\<lparr>in_IdempotencyKey := x\<rparr>) (dec_str v (in_IdempotencyKey st))
      else if name = ''payload'' then Some (st\<lparr>in_Payload := item_slice v\<rparr>)
      else None)"

definition decodeEventInput :: "string \<Rightarrow> (eventInput \<times> decoder) option" where
  "decodeEventInput raw =
     (case decode_value raw of None \<Rightarrow> None
      | Some (v, d) \<Rightarrow>
          map_option (\<lambda>inp. (inp, d)) (decode_struct eventInputJSONFields setEventField v zeroEventInput))"

definition clockOffsetLimit :: int where "clockOffsetLimit = 365 * 24 * 60 * 60 * 1000"
definition clockErrorLimit :: int where "clockErrorLimit = 24 * 60 * 60 * 1000"

text \<open>The document whose hash identifies an event's content.\<close>

definition eventContent :: "eventInput \<Rightarrow> string \<Rightarrow> int \<Rightarrow> int \<Rightarrow> string \<Rightarrow> string" where
  "eventContent inp deviceTimeUTC offset err payloadHash =
     marshal_struct
       [(''schema_version'', int_digits (in_SchemaVersion inp)),
        (''collector_id'', quote (in_CollectorID inp)),
        (''event_type'', quote (in_EventType inp)),
        (''device_timestamp_raw'', quote (in_DeviceTimestampRaw inp)),
        (''device_time_utc'', quote deviceTimeUTC),
        (''clock_offset_ms'', int_digits offset),
        (''clock_error_ms'', int_digits err),
        (''payload_hash'', quote payloadHash)]"

definition prepare :: "ext \<Rightarrow> store_cfg \<Rightarrow> string \<Rightarrow> string \<Rightarrow> go_error + preparedEvent" where
  "prepare X C raw receivedAt =
     bind_result (reject (int (length raw) > maxEventBytes C) CodeEventTooLarge) (\<lambda>_.
     bind_result (reject (ValidateExactRootObject raw 0 eventInputJSONFields \<noteq> Inr ()) CodeEventDecodeInvalid) (\<lambda>_.
     bind_result (require_some (decodeEventInput raw) (ValidationErr CodeEventDecodeInvalid)) (\<lambda>(input, decoder).
     bind_result (reject (\<not> ensureJSONEOF decoder) CodeEventDecodeInvalid) (\<lambda>_.
     bind_result (reject (in_SchemaVersion input \<noteq> EventSchemaVersion) CodeEventSchemaInvalid) (\<lambda>_.
     bind_result (reject (\<not> validIdentifier (in_CollectorID input) 128) CodeCollectorInvalid) (\<lambda>_.
     bind_result (reject (\<not> validIdentifier (in_EventType input) 128) CodeEventTypeInvalid) (\<lambda>_.
     bind_result (reject (length (in_DeviceTimestampRaw input) = 0 \<or> length (in_DeviceTimestampRaw input) > 128
       \<or> trim_space (in_DeviceTimestampRaw input) \<noteq> in_DeviceTimestampRaw input) CodeDeviceTimeInvalid) (\<lambda>_.
     bind_result (reject (has_suffix (in_DeviceTimestampRaw input) ''-00:00'') CodeDeviceTimeInvalid) (\<lambda>_.
     bind_result (require_some (parse_rfc3339nano (in_DeviceTimestampRaw input)) (ValidationErr CodeDeviceTimeInvalid)) (\<lambda>deviceTime.
     bind_result (require_some (in_ClockOffsetMS input) (ValidationErr CodeClockOffsetInvalid)) (\<lambda>offset.
     bind_result (reject (offset < - clockOffsetLimit \<or> offset > clockOffsetLimit) CodeClockOffsetInvalid) (\<lambda>_.
     bind_result (require_some (in_ClockErrorMS input) (ValidationErr CodeClockErrorInvalid)) (\<lambda>err.
     bind_result (reject (err < 0 \<or> err > clockErrorLimit) CodeClockErrorInvalid) (\<lambda>_.
     bind_result (reject (\<not> validIdentifier (in_IdempotencyKey input) 256) CodeIdempotencyInvalid) (\<lambda>_.
     bind_result (map_sum ValidationErr id (parsePayload (in_Payload input) (maxPayloadDepth C))) (\<lambda>payloadValue.
       let payloadHash = sha256_hex X (marshal payloadValue);
           deviceTimeUTC = rfc3339nano deviceTime
       in Inr \<lparr>ev_SchemaVersion = in_SchemaVersion input,
               ev_CollectorID = in_CollectorID input,
               ev_EventType = in_EventType input,
               ev_DeviceTimestampRaw = in_DeviceTimestampRaw input,
               ev_DeviceTimeUTC = deviceTimeUTC,
               ev_ReceivedAtUTC = receivedAt,
               ev_ClockOffsetMS = offset,
               ev_ClockErrorMS = err,
               ev_IdempotencyKey = in_IdempotencyKey input,
               ev_PayloadJSON = in_Payload input,
               ev_PayloadHash = payloadHash,
               ev_ContentHash = sha256_hex X (eventContent input deviceTimeUTC offset err payloadHash)\<rparr>))))))))))))))))"

section \<open>The table and the batch\<close>

text \<open>The CHECK constraints of \<^verbatim>\<open>migrations/001_raw_events.sql\<close>.\<close>

definition raw_event_checks :: "ext \<Rightarrow> preparedEvent \<Rightarrow> bool" where
  "raw_event_checks X e \<longleftrightarrow>
     between 1 128 (ev_CollectorID e) \<and> between 1 128 (ev_EventType e)
     \<and> between 1 128 (ev_DeviceTimestampRaw e) \<and> between 20 35 (ev_DeviceTimeUTC e)
     \<and> between 20 35 (ev_ReceivedAtUTC e) \<and> ev_ClockErrorMS e \<ge> 0
     \<and> between 1 256 (ev_IdempotencyKey e) \<and> json_valid X (ev_PayloadJSON e)
     \<and> sql_length (ev_PayloadHash e) = 64 \<and> sql_length (ev_ContentHash e) = 64 \<and> ev_SchemaVersion e > 0"

definition row_key :: "raw_row \<Rightarrow> string \<times> string" where
  "row_key w = (ev_CollectorID (row_event w), ev_IdempotencyKey (row_event w))"

definition item_key :: "preparedEvent \<Rightarrow> string \<times> string" where
  "item_key e = (ev_CollectorID e, ev_IdempotencyKey e)"

text \<open>
  \<^verbatim>\<open>INSERT ... ON CONFLICT(collector_id, idempotency_key) DO NOTHING\<close>: constraint checks come
  first; a taken key inserts nothing; a new row gets the largest id plus one.
\<close>

definition insertRawEvent :: "ext \<Rightarrow> preparedEvent \<Rightarrow> raw_row list \<Rightarrow> sql_fault + bool \<times> raw_row list" where
  "insertRawEvent X e rows =
     (if \<not> raw_event_checks X e then Inl (FaultSqlite sqlite_constraint_check)
      else if list_ex (\<lambda>w. row_key w = item_key e) rows then Inr (False, rows)
      else Inr (True, rows @ [\<lparr>row_id = next_id row_id rows, row_event = e\<rparr>]))"

definition appendOne :: "ext \<Rightarrow> faults \<Rightarrow> nat \<Rightarrow> preparedEvent \<Rightarrow> raw_row list \<Rightarrow> go_error + WriteResult \<times> raw_row list" where
  "appendOne X flt index item rows =
     bind_result (db_call flt CodeWriteFailed ''insert raw event'' index) (\<lambda>_.
       case insertRawEvent X item rows of
         Inl f \<Rightarrow> Inl (classifySQLiteError CodeWriteFailed ''insert raw event'' f)
       | Inr (affected, rows') \<Rightarrow>
           bind_result (db_read flt CodeWriteFailed ''read insert result'' index) (\<lambda>_.
             if affected then
               bind_result (db_read flt CodeWriteFailed ''read accepted event id'' index) (\<lambda>_.
                 Inr (\<lparr>Index = index, Status = StatusAccepted, EventID = row_id (last rows'), wr_ErrorCode = []\<rparr>, rows'))
             else
               bind_result (db_call flt CodeWriteFailed ''read idempotent event'' index) (\<lambda>_.
                 case List.find (\<lambda>w. row_key w = item_key item) rows' of
                   None \<Rightarrow> Inl (classifySQLiteError CodeWriteFailed ''read idempotent event'' FaultOther)
                 | Some w \<Rightarrow>
                     if ev_ContentHash (row_event w) = ev_ContentHash item
                     then Inr (\<lparr>Index = index, Status = StatusDuplicate, EventID = row_id w, wr_ErrorCode = []\<rparr>, rows')
                     else Inr (\<lparr>Index = index, Status = StatusConflict, EventID = row_id w,
                                wr_ErrorCode = CodeIdempotencyConflict\<rparr>, rows'))))"

text \<open>The first loop of \<^verbatim>\<open>AppendBatch\<close>: each candidate is rejected or prepared.\<close>

fun prepareAll :: "ext \<Rightarrow> store_cfg \<Rightarrow> string \<Rightarrow> nat \<Rightarrow> string list \<Rightarrow> go_error + (WriteResult \<times> preparedEvent option) list" where
  "prepareAll X C receivedAt index [] = Inr []"
| "prepareAll X C receivedAt index (raw # candidates) =
     (let r0 = \<lparr>Index = index, Status = [], EventID = 0, wr_ErrorCode = []\<rparr> in
      case prepare X C raw receivedAt of
        Inl (StoreErr code op) \<Rightarrow> Inl (StoreErr code op)
      | Inl (ValidationErr code) \<Rightarrow>
          bind_result (prepareAll X C receivedAt (Suc index) candidates)
            (\<lambda>rest. Inr ((r0\<lparr>Status := StatusRejected, wr_ErrorCode := code\<rparr>, None) # rest))
      | Inr item \<Rightarrow>
          bind_result (prepareAll X C receivedAt (Suc index) candidates) (\<lambda>rest. Inr ((r0, Some item) # rest)))"

text \<open>The second loop, inside the transaction.\<close>

fun appendItems :: "ext \<Rightarrow> faults \<Rightarrow> nat \<Rightarrow> (WriteResult \<times> preparedEvent option) list \<Rightarrow> raw_row list
    \<Rightarrow> go_error + WriteResult list \<times> raw_row list" where
  "appendItems X flt index [] rows = Inr ([], rows)"
| "appendItems X flt index ((r0, None) # items) rows =
     bind_result (appendItems X flt (Suc index) items rows) (\<lambda>(rs, rows'). Inr (r0 # rs, rows'))"
| "appendItems X flt index ((r0, Some item) # items) rows =
     bind_result (appendOne X flt index item rows) (\<lambda>(r, rows1).
     bind_result (appendItems X flt (Suc index) items rows1) (\<lambda>(rs, rows'). Inr (r # rs, rows')))"

definition appendBatchTx :: "ext \<Rightarrow> faults \<Rightarrow> (WriteResult \<times> preparedEvent option) list \<Rightarrow> raw_row list
    \<Rightarrow> go_error + WriteResult list \<times> raw_row list" where
  "appendBatchTx X flt items rows =
     bind_result (db_call flt CodeWriteFailed ''begin event batch'' 0) (\<lambda>_.
     bind_result (appendItems X flt 0 items rows) (\<lambda>(results, rows').
     bind_result (db_call flt CodeWriteFailed ''commit event batch'' 0) (\<lambda>_. Inr (results, rows'))))"

text \<open>The outcome of the call and the table it leaves; an error rolls the transaction back.\<close>

definition AppendBatch :: "ext \<Rightarrow> store_cfg \<Rightarrow> faults \<Rightarrow> instant \<Rightarrow> string list \<Rightarrow> raw_row list
    \<Rightarrow> (go_error + WriteResult list) \<times> raw_row list" where
  "AppendBatch X C flt now candidates rows =
     (if candidates = [] then (Inl (ValidationErr CodeBatchEmpty), rows)
      else if int (length candidates) > maxBatchEvents C then (Inl (ValidationErr CodeBatchTooLarge), rows)
      else case prepareAll X C (rfc3339nano now) 0 candidates of
        Inl err \<Rightarrow> (Inl err, rows)
      | Inr items \<Rightarrow>
          if list_all (\<lambda>p. snd p = None) items then (Inr (map fst items), rows)
          else (case appendBatchTx X flt items rows of
                  Inl err \<Rightarrow> (Inl err, rows)
                | Inr (results, rows') \<Rightarrow> (Inr results, rows')))"

section \<open>What the payload parser accepts\<close>

abbreviation toks :: "decoder \<Rightarrow> jtoken list" where "toks d \<equiv> map it_tok (fst d)"

lemma parse_then_Inr_iff:
  "parse_then r k = Some (Inr x) \<longleftrightarrow> (\<exists>v d. r = Some (Inr (v, d)) \<and> k v d = Some (Inr x))"
  by (auto simp: parse_then_def split: option.splits sum.splits)

lemma parse_close_Inr_iff:
  "parse_close c v d = Some (Inr (v', d')) \<longleftrightarrow> v' = v \<and> snd d' = snd d \<and> (\<exists>i. it_tok i = TDelim c \<and> fst d = i # fst d')"
  by (cases d; cases d') (auto simp: parse_close_def dec_token_def split: list.splits option.splits)

lemma dec_token_Some_iff:
  "dec_token d = Some (t, d') \<longleftrightarrow> snd d' = snd d \<and> (\<exists>i. it_tok i = t \<and> fst d = i # fst d')"
  by (cases d; cases d') (auto simp: dec_token_def split: list.splits)

lemma scalar_of_delim_None:
  "delim_of t = None \<Longrightarrow> tokens_of (scalar_of t) = [t]"
  "delim_of t = None \<Longrightarrow> jdepth (scalar_of t) = 0"
  "delim_of t = None \<Longrightarrow> keys_ok chk n (scalar_of t)"
  by (cases t; simp)+

lemma string_of_Some_iff: "string_of t = Some s \<longleftrightarrow> t = TStr s"
  by (cases t) auto

definition depth_ok :: "int \<Rightarrow> int \<Rightarrow> nat \<Rightarrow> bool" where
  "depth_ok depth maxDepth n \<longleftrightarrow> n = 0 \<or> depth + int n \<le> maxDepth + 1"

lemma depth_ok_max [simp]: "depth_ok a b (max m n) \<longleftrightarrow> depth_ok a b m \<and> depth_ok a b n"
  by (auto simp: depth_ok_def)

lemma depth_ok_Suc: "depth_ok a b (Suc n) \<longleftrightarrow> a \<le> b \<and> depth_ok (a + 1) b n"
  by (auto simp: depth_ok_def)

definition members_read :: "int \<Rightarrow> int \<Rightarrow> (string \<times> json) list \<Rightarrow> decoder \<Rightarrow> json \<Rightarrow> decoder \<Rightarrow> bool" where
  "members_read depth maxDepth obj d v d' \<longleftrightarrow>
     (\<exists>ms. v = JObject (obj @ ms) \<and> toks d = tokens_members ms @ TDelim CHR ''}'' # toks d'
        \<and> distinct (map fst (obj @ ms)) \<and> (\<forall>n. keys_ok_members 0 n ms) \<and> depth_ok (depth + 1) maxDepth (jdepth_members ms))"

definition elems_read :: "int \<Rightarrow> int \<Rightarrow> json list \<Rightarrow> decoder \<Rightarrow> json \<Rightarrow> decoder \<Rightarrow> bool" where
  "elems_read depth maxDepth arr d v d' \<longleftrightarrow>
     (\<exists>vs. v = JArray (arr @ vs) \<and> toks d = tokens_elems vs @ TDelim CHR '']'' # toks d'
        \<and> (\<forall>n. keys_ok_elems 0 n vs) \<and> depth_ok (depth + 1) maxDepth (jdepth_elems vs))"

lemma parse_sound:
  "parseJSONValue f depth maxDepth d = Some (Inr (v, d')) \<Longrightarrow>
     snd d' = snd d \<and> toks d = tokens_of v @ toks d' \<and> (\<forall>n. keys_ok 0 n v) \<and> depth_ok depth maxDepth (jdepth v)"
  "parseObject f depth maxDepth obj d = Some (Inr (v, d')) \<Longrightarrow> distinct (map fst obj) \<Longrightarrow>
     snd d' = snd d \<and> members_read depth maxDepth obj d v d'"
  "parseArray f depth maxDepth arr d = Some (Inr (v, d')) \<Longrightarrow>
     snd d' = snd d \<and> elems_read depth maxDepth arr d v d'"
proof (induction f depth maxDepth d and f depth maxDepth obj d and f depth maxDepth arr d
    arbitrary: v d' and v d' and v d' rule: parseJSONValue_parseObject_parseArray.induct)
  case (2 fuel depth maxDepth d)
  then obtain t d1 where t: "dec_token d = Some (t, d1)"
    by (cases "dec_token d") auto
  then have d: "snd d1 = snd d" "toks d = t # toks d1" by (auto simp: dec_token_Some_iff)
  consider "delim_of t = None" | "t = TDelim CHR ''{''" "depth \<le> maxDepth" | "t = TDelim CHR ''[''" "depth \<le> maxDepth"
    using "2.prems" t by (auto split: if_splits)
  then show ?case
  proof cases
    case 1
    with "2.prems" t d show ?thesis by (auto simp: scalar_of_delim_None depth_ok_def)
  next
    case 2
    then have "snd d' = snd d1 \<and> members_read depth maxDepth [] d1 v d'"
      using "2.prems" t "2.IH"(1) [of "(t, d1)" t d1] by auto
    with 2 d show ?thesis by (auto simp: members_read_def depth_ok_def)
  next
    case 3
    then have "snd d' = snd d1 \<and> elems_read depth maxDepth [] d1 v d'"
      using "2.prems" t "2.IH"(2) [of "(t, d1)" t d1] by auto
    with 3 d show ?thesis by (auto simp: elems_read_def depth_ok_def)
  qed
next
  case (4 fuel depth maxDepth obj d)
  show ?case
  proof (cases "dec_more d")
    case True
    then obtain t d1 key where t: "dec_token d = Some (t, d1)" "t = TStr key" "key \<notin> set (map fst obj)"
      using "4.prems" by (cases "dec_token d") (auto split: if_splits simp: string_of_Some_iff Let_def)
    then have d: "snd d1 = snd d" "toks d = t # toks d1" by (auto simp: dec_token_Some_iff)
    from "4.prems"(1) True t obtain x d2 where x: "parseJSONValue fuel (depth + 1) maxDepth d1 = Some (Inr (x, d2))"
      "parseObject fuel depth maxDepth (obj @ [(key, x)]) d2 = Some (Inr (v, d'))"
      by (auto simp: parse_then_Inr_iff)
    have "snd d2 = snd d1 \<and> toks d1 = tokens_of x @ toks d2 \<and> (\<forall>n. keys_ok 0 n x) \<and> depth_ok (depth + 1) maxDepth (jdepth x)"
      using True t x(1) "4.IH"(1) [of "(t, d1)" t d1] by auto
    moreover have "snd d' = snd d2 \<and> members_read depth maxDepth (obj @ [(key, x)]) d2 v d'"
      using True t x(2) "4.prems"(2) "4.IH"(2) [of "(t, d1)" t d1] by auto
    moreover from this obtain ms where "v = JObject ((obj @ [(key, x)]) @ ms)"
      "toks d2 = tokens_members ms @ TDelim CHR ''}'' # toks d'" "distinct (map fst ((obj @ [(key, x)]) @ ms))"
      "\<forall>n. keys_ok_members 0 n ms" "depth_ok (depth + 1) maxDepth (jdepth_members ms)"
      by (auto simp: members_read_def)
    ultimately show ?thesis using t(2) d
      unfolding members_read_def by (intro conjI exI [of _ "(key, x) # ms"]) simp_all
  next
    case False
    with "4.prems" show ?thesis by (auto simp: parse_close_Inr_iff members_read_def depth_ok_def)
  qed
next
  case (6 fuel depth maxDepth arr d)
  show ?case
  proof (cases "dec_more d")
    case True
    with "6.prems" obtain x d2 where x: "parseJSONValue fuel (depth + 1) maxDepth d = Some (Inr (x, d2))"
      "parseArray fuel depth maxDepth (arr @ [x]) d2 = Some (Inr (v, d'))"
      by (auto simp: parse_then_Inr_iff)
    from "6.IH"(2) [OF True x(2)] obtain vs where "snd d' = snd d2" "v = JArray ((arr @ [x]) @ vs)"
      "toks d2 = tokens_elems vs @ TDelim CHR '']'' # toks d'"
      "\<forall>n. keys_ok_elems 0 n vs" "depth_ok (depth + 1) maxDepth (jdepth_elems vs)"
      by (auto simp: elems_read_def)
    with "6.IH"(1) [OF True x(1)] show ?thesis
      unfolding elems_read_def by (intro conjI exI [of _ "x # vs"]) simp_all
  next
    case False
    with "6.prems" show ?thesis by (auto simp: parse_close_Inr_iff elems_read_def depth_ok_def)
  qed
qed auto

lemma dec_more_iff: "list_all peek_ok (fst d) \<Longrightarrow> fst d \<noteq> [] \<Longrightarrow> dec_more d \<longleftrightarrow> \<not> is_close (hd (toks d))"
  by (cases "fst d") (auto simp: dec_more_def peek_ok_def)

definition skip_items :: "nat \<Rightarrow> decoder \<Rightarrow> decoder" where
  "skip_items n d = (drop n (fst d), snd d)"

lemma skip_items_simps [simp]:
  "skip_items 0 d = d" "skip_items m (skip_items n d) = skip_items (m + n) d"
  "snd (skip_items n d) = snd d" "toks (skip_items n d) = drop n (toks d)"
  "list_all peek_ok (fst d) \<Longrightarrow> list_all peek_ok (fst (skip_items n d))"
  by (auto simp: skip_items_def drop_map list_all_iff dest: in_set_dropD)

lemma dec_token_skip:
  "toks d = t # ts \<Longrightarrow> dec_token d = Some (t, skip_items 1 d)"
  by (auto simp: dec_token_def skip_items_def split: list.splits)

lemma parse_close_skip:
  "toks d = TDelim c # ts \<Longrightarrow> parse_close c v d = Some (Inr (v, skip_items 1 d))"
  by (simp add: parse_close_def dec_token_skip)

lemma hd_tokens_of: "tokens_of v \<noteq> [] \<and> \<not> is_close (hd (tokens_of v))"
  by (cases v) (auto simp: is_close_def)

lemma parse_complete:
  "list_all peek_ok (fst d) \<Longrightarrow> toks d = tokens_of v @ ts \<Longrightarrow> keys_ok 0 n v \<Longrightarrow> depth_ok depth maxDepth (jdepth v) \<Longrightarrow>
     2 * length (tokens_of v) \<le> f \<Longrightarrow>
     parseJSONValue f depth maxDepth d = Some (Inr (v, skip_items (length (tokens_of v)) d))"
  "list_all peek_ok (fst d) \<Longrightarrow> toks d = tokens_elems vs @ TDelim CHR '']'' # ts \<Longrightarrow> keys_ok_elems 0 n vs \<Longrightarrow>
     depth_ok (depth + 1) maxDepth (jdepth_elems vs) \<Longrightarrow> 2 * length (tokens_elems vs) + 1 \<le> f \<Longrightarrow>
     parseArray f depth maxDepth arr d = Some (Inr (JArray (arr @ vs), skip_items (length (tokens_elems vs) + 1) d))"
  "list_all peek_ok (fst d) \<Longrightarrow> toks d = tokens_members ms @ TDelim CHR ''}'' # ts \<Longrightarrow> keys_ok_members 0 n ms \<Longrightarrow>
     distinct (map fst (obj @ ms)) \<Longrightarrow> depth_ok (depth + 1) maxDepth (jdepth_members ms) \<Longrightarrow> 2 * length (tokens_members ms) + 1 \<le> f \<Longrightarrow>
     parseObject f depth maxDepth obj d = Some (Inr (JObject (obj @ ms), skip_items (length (tokens_members ms) + 1) d))"
proof (induction v and vs and ms arbitrary: d ts n depth f and d ts n depth f arr and d ts n depth f obj
    rule: tokens_of_tokens_elems_tokens_members.induct)
  case (5 vs)
  then obtain g where g: "f = Suc g" by (cases f) auto
  have "parseArray g depth maxDepth [] (skip_items 1 d)
      = Some (Inr (JArray ([] @ vs), skip_items (length (tokens_elems vs) + 1) (skip_items 1 d)))"
    using "5.prems" g by (intro "5.IH" [where ts = ts]) (auto simp: depth_ok_Suc)
  with "5.prems" g show ?case by (simp add: dec_token_skip depth_ok_Suc)
next
  case (6 ms)
  then obtain g where g: "f = Suc g" by (cases f) auto
  have "parseObject g depth maxDepth [] (skip_items 1 d)
      = Some (Inr (JObject ([] @ ms), skip_items (length (tokens_members ms) + 1) (skip_items 1 d)))"
    using "6.prems" g by (intro "6.IH" [where ts = ts]) (auto simp: depth_ok_Suc checked_depth_def)
  with "6.prems" g show ?case by (simp add: dec_token_skip depth_ok_Suc)
next
  case 7
  then obtain g where g: "f = Suc g" by (cases f) auto
  have "fst d \<noteq> []" using 7 by auto
  with 7 have "\<not> dec_more d" by (simp add: dec_more_iff is_close_def)
  with 7 g show ?case by (simp add: parse_close_skip)
next
  case (8 v vs)
  then obtain g where g: "f = Suc g" by (cases f) auto
  let ?k = "length (tokens_of v)"
  obtain k' where k': "?k = Suc k'" using hd_tokens_of [of v] by (cases "tokens_of v") auto
  have "fst d \<noteq> []" using "8.prems"(2) by auto
  with "8.prems" hd_tokens_of [of v] have more: "dec_more d" by (simp add: dec_more_iff)
  have val: "parseJSONValue g (depth + 1) maxDepth d = Some (Inr (v, skip_items ?k d))"
    using "8.prems" g k' by (intro "8.IH"(1) [where ts = "tokens_elems vs @ TDelim CHR '']'' # ts" and n = n]) auto
  have "parseArray g depth maxDepth (arr @ [v]) (skip_items ?k d)
      = Some (Inr (JArray ((arr @ [v]) @ vs), skip_items (length (tokens_elems vs) + 1) (skip_items ?k d)))"
    using "8.prems" g k' by (intro "8.IH"(2) [where ts = ts and n = n]) auto
  with more val g show ?case by (simp add: parse_then_def add_ac)
next
  case 9
  then obtain g where g: "f = Suc g" by (cases f) auto
  have "fst d \<noteq> []" using 9 by auto
  with 9 have "\<not> dec_more d" by (simp add: dec_more_iff is_close_def)
  with 9 g show ?case by (simp add: parse_close_skip)
next
  case (10 k v ms)
  then obtain g where g: "f = Suc g" by (cases f) auto
  let ?k = "length (tokens_of v)" and ?d = "skip_items 1 d"
  have "fst d \<noteq> []" using "10.prems"(2) by auto
  with "10.prems" have more: "dec_more d" by (simp add: dec_more_iff is_close_def)
  have tok: "dec_token d = Some (TStr k, ?d)" using "10.prems"(2) by (simp add: dec_token_skip)
  have val: "parseJSONValue g (depth + 1) maxDepth ?d = Some (Inr (v, skip_items ?k ?d))"
    using "10.prems" g by (intro "10.IH"(1) [where ts = "tokens_members ms @ TDelim CHR ''}'' # ts" and n = n]) auto
  have "parseObject g depth maxDepth (obj @ [(k, v)]) (skip_items ?k ?d)
      = Some (Inr (JObject ((obj @ [(k, v)]) @ ms), skip_items (length (tokens_members ms) + 1) (skip_items ?k ?d)))"
    using "10.prems" g by (intro "10.IH"(2) [where ts = ts and n = n]) auto
  with more tok val g "10.prems"(4) show ?case by (auto simp: parse_then_def add_ac)
qed (case_tac f; simp add: dec_token_skip)+

lemma parse_shrinks:
  assumes "parseJSONValue f depth maxDepth d = Some (Inr (v, d'))"
  shows "length (fst d') < length (fst d)"
proof -
  have "length (toks d) = length (tokens_of v) + length (toks d')"
    using parse_sound(1) [OF assms] by simp
  then show ?thesis using hd_tokens_of [of v] by (cases "tokens_of v") auto
qed

lemma parse_enough_fuel:
  "2 * length (fst d) + 1 \<le> f \<Longrightarrow> parseJSONValue f depth maxDepth d \<noteq> None"
  "2 * length (fst d) + 2 \<le> f \<Longrightarrow> parseObject f depth maxDepth obj d \<noteq> None"
  "2 * length (fst d) + 2 \<le> f \<Longrightarrow> parseArray f depth maxDepth arr d \<noteq> None"
proof (induction f depth maxDepth d and f depth maxDepth obj d and f depth maxDepth arr d
    rule: parseJSONValue_parseObject_parseArray.induct)
  case (2 fuel depth maxDepth d)
  show ?case
  proof (cases "dec_token d")
    case (Some p)
    obtain t d1 where p: "p = (t, d1)" by (cases p)
    then have "length (fst d) = Suc (length (fst d1))" using Some by (auto simp: dec_token_Some_iff)
    with 2 Some p show ?thesis by auto
  qed simp
next
  case (4 fuel depth maxDepth obj d)
  show ?case
  proof (cases "dec_more d \<and> dec_token d \<noteq> None")
    case True
    then obtain t d1 where p: "dec_token d = Some (t, d1)" by fastforce
    then have len: "length (fst d) = Suc (length (fst d1))" by (auto simp: dec_token_Some_iff)
    have "parse_then (parseJSONValue fuel (depth + 1) maxDepth d1)
        (\<lambda>v. parseObject fuel depth maxDepth (obj @ [(k, v)])) \<noteq> None"
      if "string_of t = Some k" "k \<notin> set (map fst obj)" for k
      using "4.IH" [of "(t, d1)" t d1] True p that len "4.prems" parse_shrinks [of fuel "depth + 1" maxDepth d1]
      by (fastforce simp: parse_then_def split: option.splits sum.splits)
    with True p show ?thesis by (auto simp: Let_def)
  qed (auto simp: parse_close_def split: option.splits)
next
  case (6 fuel depth maxDepth arr d)
  show ?case
  proof (cases "dec_more d")
    case True
    with 6 parse_shrinks [of fuel "depth + 1" maxDepth d] show ?thesis
      by (fastforce simp: parse_then_def split: option.splits sum.splits)
  qed (auto simp: parse_close_def split: option.splits)
qed auto

lemma decoder_items_peek: "list_all peek_ok (fst (decoder_items raw))"
  unfolding decoder_items_def by (rule lex_peek) (simp add: pk_ok_def)

lemma decoder_tokens_Nil: "decoder_tokens [] = ([], True)"
  by (simp add: decoder_tokens_def decoder_items_def lex.simps [of _ _ _ "[]"] lex_step_def)

lemma parsePayload_iff:
  "parsePayload raw maxDepth = Inr v \<longleftrightarrow>
     decoder_tokens raw = (tokens_of v, True) \<and> is_object v \<and> keys_ok 0 0 v \<and> int (jdepth v) \<le> maxDepth"
proof -
  define d where "d = decoder_items raw"
  have dt: "decoder_tokens raw = (toks d, le_eof (snd d))"
    by (simp add: decoder_tokens_def d_def case_prod_beta Let_def)
  have dep: "depth_ok 1 maxDepth (jdepth v) \<longleftrightarrow> int (jdepth v) \<le> maxDepth" if "is_object v"
    using that by (cases v) (auto simp: is_object_def depth_ok_def)
  show ?thesis
  proof
    assume ok: "parsePayload raw maxDepth = Inr v"
    then obtain d' where d': "parseJSONValue (2 * length (fst d) + 2) 1 maxDepth d = Some (Inr (v, d'))"
      "fst d' = []" "le_eof (snd d')" "is_object v"
      by (auto simp: parsePayload_def Let_def ensureJSONEOF_def d_def split: if_splits option.splits sum.splits)
    with parse_sound(1) [OF d'(1)] dep dt
    show "decoder_tokens raw = (tokens_of v, True) \<and> is_object v \<and> keys_ok 0 0 v \<and> int (jdepth v) \<le> maxDepth"
      by simp
  next
    assume r: "decoder_tokens raw = (tokens_of v, True) \<and> is_object v \<and> keys_ok 0 0 v \<and> int (jdepth v) \<le> maxDepth"
    then have t: "toks d = tokens_of v @ []" "le_eof (snd d)" and len: "length (fst d) = length (tokens_of v)"
      using dt by (auto simp flip: length_map [of it_tok])
    have "raw \<noteq> []" using r hd_tokens_of [of v] by (auto simp: decoder_tokens_Nil)
    moreover have "parseJSONValue (2 * length (fst d) + 2) 1 maxDepth d
        = Some (Inr (v, skip_items (length (tokens_of v)) d))"
      using decoder_items_peek [of raw] r dep t len
      by (intro parse_complete(1) [where ts = "[]" and n = 0]) (auto simp: d_def)
    ultimately show "parsePayload raw maxDepth = Inr v"
      using r t len by (simp add: parsePayload_def d_def ensureJSONEOF_def skip_items_def)
  qed
qed

section \<open>The table is an idempotent log\<close>

definition stored_event :: "preparedEvent \<Rightarrow> raw_row \<Rightarrow> bool" where
  "stored_event e w \<longleftrightarrow> row_event w = e"

lemma insertRawEvent_cases:
  assumes "insertRawEvent X e rows = Inr (b, rows')"
  shows "if item_key e \<in> row_key ` set rows then \<not> b \<and> rows' = rows
         else b \<and> rows' = rows @ [\<lparr>row_id = next_id row_id rows, row_event = e\<rparr>]"
  using assms by (auto simp: insertRawEvent_def list_ex_iff image_iff split: if_splits) metis

interpretation raw_log: idempotent_log row_id row_key "ev_ContentHash \<circ> row_event" item_key ev_ContentHash
  stored_event "raw_event_checks X" Status EventID "appendOne X" "appendItems X"
  for X
proof
  fix x :: preparedEvent and w
  show "stored_event x w \<Longrightarrow> row_key w = item_key x \<and> (ev_ContentHash \<circ> row_event) w = ev_ContentHash x"
    by (simp add: stored_event_def row_key_def item_key_def)
next
  fix flt i x rows r rows'
  assume "appendOne X flt i x rows = Inr (r, rows')" "item_key x \<notin> row_key ` set rows"
  then show "Status r = ''accepted'' \<and> EventID r = next_id row_id rows
      \<and> (\<exists>w. rows' = rows @ [w] \<and> row_id w = next_id row_id rows \<and> stored_event x w)"
    by (auto simp: appendOne_def bind_result_Inr_iff stored_event_def split: sum.splits if_splits
        dest!: insertRawEvent_cases)
next
  fix flt i x rows r rows' w
  assume "appendOne X flt i x rows = Inr (r, rows')" "List.find (\<lambda>w. row_key w = item_key x) rows = Some w"
  moreover from this(2) have "item_key x \<in> row_key ` set rows" by (rule find_key_mem)
  ultimately show "rows' = rows \<and> EventID r = row_id w
      \<and> Status r = (if (ev_ContentHash \<circ> row_event) w = ev_ContentHash x then ''duplicate'' else ''conflict'')"
    by (auto simp: appendOne_def bind_result_Inr_iff split: sum.splits if_splits
        dest!: insertRawEvent_cases dest: find_SomeD)
next
  fix x i rows
  assume "raw_event_checks X x"
  then show "\<exists>r rows'. appendOne X no_faults i x rows = Inr (r, rows')"
    by (auto simp: appendOne_def insertRawEvent_def list_ex_iff find_None_iff split: option.splits)
qed auto

section \<open>Correctness of the batch\<close>

lemma prepare_validation: "prepare X C raw at = Inl e \<Longrightarrow> \<exists>code. e = ValidationErr code"
proof -
  have "validation_only (prepare X C raw at)"
    unfolding prepare_def Let_def by (intro validation_intros)
  then show "prepare X C raw at = Inl e \<Longrightarrow> \<exists>code. e = ValidationErr code"
    by (simp add: validation_only_def)
qed

lemma validIdentifier_between:
  assumes "validIdentifier s m"
  shows "between 1 m s"
proof -
  from assms obtain c r where s: "s = c # r" by (cases s) (auto simp: validIdentifier_def)
  obtain ru rest where d: "decode_rune (c # r) = (ru, rest)" by fastforce
  have "ru \<noteq> None" "\<not> is_control_rune (the ru)"
    using assms d by (auto simp: validIdentifier_def s valid_utf8_def runes_def)
  then have "0 < byte c" "\<not> is_cont c"
    using d by (auto simp: decode_rune.simps is_cont_def is_control_rune_def split: if_splits list.splits)
  moreover have "length s \<le> m" using assms by (simp add: validIdentifier_def)
  ultimately show ?thesis
    using sql_length_pos [of c r] sql_length_le [of s] by (simp add: between_def s)
qed

lemma prepare_InrD:
  assumes "prepare X C raw receivedAt = Inr e"
  shows "int (length raw) \<le> maxEventBytes C"
    "\<exists>v. decoder_tokens raw = (tokens_of v, True) \<and> strict_value 0 True eventInputJSONFields v"
    "validIdentifier (ev_CollectorID e) 128" "validIdentifier (ev_EventType e) 128"
    "validIdentifier (ev_IdempotencyKey e) 256" "length (ev_DeviceTimestampRaw e) \<le> 128"
    "\<not> has_suffix (ev_DeviceTimestampRaw e) ''-00:00''"
    "\<exists>t. parse_rfc3339nano (ev_DeviceTimestampRaw e) = Some t \<and> ev_DeviceTimeUTC e = rfc3339nano t"
    "ev_ReceivedAtUTC e = receivedAt" "\<bar>ev_ClockOffsetMS e\<bar> \<le> clockOffsetLimit"
    "0 \<le> ev_ClockErrorMS e" "ev_ClockErrorMS e \<le> clockErrorLimit" "ev_SchemaVersion e = 1"
    "\<exists>v. parsePayload (ev_PayloadJSON e) (maxPayloadDepth C) = Inr v \<and> ev_PayloadHash e = sha256_hex X (marshal v)"
    "ev_ContentHash e \<in> range (sha256_hex X)"
proof -
  from assms obtain inp d t off err v where p: "int (length raw) \<le> maxEventBytes C"
    "ValidateExactRootObject raw 0 eventInputJSONFields = Inr ()"
    "in_SchemaVersion inp = 1" "validIdentifier (in_CollectorID inp) 128" "validIdentifier (in_EventType inp) 128"
    "length (in_DeviceTimestampRaw inp) \<le> 128" "\<not> has_suffix (in_DeviceTimestampRaw inp) ''-00:00''"
    "parse_rfc3339nano (in_DeviceTimestampRaw inp) = Some t" "\<bar>off\<bar> \<le> clockOffsetLimit"
    "0 \<le> err" "err \<le> clockErrorLimit" "validIdentifier (in_IdempotencyKey inp) 256"
    "parsePayload (in_Payload inp) (maxPayloadDepth C) = Inr v"
    and e: "e = \<lparr>ev_SchemaVersion = 1, ev_CollectorID = in_CollectorID inp, ev_EventType = in_EventType inp,
      ev_DeviceTimestampRaw = in_DeviceTimestampRaw inp, ev_DeviceTimeUTC = rfc3339nano t, ev_ReceivedAtUTC = receivedAt,
      ev_ClockOffsetMS = off, ev_ClockErrorMS = err, ev_IdempotencyKey = in_IdempotencyKey inp,
      ev_PayloadJSON = in_Payload inp, ev_PayloadHash = sha256_hex X (marshal v),
      ev_ContentHash = sha256_hex X (eventContent inp (rfc3339nano t) off err (sha256_hex X (marshal v)))\<rparr>"
    unfolding prepare_def
    by (auto simp: bind_result_Inr_iff Let_def EventSchemaVersion_def abs_le_iff not_less)
  have sv: "\<exists>v. decoder_tokens raw = (tokens_of v, True) \<and> strict_value 0 True eventInputJSONFields v"
    using p(2) by (simp add: ValidateExactRootObject_def validateObjectKeys_iff)
  note all = p e sv
  show "int (length raw) \<le> maxEventBytes C"
    "\<exists>v. decoder_tokens raw = (tokens_of v, True) \<and> strict_value 0 True eventInputJSONFields v"
    "validIdentifier (ev_CollectorID e) 128" "validIdentifier (ev_EventType e) 128"
    "validIdentifier (ev_IdempotencyKey e) 256" "length (ev_DeviceTimestampRaw e) \<le> 128"
    "\<not> has_suffix (ev_DeviceTimestampRaw e) ''-00:00''"
    "\<exists>t. parse_rfc3339nano (ev_DeviceTimestampRaw e) = Some t \<and> ev_DeviceTimeUTC e = rfc3339nano t"
    "ev_ReceivedAtUTC e = receivedAt" "\<bar>ev_ClockOffsetMS e\<bar> \<le> clockOffsetLimit"
    "0 \<le> ev_ClockErrorMS e" "ev_ClockErrorMS e \<le> clockErrorLimit" "ev_SchemaVersion e = 1"
    "\<exists>v. parsePayload (ev_PayloadJSON e) (maxPayloadDepth C) = Inr v \<and> ev_PayloadHash e = sha256_hex X (marshal v)"
    "ev_ContentHash e \<in> range (sha256_hex X)"
    using all by simp_all
qed

lemma prepare_checks:
  assumes "prepare X C raw receivedAt = Inr e"
    and "sha256_documented X" "json_valid_documented X" "maxPayloadDepth C \<le> 1000" "between 20 35 receivedAt"
  shows "raw_event_checks X e"
proof -
  note e = prepare_InrD [OF assms(1)]
  from e(8) obtain t where t: "parse_rfc3339nano (ev_DeviceTimestampRaw e) = Some t" "ev_DeviceTimeUTC e = rfc3339nano t"
    by blast
  note y = parse_rfc3339nano_year [OF t(1)]
  have "json_valid X (ev_PayloadJSON e)"
    using e(14) assms(3,4) by (fastforce simp: parsePayload_iff json_valid_documented_def)
  moreover have "between 1 128 (ev_DeviceTimestampRaw e)"
    using y(3,4) e(6) sql_length_le [of "ev_DeviceTimestampRaw e"]
      sql_length_pos [of "hd (ev_DeviceTimestampRaw e)" "tl (ev_DeviceTimestampRaw e)"]
    by (auto simp: between_def is_digit_def is_cont_def byte_def)
  moreover have "between 20 35 (ev_DeviceTimeUTC e)"
    unfolding t(2) using y by (intro rfc3339nano_between) auto
  ultimately show ?thesis
    using e(9,11,13,15) e(14) assms(2,5) e(3-5) [THEN validIdentifier_between]
    by (auto simp: raw_event_checks_def sha256_plain simp del: One_nat_def)
qed

definition item_for :: "ext \<Rightarrow> store_cfg \<Rightarrow> string \<Rightarrow> nat \<Rightarrow> string \<Rightarrow> WriteResult \<times> preparedEvent option" where
  "item_for X C at i raw =
     (case prepare X C raw at of
        Inl e \<Rightarrow> (\<lparr>Index = i, Status = StatusRejected, EventID = 0, wr_ErrorCode = ValidationCode e\<rparr>, None)
      | Inr e \<Rightarrow> (\<lparr>Index = i, Status = [], EventID = 0, wr_ErrorCode = []\<rparr>, Some e))"

lemma prepareAll_eq:
  "prepareAll X C at i cands = Inr (map (\<lambda>(n, raw). item_for X C at n raw) (zip [i..<i + length cands] cands))"
proof (induction cands arbitrary: i)
  case (Cons raw cands)
  have *: "[i..<i + length (raw # cands)] = i # [Suc i..<Suc i + length cands]"
    by (simp add: upt_rec del: upt_Suc)
  have r: "prepare X C raw at = Inl e \<Longrightarrow> \<exists>code. e = ValidationErr code" for e
    by (rule prepare_validation)
  show ?case
    unfolding * using Cons.IH [of "Suc i"] r
    by (fastforce simp: item_for_def Let_def split: sum.splits go_error.splits)
qed simp

text \<open>The items of a batch, by index.\<close>

definition batch_items :: "ext \<Rightarrow> store_cfg \<Rightarrow> string \<Rightarrow> string list \<Rightarrow> (WriteResult \<times> preparedEvent option) list" where
  "batch_items X C at cands = map (\<lambda>(n, raw). item_for X C at n raw) (zip [0..<length cands] cands)"

lemma prepareAll_batch_items: "prepareAll X C at 0 cands = Inr (batch_items X C at cands)"
  using prepareAll_eq [of X C at 0 cands] by (simp add: batch_items_def)

lemma batch_items_nth:
  "length (batch_items X C at cands) = length cands"
  "n < length cands \<Longrightarrow> batch_items X C at cands ! n = item_for X C at n (cands ! n)"
  by (simp_all add: batch_items_def)

lemma AppendBatch_cases:
  assumes "AppendBatch X C flt now cands rows = (res, rows')"
  obtains (error) e where "res = Inl e" "rows' = rows"
  | (rejected) "rows' = rows" "res = Inr (map fst (batch_items X C (rfc3339nano now) cands))"
      "list_all (\<lambda>p. snd p = None) (batch_items X C (rfc3339nano now) cands)"
  | (written) rs where "res = Inr rs"
      "appendItems X flt 0 (batch_items X C (rfc3339nano now) cands) rows = Inr (rs, rows')"
  using assms
  by (auto simp: AppendBatch_def prepareAll_batch_items appendBatchTx_def bind_result_Inr_iff
      split: if_splits sum.splits)

lemma appendItems_all_rejected:
  "list_all (\<lambda>p. snd p = None) items \<Longrightarrow> appendItems X flt i items rows = Inr (map fst items, rows)"
proof (induction items arbitrary: i)
  case (Cons p items)
  then show ?case by (cases p) simp
qed simp

interpretation raw_batch: batch_log row_id row_key "ev_ContentHash \<circ> row_event" item_key ev_ContentHash
  stored_event "raw_event_checks X" Status EventID "appendOne X" "appendItems X"
  "\<lambda>flt. AppendBatch X C flt now cands" "batch_items X C (rfc3339nano now) cands"
  for X C now cands
proof
  fix flt rows res rows'
  assume "AppendBatch X C flt now cands rows = (res, rows')"
  then show "(\<exists>e. res = Inl e \<and> rows' = rows)
      \<or> (\<exists>rs. res = Inr rs \<and> appendItems X flt 0 (batch_items X C (rfc3339nano now) cands) rows = Inr (rs, rows'))"
    by (cases rule: AppendBatch_cases) (simp_all add: appendItems_all_rejected)
qed

lemmas AppendBatch_InrD = raw_batch.batch_InrD

lemma prepare_received_at:
  "prepare X C raw at' = map_sum id (\<lambda>e. e\<lparr>ev_ReceivedAtUTC := at'\<rparr>) (prepare X C raw at)"
  unfolding prepare_def by (simp add: map_sum_bind_result case_prod_beta' Let_def)

lemma batch_items_same:
  "list_all2 (\<lambda>p p'. rel_option raw_log.same_item (snd p) (snd p')) (batch_items X C at cands) (batch_items X C at' cands)"
proof -
  have "rel_option raw_log.same_item (snd (item_for X C at n raw)) (snd (item_for X C at' n raw))" for n raw
    unfolding item_for_def prepare_received_at [of X C raw at' at]
    by (simp split: sum.split add: raw_log.same_item_def item_key_def)
  then show ?thesis
    by (simp add: list_all2_conv_all_nth batch_items_nth)
qed

section \<open>A sample batch\<close>

definition sample_raw :: string where
  \<open>sample_raw = ''{"schema_version":1,"collector_id":"phone","event_type":"note","device_timestamp_raw":"2026-01-02T03:04:05Z","clock_offset_ms":0,"clock_error_ms":5,"idempotency_key":"k1","payload":{"a":[1,true]}}''\<close>

definition sample_now :: instant where "sample_now = 63902919845000000000"

definition sample_event :: preparedEvent where
  \<open>sample_event = \<lparr>ev_SchemaVersion = 1, ev_CollectorID = ''phone'', ev_EventType = ''note'',
      ev_DeviceTimestampRaw = ''2026-01-02T03:04:05Z'', ev_DeviceTimeUTC = ''2026-01-02T03:04:05Z'',
      ev_ReceivedAtUTC = ''2026-01-02T03:04:05Z'', ev_ClockOffsetMS = 0, ev_ClockErrorMS = 5,
      ev_IdempotencyKey = ''k1'', ev_PayloadJSON = ''{"a":[1,true]}'', ev_PayloadHash = replicate 64 CHR ''a'',
      ev_ContentHash = replicate 64 CHR ''a''\<rparr>\<close>

definition sample_input :: eventInput where
  \<open>sample_input = \<lparr>in_SchemaVersion = 1, in_CollectorID = ''phone'', in_EventType = ''note'',
    in_DeviceTimestampRaw = ''2026-01-02T03:04:05Z'', in_ClockOffsetMS = Some 0, in_ClockErrorMS = Some 5,
    in_IdempotencyKey = ''k1'', in_Payload = ''{"a":[1,true]}''\<rparr>\<close>

lemma sample_now_text: "rfc3339nano sample_now = ''2026-01-02T03:04:05Z''" by code_simp
lemma sample_now_parse: "parse_rfc3339nano ''2026-01-02T03:04:05Z'' = Some sample_now" by code_simp
lemma sample_decode: "decodeEventInput sample_raw = Some (sample_input, ([], LexEnd True None))" by code_simp
lemma sample_strict: "ValidateExactRootObject sample_raw 0 eventInputJSONFields = Inr ()" by code_simp
lemma sample_identifiers: "validIdentifier ''phone'' 128" "validIdentifier ''note'' 128" "validIdentifier ''k1'' 256" by code_simp+
lemma sample_payload: \<open>parsePayload ''{"a":[1,true]}'' 8 = Inr (JObject [(''a'', JArray [JNumber ''1'', JBool True])])\<close> by code_simp
lemma sample_trim: "trim_space ''2026-01-02T03:04:05Z'' = ''2026-01-02T03:04:05Z''" "\<not> has_suffix ''2026-01-02T03:04:05Z'' ''-00:00''" by code_simp+
lemma sample_length: "length sample_raw = 196" by code_simp

lemmas sample_evals = sample_now_text sample_now_parse sample_decode sample_strict sample_identifiers
  sample_payload sample_trim sample_length

lemma sample_prepare: "prepare sample_ext sample_cfg sample_raw (rfc3339nano sample_now) = Inr sample_event"
  unfolding prepare_def
  by (simp add: sample_evals reject_def sample_cfg_def sample_ext_def sample_input_def sample_event_def ensureJSONEOF_def EventSchemaVersion_def
     clockOffsetLimit_def clockErrorLimit_def)

lemma sample_checks: "raw_event_checks sample_ext sample_event"
  by code_simp

lemma sample_batch:
  "AppendBatch sample_ext sample_cfg no_faults sample_now [sample_raw] []
     = (Inr [\<lparr>Index = 0, Status = StatusAccepted, EventID = 1, wr_ErrorCode = []\<rparr>],
        [\<lparr>row_id = 1, row_event = sample_event\<rparr>])"
  "AppendBatch sample_ext sample_cfg no_faults sample_now [sample_raw] [\<lparr>row_id = 1, row_event = sample_event\<rparr>]
     = (Inr [\<lparr>Index = 0, Status = StatusDuplicate, EventID = 1, wr_ErrorCode = []\<rparr>],
        [\<lparr>row_id = 1, row_event = sample_event\<rparr>])"
  by (simp_all add: AppendBatch_def appendBatchTx_def appendOne_def insertRawEvent_def sample_prepare
      sample_checks sample_cfg_def [THEN arg_cong [where f = maxBatchEvents]] next_id_def row_key_def item_key_def)

section \<open>Properties\<close>

text \<open>
  C1: \<^verbatim>\<open>AppendBatch\<close> is atomic and append-only: when it returns an error the table is unchanged,
  and otherwise the table afterwards is the table before followed by new rows.
\<close>

theorem append_batch_append_only:
  "case AppendBatch X C flt now cands rows of
      (Inl e, rows') \<Rightarrow> rows' = rows
    | (Inr rs, rows') \<Rightarrow> \<exists>new. rows' = rows @ new"
  by (rule raw_batch.batch_append_only)

text \<open>
  C4: \<^verbatim>\<open>AppendBatch\<close> preserves the table invariant: (collector, idempotency key) pairs are unique,
  ids are positive and strictly increasing, whatever the batch and whichever statement fails.
\<close>

theorem append_batch_invariant:
  "log_ok row_id row_key rows \<Longrightarrow> log_ok row_id row_key (snd (AppendBatch X C flt now cands rows))"
  by (rule raw_batch.batch_invariant)

text \<open>The invariant at a sample batch on the empty table.\<close>

theorem append_batch_invariant_witness:
  "log_ok row_id row_key (snd (AppendBatch sample_ext sample_cfg no_faults sample_now [sample_raw] []))"
  by (rule append_batch_invariant) (rule log_ok_Nil)

text \<open>
  C3: The per-item results of a successful \<^verbatim>\<open>AppendBatch\<close> are truthful: an invalid candidate is
  rejected with its validation code; a valid one names the row that holds its key, and is
  reported accepted when that row is new and holds exactly the event, duplicate when the
  stored content hash is the same, and conflict when it differs.
\<close>

theorem append_batch_results:
  assumes "AppendBatch X C flt now cands rows = (Inr rs, rows')"
  shows "length rs = length cands
    \<and> (\<forall>n < length cands. case prepare X C (cands ! n) (rfc3339nano now) of
         Inl e \<Rightarrow> rs ! n = \<lparr>Index = n, Status = StatusRejected, EventID = 0, wr_ErrorCode = ValidationCode e\<rparr>
       | Inr item \<Rightarrow>
           (\<exists>w \<in> set rows'. row_key w = item_key item \<and> row_id w = EventID (rs ! n) \<and>
             (Status (rs ! n) = StatusAccepted \<and> row_event w = item \<and> w \<notin> set rows
              \<or> Status (rs ! n) = StatusDuplicate \<and> ev_ContentHash (row_event w) = ev_ContentHash item
              \<or> Status (rs ! n) = StatusConflict \<and> ev_ContentHash (row_event w) \<noteq> ev_ContentHash item)))"
proof (intro conjI allI impI)
  let ?items = "batch_items X C (rfc3339nano now) cands"
  note loop = AppendBatch_InrD [OF assms]
  show "length rs = length cands"
    using raw_log.loop_length [OF loop] by (simp add: batch_items_nth)
  fix n assume n: "n < length cands"
  then have item: "?items ! n = item_for X C (rfc3339nano now) n (cands ! n)" "n < length ?items"
    by (simp_all add: batch_items_nth)
  show "case prepare X C (cands ! n) (rfc3339nano now) of
         Inl e \<Rightarrow> rs ! n = \<lparr>Index = n, Status = StatusRejected, EventID = 0, wr_ErrorCode = ValidationCode e\<rparr>
       | Inr item \<Rightarrow>
           (\<exists>w \<in> set rows'. row_key w = item_key item \<and> row_id w = EventID (rs ! n) \<and>
             (Status (rs ! n) = StatusAccepted \<and> row_event w = item \<and> w \<notin> set rows
              \<or> Status (rs ! n) = StatusDuplicate \<and> ev_ContentHash (row_event w) = ev_ContentHash item
              \<or> Status (rs ! n) = StatusConflict \<and> ev_ContentHash (row_event w) \<noteq> ev_ContentHash item))"
    using item raw_log.loop_skipped [OF loop item(2)] raw_log.loop_result_of [OF loop item(2)]
    by (auto simp: item_for_def raw_log.result_of_def stored_event_def split: sum.splits)
qed

text \<open>The results at a sample batch that stores one event.\<close>

theorem append_batch_results_witness:
  "\<exists>w \<in> set [\<lparr>row_id = 1, row_event = sample_event\<rparr>]. row_key w = item_key sample_event \<and> row_event w = sample_event"
  using append_batch_results [OF sample_batch(1)] by (simp add: sample_prepare)

text \<open>
  C2: Replaying a batch is idempotent: on the table it left, or any later table that extends it,
  the same candidates add no row, keep their ids, and turn accepted into duplicate.
\<close>

theorem append_batch_replay:
  assumes "AppendBatch X C flt now cands rows = (Inr rs, rows')"
    and "log_ok row_id row_key (rows' @ later)"
    and "AppendBatch X C flt' now' cands (rows' @ later) = (Inr rs', rows'')"
  shows "rows'' = rows' @ later \<and> length rs' = length rs
    \<and> (\<forall>n < length rs. Status (rs ! n) \<noteq> StatusRejected \<longrightarrow>
         EventID (rs' ! n) = EventID (rs ! n)
         \<and> Status (rs' ! n) = (if Status (rs ! n) = StatusAccepted then StatusDuplicate else Status (rs ! n)))"
proof -
  let ?its = "batch_items X C (rfc3339nano now) cands"
  note first = AppendBatch_InrD [OF assms(1)]
  have "snd (?its ! n) \<noteq> None" if "n < length rs" "Status (rs ! n) \<noteq> StatusRejected" for n
    using that raw_log.loop_skipped [OF first, of n] raw_log.loop_length [OF first]
    by (auto simp: batch_items_nth item_for_def split: sum.splits)
  with raw_log.loop_replay [OF first AppendBatch_InrD [OF assms(3)] assms(2) batch_items_same]
    raw_log.loop_length [OF first]
  show ?thesis by (auto simp: raw_log.replayed_def)
qed

text \<open>The sample batch, sent twice.\<close>

theorem append_batch_replay_witness:
  "EventID ([\<lparr>Index = 0, Status = StatusDuplicate, EventID = 1, wr_ErrorCode = []\<rparr>] ! 0) = 1
    \<and> Status ([\<lparr>Index = 0, Status = StatusDuplicate, EventID = 1, wr_ErrorCode = []\<rparr>] ! 0) = StatusDuplicate"
  using append_batch_replay [OF sample_batch(1), of "[]"] sample_batch(2)
  by (fastforce simp: log_ok_def)

text \<open>
  C5: Without database faults a batch of admissible size always succeeds: every candidate is
  either rejected by validation or passes all CHECK constraints of the table, so that no
  client input makes \<^verbatim>\<open>AppendBatch\<close> fail as a whole.  (SHA-256 digests have 64 hex digits,
  \<^verbatim>\<open>json_valid\<close> accepts JSON nested at most 1000 deep.)
\<close>

theorem append_batch_total:
  assumes "sha256_documented X" "json_valid_documented X" "maxPayloadDepth C \<le> 1000" "text_year now"
    and "cands \<noteq> []" "int (length cands) \<le> maxBatchEvents C"
  shows "\<exists>rs rows'. AppendBatch X C no_faults now cands rows = (Inr rs, rows')"
proof -
  let ?items = "batch_items X C (rfc3339nano now) cands"
  have "raw_event_checks X e" if "p \<in> set ?items" "snd p = Some e" for p e
  proof -
    from that obtain n raw where "p = item_for X C (rfc3339nano now) n raw" by (auto simp: batch_items_def)
    with that have "prepare X C raw (rfc3339nano now) = Inr e" by (auto simp: item_for_def split: sum.splits)
    from prepare_checks [OF this assms(1-3) text_year_between [OF assms(4)]] show ?thesis .
  qed
  then obtain rs rows' where "appendItems X no_faults 0 ?items rows = Inr (rs, rows')"
    using raw_log.loop_total [of ?items X 0 rows] by blast
  then show ?thesis
    using assms(5,6) by (auto simp: AppendBatch_def prepareAll_batch_items appendBatchTx_def)
qed

text \<open>Totality at the sample store.\<close>

theorem append_batch_total_witness:
  "\<exists>rs rows'. AppendBatch sample_ext sample_cfg no_faults sample_now [sample_raw] [] = (Inr rs, rows')"
  by (rule append_batch_total) (simp_all add: sample_ext_documented sample_cfg_def text_year_def, code_simp+)

text \<open>
  C6: \<^verbatim>\<open>parsePayload\<close> accepts a payload exactly when the decoder reads it as one JSON object with
  distinct keys at every level and containers nested at most \<^verbatim>\<open>maxDepth\<close> deep, and it returns
  that object; the recursion always ends within its fuel.
\<close>

theorem parse_payload_correct:
  "(parsePayload raw maxDepth = Inr v \<longleftrightarrow>
      decoder_tokens raw = (tokens_of v, True) \<and> is_object v \<and> keys_ok 0 0 v \<and> int (jdepth v) \<le> maxDepth)
   \<and> parseJSONValue (2 * length (fst (decoder_items raw)) + 2) 1 maxDepth (decoder_items raw) \<noteq> None"
proof
  show "parseJSONValue (2 * length (fst (decoder_items raw)) + 2) 1 maxDepth (decoder_items raw) \<noteq> None"
    by (rule parse_enough_fuel) simp
qed (rule parsePayload_iff)

text \<open>
  C7: Every event \<^verbatim>\<open>prepare\<close> lets through is well formed: the raw text is one strict JSON object
  within the size limit, identifiers are valid and bounded, the device time is an RFC 3339
  time with a known offset and its UTC form is derived from it, the clock metadata are in
  range, and the payload hash is the digest of the canonical payload.
\<close>

theorem prepare_sound:
  assumes "prepare X C raw receivedAt = Inr e"
  shows "int (length raw) \<le> maxEventBytes C
    \<and> (\<exists>v. decoder_tokens raw = (tokens_of v, True) \<and> strict_value 0 True eventInputJSONFields v)
    \<and> validIdentifier (ev_CollectorID e) 128 \<and> validIdentifier (ev_EventType e) 128
    \<and> validIdentifier (ev_IdempotencyKey e) 256 \<and> \<not> has_suffix (ev_DeviceTimestampRaw e) ''-00:00''
    \<and> (\<exists>t. parse_rfc3339nano (ev_DeviceTimestampRaw e) = Some t \<and> ev_DeviceTimeUTC e = rfc3339nano t)
    \<and> ev_ReceivedAtUTC e = receivedAt \<and> \<bar>ev_ClockOffsetMS e\<bar> \<le> clockOffsetLimit
    \<and> 0 \<le> ev_ClockErrorMS e \<and> ev_ClockErrorMS e \<le> clockErrorLimit
    \<and> (\<exists>v. parsePayload (ev_PayloadJSON e) (maxPayloadDepth C) = Inr v \<and> ev_PayloadHash e = sha256_hex X (marshal v))"
  using prepare_InrD [OF assms] by blast

text \<open>The sample event.\<close>

theorem prepare_sound_witness: "validIdentifier (ev_CollectorID sample_event) 128"
  using prepare_sound [OF sample_prepare] by blast

end
