(* ===== verification/Go_Base64.thy ===== *)
theory Go_Base64
  imports Go_Text
begin

text \<open>
  \<^verbatim>\<open>base64.RawURLEncoding\<close>: the unpadded URL alphabet.  As in Go, the decoder skips carriage
  returns and line feeds and does not require the unused trailing bits to be zero.
\<close>

definition b64_char :: "nat \<Rightarrow> char" where
  "b64_char n =
     (if n < 26 then char_of (65 + n) else if n < 52 then char_of (71 + n)
      else if n < 62 then char_of (n - 4) else if n = 62 then CHR ''-'' else CHR ''_'')"

definition b64_val :: "char \<Rightarrow> nat option" where
  "b64_val c =
     (let b = byte c in
      if 65 \<le> b \<and> b \<le> 90 then Some (b - 65) else if 97 \<le> b \<and> b \<le> 122 then Some (b - 71)
      else if 48 \<le> b \<and> b \<le> 57 then Some (b + 4) else if b = 45 then Some 62
      else if b = 95 then Some 63 else None)"

fun b64_encode :: "string \<Rightarrow> string" where
  "b64_encode (a # b # c # s) =
     b64_char (byte a div 4) # b64_char (byte a mod 4 * 16 + byte b div 16)
       # b64_char (byte b mod 16 * 4 + byte c div 64) # b64_char (byte c mod 64) # b64_encode s"
| "b64_encode [a, b] =
     [b64_char (byte a div 4), b64_char (byte a mod 4 * 16 + byte b div 16), b64_char (byte b mod 16 * 4)]"
| "b64_encode [a] = [b64_char (byte a div 4), b64_char (byte a mod 4 * 16)]"
| "b64_encode [] = []"

fun b64_quads :: "nat list \<Rightarrow> string option" where
  "b64_quads (w # x # y # z # s) =
     map_option (\<lambda>r. char_of (w * 4 + x div 16) # char_of (x mod 16 * 16 + y div 4) # char_of (y mod 4 * 64 + z) # r)
       (b64_quads s)"
| "b64_quads [w, x, y] = Some [char_of (w * 4 + x div 16), char_of (x mod 16 * 16 + y div 4)]"
| "b64_quads [w, x] = Some [char_of (w * 4 + x div 16)]"
| "b64_quads [w] = None"
| "b64_quads [] = Some []"

fun b64_vals :: "string \<Rightarrow> nat list option" where
  "b64_vals [] = Some []"
| "b64_vals (c # s) = (case b64_val c of None \<Rightarrow> None | Some v \<Rightarrow> map_option (Cons v) (b64_vals s))"

definition b64_decode :: "string \<Rightarrow> string option" where
  "b64_decode s = Option.bind (b64_vals (filter (\<lambda>c. byte c \<noteq> 10 \<and> byte c \<noteq> 13) s)) b64_quads"

lemma byte_less: "byte c < 256"
  by (simp add: byte_def)

lemma char_of_byte [simp]: "char_of (byte c) = c"
  by (simp add: byte_def)

lemma byte_char_of: "n < 256 \<Longrightarrow> byte (char_of n) = n"
  by (simp add: byte_def)

lemma b64_alphabet:
  "list_all (\<lambda>n. b64_val (b64_char n) = Some n \<and> byte (b64_char n) \<noteq> 10 \<and> byte (b64_char n) \<noteq> 13) [0..<64]"
  by code_simp

lemma b64_char_props:
  "n < 64 \<Longrightarrow> b64_val (b64_char n) = Some n" "n < 64 \<Longrightarrow> byte (b64_char n) \<noteq> 10" "n < 64 \<Longrightarrow> byte (b64_char n) \<noteq> 13"
  using b64_alphabet by (auto simp: list_all_iff)

text \<open>The six-bit groups of the encoding.\<close>

fun b64_groups :: "string \<Rightarrow> nat list" where
  "b64_groups (a # b # c # s) =
     byte a div 4 # (byte a mod 4 * 16 + byte b div 16) # (byte b mod 16 * 4 + byte c div 64) # (byte c mod 64)
       # b64_groups s"
| "b64_groups [a, b] = [byte a div 4, byte a mod 4 * 16 + byte b div 16, byte b mod 16 * 4]"
| "b64_groups [a] = [byte a div 4, byte a mod 4 * 16]"
| "b64_groups [] = []"

lemma b64_encode_groups: "b64_encode s = map b64_char (b64_groups s)"
  by (induction s rule: b64_groups.induct) auto

lemma group_bounds:
  "byte a div 4 < 64" "byte a mod 4 * 16 + byte b div 16 < 64" "byte b mod 16 * 4 + byte c div 64 < 64"
  "byte b mod 16 * 4 < 64" "byte a mod 4 * 16 < 64"
proof -
  have "byte x div 16 < 16" "byte x div 64 < 4" "byte x div 4 < 64" for x
    using byte_less [of x] by (auto simp: less_mult_imp_div_less)
  note d = this [of a] this [of b] this [of c]
  have "byte x mod 4 < 4" "byte x mod 16 < 16" for x by simp_all
  note m = this [of a] this [of b]
  show "byte a div 4 < 64" "byte a mod 4 * 16 + byte b div 16 < 64" "byte b mod 16 * 4 + byte c div 64 < 64"
    "byte b mod 16 * 4 < 64" "byte a mod 4 * 16 < 64"
    using d m by linarith+
qed

lemma b64_groups_bounds: "n \<in> set (b64_groups s) \<Longrightarrow> n < 64"
  by (induction s rule: b64_groups.induct) (auto simp: group_bounds)

lemma b64_vals_groups: "\<forall>n \<in> set ns. n < 64 \<Longrightarrow> b64_vals (map b64_char ns) = Some ns"
  by (induction ns) (auto simp: b64_char_props)

lemma recombine:
  "char_of (byte a div 4 * 4 + (byte a mod 4 * 16 + byte b div 16) div 16) = a"
  "char_of (byte a div 4 * 4 + byte a mod 4 * 16 div 16) = a"
  "char_of ((byte a mod 4 * 16 + byte b div 16) mod 16 * 16 + (byte b mod 16 * 4 + byte c div 64) div 4) = b"
  "char_of ((byte a mod 4 * 16 + byte b div 16) mod 16 * 16 + byte b mod 16 * 4 div 4) = b"
  "char_of ((byte b mod 16 * 4 + byte c div 64) mod 4 * 64 + byte c mod 64) = c"
proof -
  have b: "byte b div 16 < 16" "byte c div 64 < 4"
    using byte_less [of b] byte_less [of c] by (auto simp: less_mult_imp_div_less)
  have "(byte a mod 4 * 16 + byte b div 16) div 16 = byte a mod 4" "(byte a mod 4 * 16 + byte b div 16) mod 16 = byte b div 16"
    "(byte b mod 16 * 4 + byte c div 64) div 4 = byte b mod 16" "(byte b mod 16 * 4 + byte c div 64) mod 4 = byte c div 64"
    using b by simp_all
  then show "char_of (byte a div 4 * 4 + (byte a mod 4 * 16 + byte b div 16) div 16) = a"
    "char_of (byte a div 4 * 4 + byte a mod 4 * 16 div 16) = a"
    "char_of ((byte a mod 4 * 16 + byte b div 16) mod 16 * 16 + (byte b mod 16 * 4 + byte c div 64) div 4) = b"
    "char_of ((byte a mod 4 * 16 + byte b div 16) mod 16 * 16 + byte b mod 16 * 4 div 4) = b"
    "char_of ((byte b mod 16 * 4 + byte c div 64) mod 4 * 64 + byte c mod 64) = c"
    by (simp_all only: div_mult_mod_eq nonzero_mult_div_cancel_right [of 4] nonzero_mult_div_cancel_right [of 16] zero_neq_numeral
        char_of_byte simp_thms not_False_eq_True)
qed

lemma b64_quads_groups: "b64_quads (b64_groups s) = Some s"
  by (induction s rule: b64_groups.induct) (simp_all only: b64_groups.simps b64_quads.simps recombine option.map)

lemma b64_roundtrip: "b64_decode (b64_encode s) = Some s"
proof -
  have "filter (\<lambda>c. byte c \<noteq> 10 \<and> byte c \<noteq> 13) (map b64_char (b64_groups s)) = map b64_char (b64_groups s)"
    using b64_groups_bounds by (auto simp: filter_id_conv b64_char_props)
  then show ?thesis
    using b64_vals_groups [of "b64_groups s"] b64_groups_bounds b64_quads_groups
    by (simp add: b64_decode_def b64_encode_groups)
qed

lemma b64_length: "length (b64_encode s) \<le> 2 * length s"
  by (induction s rule: b64_encode.induct) auto

end
