(* ===== verification/Go_Json_Text.thy ===== *)
theory Go_Json_Text
  imports Go_Json
begin

text \<open>
  What the decoder reads back from marshalled text: the token sequences of numbers, plain
  object keys and arrays of plain strings.  The cursor encodings and the stored JSON
  columns rest on these facts.
\<close>

lemma hd_nat_digits_pos: "0 < n \<Longrightarrow> hd (nat_digits n) \<noteq> CHR ''0''"
proof (induction n rule: nat_digits.induct)
  case (1 n)
  show ?case
  proof (cases "n < 10")
    case True
    with "1.prems" have "of_char (digit n) = 48 + n" by (simp add: of_char_digit)
    with True "1.prems" show ?thesis by (subst nat_digits.simps) auto
  next
    case False
    with "1.IH" have "hd (nat_digits (n div 10)) \<noteq> CHR ''0''" by simp
    with False show ?thesis by (subst nat_digits.simps) simp
  qed
qed

lemma nat_digits_0: "nat_digits 0 = ''0''"
  by code_simp

lemma scan_number_nat_digits:
  assumes "\<not> is_digit c" "c \<noteq> CHR ''.''" "c \<noteq> CHR ''e''" "c \<noteq> CHR ''E''"
  shows "scan_number (nat_digits n @ c # r) = Some (nat_digits n, c # r)"
proof -
  have dig: "\<forall>x \<in> set (nat_digits n). is_digit x" by (blast dest: nat_digits_all_digits)
  obtain d ds where ds: "nat_digits n = d # ds" by (cases "nat_digits n") auto
  have "is_digit d" using dig ds by simp
  then have d: "d \<noteq> CHR ''-''" by (auto simp: is_digit_def)
  have "scan_intpart (nat_digits n @ c # r) = Some (nat_digits n, c # r)"
  proof (cases "n = 0")
    case True
    then show ?thesis by (simp add: nat_digits_0)
  next
    case False
    then have "d \<noteq> CHR ''0''" using hd_nat_digits_pos [of n] ds by simp
    with \<open>is_digit d\<close> dig ds assms(1) show ?thesis
      by (simp add: takeWhile_append2 dropWhile_append2)
  qed
  with assms d ds show ?thesis by (simp add: scan_number_def)
qed

definition lex_toks :: "tok_state \<Rightarrow> tok_state list \<Rightarrow> char option \<Rightarrow> string \<Rightarrow> jtoken list \<times> bool" where
  "lex_toks st stk pk s = (map it_tok (fst (lex st stk pk s)), le_eof (snd (lex st stk pk s)))"

lemma lex_toks_step:
  "lex_step st stk pk s = LTok i st' stk' \<Longrightarrow>
     lex_toks st stk pk s = apfst (Cons (it_tok i)) (lex_toks st' stk' None (it_rest i))"
  "lex_step st stk pk s = LSkip st' p r \<Longrightarrow> lex_toks st stk pk s = lex_toks st' stk (Some p) r"
  "lex_step st stk pk s = LStop e \<Longrightarrow> lex_toks st stk pk s = ([], le_eof e)"
  by (simp_all add: lex_toks_def lex.simps [of st stk pk s])

lemma decoder_tokens_lex: "decoder_tokens s = lex_toks TopValue [] None s"
  by (simp add: decoder_tokens_def decoder_items_def lex_toks_def case_prod_beta Let_def)

definition plain_key :: "string \<Rightarrow> bool" where
  "plain_key k \<longleftrightarrow> (\<forall>c \<in> set k. 32 \<le> byte c \<and> byte c < 128 \<and> c \<noteq> CHR 0x22 \<and> c \<noteq> CHR 0x5C)"

lemma scan_string_plain: "plain_key k \<Longrightarrow> scan_string (k @ CHR 0x22 # r) = Some (k, r)"
  by (induction k) (auto simp: plain_key_def scan_char_def)

lemma not_ws: "byte (CHR 0x22) = 34" "byte (CHR 0x5C) = 92" "byte (CHR '':'') = 58" "byte (CHR '','') = 44" "byte (CHR ''}'') = 125" "byte (CHR ''{'') = 123"
  by (simp_all add: byte_def)

lemma lex_toks_key:
  assumes "st = ObjectStart \<or> st = ObjectKey" "plain_key k"
  shows "lex_toks st stk pk (CHR 0x22 # k @ CHR 0x22 # r) = apfst (Cons (TStr k)) (lex_toks ObjectColon stk None r)"
  using assms by (subst lex_toks_step(1)) (auto simp: lex_step_defs not_ws scan_scalar_def scan_string_plain)

lemma lex_toks_nat:
  assumes "\<not> is_digit c" "c \<noteq> CHR ''.''" "c \<noteq> CHR ''e''" "c \<noteq> CHR ''E''"
  shows "lex_toks ObjectValue stk pk (nat_digits n @ c # r)
    = apfst (Cons (TNum (nat_digits n))) (lex_toks ObjectComma stk None (c # r))"
proof -
  obtain d ds where ds: "nat_digits n = d # ds" by (cases "nat_digits n") auto
  have "is_digit d" using hd_nat_digits [of n] ds by simp
  then have d: "d \<notin> {CHR ''['', CHR ''{'', CHR '']'', CHR ''}'', CHR '':'', CHR '','', CHR 0x22, CHR ''t'', CHR ''f'', CHR ''n''}"
    "byte d \<notin> {9, 10, 13, 32}"
    by (auto simp: is_digit_def byte_def)
  have "scan_scalar (d # ds @ c # r) = Some (TNum (nat_digits n), c # r)"
    using scan_number_nat_digits [OF assms, of n r] d ds by (simp add: scan_scalar_def)
  with d ds show ?thesis
    by (subst lex_toks_step(1)) (auto simp: lex_step_defs value_allowed_def)
qed

lemma lex_toks_punct:
  "lex_toks ObjectColon stk pk (CHR '':'' # r) = lex_toks ObjectValue stk (Some (peeked pk CHR '':'')) r"
  "lex_toks ObjectComma stk pk (CHR '','' # r) = lex_toks ObjectKey stk (Some (peeked pk CHR '','')) r"
  "lex_toks ObjectComma (TopValue # stk) pk ''}'' = ([TDelim CHR ''}''], True)"
  "lex_toks TopValue stk pk (CHR ''{'' # r) = apfst (Cons (TDelim CHR ''{'')) (lex_toks ObjectStart (TopValue # stk) None r)"
proof -
  show "lex_toks ObjectColon stk pk (CHR '':'' # r) = lex_toks ObjectValue stk (Some (peeked pk CHR '':'')) r"
    by (rule lex_toks_step(2)) (simp add: lex_step_defs not_ws)
  show "lex_toks ObjectComma stk pk (CHR '','' # r) = lex_toks ObjectKey stk (Some (peeked pk CHR '','')) r"
    by (rule lex_toks_step(2)) (simp add: lex_step_defs not_ws)
  show "lex_toks TopValue stk pk (CHR ''{'' # r) = apfst (Cons (TDelim CHR ''{'')) (lex_toks ObjectStart (TopValue # stk) None r)"
    by (subst lex_toks_step(1)) (auto simp: lex_step_defs not_ws value_allowed_def)
  have "lex_toks TopValue stk None [] = ([], True)"
    by (subst lex_toks_step(3)) (auto simp: lex_step_defs)
  then show "lex_toks ObjectComma (TopValue # stk) pk ''}'' = ([TDelim CHR ''}''], True)"
    by (subst lex_toks_step(1)) (auto simp: lex_step_defs not_ws)
qed

section \<open>Arrays of plain strings\<close>

definition plain_text :: "string \<Rightarrow> bool" where
  "plain_text s \<longleftrightarrow> plain_key s \<and> (\<forall>c \<in> set s. byte c \<notin> {38, 60, 62})"

lemma byte_eq_iff: "byte c = byte d \<longleftrightarrow> c = d"
  by (simp add: byte_def)

lemma rune_chunks_ascii: "\<forall>c \<in> set s. byte c < 128 \<Longrightarrow> rune_chunks s = map (\<lambda>c. (Some (byte c), [c])) s"
  by (induction s) (auto simp: decode_rune.simps)

lemma quote_plain:
  assumes "plain_text s"
  shows "quote s = CHR 0x22 # s @ [CHR 0x22]"
proof -
  have asc: "\<forall>c \<in> set s. byte c < 128" using assms by (auto simp: plain_text_def plain_key_def)
  have q: "byte c = 34 \<longleftrightarrow> c = CHR 0x22" "byte c = 92 \<longleftrightarrow> c = CHR 0x5C" for c
    using byte_eq_iff [of c "CHR 0x22"] byte_eq_iff [of c "CHR 0x5C"] by (simp_all add: not_ws)
  have "escape_chunk (Some (byte c), [c]) = [c]" if "c \<in> set s" for c
  proof -
    have "32 \<le> byte c" "byte c < 128" "byte c \<noteq> 34" "byte c \<noteq> 92" "byte c \<noteq> 38" "byte c \<noteq> 60" "byte c \<noteq> 62"
      using that assms unfolding plain_text_def plain_key_def q [symmetric] by auto
    then show ?thesis by (simp add: escape_chunk_def)
  qed
  then have "map escape_chunk (rune_chunks s) = map (\<lambda>c. [c]) s"
    by (simp add: rune_chunks_ascii [OF asc])
  then show ?thesis by (simp add: quote_def concat_map_singleton)
qed

lemma marshal_elems_map: "marshal_elems (map JString vs) = map quote vs"
  by (induction vs) auto

lemma tokens_elems_map: "tokens_elems (map JString vs) = map TStr vs"
  by (induction vs) auto

lemma lex_toks_str:
  assumes "st = ArrayStart \<or> st = ArrayValue" "plain_key k"
  shows "lex_toks st stk pk (CHR 0x22 # k @ CHR 0x22 # r) = apfst (Cons (TStr k)) (lex_toks ArrayComma stk None r)"
  using assms
  by (subst lex_toks_step(1)) (auto simp: lex_step_defs not_ws scan_scalar_def scan_string_plain value_allowed_def)

lemma lex_toks_array_punct:
  "lex_toks ArrayComma stk pk (CHR '','' # r) = lex_toks ArrayValue stk (Some (peeked pk CHR '','')) r"
  "st = ArrayStart \<or> st = ArrayComma \<Longrightarrow> lex_toks st (TopValue # stk) pk '']'' = ([TDelim CHR '']''], True)"
  "lex_toks TopValue stk pk (CHR ''['' # r) = apfst (Cons (TDelim CHR ''['')) (lex_toks ArrayStart (TopValue # stk) None r)"
proof -
  have b: "byte (CHR ''['') = 91" "byte (CHR '']'') = 93" by (simp_all add: byte_def)
  show "lex_toks ArrayComma stk pk (CHR '','' # r) = lex_toks ArrayValue stk (Some (peeked pk CHR '','')) r"
    by (rule lex_toks_step(2)) (simp add: lex_step_defs not_ws)
  show "lex_toks TopValue stk pk (CHR ''['' # r) = apfst (Cons (TDelim CHR ''['')) (lex_toks ArrayStart (TopValue # stk) None r)"
    by (subst lex_toks_step(1)) (auto simp: lex_step_defs b value_allowed_def)
  have "lex_toks TopValue stk None [] = ([], True)"
    by (subst lex_toks_step(3)) (auto simp: lex_step_defs)
  then show "st = ArrayStart \<or> st = ArrayComma \<Longrightarrow> lex_toks st (TopValue # stk) pk '']'' = ([TDelim CHR '']''], True)"
    by (subst lex_toks_step(1)) (auto simp: lex_step_defs b)
qed

lemma lex_toks_strings:
  "vs \<noteq> [] \<Longrightarrow> \<forall>v \<in> set vs. plain_text v \<Longrightarrow> st = ArrayStart \<or> st = ArrayValue \<Longrightarrow>
     lex_toks st [TopValue] pk (join '','' (map quote vs) @ '']'') = (map TStr vs @ [TDelim CHR '']''], True)"
proof (induction vs arbitrary: st pk)
  case (Cons v vs)
  have v: "plain_key v" "quote v = CHR 0x22 # v @ [CHR 0x22]"
    using Cons.prems(2) by (auto simp: plain_text_def quote_plain)
  show ?case
  proof (cases vs)
    case Nil
    with v Cons.prems(3) show ?thesis
      using lex_toks_str [OF Cons.prems(3) v(1), of "[TopValue]" pk "'']''"] by (simp add: lex_toks_array_punct)
  next
    case (Cons w ws)
    have "lex_toks ArrayValue [TopValue] (Some CHR '','') (join '','' (map quote vs) @ '']'') = (map TStr vs @ [TDelim CHR '']''], True)"
      using Cons Cons.prems(2) by (intro Cons.IH) auto
    then show ?thesis
      using lex_toks_str [OF Cons.prems(3) v(1), of "[TopValue]" pk "'','' @ join '','' (map quote vs) @ '']''"] v Cons
      by (simp add: lex_toks_array_punct peeked_def)
  qed
qed simp

lemma decoder_tokens_string_array:
  assumes "\<forall>v \<in> set vs. plain_text v"
  shows "decoder_tokens (marshal (JArray (map JString vs))) = (tokens_of (JArray (map JString vs)), True)"
proof (cases "vs = []")
  case True
  then show ?thesis by (simp add: decoder_tokens_lex lex_toks_array_punct)
next
  case False
  then show ?thesis
    using lex_toks_strings [OF False assms, of ArrayStart None]
    by (simp add: decoder_tokens_lex lex_toks_array_punct marshal_elems_map tokens_elems_map)
qed

end
