(* ===== verification/Event_Query.thy ===== *)
theory Event_Query
  imports Raw_Events Go_Base64 Go_Json_Text
begin

text \<open>
  \<^verbatim>\<open>internal/eventstore/query.go\<close>: cursor-based pagination over a snapshot of \<^verbatim>\<open>raw_events\<close>
  (\<^verbatim>\<open>QueryPage\<close>, \<^verbatim>\<open>encodeCursor\<close>, \<^verbatim>\<open>decodeCursor\<close>) and the revision family of one
  ActivityWatch event (\<^verbatim>\<open>QueryEventFamily\<close>).  Proved: cursors survive their encoding, and a
  client that follows the cursors reads every event of the snapshot exactly once, in
  order, even while batches are being appended.
\<close>

abbreviation (input) "CodePageLimitInvalid \<equiv> ''QUERY_PAGE_LIMIT_INVALID''"
abbreviation (input) "CodeCursorInvalid \<equiv> ''QUERY_CURSOR_INVALID''"

section \<open>Data\<close>

record Event =
  e_ID :: int
  e_CollectorID :: string
  e_EventType :: string
  e_DeviceTimestampRaw :: string
  e_DeviceTimeUTC :: string
  e_ReceivedAtUTC :: string
  e_ClockOffsetMS :: int
  e_ClockErrorMS :: int
  e_IdempotencyKey :: string
  e_Payload :: string
  e_PayloadHash :: string
  e_SchemaVersion :: int

record Page =
  pg_SnapshotID :: int
  pg_Events :: "Event list"
  pg_NextCursor :: string

record pageCursor =
  cur_Version :: int
  cur_SnapshotID :: int
  cur_LastID :: int

definition scanEvent :: "raw_row \<Rightarrow> Event" where
  "scanEvent w =
     \<lparr>e_ID = row_id w, e_CollectorID = ev_CollectorID (row_event w), e_EventType = ev_EventType (row_event w),
      e_DeviceTimestampRaw = ev_DeviceTimestampRaw (row_event w), e_DeviceTimeUTC = ev_DeviceTimeUTC (row_event w),
      e_ReceivedAtUTC = ev_ReceivedAtUTC (row_event w), e_ClockOffsetMS = ev_ClockOffsetMS (row_event w),
      e_ClockErrorMS = ev_ClockErrorMS (row_event w), e_IdempotencyKey = ev_IdempotencyKey (row_event w),
      e_Payload = ev_PayloadJSON (row_event w), e_PayloadHash = ev_PayloadHash (row_event w),
      e_SchemaVersion = ev_SchemaVersion (row_event w)\<rparr>"

section \<open>Cursors\<close>

definition encodeCursor :: "pageCursor \<Rightarrow> string" where
  "encodeCursor c =
     b64_encode (marshal_struct
       [(''v'', int_digits (cur_Version c)), (''snapshot_id'', int_digits (cur_SnapshotID c)),
        (''last_id'', int_digits (cur_LastID c))])"

definition setCursorField :: "string \<Rightarrow> jitem list \<Rightarrow> pageCursor \<Rightarrow> pageCursor option" where
  "setCursorField name v st =
     (if name = ''v'' then map_option (\<lambda>x. st\<lparr>cur_Version := x\<rparr>) (dec_int v (cur_Version st))
      else if name = ''snapshot_id'' then map_option (\<lambda>x. st\<lparr>cur_SnapshotID := x\<rparr>) (dec_int v (cur_SnapshotID st))
      else if name = ''last_id'' then map_option (\<lambda>x. st\<lparr>cur_LastID := x\<rparr>) (dec_int v (cur_LastID st))
      else None)"

definition cursorFields :: "string list" where
  "cursorFields = [''v'', ''snapshot_id'', ''last_id'']"

definition cursor_error :: "go_error" where
  "cursor_error = StoreErr CodeCursorInvalid ''query cursor''"

definition decodeCursor :: "string \<Rightarrow> go_error + pageCursor" where
  "decodeCursor value =
     bind_result (guard_result (length value \<le> 512) cursor_error) (\<lambda>_.
     bind_result (require_some (b64_decode value) cursor_error) (\<lambda>raw.
     bind_result (require_some (decode_value raw) cursor_error) (\<lambda>(v, d).
     bind_result (require_some (decode_struct cursorFields setCursorField v
         \<lparr>cur_Version = 0, cur_SnapshotID = 0, cur_LastID = 0\<rparr>) cursor_error) (\<lambda>cursor.
     bind_result (guard_result (ensureJSONEOF d) cursor_error) (\<lambda>_.
     bind_result (guard_result (\<not> (cur_Version cursor \<noteq> 1 \<or> cur_SnapshotID cursor < 0 \<or> cur_LastID cursor < 0
         \<or> cur_LastID cursor > cur_SnapshotID cursor)) cursor_error) (\<lambda>_. Inr cursor))))))"

section \<open>Pages\<close>

definition max_row_id :: "raw_row list \<Rightarrow> int" where
  "max_row_id rows = foldr (\<lambda>w m. max (row_id w) m) rows 0"

text \<open>\<^verbatim>\<open>SELECT ... WHERE id > ? AND id <= ? ORDER BY id ASC LIMIT ?\<close>.\<close>

definition selectPage :: "int \<Rightarrow> int \<Rightarrow> int \<Rightarrow> raw_row list \<Rightarrow> raw_row list" where
  "selectPage lastID snapshotID lim rows =
     take (nat lim) (sort_key row_id (filter (\<lambda>w. lastID < row_id w \<and> row_id w \<le> snapshotID) rows))"

definition QueryPage :: "store_cfg \<Rightarrow> faults \<Rightarrow> string \<Rightarrow> int \<Rightarrow> raw_row list \<Rightarrow> go_error + Page" where
  "QueryPage C flt cursorText lim rows =
     bind_result (guard_result (\<not> (lim < 1 \<or> lim > maxPageSize C)) (StoreErr CodePageLimitInvalid ''query page'')) (\<lambda>_.
     bind_result (db_call flt CodeQueryFailed ''begin event query'' 0) (\<lambda>_.
     bind_result
       (if cursorText = []
        then bind_result (db_call flt CodeQueryFailed ''create query snapshot'' 0)
               (\<lambda>_. Inr \<lparr>cur_Version = 1, cur_SnapshotID = max_row_id rows, cur_LastID = 0\<rparr>)
        else decodeCursor cursorText) (\<lambda>cursor.
     bind_result (db_call flt CodeQueryFailed ''query raw events'' 0) (\<lambda>_.
     let found = selectPage (cur_LastID cursor) (cur_SnapshotID cursor) (lim + 1) rows in
     bind_result (db_read flt CodeQueryFailed ''scan raw event'' 0) (\<lambda>_.
     bind_result (db_call flt CodeQueryFailed ''iterate event query'' 0) (\<lambda>_.
     bind_result (db_read flt CodeQueryFailed ''close event query'' 0) (\<lambda>_.
     let page = (if int (length found) > lim then take (nat lim) found else found);
         nextCursor = (if int (length found) > lim
           then encodeCursor \<lparr>cur_Version = 1, cur_SnapshotID = cur_SnapshotID cursor, cur_LastID = row_id (last page)\<rparr>
           else []) in
     bind_result (db_call flt CodeQueryFailed ''finish event query'' 0) (\<lambda>_.
       Inr \<lparr>pg_SnapshotID = cur_SnapshotID cursor, pg_Events = map scanEvent page, pg_NextCursor = nextCursor\<rparr>))))))))"

text \<open>SQLite's \<^verbatim>\<open>substr(X, 1, n)\<close> counts characters, not bytes.\<close>

definition sql_substr :: "string \<Rightarrow> nat \<Rightarrow> string" where
  "sql_substr s n = concat (map snd (take n (rune_chunks s)))"

definition QueryEventFamily :: "faults \<Rightarrow> string \<Rightarrow> string \<Rightarrow> raw_row list \<Rightarrow> go_error + Event list" where
  "QueryEventFamily flt collectorID baseIdempotencyKey rows =
     (let pre = baseIdempotencyKey @ '':duration:'';
          found = take 1025 (sort_key row_id (filter (\<lambda>w. ev_CollectorID (row_event w) = collectorID
            \<and> (ev_IdempotencyKey (row_event w) = baseIdempotencyKey
               \<or> sql_substr (ev_IdempotencyKey (row_event w)) (length pre) = pre)) rows)) in
      bind_result (db_call flt CodeQueryFailed ''query raw event family'' 0) (\<lambda>_.
      bind_result (db_read flt CodeQueryFailed ''scan raw event family'' 0) (\<lambda>_.
      bind_result (db_call flt CodeQueryFailed ''iterate raw event family'' 0) (\<lambda>_.
      bind_result (guard_result (length found \<le> 1024) (StoreErr CodeQueryFailed ''raw event family'')) (\<lambda>_.
        Inr (map scanEvent found))))))"

section \<open>Cursors survive their encoding\<close>

lemma cursor_text:
  assumes "cur_Version c = 1" "0 \<le> cur_SnapshotID c" "0 \<le> cur_LastID c"
  shows "marshal_struct
       [(''v'', int_digits (cur_Version c)), (''snapshot_id'', int_digits (cur_SnapshotID c)),
        (''last_id'', int_digits (cur_LastID c))]
     = CHR ''{'' # CHR 0x22 # ''v'' @ CHR 0x22 # CHR '':'' # nat_digits 1 @ CHR '','' #
       CHR 0x22 # ''snapshot_id'' @ CHR 0x22 # CHR '':'' # nat_digits (nat (cur_SnapshotID c)) @ CHR '','' #
       CHR 0x22 # ''last_id'' @ CHR 0x22 # CHR '':'' # nat_digits (nat (cur_LastID c)) @ ''}''"
proof -
  have q: "quote ''v'' = CHR 0x22 # ''v'' @ [CHR 0x22]" "quote ''snapshot_id'' = CHR 0x22 # ''snapshot_id'' @ [CHR 0x22]"
    "quote ''last_id'' = CHR 0x22 # ''last_id'' @ [CHR 0x22]"
    by code_simp+
  show ?thesis using assms by (simp add: marshal_struct_def q int_digits_def)
qed

lemma cursor_tokens:
  assumes "cur_Version c = 1" "0 \<le> cur_SnapshotID c" "0 \<le> cur_LastID c"
  shows "decoder_tokens (marshal_struct
       [(''v'', int_digits (cur_Version c)), (''snapshot_id'', int_digits (cur_SnapshotID c)),
        (''last_id'', int_digits (cur_LastID c))])
    = ([TDelim CHR ''{'', TStr ''v'', TNum (nat_digits 1), TStr ''snapshot_id'', TNum (nat_digits (nat (cur_SnapshotID c))),
        TStr ''last_id'', TNum (nat_digits (nat (cur_LastID c))), TDelim CHR ''}''], True)"
proof -
  have k: "plain_key ''v''" "plain_key ''snapshot_id''" "plain_key ''last_id''" by code_simp+
  have p: "\<not> is_digit CHR '',''" "\<not> is_digit CHR ''}''" by (simp_all add: is_digit_def)
  show ?thesis
    unfolding cursor_text [OF assms]
    by (simp only: decoder_tokens_lex lex_toks_punct lex_toks_key [OF _ k(1)] lex_toks_key [OF _ k(2)] lex_toks_key [OF _ k(3)]
        lex_toks_nat [OF p(1)] lex_toks_nat [OF p(2)] char.inject simp_thms apfst_conv)
qed


definition cursor_ok :: "pageCursor \<Rightarrow> bool" where
  "cursor_ok c \<longleftrightarrow> cur_Version c = 1 \<and> 0 \<le> cur_LastID c \<and> cur_LastID c \<le> cur_SnapshotID c \<and> cur_SnapshotID c \<le> int64_max"

lemma parse_int64_nat: "int n \<le> int64_max \<Longrightarrow> parse_int64 (nat_digits n) = Some (int n)"
  using parse_int64_int_digits [of "int n"] by (simp add: int_digits_def int64_min_def)

lemma decode_cursor_value:
  assumes "cursor_ok c"
    and "decoder_tokens raw = ([TDelim CHR ''{'', TStr ''v'', TNum (nat_digits 1), TStr ''snapshot_id'',
        TNum (nat_digits (nat (cur_SnapshotID c))), TStr ''last_id'', TNum (nat_digits (nat (cur_LastID c))), TDelim CHR ''}''], True)"
  shows "\<exists>v d. decode_value raw = Some (v, d) \<and> ensureJSONEOF d
    \<and> decode_struct cursorFields setCursorField v \<lparr>cur_Version = 0, cur_SnapshotID = 0, cur_LastID = 0\<rparr> = Some c"
proof -
  obtain its e where d: "decoder_items raw = (its, e)" by fastforce
  with assms(2) have "le_eof e" "map it_tok its = [TDelim CHR ''{'', TStr ''v'', TNum (nat_digits 1), TStr ''snapshot_id'',
        TNum (nat_digits (nat (cur_SnapshotID c))), TStr ''last_id'', TNum (nat_digits (nat (cur_LastID c))), TDelim CHR ''}'']"
    by (simp_all add: decoder_tokens_def)
  then obtain i0 i1 i2 i3 i4 i5 i6 i7 where its: "its = [i0, i1, i2, i3, i4, i5, i6, i7]"
    and t: "it_tok i0 = TDelim CHR ''{''" "it_tok i1 = TStr ''v''" "it_tok i2 = TNum (nat_digits 1)"
    "it_tok i3 = TStr ''snapshot_id''" "it_tok i4 = TNum (nat_digits (nat (cur_SnapshotID c)))"
    "it_tok i5 = TStr ''last_id''" "it_tok i6 = TNum (nat_digits (nat (cur_LastID c)))" "it_tok i7 = TDelim CHR ''}''"
    by (auto simp: map_eq_Cons_conv)
  have sp: "split_value 0 its = Some (its, [])" "nesting 0 its = 1"
    by (simp_all add: its t is_open_def is_close_def)
  have nn: "map it_tok its \<noteq> [TNull]" by (simp add: its)
  have mem: "value_members its = Some [(''v'', [i2]), (''snapshot_id'', [i4]), (''last_id'', [i6])]"
    by (simp add: value_members_def its t is_open_def is_close_def)
  have ints: "dec_int [i2] a = Some 1" "dec_int [i4] a = Some (cur_SnapshotID c)" "dec_int [i6] a = Some (cur_LastID c)" for a
    using assms(1) parse_int64_nat [of 1] parse_int64_nat [of "nat (cur_SnapshotID c)"] parse_int64_nat [of "nat (cur_LastID c)"]
    by (auto simp: dec_int_def t cursor_ok_def int64_max_def)
  have "decode_struct cursorFields setCursorField its \<lparr>cur_Version = 0, cur_SnapshotID = 0, cur_LastID = 0\<rparr> = Some c"
    using assms(1) nn
    by (cases c) (simp add: decode_struct_def mem resolve_field_def cursorFields_def setCursorField_def ints cursor_ok_def)
  with sp d \<open>le_eof e\<close> show ?thesis
    by (simp add: decode_value_def ensureJSONEOF_def max_nesting_depth_def)
qed

lemma nat_digits_le19: "int n \<le> int64_max \<Longrightarrow> length (nat_digits n) \<le> 19"
  by (rule nat_digits_length) (simp_all add: int64_max_def)

lemma cursor_roundtrip: "cursor_ok c \<Longrightarrow> decodeCursor (encodeCursor c) = Inr c"
proof -
  assume ok: "cursor_ok c"
  then have nn: "cur_Version c = 1" "0 \<le> cur_SnapshotID c" "0 \<le> cur_LastID c" by (auto simp: cursor_ok_def)
  let ?raw = "marshal_struct [(''v'', int_digits (cur_Version c)), (''snapshot_id'', int_digits (cur_SnapshotID c)),
        (''last_id'', int_digits (cur_LastID c))]"
  have "length (nat_digits 1) \<le> 19" "length (nat_digits (nat (cur_SnapshotID c))) \<le> 19" "length (nat_digits (nat (cur_LastID c))) \<le> 19"
    using ok by (auto simp: cursor_ok_def int64_max_def intro!: nat_digits_le19)
  then have "length ?raw \<le> 100" unfolding cursor_text [OF nn] by simp
  then have len: "length (encodeCursor c) \<le> 512"
    using b64_length [of ?raw] by (simp add: encodeCursor_def)
  from decode_cursor_value [OF ok cursor_tokens [OF nn]] obtain v d where
    "decode_value ?raw = Some (v, d)" "ensureJSONEOF d"
    "decode_struct cursorFields setCursorField v \<lparr>cur_Version = 0, cur_SnapshotID = 0, cur_LastID = 0\<rparr> = Some c"
    by blast
  with len ok show ?thesis
    by (simp add: decodeCursor_def encodeCursor_def [of c] b64_roundtrip cursor_ok_def)
qed

lemma b64_encode_Nil_iff [simp]: "b64_encode s = [] \<longleftrightarrow> s = []"
  by (cases s rule: b64_encode.cases) auto

lemma encodeCursor_not_Nil [simp]: "encodeCursor c \<noteq> []"
  by (simp add: encodeCursor_def marshal_struct_def)

section \<open>Following the cursors\<close>

lemma max_row_id_ge: "w \<in> set rows \<Longrightarrow> row_id w \<le> max_row_id rows"
  unfolding max_row_id_def by (induction rows) auto

lemma max_row_id_nonneg: "0 \<le> max_row_id rows"
  unfolding max_row_id_def by (induction rows) auto

lemma max_row_id_mem: "max_row_id rows = 0 \<or> (\<exists>w \<in> set rows. max_row_id rows = row_id w)"
  unfolding max_row_id_def by (induction rows) (auto simp: max_def)

lemma log_ok_ids: "log_ok row_id row_key rows \<Longrightarrow> sorted_wrt (<) (map row_id rows) \<and> (\<forall>w \<in> set rows. 1 \<le> row_id w)"
  by (simp add: log_ok_def list_all_iff)

lemma sort_key_sorted:
  fixes f :: "'a \<Rightarrow> int"
  assumes "sorted_wrt (<) (map f xs)"
  shows "sort_key f (filter P xs) = filter P xs"
proof (rule sort_key_id_if_sorted)
  have "sorted_wrt (\<lambda>x y. f x < f y) (filter P xs)"
    using assms by (intro sorted_wrt_filter) (simp add: sorted_wrt_map)
  then show "sorted (map f (filter P xs))"
    unfolding sorted_wrt_map by (rule sorted_wrt_mono_rel [rotated]) simp
qed

lemma snapshot_filter:
  assumes "log_ok row_id row_key (t @ new)"
  shows "filter (\<lambda>w. l < row_id w \<and> row_id w \<le> max_row_id t) (t @ new) = filter (\<lambda>w. l < row_id w) t"
proof -
  have "filter (\<lambda>w. l < row_id w \<and> row_id w \<le> max_row_id t) new = []"
    using log_ok_ids [OF assms] max_row_id_mem [of t]
    by (auto simp: filter_empty_conv sorted_wrt_append) force+
  moreover have "filter (\<lambda>w. l < row_id w \<and> row_id w \<le> max_row_id t) t = filter (\<lambda>w. l < row_id w) t"
    by (auto intro: filter_cong simp: max_row_id_ge)
  ultimately show ?thesis by simp
qed

lemma filter_after_prefix:
  fixes f :: "'a \<Rightarrow> 'b :: linorder"
  assumes "sorted_wrt (<) (map f xs)" "0 < n" "n \<le> length xs"
  shows "filter (\<lambda>w. f (last (take n xs)) < f w) xs = drop n xs"
proof -
  define ys zs where "ys = take n xs" and "zs = drop n xs"
  have xs: "xs = ys @ zs" "ys \<noteq> []" using assms(2,3) by (auto simp: ys_def zs_def)
  have "\<forall>y \<in> set ys. f y \<le> f (last ys)"
  proof -
    have "sorted_wrt (\<le>) (map f ys)" using assms(1) xs(1)
      by (auto simp: sorted_wrt_append elim: sorted_wrt_mono_rel [rotated])
    then show ?thesis using xs(2)
      by (induction ys) (auto simp: last_in_set)
  qed
  then have "filter (\<lambda>w. f (last ys) < f w) ys = []" by (auto simp: filter_empty_conv)
  moreover have "filter (\<lambda>w. f (last ys) < f w) zs = zs"
    using assms(1) xs last_in_set [OF xs(2)] by (auto simp: filter_id_conv sorted_wrt_append)
  ultimately show ?thesis unfolding ys_def [symmetric] zs_def [symmetric] by (subst xs(1)) simp
qed

text \<open>A client that requests page after page, each against the table as it is by then.\<close>

fun drain :: "store_cfg \<Rightarrow> int \<Rightarrow> string \<Rightarrow> raw_row list list \<Rightarrow> Event list option" where
  "drain C lim cursor [] = None"
| "drain C lim cursor (t # ts) =
     (case QueryPage C no_faults cursor lim t of
        Inl e \<Rightarrow> None
      | Inr p \<Rightarrow>
          if pg_NextCursor p = [] then Some (pg_Events p)
          else map_option ((@) (pg_Events p)) (drain C lim (pg_NextCursor p) ts))"

lemma QueryPage_no_faults:
  assumes "1 \<le> lim" "lim \<le> maxPageSize C"
    and "(if cursor = [] then Inr \<lparr>cur_Version = 1, cur_SnapshotID = max_row_id t, cur_LastID = 0\<rparr>
          else decodeCursor cursor) = Inr \<lparr>cur_Version = 1, cur_SnapshotID = snap, cur_LastID = l\<rparr>"
    and "sorted_wrt (<) (map row_id t)"
    and rem: "filter (\<lambda>w. l < row_id w \<and> row_id w \<le> snap) t = rem"
  shows "QueryPage C no_faults cursor lim t = Inr
    (if int (length rem) \<le> lim then \<lparr>pg_SnapshotID = snap, pg_Events = map scanEvent rem, pg_NextCursor = []\<rparr>
     else \<lparr>pg_SnapshotID = snap, pg_Events = map scanEvent (take (nat lim) rem),
           pg_NextCursor = encodeCursor \<lparr>cur_Version = 1, cur_SnapshotID = snap, cur_LastID = row_id (last (take (nat lim) rem))\<rparr>\<rparr>)"
proof -
  have sel: "selectPage l snap (lim + 1) t = take (nat (lim + 1)) rem"
    using sort_key_sorted [OF assms(4), of "\<lambda>w. l < row_id w \<and> row_id w \<le> snap"]
    unfolding selectPage_def rem by simp
  have tk: "take (nat (lim + 1)) rem = rem" if "int (length rem) \<le> lim" using that by simp
  have tk2: "take (nat lim) (take (nat (lim + 1)) rem) = take (nat lim) rem" by (simp add: min_def)
  have len: "int (length (take (nat (lim + 1)) rem)) > lim \<longleftrightarrow> \<not> int (length rem) \<le> lim"
    using assms(1) by (simp add: min_def) linarith
  have cur: "(if cursor = [] then bind_result (db_call no_faults CodeQueryFailed ''create query snapshot'' 0)
        (\<lambda>_. Inr \<lparr>cur_Version = 1, cur_SnapshotID = max_row_id t, cur_LastID = 0\<rparr>) else decodeCursor cursor)
      = Inr \<lparr>cur_Version = 1, cur_SnapshotID = snap, cur_LastID = l\<rparr>"
    using assms(3) by (simp split: if_splits)
  show ?thesis
    unfolding QueryPage_def cur using assms(1,2)
    by (cases "int (length rem) \<le> lim") (simp_all add: sel Let_def len tk tk2)
qed

lemma drain_rest:
  assumes lim: "1 \<le> lim" "lim \<le> maxPageSize C" and t: "log_ok row_id row_key t" "max_row_id t \<le> int64_max"
  shows "\<forall>u \<in> set us. log_ok row_id row_key u \<and> prefix t u \<Longrightarrow> us \<noteq> [] \<Longrightarrow>
    int (length (filter (\<lambda>w. l < row_id w) t)) \<le> lim * int (length us) \<Longrightarrow>
    (cursor = [] \<and> l = 0 \<and> hd us = t) \<or> (cursor = encodeCursor \<lparr>cur_Version = 1, cur_SnapshotID = max_row_id t, cur_LastID = l\<rparr>
       \<and> 0 \<le> l \<and> l \<le> max_row_id t) \<Longrightarrow>
    drain C lim cursor us = Some (map scanEvent (filter (\<lambda>w. l < row_id w) t))"
proof (induction us arbitrary: l cursor)
  case (Cons u us)
  let ?rem = "filter (\<lambda>w. l < row_id w) t"
  obtain new where new: "u = t @ new" "log_ok row_id row_key u" using Cons.prems(1) by (auto simp: prefix_def)
  have cur: "(if cursor = [] then Inr \<lparr>cur_Version = 1, cur_SnapshotID = max_row_id u, cur_LastID = 0\<rparr>
      else decodeCursor cursor) = Inr \<lparr>cur_Version = 1, cur_SnapshotID = max_row_id t, cur_LastID = l\<rparr>"
    using Cons.prems(4) t(2) by (auto simp: cursor_roundtrip cursor_ok_def)
  have page: "QueryPage C no_faults cursor lim u = Inr
    (if int (length ?rem) \<le> lim then \<lparr>pg_SnapshotID = max_row_id t, pg_Events = map scanEvent ?rem, pg_NextCursor = []\<rparr>
     else \<lparr>pg_SnapshotID = max_row_id t, pg_Events = map scanEvent (take (nat lim) ?rem),
           pg_NextCursor = encodeCursor \<lparr>cur_Version = 1, cur_SnapshotID = max_row_id t, cur_LastID = row_id (last (take (nat lim) ?rem))\<rparr>\<rparr>)"
    using snapshot_filter [of t new l] new log_ok_ids [OF new(2)]
    by (intro QueryPage_no_faults [OF lim cur]) simp_all
  show ?case
  proof (cases "int (length ?rem) \<le> lim")
    case True
    with page show ?thesis by simp
  next
    case False
    let ?l = "row_id (last (take (nat lim) ?rem))"
    have srt: "sorted_wrt (<) (map row_id ?rem)"
      using log_ok_ids [OF t(1)] by (simp add: sorted_wrt_map sorted_wrt_filter)
    have dr: "filter (\<lambda>w. ?l < row_id w) ?rem = drop (nat lim) ?rem"
      using False lim(1) by (intro filter_after_prefix [OF srt]) auto
    have last_in: "last (take (nat lim) ?rem) \<in> set ?rem"
    proof -
      have "take (nat lim) ?rem \<noteq> []" using False lim(1) by auto
      then show ?thesis by (metis last_in_set in_set_takeD)
    qed
    then have "l < ?l" "?l \<le> max_row_id t" "last (take (nat lim) ?rem) \<in> set t" by (auto simp: max_row_id_ge)
    have "filter (\<lambda>w. ?l < row_id w) t = filter (\<lambda>w. ?l < row_id w) ?rem"
      unfolding filter_filter using \<open>l < ?l\<close> by (intro filter_cong) auto
    then have rest: "filter (\<lambda>w. ?l < row_id w) t = drop (nat lim) ?rem"
      unfolding dr .
    have "0 \<le> ?l" using \<open>last (take (nat lim) ?rem) \<in> set t\<close> log_ok_ids [OF t(1)] by force
    have "us \<noteq> []" using Cons.prems(3) False by (cases us) auto
    moreover have "int (length (filter (\<lambda>w. ?l < row_id w) t)) \<le> lim * int (length us)"
      unfolding rest using Cons.prems(3) False lim(1) by (simp add: algebra_simps)
    ultimately have "drain C lim (encodeCursor \<lparr>cur_Version = 1, cur_SnapshotID = max_row_id t, cur_LastID = ?l\<rparr>) us
        = Some (map scanEvent (filter (\<lambda>w. ?l < row_id w) t))"
      using Cons.prems(1) \<open>0 \<le> ?l\<close> \<open>?l \<le> max_row_id t\<close> by (intro Cons.IH) simp_all
    with page False rest show ?thesis by (simp flip: map_append)
  qed
qed simp

section \<open>Properties\<close>

text \<open>
  C9: Pagination is complete and duplicate-free under concurrent appends: a client that starts
  without a cursor and follows \<^verbatim>\<open>next_cursor\<close>, while batches extend the table between its
  requests, reads exactly the events of the first snapshot, each once, in id order.
\<close>

theorem pagination_complete:
  assumes "1 \<le> lim" "lim \<le> maxPageSize C"
    and "log_ok row_id row_key t" "max_row_id t \<le> int64_max"
    and "\<forall>u \<in> set later. log_ok row_id row_key u \<and> prefix t u"
    and "int (length t) \<le> lim * int (Suc (length later))"
  shows "drain C lim [] (t # later) = Some (map scanEvent t)"
proof -
  have all: "filter (\<lambda>w. 0 < row_id w) t = t"
    using log_ok_ids [OF assms(3)] by (auto simp: filter_id_conv)
  have "drain C lim [] (t # later) = Some (map scanEvent (filter (\<lambda>w. 0 < row_id w) t))"
    using assms by (intro drain_rest) (auto simp: all)
  then show ?thesis by (simp add: all)
qed

text \<open>Two events read in pages of one while a third is appended.\<close>

theorem pagination_complete_witness:
  "drain sample_cfg 1 [] [map (\<lambda>i. \<lparr>row_id = i, row_event = sample_event\<lparr>ev_IdempotencyKey := nat_digits (nat i)\<rparr>\<rparr>) [1, 2],
      map (\<lambda>i. \<lparr>row_id = i, row_event = sample_event\<lparr>ev_IdempotencyKey := nat_digits (nat i)\<rparr>\<rparr>) [1, 2, 3]]
    = Some (map scanEvent (map (\<lambda>i. \<lparr>row_id = i, row_event = sample_event\<lparr>ev_IdempotencyKey := nat_digits (nat i)\<rparr>\<rparr>) [1, 2]))"
proof (rule pagination_complete)
  have d: "nat_digits (Suc 0) = ''1''" "nat_digits 2 = ''2''" "nat_digits 3 = ''3''" by code_simp+
  show "log_ok row_id row_key (map (\<lambda>i. \<lparr>row_id = i, row_event = sample_event\<lparr>ev_IdempotencyKey := nat_digits (nat i)\<rparr>\<rparr>) [1, 2])"
    by (simp add: log_ok_def row_key_def d)
  show "\<forall>u \<in> set [map (\<lambda>i. \<lparr>row_id = i, row_event = sample_event\<lparr>ev_IdempotencyKey := nat_digits (nat i)\<rparr>\<rparr>) [1, 2, 3]].
      log_ok row_id row_key u
      \<and> prefix (map (\<lambda>i. \<lparr>row_id = i, row_event = sample_event\<lparr>ev_IdempotencyKey := nat_digits (nat i)\<rparr>\<rparr>) [1, 2]) u"
    by (simp add: log_ok_def row_key_def d)
qed (simp_all add: sample_cfg_def max_row_id_def int64_max_def)

text \<open>
  A cursor survives its encoding: decoding what \<^verbatim>\<open>encodeCursor\<close> produced for a cursor with
  0 <= last id <= snapshot id returns that cursor, within the 512-byte limit.
\<close>

theorem cursor_encoding_roundtrip:
  assumes "cur_Version c = 1" "0 \<le> cur_LastID c" "cur_LastID c \<le> cur_SnapshotID c" "cur_SnapshotID c \<le> int64_max"
  shows "decodeCursor (encodeCursor c) = Inr c"
  using assms by (intro cursor_roundtrip) (simp add: cursor_ok_def)

text \<open>A concrete cursor.\<close>

theorem cursor_encoding_roundtrip_witness:
  "decodeCursor (encodeCursor \<lparr>cur_Version = 1, cur_SnapshotID = 41, cur_LastID = 7\<rparr>)
     = Inr \<lparr>cur_Version = 1, cur_SnapshotID = 41, cur_LastID = 7\<rparr>"
  by (rule cursor_encoding_roundtrip) (simp_all add: int64_max_def)

end
