(* ===== verification/Heartbeats.thy ===== *)
theory Heartbeats
  imports Raw_Events Go_Json_Text
begin

text \<open>
  \<^verbatim>\<open>internal/eventstore/heartbeat.go\<close>: validation of collector heartbeats
  (\<^verbatim>\<open>prepareHeartbeat\<close>, \<^verbatim>\<open>normalizeQualityFlags\<close>, \<^verbatim>\<open>parseKnownOffsetTime\<close>) and their
  transactional, idempotent append to \<^verbatim>\<open>collector_heartbeats\<close>, which is the second provider
  of the idempotent log.
\<close>

abbreviation (input) "HeartbeatStateActive \<equiv> ''active''"
abbreviation (input) "HeartbeatStateIdle \<equiv> ''idle''"
abbreviation (input) "CodeHeartbeatTooLarge \<equiv> ''HEARTBEAT_TOO_LARGE''"
abbreviation (input) "CodeHeartbeatJSONInvalid \<equiv> ''HEARTBEAT_JSON_INVALID''"
abbreviation (input) "CodeHeartbeatSchemaInvalid \<equiv> ''HEARTBEAT_SCHEMA_UNSUPPORTED''"
abbreviation (input) "CodeHeartbeatCollector \<equiv> ''HEARTBEAT_COLLECTOR_INVALID''"
abbreviation (input) "CodeHeartbeatState \<equiv> ''HEARTBEAT_STATE_INVALID''"
abbreviation (input) "CodeHeartbeatTime \<equiv> ''HEARTBEAT_TIME_INVALID''"
abbreviation (input) "CodeHeartbeatDuration \<equiv> ''HEARTBEAT_DURATION_INVALID''"
abbreviation (input) "CodeHeartbeatClock \<equiv> ''HEARTBEAT_CLOCK_INVALID''"
abbreviation (input) "CodeHeartbeatIdempotency \<equiv> ''HEARTBEAT_IDEMPOTENCY_KEY_INVALID''"
abbreviation (input) "CodeHeartbeatQuality \<equiv> ''HEARTBEAT_QUALITY_FLAGS_INVALID''"
abbreviation (input) "CodeHeartbeatConflict \<equiv> ''HEARTBEAT_IDEMPOTENCY_CONFLICT''"

definition HeartbeatSchemaVersion :: int where "HeartbeatSchemaVersion = 1"

section \<open>Data\<close>

record HeartbeatWriteResult =
  hr_Index :: nat
  hr_Status :: string
  HeartbeatID :: int
  hr_ErrorCode :: string

record heartbeatInput =
  hi_SchemaVersion :: int
  hi_CollectorID :: string
  hi_State :: string
  hi_DeviceStartRaw :: string
  hi_DeviceEndRaw :: string
  hi_ClockOffsetMS :: "int option"
  hi_ClockErrorMS :: "int option"
  hi_IdempotencyKey :: string
  hi_QualityFlags :: "string list option"

definition heartbeatInputJSONFields :: "string list" where
  "heartbeatInputJSONFields =
     [''schema_version'', ''collector_id'', ''state'', ''device_start_raw'', ''device_end_raw'',
      ''clock_offset_ms'', ''clock_error_ms'', ''idempotency_key'', ''quality_flags'']"

record preparedHeartbeat =
  hb_SchemaVersion :: int
  hb_CollectorID :: string
  hb_State :: string
  hb_DeviceStartRaw :: string
  hb_DeviceEndRaw :: string
  hb_DeviceStartUTC :: string
  hb_DeviceEndUTC :: string
  hb_ReceivedAtUTC :: string
  hb_CorrectedStartUTC :: string
  hb_CorrectedEndUTC :: string
  hb_ClockOffsetMS :: int
  hb_ClockErrorMS :: int
  hb_IdempotencyKey :: string
  hb_QualityFlagsJSON :: string
  hb_ContentHash :: string

record heartbeat_row =
  hrow_id :: int
  hrow_heartbeat :: preparedHeartbeat

section \<open>Validation of one heartbeat\<close>

definition parseKnownOffsetTime :: "string \<Rightarrow> instant option" where
  "parseKnownOffsetTime value =
     (if value = [] \<or> length value > 128 \<or> trim_space value \<noteq> value \<or> has_suffix value ''-00:00'' then None
      else parse_rfc3339nano value)"

definition allowedQualityFlags :: "string list" where
  "allowedQualityFlags = [''obscured'', ''corrupt'', ''clock_uncertain'', ''incomplete'']"

fun checkFlags :: "string list \<Rightarrow> string list \<Rightarrow> bool" where
  "checkFlags seen [] = True"
| "checkFlags seen (value # values) =
     (if value \<notin> set allowedQualityFlags \<or> value \<in> set seen then False else checkFlags (value # seen) values)"

definition normalizeQualityFlags :: "string list \<Rightarrow> string list option" where
  "normalizeQualityFlags values = (if checkFlags [] values then Some (sort values) else None)"

definition zeroHeartbeatInput :: heartbeatInput where
  "zeroHeartbeatInput =
     \<lparr>hi_SchemaVersion = 0, hi_CollectorID = [], hi_State = [], hi_DeviceStartRaw = [], hi_DeviceEndRaw = [],
      hi_ClockOffsetMS = None, hi_ClockErrorMS = None, hi_IdempotencyKey = [], hi_QualityFlags = None\<rparr>"

definition setHeartbeatField :: "string \<Rightarrow> jitem list \<Rightarrow> heartbeatInput \<Rightarrow> heartbeatInput option" where
  "setHeartbeatField name v st =
     (if name = ''schema_version''
        then map_option (\<lambda>x. st\<lparr>hi_SchemaVersion := x\<rparr>) (dec_int v (hi_SchemaVersion st))
      else if name = ''collector_id''
        then map_option (\<lambda>x. st\<lparr>hi_CollectorID := x\<rparr>) (dec_str v (hi_CollectorID st))
      else if name = ''state'' then map_option (\<lambda>x. st\<lparr>hi_State := x\<rparr>) (dec_str v (hi_State st))
      else if name = ''device_start_raw''
        then map_option (\<lambda>x. st\<lparr>hi_DeviceStartRaw := x\<rparr>) (dec_str v (hi_DeviceStartRaw st))
      else if name = ''device_end_raw''
        then map_option (\<lambda>x. st\<lparr>hi_DeviceEndRaw := x\<rparr>) (dec_str v (hi_DeviceEndRaw st))
      else if name = ''clock_offset_ms'' then map_option (\<lambda>x. st\<lparr>hi_ClockOffsetMS := x\<rparr>) (dec_int_ptr v)
      else if name = ''clock_error_ms'' then map_option (\<lambda>x. st\<lparr>hi_ClockErrorMS := x\<rparr>) (dec_int_ptr v)
      else if name = ''idempotency_key''
        then map_option (\<lambda>x. st\<lparr>hi_IdempotencyKey := x\<rparr>) (dec_str v (hi_IdempotencyKey st))
      else if name = ''quality_flags'' then map_option (\<lambda>x. st\<lparr>hi_QualityFlags := x\<rparr>) (dec_str_list_ptr v)
      else None)"

definition decodeHeartbeatInput :: "string \<Rightarrow> heartbeatInput option" where
  "decodeHeartbeatInput raw =
     (case decode_value raw of None \<Rightarrow> None
      | Some (v, d) \<Rightarrow>
          (case decode_struct heartbeatInputJSONFields setHeartbeatField v zeroHeartbeatInput of
             None \<Rightarrow> None
           | Some inp \<Rightarrow> if ensureJSONEOF d then Some inp else None))"

definition heartbeatContent :: "heartbeatInput \<Rightarrow> instant \<Rightarrow> instant \<Rightarrow> int \<Rightarrow> int \<Rightarrow> string list \<Rightarrow> string" where
  "heartbeatContent inp start stop offset err flags =
     marshal_struct
       [(''schema_version'', int_digits (hi_SchemaVersion inp)),
        (''collector_id'', quote (hi_CollectorID inp)),
        (''state'', quote (hi_State inp)),
        (''device_start_raw'', quote (hi_DeviceStartRaw inp)),
        (''device_end_raw'', quote (hi_DeviceEndRaw inp)),
        (''start_utc'', quote (fixedUTC start)),
        (''end_utc'', quote (fixedUTC stop)),
        (''clock_offset_ms'', int_digits offset),
        (''clock_error_ms'', int_digits err),
        (''quality_flags'', marshal (JArray (map JString flags)))]"

definition prepareHeartbeat :: "ext \<Rightarrow> store_cfg \<Rightarrow> string \<Rightarrow> instant \<Rightarrow> go_error + preparedHeartbeat" where
  "prepareHeartbeat X C raw receivedAt =
     bind_result (reject (int (length raw) > maxEventBytes C) CodeHeartbeatTooLarge) (\<lambda>_.
     bind_result (reject (ValidateExactRootObject raw 0 heartbeatInputJSONFields \<noteq> Inr ()) CodeHeartbeatJSONInvalid) (\<lambda>_.
     bind_result (require_some (decodeHeartbeatInput raw) (ValidationErr CodeHeartbeatJSONInvalid)) (\<lambda>input.
     bind_result (reject (hi_SchemaVersion input \<noteq> HeartbeatSchemaVersion) CodeHeartbeatSchemaInvalid) (\<lambda>_.
     bind_result (require_some (collectorPolicies C (hi_CollectorID input)) (ValidationErr CodeHeartbeatCollector)) (\<lambda>policy.
     bind_result (reject (\<not> validIdentifier (hi_CollectorID input) 128) CodeHeartbeatCollector) (\<lambda>_.
     bind_result (reject (hi_State input \<noteq> HeartbeatStateActive \<and> hi_State input \<noteq> HeartbeatStateIdle) CodeHeartbeatState) (\<lambda>_.
     bind_result (require_some (parseKnownOffsetTime (hi_DeviceStartRaw input)) (ValidationErr CodeHeartbeatTime)) (\<lambda>start.
     bind_result (require_some (parseKnownOffsetTime (hi_DeviceEndRaw input)) (ValidationErr CodeHeartbeatTime)) (\<lambda>stop.
     bind_result (reject (\<not> stop > start \<or> time_sub stop start > HeartbeatPeriod policy) CodeHeartbeatDuration) (\<lambda>_.
     bind_result (require_some (hi_ClockOffsetMS input) (ValidationErr CodeHeartbeatClock)) (\<lambda>offset.
     bind_result (reject (offset < - clockOffsetLimit \<or> offset > clockOffsetLimit) CodeHeartbeatClock) (\<lambda>_.
     bind_result (require_some (hi_ClockErrorMS input) (ValidationErr CodeHeartbeatClock)) (\<lambda>err.
     bind_result (reject (err < 0 \<or> err > clockErrorLimit) CodeHeartbeatClock) (\<lambda>_.
     bind_result (reject (\<not> validIdentifier (hi_IdempotencyKey input) 256) CodeHeartbeatIdempotency) (\<lambda>_.
     bind_result (require_some (hi_QualityFlags input) (ValidationErr CodeHeartbeatQuality)) (\<lambda>values.
     bind_result (require_some (normalizeQualityFlags values) (ValidationErr CodeHeartbeatQuality)) (\<lambda>flags.
       Inr \<lparr>hb_SchemaVersion = hi_SchemaVersion input,
            hb_CollectorID = hi_CollectorID input,
            hb_State = hi_State input,
            hb_DeviceStartRaw = hi_DeviceStartRaw input,
            hb_DeviceEndRaw = hi_DeviceEndRaw input,
            hb_DeviceStartUTC = rfc3339nano start,
            hb_DeviceEndUTC = rfc3339nano stop,
            hb_ReceivedAtUTC = rfc3339nano receivedAt,
            hb_CorrectedStartUTC = fixedUTC (start + duration_ms offset),
            hb_CorrectedEndUTC = fixedUTC (stop + duration_ms offset),
            hb_ClockOffsetMS = offset,
            hb_ClockErrorMS = err,
            hb_IdempotencyKey = hi_IdempotencyKey input,
            hb_QualityFlagsJSON = marshal (JArray (map JString flags)),
            hb_ContentHash = sha256_hex X (heartbeatContent input start stop offset err flags)\<rparr>)))))))))))))))))"

section \<open>The table and the batch\<close>

text \<open>The CHECK constraints of \<^verbatim>\<open>migrations/004_collectors_timeline.sql\<close>.\<close>

definition heartbeat_checks :: "ext \<Rightarrow> preparedHeartbeat \<Rightarrow> bool" where
  "heartbeat_checks X h \<longleftrightarrow>
     between 1 128 (hb_CollectorID h) \<and> between 1 256 (hb_IdempotencyKey h)
     \<and> (hb_State h = ''active'' \<or> hb_State h = ''idle'')
     \<and> between 1 128 (hb_DeviceStartRaw h) \<and> between 1 128 (hb_DeviceEndRaw h)
     \<and> between 20 35 (hb_DeviceStartUTC h) \<and> between 20 35 (hb_DeviceEndUTC h) \<and> between 20 35 (hb_ReceivedAtUTC h)
     \<and> sql_length (hb_CorrectedStartUTC h) = 30 \<and> sql_length (hb_CorrectedEndUTC h) = 30
     \<and> hb_ClockErrorMS h \<ge> 0
     \<and> json_valid X (hb_QualityFlagsJSON h) \<and> take 1 (hb_QualityFlagsJSON h) = ''[''
     \<and> sql_length (hb_ContentHash h) = 64 \<and> hb_SchemaVersion h > 0"

definition hrow_key :: "heartbeat_row \<Rightarrow> string \<times> string" where
  "hrow_key w = (hb_CollectorID (hrow_heartbeat w), hb_IdempotencyKey (hrow_heartbeat w))"

definition hitem_key :: "preparedHeartbeat \<Rightarrow> string \<times> string" where
  "hitem_key h = (hb_CollectorID h, hb_IdempotencyKey h)"

definition insertHeartbeat :: "ext \<Rightarrow> preparedHeartbeat \<Rightarrow> heartbeat_row list \<Rightarrow> sql_fault + bool \<times> heartbeat_row list" where
  "insertHeartbeat X h rows =
     (if \<not> heartbeat_checks X h then Inl (FaultSqlite sqlite_constraint_check)
      else if list_ex (\<lambda>w. hrow_key w = hitem_key h) rows then Inr (False, rows)
      else Inr (True, rows @ [\<lparr>hrow_id = next_id hrow_id rows, hrow_heartbeat = h\<rparr>]))"

definition appendHeartbeat :: "ext \<Rightarrow> faults \<Rightarrow> nat \<Rightarrow> preparedHeartbeat \<Rightarrow> heartbeat_row list
    \<Rightarrow> go_error + HeartbeatWriteResult \<times> heartbeat_row list" where
  "appendHeartbeat X flt index item rows =
     bind_result (db_call flt CodeWriteFailed ''insert collector heartbeat'' index) (\<lambda>_.
       case insertHeartbeat X item rows of
         Inl f \<Rightarrow> Inl (classifySQLiteError CodeWriteFailed ''insert collector heartbeat'' f)
       | Inr (affected, rows') \<Rightarrow>
           bind_result (db_read flt CodeWriteFailed ''read heartbeat insert result'' index) (\<lambda>_.
             if affected then
               bind_result (db_read flt CodeWriteFailed ''read accepted heartbeat id'' index) (\<lambda>_.
                 Inr (\<lparr>hr_Index = index, hr_Status = StatusAccepted, HeartbeatID = hrow_id (last rows'), hr_ErrorCode = []\<rparr>, rows'))
             else
               bind_result (db_call flt CodeWriteFailed ''read idempotent heartbeat'' index) (\<lambda>_.
                 case List.find (\<lambda>w. hrow_key w = hitem_key item) rows' of
                   None \<Rightarrow> Inl (classifySQLiteError CodeWriteFailed ''read idempotent heartbeat'' FaultOther)
                 | Some w \<Rightarrow>
                     if hb_ContentHash (hrow_heartbeat w) = hb_ContentHash item
                     then Inr (\<lparr>hr_Index = index, hr_Status = StatusDuplicate, HeartbeatID = hrow_id w, hr_ErrorCode = []\<rparr>, rows')
                     else Inr (\<lparr>hr_Index = index, hr_Status = StatusConflict, HeartbeatID = hrow_id w,
                                hr_ErrorCode = CodeHeartbeatConflict\<rparr>, rows'))))"

fun prepareHeartbeats :: "ext \<Rightarrow> store_cfg \<Rightarrow> instant \<Rightarrow> nat \<Rightarrow> string list
    \<Rightarrow> go_error + (HeartbeatWriteResult \<times> preparedHeartbeat option) list" where
  "prepareHeartbeats X C receivedAt index [] = Inr []"
| "prepareHeartbeats X C receivedAt index (raw # candidates) =
     (let r0 = \<lparr>hr_Index = index, hr_Status = [], HeartbeatID = 0, hr_ErrorCode = []\<rparr> in
      case prepareHeartbeat X C raw receivedAt of
        Inl (StoreErr code op) \<Rightarrow> Inl (StoreErr code op)
      | Inl (ValidationErr code) \<Rightarrow>
          bind_result (prepareHeartbeats X C receivedAt (Suc index) candidates)
            (\<lambda>rest. Inr ((r0\<lparr>hr_Status := StatusRejected, hr_ErrorCode := code\<rparr>, None) # rest))
      | Inr item \<Rightarrow>
          bind_result (prepareHeartbeats X C receivedAt (Suc index) candidates) (\<lambda>rest. Inr ((r0, Some item) # rest)))"

fun appendHeartbeats :: "ext \<Rightarrow> faults \<Rightarrow> nat \<Rightarrow> (HeartbeatWriteResult \<times> preparedHeartbeat option) list
    \<Rightarrow> heartbeat_row list \<Rightarrow> go_error + HeartbeatWriteResult list \<times> heartbeat_row list" where
  "appendHeartbeats X flt index [] rows = Inr ([], rows)"
| "appendHeartbeats X flt index ((r0, None) # items) rows =
     bind_result (appendHeartbeats X flt (Suc index) items rows) (\<lambda>(rs, rows'). Inr (r0 # rs, rows'))"
| "appendHeartbeats X flt index ((r0, Some item) # items) rows =
     bind_result (appendHeartbeat X flt index item rows) (\<lambda>(r, rows1).
     bind_result (appendHeartbeats X flt (Suc index) items rows1) (\<lambda>(rs, rows'). Inr (r # rs, rows')))"

definition appendHeartbeatTx :: "ext \<Rightarrow> faults \<Rightarrow> (HeartbeatWriteResult \<times> preparedHeartbeat option) list
    \<Rightarrow> heartbeat_row list \<Rightarrow> go_error + HeartbeatWriteResult list \<times> heartbeat_row list" where
  "appendHeartbeatTx X flt items rows =
     bind_result (db_call flt CodeWriteFailed ''begin heartbeat batch'' 0) (\<lambda>_.
     bind_result (appendHeartbeats X flt 0 items rows) (\<lambda>(results, rows').
     bind_result (db_call flt CodeWriteFailed ''commit heartbeat batch'' 0) (\<lambda>_. Inr (results, rows'))))"

definition AppendHeartbeatBatch :: "ext \<Rightarrow> store_cfg \<Rightarrow> faults \<Rightarrow> instant \<Rightarrow> string list \<Rightarrow> heartbeat_row list
    \<Rightarrow> (go_error + HeartbeatWriteResult list) \<times> heartbeat_row list" where
  "AppendHeartbeatBatch X C flt now candidates rows =
     (if candidates = [] then (Inl (ValidationErr CodeBatchEmpty), rows)
      else if int (length candidates) > maxBatchEvents C then (Inl (ValidationErr CodeBatchTooLarge), rows)
      else case prepareHeartbeats X C now 0 candidates of
        Inl err \<Rightarrow> (Inl err, rows)
      | Inr items \<Rightarrow>
          if list_all (\<lambda>p. snd p = None) items then (Inr (map fst items), rows)
          else (case appendHeartbeatTx X flt items rows of
                  Inl err \<Rightarrow> (Inl err, rows)
                | Inr (results, rows') \<Rightarrow> (Inr results, rows')))"

section \<open>The table is an idempotent log\<close>

definition stored_heartbeat :: "preparedHeartbeat \<Rightarrow> heartbeat_row \<Rightarrow> bool" where
  "stored_heartbeat h w \<longleftrightarrow> hrow_heartbeat w = h"

lemma insertHeartbeat_cases:
  assumes "insertHeartbeat X h rows = Inr (b, rows')"
  shows "if hitem_key h \<in> hrow_key ` set rows then \<not> b \<and> rows' = rows
         else b \<and> rows' = rows @ [\<lparr>hrow_id = next_id hrow_id rows, hrow_heartbeat = h\<rparr>]"
  using assms by (auto simp: insertHeartbeat_def list_ex_iff image_iff split: if_splits) metis

interpretation hb_log: idempotent_log hrow_id hrow_key "hb_ContentHash \<circ> hrow_heartbeat" hitem_key hb_ContentHash
  stored_heartbeat "heartbeat_checks X" hr_Status HeartbeatID "appendHeartbeat X" "appendHeartbeats X"
  for X
proof
  fix x :: preparedHeartbeat and w
  show "stored_heartbeat x w \<Longrightarrow> hrow_key w = hitem_key x \<and> (hb_ContentHash \<circ> hrow_heartbeat) w = hb_ContentHash x"
    by (simp add: stored_heartbeat_def hrow_key_def hitem_key_def)
next
  fix flt i x rows r rows'
  assume "appendHeartbeat X flt i x rows = Inr (r, rows')" "hitem_key x \<notin> hrow_key ` set rows"
  then show "hr_Status r = ''accepted'' \<and> HeartbeatID r = next_id hrow_id rows
      \<and> (\<exists>w. rows' = rows @ [w] \<and> hrow_id w = next_id hrow_id rows \<and> stored_heartbeat x w)"
    by (auto simp: appendHeartbeat_def bind_result_Inr_iff stored_heartbeat_def split: sum.splits if_splits
        dest!: insertHeartbeat_cases)
next
  fix flt i x rows r rows' w
  assume "appendHeartbeat X flt i x rows = Inr (r, rows')" "List.find (\<lambda>w. hrow_key w = hitem_key x) rows = Some w"
  moreover from this(2) have "hitem_key x \<in> hrow_key ` set rows" by (rule find_key_mem)
  ultimately show "rows' = rows \<and> HeartbeatID r = hrow_id w
      \<and> hr_Status r = (if (hb_ContentHash \<circ> hrow_heartbeat) w = hb_ContentHash x then ''duplicate'' else ''conflict'')"
    by (auto simp: appendHeartbeat_def bind_result_Inr_iff split: sum.splits if_splits
        dest!: insertHeartbeat_cases dest: find_SomeD)
next
  fix x i rows
  assume "heartbeat_checks X x"
  then show "\<exists>r rows'. appendHeartbeat X no_faults i x rows = Inr (r, rows')"
    by (auto simp: appendHeartbeat_def insertHeartbeat_def list_ex_iff find_None_iff split: option.splits)
qed auto

lemma prepareHeartbeat_validation: "prepareHeartbeat X C raw at = Inl e \<Longrightarrow> \<exists>code. e = ValidationErr code"
proof -
  have "validation_only (prepareHeartbeat X C raw at)"
    unfolding prepareHeartbeat_def by (intro validation_intros)
  then show "prepareHeartbeat X C raw at = Inl e \<Longrightarrow> \<exists>code. e = ValidationErr code"
    by (simp add: validation_only_def)
qed

definition hitem_for :: "ext \<Rightarrow> store_cfg \<Rightarrow> instant \<Rightarrow> nat \<Rightarrow> string \<Rightarrow> HeartbeatWriteResult \<times> preparedHeartbeat option" where
  "hitem_for X C at i raw =
     (case prepareHeartbeat X C raw at of
        Inl e \<Rightarrow> (\<lparr>hr_Index = i, hr_Status = StatusRejected, HeartbeatID = 0, hr_ErrorCode = ValidationCode e\<rparr>, None)
      | Inr h \<Rightarrow> (\<lparr>hr_Index = i, hr_Status = [], HeartbeatID = 0, hr_ErrorCode = []\<rparr>, Some h))"

definition heartbeat_items :: "ext \<Rightarrow> store_cfg \<Rightarrow> instant \<Rightarrow> nat \<Rightarrow> string list \<Rightarrow> (HeartbeatWriteResult \<times> preparedHeartbeat option) list" where
  "heartbeat_items X C at i cands = map (\<lambda>(n, raw). hitem_for X C at n raw) (zip [i..<i + length cands] cands)"

lemma heartbeat_items_nth:
  "length (heartbeat_items X C at 0 cands) = length cands"
  "n < length cands \<Longrightarrow> heartbeat_items X C at 0 cands ! n = hitem_for X C at n (cands ! n)"
  by (simp_all add: heartbeat_items_def)

lemma prepareHeartbeats_eq: "prepareHeartbeats X C at i cands = Inr (heartbeat_items X C at i cands)"
proof (induction cands arbitrary: i)
  case (Cons raw cands)
  have *: "[i..<i + length (raw # cands)] = i # [Suc i..<Suc i + length cands]"
    by (simp add: upt_rec del: upt_Suc)
  have r: "prepareHeartbeat X C raw at = Inl e \<Longrightarrow> \<exists>code. e = ValidationErr code" for e
    by (rule prepareHeartbeat_validation)
  show ?case
    using Cons.IH [of "Suc i"] r unfolding heartbeat_items_def *
    by (fastforce simp: hitem_for_def Let_def split: sum.splits go_error.splits)
qed (simp add: heartbeat_items_def)

lemma appendHeartbeats_all_rejected:
  "list_all (\<lambda>p. snd p = None) items \<Longrightarrow> appendHeartbeats X flt i items rows = Inr (map fst items, rows)"
proof (induction items arbitrary: i)
  case (Cons p items)
  then show ?case by (cases p) simp
qed simp

interpretation hb_batch: batch_log hrow_id hrow_key "hb_ContentHash \<circ> hrow_heartbeat" hitem_key hb_ContentHash
  stored_heartbeat "heartbeat_checks X" hr_Status HeartbeatID "appendHeartbeat X" "appendHeartbeats X"
  "\<lambda>flt. AppendHeartbeatBatch X C flt now cands" "heartbeat_items X C now 0 cands"
  for X C now cands
proof
  fix flt rows res rows'
  assume "AppendHeartbeatBatch X C flt now cands rows = (res, rows')"
  then show "(\<exists>e. res = Inl e \<and> rows' = rows)
      \<or> (\<exists>rs. res = Inr rs \<and> appendHeartbeats X flt 0 (heartbeat_items X C now 0 cands) rows = Inr (rs, rows'))"
    by (auto simp: AppendHeartbeatBatch_def prepareHeartbeats_eq appendHeartbeatTx_def bind_result_Inr_iff
        appendHeartbeats_all_rejected split: if_splits sum.splits)
qed

section \<open>Validated heartbeats\<close>

lemma checkFlags_iff: "checkFlags seen vs \<longleftrightarrow> set vs \<subseteq> set allowedQualityFlags \<and> distinct vs \<and> set vs \<inter> set seen = {}"
  by (induction seen vs rule: checkFlags.induct) auto

lemma normalizeQualityFlags_Some:
  "normalizeQualityFlags vs = Some fs \<longleftrightarrow> set vs \<subseteq> set allowedQualityFlags \<and> distinct vs \<and> fs = sort vs"
  by (auto simp: normalizeQualityFlags_def checkFlags_iff)

lemma allowed_plain: "v \<in> set allowedQualityFlags \<Longrightarrow> plain_text v"
proof -
  have "list_all plain_text allowedQualityFlags" by code_simp
  then show "v \<in> set allowedQualityFlags \<Longrightarrow> plain_text v" by (simp add: list_all_iff)
qed

lemma prepareHeartbeat_InrD:
  assumes "prepareHeartbeat X C raw at = Inr h"
  obtains policy start stop vs where
    "collectorPolicies C (hb_CollectorID h) = Some policy"
    "validIdentifier (hb_CollectorID h) 128" "validIdentifier (hb_IdempotencyKey h) 256"
    "hb_State h = HeartbeatStateActive \<or> hb_State h = HeartbeatStateIdle"
    "parseKnownOffsetTime (hb_DeviceStartRaw h) = Some start" "parseKnownOffsetTime (hb_DeviceEndRaw h) = Some stop"
    "start < stop" "time_sub stop start \<le> HeartbeatPeriod policy"
    "\<bar>hb_ClockOffsetMS h\<bar> \<le> clockOffsetLimit" "0 \<le> hb_ClockErrorMS h" "hb_ClockErrorMS h \<le> clockErrorLimit"
    "hb_DeviceStartUTC h = rfc3339nano start" "hb_DeviceEndUTC h = rfc3339nano stop" "hb_ReceivedAtUTC h = rfc3339nano at"
    "hb_CorrectedStartUTC h = fixedUTC (start + hb_ClockOffsetMS h * millisecond)"
    "hb_CorrectedEndUTC h = fixedUTC (stop + hb_ClockOffsetMS h * millisecond)"
    "set vs \<subseteq> set allowedQualityFlags" "distinct vs"
    "hb_QualityFlagsJSON h = marshal (JArray (map JString (sort vs)))"
    "hb_ContentHash h \<in> range (sha256_hex X)" "hb_SchemaVersion h = 1"
proof -
  have exact: "duration_ms off = off * millisecond" if "\<not> off < - clockOffsetLimit" "\<not> clockOffsetLimit < off" for off
    using that by (intro duration_ms_exact) (simp add: clockOffsetLimit_def)
  from assms obtain inp policy start stop off err vs where p: "hi_SchemaVersion inp = 1"
    "collectorPolicies C (hi_CollectorID inp) = Some policy" "validIdentifier (hi_CollectorID inp) 128"
    "hi_State inp = HeartbeatStateActive \<or> hi_State inp = HeartbeatStateIdle"
    "parseKnownOffsetTime (hi_DeviceStartRaw inp) = Some start" "parseKnownOffsetTime (hi_DeviceEndRaw inp) = Some stop"
    "start < stop" "time_sub stop start \<le> HeartbeatPeriod policy" "\<bar>off\<bar> \<le> clockOffsetLimit"
    "0 \<le> err" "err \<le> clockErrorLimit" "validIdentifier (hi_IdempotencyKey inp) 256"
    "set vs \<subseteq> set allowedQualityFlags" "distinct vs"
    and h: "h = \<lparr>hb_SchemaVersion = 1, hb_CollectorID = hi_CollectorID inp, hb_State = hi_State inp,
      hb_DeviceStartRaw = hi_DeviceStartRaw inp, hb_DeviceEndRaw = hi_DeviceEndRaw inp,
      hb_DeviceStartUTC = rfc3339nano start, hb_DeviceEndUTC = rfc3339nano stop, hb_ReceivedAtUTC = rfc3339nano at,
      hb_CorrectedStartUTC = fixedUTC (start + duration_ms off), hb_CorrectedEndUTC = fixedUTC (stop + duration_ms off),
      hb_ClockOffsetMS = off, hb_ClockErrorMS = err, hb_IdempotencyKey = hi_IdempotencyKey inp,
      hb_QualityFlagsJSON = marshal (JArray (map JString (sort vs))),
      hb_ContentHash = sha256_hex X (heartbeatContent inp start stop off err (sort vs))\<rparr>"
    unfolding prepareHeartbeat_def
    by (auto simp: bind_result_Inr_iff HeartbeatSchemaVersion_def normalizeQualityFlags_Some abs_le_iff not_less)
  show thesis
    by (rule that [of policy start stop vs]) (use p in \<open>simp_all add: h exact abs_le_iff not_less\<close>)
qed

lemma known_offset_between:
  assumes "parseKnownOffsetTime s = Some t"
  shows "between 1 128 s" "- 1 \<le> year_of t" "year_of t \<le> 10000" "between 20 35 (rfc3339nano t)"
proof -
  have p: "parse_rfc3339nano s = Some t" "length s \<le> 128"
    using assms by (auto simp: parseKnownOffsetTime_def split: if_splits)
  note y = parse_rfc3339nano_year [OF p(1)]
  show "- 1 \<le> year_of t" "year_of t \<le> 10000" by (rule y)+
  then show "between 20 35 (rfc3339nano t)" by (intro rfc3339nano_between) auto
  show "between 1 128 s"
    using y(3,4) p(2) sql_length_le [of s] sql_length_pos [of "hd s" "tl s"]
    by (auto simp: between_def is_digit_def is_cont_def byte_def)
qed

lemma plain_fixedUTC: "plain_ascii (fixedUTC t)"
  by (simp add: fixedUTC_def date_text_def clock_text_def append_int_def Let_def) (simp add: byte_def)

lemma jdepth_strings: "jdepth (JArray (map JString vs)) = 1"
proof -
  have "jdepth_elems (map JString vs) = 0" by (induction vs) auto
  then show ?thesis by simp
qed

lemma prepareHeartbeat_checks:
  assumes "prepareHeartbeat X C raw at = Inr h" "sha256_documented X" "json_valid_documented X" "text_year at"
    and "length (hb_CorrectedStartUTC h) = 30" "length (hb_CorrectedEndUTC h) = 30"
  shows "heartbeat_checks X h"
  using assms(1)
proof (rule prepareHeartbeat_InrD)
  fix policy start stop vs
  assume h: "validIdentifier (hb_CollectorID h) 128" "validIdentifier (hb_IdempotencyKey h) 256"
    "hb_State h = HeartbeatStateActive \<or> hb_State h = HeartbeatStateIdle"
    "parseKnownOffsetTime (hb_DeviceStartRaw h) = Some start" "parseKnownOffsetTime (hb_DeviceEndRaw h) = Some stop"
    "0 \<le> hb_ClockErrorMS h"
    "hb_DeviceStartUTC h = rfc3339nano start" "hb_DeviceEndUTC h = rfc3339nano stop" "hb_ReceivedAtUTC h = rfc3339nano at"
    "hb_CorrectedStartUTC h = fixedUTC (start + hb_ClockOffsetMS h * millisecond)"
    "hb_CorrectedEndUTC h = fixedUTC (stop + hb_ClockOffsetMS h * millisecond)"
    "set vs \<subseteq> set allowedQualityFlags" "hb_QualityFlagsJSON h = marshal (JArray (map JString (sort vs)))"
    "hb_ContentHash h \<in> range (sha256_hex X)" "hb_SchemaVersion h = 1"
  have "\<forall>v \<in> set (sort vs). plain_text v" using h(12) allowed_plain by auto
  from decoder_tokens_string_array [OF this] have "json_valid X (hb_QualityFlagsJSON h)"
    unfolding h(13) by (rule json_valid_documentedD [OF assms(3)]) (use jdepth_strings [of "sort vs"] in linarith)
  moreover have "take 1 (hb_QualityFlagsJSON h) = ''[''" by (simp add: h(13))
  moreover have "sql_length (hb_CorrectedStartUTC h) = 30" "sql_length (hb_CorrectedEndUTC h) = 30"
    using assms(5,6) plain_fixedUTC by (simp_all add: h sql_length_plain)
  ultimately show ?thesis
    unfolding heartbeat_checks_def
    using h(3,6,14,15) h(1,2) [THEN validIdentifier_between] known_offset_between [OF h(4)] known_offset_between [OF h(5)]
      text_year_between [OF assms(4)] sha256_plain [OF assms(2)]
    by (auto simp: h(7-9) simp del: One_nat_def)
qed

section \<open>Sample heartbeats\<close>

definition sample_hb :: string where
  \<open>sample_hb = ''{"schema_version":1,"collector_id":"phone","state":"active","device_start_raw":"2026-01-02T03:04:05Z","device_end_raw":"2026-01-02T03:04:35Z","clock_offset_ms":0,"clock_error_ms":5,"idempotency_key":"h1","quality_flags":["corrupt"]}''\<close>

definition sample_far :: string where
  \<open>sample_far = ''{"schema_version":1,"collector_id":"phone","state":"idle","device_start_raw":"9999-12-31T23:59:00Z","device_end_raw":"9999-12-31T23:59:30Z","clock_offset_ms":86400000,"clock_error_ms":5,"idempotency_key":"h2","quality_flags":[]}''\<close>

definition sample_hb_input :: heartbeatInput where
  "sample_hb_input = \<lparr>hi_SchemaVersion = 1, hi_CollectorID = ''phone'', hi_State = ''active'',
     hi_DeviceStartRaw = ''2026-01-02T03:04:05Z'', hi_DeviceEndRaw = ''2026-01-02T03:04:35Z'',
     hi_ClockOffsetMS = Some 0, hi_ClockErrorMS = Some 5, hi_IdempotencyKey = ''h1'', hi_QualityFlags = Some [''corrupt'']\<rparr>"

definition sample_far_input :: heartbeatInput where
  "sample_far_input = \<lparr>hi_SchemaVersion = 1, hi_CollectorID = ''phone'', hi_State = ''idle'',
     hi_DeviceStartRaw = ''9999-12-31T23:59:00Z'', hi_DeviceEndRaw = ''9999-12-31T23:59:30Z'',
     hi_ClockOffsetMS = Some 86400000, hi_ClockErrorMS = Some 5, hi_IdempotencyKey = ''h2'', hi_QualityFlags = Some []\<rparr>"

lemma sample_hb_decode: "decodeHeartbeatInput sample_hb = Some sample_hb_input" by code_simp
lemma sample_far_decode: "decodeHeartbeatInput sample_far = Some sample_far_input" by code_simp
lemma sample_hb_strict: "ValidateExactRootObject sample_hb 0 heartbeatInputJSONFields = Inr ()" by code_simp
lemma sample_far_strict: "ValidateExactRootObject sample_far 0 heartbeatInputJSONFields = Inr ()" by code_simp
lemma sample_hb_length: "length sample_hb = 232" "length sample_far = 228" by code_simp+
lemma sample_hb_ids: "validIdentifier ''phone'' 128" "validIdentifier ''h1'' 256" "validIdentifier ''h2'' 256" by code_simp+
lemma sample_hb_times:
  "parseKnownOffsetTime ''2026-01-02T03:04:05Z'' = Some sample_now"
  "parseKnownOffsetTime ''2026-01-02T03:04:35Z'' = Some 63902919875000000000"
  "parseKnownOffsetTime ''9999-12-31T23:59:00Z'' = Some 315537897540000000000"
  "parseKnownOffsetTime ''9999-12-31T23:59:30Z'' = Some 315537897570000000000"
  by code_simp+
lemma sample_hb_flags: "normalizeQualityFlags [''corrupt''] = Some [''corrupt'']" "normalizeQualityFlags [] = Some []"
  by code_simp+

lemmas sample_hb_evals = sample_hb_decode sample_far_decode sample_hb_strict sample_far_strict sample_hb_length
  sample_hb_ids sample_hb_times sample_hb_flags

definition sample_hb_row :: preparedHeartbeat where
  "sample_hb_row =
     \<lparr>hb_SchemaVersion = 1, hb_CollectorID = ''phone'', hb_State = ''active'',
      hb_DeviceStartRaw = ''2026-01-02T03:04:05Z'', hb_DeviceEndRaw = ''2026-01-02T03:04:35Z'',
      hb_DeviceStartUTC = ''2026-01-02T03:04:05Z'', hb_DeviceEndUTC = ''2026-01-02T03:04:35Z'',
      hb_ReceivedAtUTC = ''2026-01-02T03:04:05Z'',
      hb_CorrectedStartUTC = ''2026-01-02T03:04:05.000000000Z'', hb_CorrectedEndUTC = ''2026-01-02T03:04:35.000000000Z'',
      hb_ClockOffsetMS = 0, hb_ClockErrorMS = 5, hb_IdempotencyKey = ''h1'',
      hb_QualityFlagsJSON = ''['' @ quote ''corrupt'' @ '']'', hb_ContentHash = replicate 64 CHR ''a''\<rparr>"

lemma sample_hb_texts:
  "rfc3339nano (63902919875000000000) = ''2026-01-02T03:04:35Z''"
  "fixedUTC sample_now = ''2026-01-02T03:04:05.000000000Z''" "fixedUTC (63902919875000000000) = ''2026-01-02T03:04:35.000000000Z''"
  by code_simp+

lemma sample_duration_ms: "duration_ms 0 = 0" "duration_ms 86400000 = 86400000000000"
  by (simp_all add: duration_ms_exact millisecond_def)

lemma sample_hb_after: "sample_now < 63902919875000000000" "\<not> sample_now < 63902919815000000000"
  by (simp_all add: sample_now_def)

lemma sample_hb_prepare: "prepareHeartbeat sample_ext sample_cfg sample_hb sample_now = Inr sample_hb_row"
    by (simp add: prepareHeartbeat_def sample_hb_evals sample_hb_texts sample_now_text reject_def sample_cfg_def sample_ext_def
      sample_hb_input_def sample_hb_row_def HeartbeatSchemaVersion_def clockOffsetLimit_def clockErrorLimit_def
      time_sub_def int64_min_def int64_max_def second_def sample_duration_ms sample_hb_after)

definition sample_far_row :: preparedHeartbeat where
  "sample_far_row =
     \<lparr>hb_SchemaVersion = 1, hb_CollectorID = ''phone'', hb_State = ''idle'',
      hb_DeviceStartRaw = ''9999-12-31T23:59:00Z'', hb_DeviceEndRaw = ''9999-12-31T23:59:30Z'',
      hb_DeviceStartUTC = ''9999-12-31T23:59:00Z'', hb_DeviceEndUTC = ''9999-12-31T23:59:30Z'',
      hb_ReceivedAtUTC = ''2026-01-02T03:04:05Z'',
      hb_CorrectedStartUTC = ''10000-01-01T23:59:00.000000000Z'', hb_CorrectedEndUTC = ''10000-01-01T23:59:30.000000000Z'',
      hb_ClockOffsetMS = 86400000, hb_ClockErrorMS = 5, hb_IdempotencyKey = ''h2'',
      hb_QualityFlagsJSON = ''[]'', hb_ContentHash = replicate 64 CHR ''a''\<rparr>"

lemma sample_far_texts:
  "rfc3339nano 315537897540000000000 = ''9999-12-31T23:59:00Z''" "rfc3339nano 315537897570000000000 = ''9999-12-31T23:59:30Z''"
  "fixedUTC 315537983940000000000 = ''10000-01-01T23:59:00.000000000Z''" "fixedUTC 315537983970000000000 = ''10000-01-01T23:59:30.000000000Z''"
  by code_simp+

lemma sample_far_prepare: "prepareHeartbeat sample_ext sample_cfg sample_far sample_now = Inr sample_far_row"
    by (simp add: prepareHeartbeat_def sample_hb_evals sample_far_texts sample_now_text reject_def sample_cfg_def sample_ext_def
      sample_far_input_def sample_far_row_def HeartbeatSchemaVersion_def clockOffsetLimit_def clockErrorLimit_def
      time_sub_def int64_min_def int64_max_def second_def sample_duration_ms)

lemma sample_hb_row_checks: "heartbeat_checks sample_ext sample_hb_row" "\<not> heartbeat_checks sample_ext sample_far_row"
  by code_simp+


section \<open>Properties\<close>

lemma prepareHeartbeat_received_at:
  "prepareHeartbeat X C raw at' = map_sum id (\<lambda>h. h\<lparr>hb_ReceivedAtUTC := rfc3339nano at'\<rparr>) (prepareHeartbeat X C raw at)"
  unfolding prepareHeartbeat_def by (simp add: map_sum_bind_result case_prod_beta' Let_def)

lemma heartbeat_items_same:
  "list_all2 (\<lambda>p p'. rel_option hb_log.same_item (snd p) (snd p')) (heartbeat_items X C at 0 cands) (heartbeat_items X C at' 0 cands)"
proof -
  have "rel_option hb_log.same_item (snd (hitem_for X C at n raw)) (snd (hitem_for X C at' n raw))" for n raw
    unfolding hitem_for_def prepareHeartbeat_received_at [of X C raw at' at]
    by (simp split: sum.split add: hb_log.same_item_def hitem_key_def)
  then show ?thesis
    by (simp add: list_all2_conv_all_nth heartbeat_items_nth)
qed

lemma sample_heartbeat_batch:
  "AppendHeartbeatBatch sample_ext sample_cfg no_faults sample_now [sample_hb] []
     = (Inr [\<lparr>hr_Index = 0, hr_Status = StatusAccepted, HeartbeatID = 1, hr_ErrorCode = []\<rparr>],
        [\<lparr>hrow_id = 1, hrow_heartbeat = sample_hb_row\<rparr>])"
  "AppendHeartbeatBatch sample_ext sample_cfg no_faults sample_now [sample_hb] [\<lparr>hrow_id = 1, hrow_heartbeat = sample_hb_row\<rparr>]
     = (Inr [\<lparr>hr_Index = 0, hr_Status = StatusDuplicate, HeartbeatID = 1, hr_ErrorCode = []\<rparr>],
        [\<lparr>hrow_id = 1, hrow_heartbeat = sample_hb_row\<rparr>])"
  by (simp_all add: AppendHeartbeatBatch_def appendHeartbeatTx_def appendHeartbeat_def insertHeartbeat_def sample_hb_prepare
      sample_hb_row_checks sample_cfg_def [THEN arg_cong [where f = maxBatchEvents]] next_id_def hrow_key_def hitem_key_def Let_def)

text \<open>
  A heartbeat batch is atomic and append-only: on an error the table is unchanged, otherwise
  new rows follow the old ones.
\<close>

theorem heartbeat_batch_append_only:
  "case AppendHeartbeatBatch X C flt now cands rows of
      (Inl e, rows') \<Rightarrow> rows' = rows
    | (Inr rs, rows') \<Rightarrow> \<exists>new. rows' = rows @ new"
  by (rule hb_batch.batch_append_only)

text \<open>
  C10: Replaying a heartbeat batch on the table it left, or on a later one that satisfies the table
  invariant, adds no row, keeps the ids, and turns accepted into duplicate.
\<close>

theorem heartbeat_batch_replay:
  assumes "AppendHeartbeatBatch X C flt now cands rows = (Inr rs, rows')"
    and "log_ok hrow_id hrow_key (rows' @ later)"
    and "AppendHeartbeatBatch X C flt' now' cands (rows' @ later) = (Inr rs', rows'')"
  shows "rows'' = rows' @ later \<and> length rs' = length rs
    \<and> (\<forall>n < length rs. hr_Status (rs ! n) \<noteq> StatusRejected \<longrightarrow>
         HeartbeatID (rs' ! n) = HeartbeatID (rs ! n)
         \<and> hr_Status (rs' ! n) = (if hr_Status (rs ! n) = StatusAccepted then StatusDuplicate else hr_Status (rs ! n)))"
proof -
  let ?its = "heartbeat_items X C now 0 cands"
  note first = hb_batch.batch_InrD [OF assms(1)]
  have "snd (?its ! n) \<noteq> None" if "n < length rs" "hr_Status (rs ! n) \<noteq> StatusRejected" for n
    using that hb_log.loop_skipped [OF first, of n] hb_log.loop_length [OF first]
    by (auto simp: heartbeat_items_nth hitem_for_def split: sum.splits)
  with hb_log.loop_replay [OF first hb_batch.batch_InrD [OF assms(3)] assms(2) heartbeat_items_same]
    hb_log.loop_length [OF first]
  show ?thesis by (auto simp: hb_log.replayed_def)
qed

text \<open>The sample heartbeat, sent twice.\<close>

theorem heartbeat_batch_replay_witness:
  "HeartbeatID ([\<lparr>hr_Index = 0, hr_Status = StatusDuplicate, HeartbeatID = 1, hr_ErrorCode = []\<rparr>] ! 0) = 1
    \<and> hr_Status ([\<lparr>hr_Index = 0, hr_Status = StatusDuplicate, HeartbeatID = 1, hr_ErrorCode = []\<rparr>] ! 0) = StatusDuplicate"
  using heartbeat_batch_replay [OF sample_heartbeat_batch(1), of "[]"] sample_heartbeat_batch(2)
  by (fastforce simp: log_ok_def)

text \<open>
  C11: Every heartbeat that passes validation describes a positive interval no longer than its
  collector's period, both device times carry a known offset, the corrected times are the
  device times shifted by the bounded clock offset without overflow, and the quality flags are
  allowed, distinct and sorted.
\<close>

theorem prepare_heartbeat_sound:
  assumes "prepareHeartbeat X C raw receivedAt = Inr h"
  shows "\<exists>policy start stop flags.
      collectorPolicies C (hb_CollectorID h) = Some policy
    \<and> parseKnownOffsetTime (hb_DeviceStartRaw h) = Some start \<and> parseKnownOffsetTime (hb_DeviceEndRaw h) = Some stop
    \<and> start < stop \<and> time_sub stop start \<le> HeartbeatPeriod policy
    \<and> \<bar>hb_ClockOffsetMS h\<bar> \<le> clockOffsetLimit
    \<and> hb_CorrectedStartUTC h = fixedUTC (start + hb_ClockOffsetMS h * millisecond)
    \<and> hb_CorrectedEndUTC h = fixedUTC (stop + hb_ClockOffsetMS h * millisecond)
    \<and> set flags \<subseteq> set allowedQualityFlags \<and> distinct flags \<and> sorted flags
    \<and> hb_QualityFlagsJSON h = marshal (JArray (map JString flags))"
  using assms by (rule prepareHeartbeat_InrD) (metis distinct_sort set_sort sorted_sort)

text \<open>The sample heartbeat.\<close>

theorem prepare_heartbeat_sound_witness: "\<bar>hb_ClockOffsetMS sample_hb_row\<bar> \<le> clockOffsetLimit"
  using prepare_heartbeat_sound [OF sample_hb_prepare] by blast

text \<open>
  C12: Without database faults a heartbeat batch of admissible size succeeds, provided that the
  corrected times of its valid heartbeats have four-digit years.
\<close>

theorem heartbeat_batch_total:
  assumes "sha256_documented X" "json_valid_documented X" "text_year now"
    and "cands \<noteq> []" "int (length cands) \<le> maxBatchEvents C"
    and "\<forall>raw \<in> set cands. case prepareHeartbeat X C raw now of Inl e \<Rightarrow> True
           | Inr h \<Rightarrow> length (hb_CorrectedStartUTC h) = 30 \<and> length (hb_CorrectedEndUTC h) = 30"
  shows "\<exists>rs rows'. AppendHeartbeatBatch X C no_faults now cands rows = (Inr rs, rows')"
proof -
  let ?items = "heartbeat_items X C now 0 cands"
  have "heartbeat_checks X h" if "p \<in> set ?items" "snd p = Some h" for p h
  proof -
    from that obtain n raw where "p = hitem_for X C now n raw" and raw: "raw \<in> set cands"
      by (auto simp: heartbeat_items_def dest: set_zip_rightD)
    with that have h: "prepareHeartbeat X C raw now = Inr h" by (auto simp: hitem_for_def split: sum.splits)
    with assms(6) raw have "length (hb_CorrectedStartUTC h) = 30" "length (hb_CorrectedEndUTC h) = 30" by force+
    from prepareHeartbeat_checks [OF h assms(1-3) this] show ?thesis .
  qed
  then obtain rs rows' where "appendHeartbeats X no_faults 0 ?items rows = Inr (rs, rows')"
    using hb_log.loop_total [of ?items X 0 rows] by blast
  then show ?thesis
    using assms(4,5) by (auto simp: AppendHeartbeatBatch_def prepareHeartbeats_eq appendHeartbeatTx_def)
qed

text \<open>Totality at the sample heartbeat.\<close>

theorem heartbeat_batch_total_witness:
  "\<exists>rs rows'. AppendHeartbeatBatch sample_ext sample_cfg no_faults sample_now [sample_hb] [] = (Inr rs, rows')"
proof (rule heartbeat_batch_total)
  show "\<forall>raw \<in> set [sample_hb]. case prepareHeartbeat sample_ext sample_cfg raw sample_now of Inl e \<Rightarrow> True
           | Inr h \<Rightarrow> length (hb_CorrectedStartUTC h) = 30 \<and> length (hb_CorrectedEndUTC h) = 30"
    by (simp add: sample_hb_prepare) (simp add: sample_hb_row_def)
qed (simp_all add: sample_ext_documented sample_cfg_def text_year_def, code_simp+)

text \<open>A corrected time outside the years 0 to 9999 has a text of more than 30 characters.\<close>

lemma fixedUTC_long:
  assumes "\<not> text_year t"
  shows "sql_length (fixedUTC t) \<noteq> 30"
proof -
  let ?y = "c_year (civil_of_day (day_of t))"
  have "length (append_int ?y 4) > 4"
  proof (cases "?y < 0")
    case True
    then show ?thesis
      using nat_digits_length_ge [of 4 "nat \<bar>?y\<bar>"] by (auto simp: append_int_def Let_def not_less)
  next
    case False
    then have "10 ^ 4 \<le> nat \<bar>?y\<bar>" using assms by (simp add: text_year_def year_of_def)
    then show ?thesis
      using False nat_digits_length_ge [of 4 "nat \<bar>?y\<bar>"] by (auto simp: append_int_def Let_def not_less)
  qed
  then show ?thesis
    by (simp add: sql_length_plain plain_fixedUTC) (simp add: fixedUTC_def date_text_def clock_text_def Let_def)
qed

lemma appendHeartbeat_refused:
  "\<not> heartbeat_checks X h \<Longrightarrow> \<exists>e. appendHeartbeat X flt i h rows = Inl e"
  by (simp add: appendHeartbeat_def insertHeartbeat_def bind_result_def split: sum.split)

lemma appendHeartbeat_no_faults_error:
  assumes "appendHeartbeat X no_faults i h rows = Inl e"
  shows "e = StoreErr CodeWriteFailed ''insert collector heartbeat''"
proof (cases "heartbeat_checks X h")
  case True
  then show ?thesis using assms hb_log.add_total [of X h i rows] by auto
next
  case False
  then show ?thesis using assms
    by (simp add: appendHeartbeat_def insertHeartbeat_def classifySQLiteError_def sqlite_constraint_check_def wrap_def Let_def)
qed

lemma appendHeartbeats_refused:
  assumes "p \<in> set items" "snd p = Some h" "\<not> heartbeat_checks X h"
  shows "\<exists>e. appendHeartbeats X flt i items rows = Inl e"
  using assms(1)
proof (induction items arbitrary: i rows)
  case (Cons q items)
  obtain r o' where q: "q = (r, o')" by (cases q)
  show ?case
  proof (cases "q = p")
    case True
    then show ?thesis
      using appendHeartbeat_refused [OF assms(3), of flt i rows] assms(2) by (auto simp: q)
  next
    case False
    then have IH: "\<exists>e. appendHeartbeats X flt j items rows' = Inl e" for j rows'
      using Cons by simp
    show ?thesis
    proof (cases o')
      case None
      then show ?thesis using IH [of "Suc i" rows] by (auto simp: q)
    next
      case (Some x)
      show ?thesis
      proof (cases "appendHeartbeat X flt i x rows")
        case (Inr b)
        then show ?thesis using IH [of "Suc i" "snd b"] by (cases b) (auto simp: q Some)
      qed (simp add: q Some)
    qed
  qed
qed simp

lemma appendHeartbeats_no_faults_error:
  "appendHeartbeats X no_faults i items rows = Inl e \<Longrightarrow> e = StoreErr CodeWriteFailed ''insert collector heartbeat''"
proof (induction items arbitrary: i rows)
  case (Cons q items)
  obtain r o' where q: "q = (r, o')" by (cases q)
  show ?case
  proof (cases o')
    case None
    with Cons show ?thesis
      by (cases "appendHeartbeats X no_faults (Suc i) items rows") (auto simp: q)
  next
    case (Some x)
    show ?thesis
    proof (cases "appendHeartbeat X no_faults i x rows")
      case (Inl e')
      then show ?thesis using Cons.prems appendHeartbeat_no_faults_error [OF Inl] by (simp add: q Some)
    next
      case (Inr b)
      with Cons show ?thesis
        by (cases b, cases "appendHeartbeats X no_faults (Suc i) items (snd b)") (auto simp: q Some)
    qed
  qed
qed simp

text \<open>
  C13: A defect: let one heartbeat of a batch of admissible size pass validation although its clock
  offset moves its start or its end out of the years 0 to 9999 (a device time late in 9999 with a
  positive offset, or early in the year 0 with a negative one). The text of the corrected time then
  violates a CHECK constraint, the whole batch fails whatever else it holds and whatever the
  table holds, and no valid heartbeat beside it is stored. Without database faults the error is
  \<^verbatim>\<open>STORE_WRITE_FAILED\<close>, although one item was at fault and the contract of the batch is to reject
  bad items one by one.
\<close>

theorem heartbeat_far_future_fails_batch:
  assumes "raw \<in> set cands" "int (length cands) \<le> maxBatchEvents C"
    and "prepareHeartbeat X C raw now = Inr h"
    and "parseKnownOffsetTime (hb_DeviceStartRaw h) = Some start"
    and "parseKnownOffsetTime (hb_DeviceEndRaw h) = Some stop"
    and "\<not> text_year (start + hb_ClockOffsetMS h * millisecond) \<or> \<not> text_year (stop + hb_ClockOffsetMS h * millisecond)"
  shows "(\<exists>e. AppendHeartbeatBatch X C flt now cands rows = (Inl e, rows))
    \<and> AppendHeartbeatBatch X C no_faults now cands rows
        = (Inl (StoreErr CodeWriteFailed ''insert collector heartbeat''), rows)"
proof -
  let ?items = "heartbeat_items X C now 0 cands"
  have "\<not> heartbeat_checks X h"
    using assms(3)
    by (rule prepareHeartbeat_InrD) (use assms(4-6) fixedUTC_long in \<open>auto simp: heartbeat_checks_def\<close>)
  moreover obtain n where "n < length cands" "cands ! n = raw" using assms(1) by (auto simp: in_set_conv_nth)
  then have "hitem_for X C now n raw \<in> set ?items"
    by (metis heartbeat_items_nth nth_mem)
  moreover have it: "snd (hitem_for X C now n raw) = Some h" by (simp add: hitem_for_def assms(3))
  ultimately have fails: "\<exists>e. appendHeartbeats X f 0 ?items rows = Inl e" for f
    by (blast intro: appendHeartbeats_refused)
  have "\<not> list_all (\<lambda>p. snd p = None) ?items"
    using \<open>hitem_for X C now n raw \<in> set ?items\<close> it by (auto simp: list_all_iff)
  then have run: "AppendHeartbeatBatch X C f now cands rows
      = (case appendHeartbeatTx X f ?items rows of Inl err \<Rightarrow> (Inl err, rows) | Inr (rs, rows') \<Rightarrow> (Inr rs, rows'))" for f
    using assms(1,2) by (auto simp: AppendHeartbeatBatch_def prepareHeartbeats_eq)
  have tx: "\<exists>e. appendHeartbeatTx X f ?items rows = Inl e" for f
    using fails [of f] by (auto simp: appendHeartbeatTx_def bind_result_def split: sum.split)
  obtain e where e: "appendHeartbeats X no_faults 0 ?items rows = Inl e" using fails by blast
  from e have "appendHeartbeatTx X no_faults ?items rows = Inl (StoreErr CodeWriteFailed ''insert collector heartbeat'')"
    using appendHeartbeats_no_faults_error [OF e] by (simp add: appendHeartbeatTx_def)
  then show ?thesis using tx [of flt] run by auto
qed

text \<open>The sample heartbeat beside one at the end of 9999 with an offset of a day.\<close>

theorem heartbeat_far_future_fails_batch_witness:
  "AppendHeartbeatBatch sample_ext sample_cfg no_faults sample_now [sample_hb, sample_far] []
     = (Inl (StoreErr CodeWriteFailed ''insert collector heartbeat''), [])
   \<and> fst (AppendHeartbeatBatch sample_ext sample_cfg no_faults sample_now [sample_hb] [])
     = Inr [\<lparr>hr_Index = 0, hr_Status = StatusAccepted, HeartbeatID = 1, hr_ErrorCode = []\<rparr>]"
proof
  have "\<not> text_year (315537897540000000000 + hb_ClockOffsetMS sample_far_row * millisecond)" by code_simp
  then show "AppendHeartbeatBatch sample_ext sample_cfg no_faults sample_now [sample_hb, sample_far] []
     = (Inl (StoreErr CodeWriteFailed ''insert collector heartbeat''), [])"
    using heartbeat_far_future_fails_batch [OF _ _ sample_far_prepare, of "[sample_hb, sample_far]"
      315537897540000000000 315537897570000000000 no_faults "[]"]
    by (simp add: sample_far_row_def sample_hb_times sample_cfg_def)
qed (simp add: sample_heartbeat_batch)

end
