(* ===== verification/Go_Duration.thy ===== *)
theory Go_Duration
  imports Go_Time "HOL-Library.Log_Nat"
begin

text \<open>
  \<^verbatim>\<open>time.ParseDuration\<close>, with its 64-bit overflow checks and the binary64 arithmetic it uses
  for fractions, and \<^verbatim>\<open>time.Parse("15:04", _)\<close>.
\<close>

section \<open>Binary64 rounding\<close>

text \<open>A positive binary64 value is the pair of its numerator and denominator.\<close>

definition round_even :: "nat \<Rightarrow> nat \<Rightarrow> nat" where
  "round_even n d =
     (let q = n div d; r = n mod d in if 2 * r < d \<or> (2 * r = d \<and> even q) then q else q + 1)"

text \<open>
  The power of two that scales \<open>n / d\<close> to 53 bits; below the least normal value the scale stays the same.
\<close>

definition float_scale :: "nat \<Rightarrow> nat \<Rightarrow> int" where
  "float_scale n d =
     (let k = 53 + int (floorlog 2 d) - int (floorlog 2 n);
          big = (if k \<ge> 0 then d * 2 ^ 53 \<le> n * 2 ^ nat k else d * 2 ^ (53 + nat (- k)) \<le> n)
      in min 1074 (if big then k - 1 else k))"

definition binary64 :: "nat \<Rightarrow> nat \<Rightarrow> nat \<times> nat" where
  "binary64 n d =
     (if n = 0 then (0, 1)
      else let k = float_scale n d
           in if k \<ge> 0 then (round_even (n * 2 ^ nat k) d, 2 ^ nat k)
              else (round_even n (d * 2 ^ nat (- k)) * 2 ^ nat (- k), 1))"

text \<open>\<^verbatim>\<open>uint64(float64(f) * (float64(unit) / scale))\<close>\<close>

definition scaled_fraction :: "nat \<Rightarrow> nat \<Rightarrow> nat \<Rightarrow> nat" where
  "scaled_fraction f unit_ns scale =
     (let (fn, fd) = binary64 f 1;
          (un, ud) = binary64 unit_ns 1;
          (qn, qd) = binary64 un (ud * scale);
          (rn, rd) = binary64 (fn * qn) (fd * qd)
      in rn div rd)"

section \<open>ParseDuration\<close>

fun leadingInt :: "nat \<Rightarrow> string \<Rightarrow> (nat \<times> string) option" where
  "leadingInt x [] = Some (x, [])"
| "leadingInt x (c # s) =
     (if \<not> is_digit c then Some (x, c # s)
      else if x > 2 ^ 63 div 10 then None
      else let y = x * 10 + digit_val c in if y > 2 ^ 63 then None else leadingInt y s)"

fun leadingFraction :: "nat \<Rightarrow> nat \<Rightarrow> bool \<Rightarrow> string \<Rightarrow> nat \<times> nat \<times> string" where
  "leadingFraction x scale overflow [] = (x, scale, [])"
| "leadingFraction x scale overflow (c # s) =
     (if \<not> is_digit c then (x, scale, c # s)
      else if overflow \<or> x > (2 ^ 63 - 1) div 10 then leadingFraction x scale True s
      else let y = x * 10 + digit_val c in
        if y > 2 ^ 63 then leadingFraction x scale True s else leadingFraction y (scale * 10) False s)"

lemma leadingInt_shorter: "leadingInt x s = Some (v, r) \<Longrightarrow> length r \<le> length s"
  by (induction x s rule: leadingInt.induct) (auto simp: Let_def split: if_splits)

lemma leadingFraction_shorter: "leadingFraction x sc ov s = (f, sc', r) \<Longrightarrow> length r \<le> length s"
  by (induction x sc ov s rule: leadingFraction.induct) (auto simp: Let_def split: if_splits)

definition unitMap :: "string \<Rightarrow> nat option" where
  "unitMap u =
     (if u = ''ns'' then Some 1
      else if u = ''us'' \<or> u = [char_of (194 :: nat), char_of (181 :: nat), CHR ''s'']
              \<or> u = [char_of (206 :: nat), char_of (188 :: nat), CHR ''s''] then Some 1000
      else if u = ''ms'' then Some 1000000
      else if u = ''s'' then Some 1000000000
      else if u = ''m'' then Some 60000000000
      else if u = ''h'' then Some 3600000000000
      else None)"

definition is_unit_char :: "char \<Rightarrow> bool" where
  "is_unit_char c \<longleftrightarrow> \<not> (c = CHR ''.'' \<or> is_digit c)"

text \<open>One number with its unit: its value in nanoseconds and the rest of the text.\<close>

definition durationTerm :: "string \<Rightarrow> (nat \<times> string) option" where
  "durationTerm s =
     (case s of [] \<Rightarrow> None
      | c # _ \<Rightarrow>
          if is_unit_char c then None
          else (case leadingInt 0 s of None \<Rightarrow> None
            | Some (v, s1) \<Rightarrow>
                (let pre = (length s \<noteq> length s1);
                     (f, scale, s2) = (case s1 of [] \<Rightarrow> (0, 1, s1)
                                       | d # r \<Rightarrow> if d = CHR ''.'' then leadingFraction 0 1 False r else (0, 1, s1));
                     post = (s1 \<noteq> [] \<and> hd s1 = CHR ''.'' \<and> length s2 \<noteq> length (tl s1));
                     u = takeWhile is_unit_char s2; s3 = dropWhile is_unit_char s2
                 in if \<not> pre \<and> \<not> post then None
                    else if u = [] then None
                    else (case unitMap u of None \<Rightarrow> None
                      | Some unit_ns \<Rightarrow>
                          if v > 2 ^ 63 div unit_ns then None
                          else let w = v * unit_ns + (if f > 0 then scaled_fraction f unit_ns scale else 0)
                               in if f > 0 \<and> w > 2 ^ 63 then None else Some (w, s3)))))"

lemma durationTerm_shorter: "durationTerm s = Some (w, r) \<Longrightarrow> length r < length s"
proof -
  assume *: "durationTerm s = Some (w, r)"
  then obtain v s1 f scale s2 where l: "leadingInt 0 s = Some (v, s1)"
    and f: "(case s1 of [] \<Rightarrow> (0, 1, s1)
       | d # r \<Rightarrow> if d = CHR ''.'' then leadingFraction 0 1 False r else (0, 1, s1)) = (f, scale, s2)"
    and r: "takeWhile is_unit_char s2 \<noteq> []" "r = dropWhile is_unit_char s2"
    by (auto simp: durationTerm_def Let_def split: list.splits option.splits prod.splits if_splits)
  have "length s2 \<le> length s"
    using leadingInt_shorter [OF l] f leadingFraction_shorter [of 0 1 False]
    by (fastforce split: list.splits if_splits)
  moreover have "length r < length s2"
    using r length_dropWhile_le [of is_unit_char s2]
    by (cases s2) (auto split: if_splits simp: less_Suc_eq_le length_dropWhile_le)
  ultimately show ?thesis by simp
qed

function durationTerms :: "nat \<Rightarrow> string \<Rightarrow> nat option" where
  "durationTerms d s =
     (if s = [] then Some d
      else case durationTerm s of None \<Rightarrow> None
        | Some (v, s') \<Rightarrow> if d + v > 2 ^ 63 then None else durationTerms (d + v) s')"
  by pat_completeness auto
termination
  by (relation "measure (\<lambda>(d, s). length s)") (auto dest: durationTerm_shorter)

declare durationTerms.simps [simp del]

definition ParseDuration :: "string \<Rightarrow> duration option" where
  "ParseDuration s0 =
     (let signed = (s0 \<noteq> [] \<and> (hd s0 = CHR ''-'' \<or> hd s0 = CHR ''+''));
          neg = (s0 \<noteq> [] \<and> hd s0 = CHR ''-'');
          s = (if signed then tl s0 else s0)
      in if s = ''0'' then Some 0
         else if s = [] then None
         else (case durationTerms 0 s of None \<Rightarrow> None
           | Some d \<Rightarrow>
               if neg then Some (- int d)
               else if d > 2 ^ 63 - 1 then None else Some (int d)))"

text \<open>The callers that ignore the error read zero.\<close>

definition parsed_duration :: "string \<Rightarrow> duration" where
  "parsed_duration s = (case ParseDuration s of None \<Rightarrow> 0 | Some d \<Rightarrow> d)"

lemma durationTerms_bound: "durationTerms d s = Some r \<Longrightarrow> d \<le> 2 ^ 63 \<Longrightarrow> r \<le> 2 ^ 63"
proof (induction d s rule: durationTerms.induct)
  case (1 d s)
  from "1.prems" show ?case
    by (subst (asm) durationTerms.simps) (auto split: if_splits option.splits dest: "1.IH")
qed

lemma ParseDuration_range: "ParseDuration s = Some d \<Longrightarrow> int64_min \<le> d \<and> d \<le> int64_max"
  using durationTerms_bound [of 0]
  by (fastforce simp: ParseDuration_def Let_def int64_min_def int64_max_def split: if_splits option.splits)

section \<open>Whole numbers of a unit\<close>

lemma leadingInt_digits:
  "list_all is_digit ds \<Longrightarrow> (case s of [] \<Rightarrow> True | c # _ \<Rightarrow> \<not> is_digit c) \<Longrightarrow>
   foldl (\<lambda>acc c. 10 * acc + digit_val c) x ds \<le> 2 ^ 63 \<Longrightarrow>
   leadingInt x (ds @ s) = Some (foldl (\<lambda>acc c. 10 * acc + digit_val c) x ds, s)"
proof (induction ds arbitrary: x)
  case (Cons c ds)
  let ?f = "\<lambda>acc c. 10 * acc + digit_val c"
  have mono: "y \<le> foldl ?f y ds" for y
  proof (induction ds arbitrary: y)
    case (Cons d ds)
    from Cons.IH [of "10 * y + digit_val d"] show ?case by simp
  qed simp
  have "10 * x + digit_val c \<le> 2 ^ 63"
    using mono [of "10 * x + digit_val c"] Cons.prems(3) by simp
  with Cons show ?case by (simp add: Let_def mult.commute)
qed (auto split: list.splits)

lemma ParseDuration_seconds:
  assumes "n * 1000000000 < 2 ^ 63"
  shows "ParseDuration (nat_digits n @ ''s'') = Some (int n * second)"
proof -
  let ?s = "nat_digits n @ ''s''"
  have digits: "list_all is_digit (nat_digits n)"
    using nat_digits_all_digits by (auto simp: list_all_iff)
  have lead: "leadingInt 0 ?s = Some (n, ''s'')"
    using leadingInt_digits [OF digits, of "''s''" 0] digits_val_nat_digits [of n] assms
    by (simp add: digits_val_def is_digit_def)
  obtain c r where s: "?s = c # r" "is_digit c"
    using digits by (cases "nat_digits n") auto
  have lead': "leadingInt 0 (c # r) = Some (n, ''s'')" using lead s by simp
  have "length r \<noteq> 0" using s arg_cong [OF s(1), of length] by (cases "nat_digits n") auto
  moreover have "\<not> 2 ^ 63 div 1000000000 < n" using assms by linarith
  ultimately have "durationTerm ?s = Some (n * 1000000000, [])"
    using s(2) unfolding durationTerm_def s(1)
    by (simp add: lead' unitMap_def is_unit_char_def is_digit_def del: leadingInt.simps)
  then have "durationTerms 0 ?s = Some (n * 1000000000)"
    using assms by (simp add: durationTerms.simps)
  moreover have "?s \<noteq> ''0''" "c \<noteq> CHR ''-''" "c \<noteq> CHR ''+''"
    using s by (auto simp: is_digit_def append_eq_Cons_conv)
  ultimately show ?thesis
    using assms s(1) by (auto simp: ParseDuration_def Let_def second_def)
qed

section \<open>Clock times\<close>

text \<open>\<^verbatim>\<open>time.Parse("15:04", value)\<close>: the hour may have one digit, the minute has two.\<close>

definition parse_clock :: "string \<Rightarrow> (nat \<times> nat) option" where
  "parse_clock value =
     (case getnum_loose value of None \<Rightarrow> None
      | Some (h, r) \<Rightarrow>
          if 24 \<le> h then None
          else (case expect (CHR '':'') r of None \<Rightarrow> None
            | Some r1 \<Rightarrow>
                (case getnum_fixed r1 of None \<Rightarrow> None
                 | Some (m, r2) \<Rightarrow> if 60 \<le> m \<or> r2 \<noteq> [] then None else Some (h, m))))"

definition clock_minute_text :: "nat \<Rightarrow> nat \<Rightarrow> string" where
  "clock_minute_text h m = fixed_digits 2 h @ '':'' @ fixed_digits 2 m"

lemma parse_clock_text: "h < 24 \<Longrightarrow> m < 60 \<Longrightarrow> parse_clock (clock_minute_text h m) = Some (h, m)"
  using getnum_fixed_digits [of m "[]"] by (simp add: parse_clock_def clock_minute_text_def)

lemma parse_clock_bounds: "parse_clock s = Some (h, m) \<Longrightarrow> h < 24 \<and> m < 60"
  by (auto simp: parse_clock_def split: option.splits if_splits prod.splits)

end
