(* ===== verification/Go_Zone.thy ===== *)
theory Go_Zone
  imports Go_Time
begin

text \<open>
  Time zones as package \<^verbatim>\<open>time\<close> uses them.  A location is its lookup function: for a number of
  seconds it gives the offset east of UTC in force and the bounds of the period during which
  it is in force.  Seconds are counted from the zero time (year 1), like instants; the zone
  data themselves come from outside the program.
\<close>

type_synonym location = "int \<Rightarrow> int \<times> int \<times> int"

definition zone_offset :: "location \<Rightarrow> instant \<Rightarrow> int" where
  "zone_offset loc t = fst (loc (t div second))"

text \<open>The wall clock of \<^verbatim>\<open>t.In(loc)\<close>, as the instant at which a UTC clock shows the same.\<close>

definition local_clock :: "location \<Rightarrow> instant \<Rightarrow> instant" where
  "local_clock loc t = t + zone_offset loc t * second"

text \<open>
  \<^verbatim>\<open>time.Date\<close> in a location.  Year, month and day enter as one day number; \<open>ns\<close> is the time of
  day.  The offset is looked up as if the wall clock were UTC and once more if the result
  lies outside the period of that offset.
\<close>

definition date_in :: "location \<Rightarrow> int \<Rightarrow> int \<Rightarrow> instant" where
  "date_in loc day ns =
     (let wall = day * ns_per_day + ns;
          sec = wall div second;
          (offset, start, stop) = loc sec;
          utc = sec - offset;
          offset' = (if offset \<noteq> 0 \<and> (utc < start \<or> utc \<ge> stop) then fst (loc utc) else offset)
      in wall - offset' * second)"

text \<open>\<^verbatim>\<open>t.AddDate(0, 0, n)\<close>\<close>

definition add_days :: "location \<Rightarrow> int \<Rightarrow> instant \<Rightarrow> instant" where
  "add_days loc n t = date_in loc (day_of (local_clock loc t) + n) (ns_of_day (local_clock loc t))"

definition weekday_names :: "string list" where
  "weekday_names = [''monday'', ''tuesday'', ''wednesday'', ''thursday'', ''friday'', ''saturday'', ''sunday'']"

text \<open>\<^verbatim>\<open>strings.ToLower(t.Weekday().String())\<close>; the first day of year 1 is a Monday.\<close>

definition weekday_of_day :: "int \<Rightarrow> string" where
  "weekday_of_day d = weekday_names ! nat (d mod 7)"

definition weekday_in :: "location \<Rightarrow> instant \<Rightarrow> string" where
  "weekday_in loc t = weekday_of_day (day_of (local_clock loc t))"

section \<open>Zones with a constant offset\<close>

definition fixed_zone :: "int \<Rightarrow> location" where
  "fixed_zone offset = (\<lambda>_. (offset, - (2 ^ 63), 2 ^ 63 - 1))"

definition steady :: "location \<Rightarrow> int \<Rightarrow> bool" where
  "steady loc offset \<longleftrightarrow> (\<forall>s. fst (loc s) = offset)"

lemma steady_fixed_zone [simp]: "steady (fixed_zone offset) offset"
  by (simp add: steady_def fixed_zone_def)

lemma steady_local: "steady loc offset \<Longrightarrow> local_clock loc t = t + offset * second"
  by (simp add: steady_def local_clock_def zone_offset_def)

lemma steady_date: "steady loc offset \<Longrightarrow> date_in loc day ns = day * ns_per_day + ns - offset * second"
  by (auto simp: steady_def date_in_def Let_def split: prod.splits) (metis fst_conv)+

lemma day_split: "day_of t * ns_per_day + ns_of_day t = t"
  by (simp add: day_of_def ns_of_day_def)

lemma day_shift: "(day_of w + n) * ns_per_day + ns_of_day w = w + n * ns_per_day"
  using day_split [of w] by (simp add: distrib_right)

lemma steady_add_days: "steady loc offset \<Longrightarrow> add_days loc n t = t + n * ns_per_day"
  unfolding add_days_def by (simp only: steady_date day_shift) (simp add: steady_local)

text \<open>
  A day step moves forward by \<open>24h\<close> minus the change of offset, which is a whole number of
  seconds: the offset used for the new date is one the zone really has.
\<close>

lemma date_in_offset: "\<exists>s. date_in loc day ns = day * ns_per_day + ns - fst (loc s) * second"
proof -
  let ?sec = "(day * ns_per_day + ns) div second"
  show ?thesis
    by (cases "loc ?sec")
      (auto simp: date_in_def Let_def split: prod.splits intro: exI [of _ ?sec] exI [of _ "?sec - fst (loc ?sec)"])
qed

lemma add_days_step:
  assumes "\<And>s s'. fst (loc s) - fst (loc s') < 86400"
  shows "t + second \<le> add_days loc 1 t"
proof -
  let ?w = "local_clock loc t"
  obtain s where s: "add_days loc 1 t = (day_of ?w + 1) * ns_per_day + ns_of_day ?w - fst (loc s) * second"
    using date_in_offset unfolding add_days_def by blast
  with day_shift [of ?w 1] have *: "add_days loc 1 t = t + (86400 - (fst (loc s) - zone_offset loc t)) * second"
    by (simp add: local_clock_def ns_per_day_def second_def algebra_simps)
  have "1 \<le> 86400 - (fst (loc s) - zone_offset loc t)"
    using assms [of s "t div second"] by (simp add: zone_offset_def)
  then show ?thesis unfolding * by (simp add: second_def)
qed

end
