(* ===== verification/Config.thy ===== *)
theory Config
  imports Store_Base Raw_Events Go_Duration Go_Zone
begin

text \<open>
  \<^verbatim>\<open>internal/config/config.go\<close>: the configuration records, their defaults, the derived
  durations and paths, and the validation of durations, schedules and collectors' timing.
  Errors are represented by their stable code.
\<close>

abbreviation (input) "CodeInvalidTimeout \<equiv> ''CONFIG_TIMEOUT_INVALID''"
abbreviation (input) "CodeInvalidMedia \<equiv> ''CONFIG_MEDIA_INGEST_INVALID''"
abbreviation (input) "CodeInvalidCollector \<equiv> ''CONFIG_COLLECTOR_INVALID''"
abbreviation (input) "CodeInvalidTimeline \<equiv> ''CONFIG_TIMELINE_INVALID''"
abbreviation (input) "CodeInvalidOperations \<equiv> ''CONFIG_OPERATIONS_INVALID''"
abbreviation (input) "CodeInvalidRetention \<equiv> ''CONFIG_RETENTION_INVALID''"
abbreviation (input) "ModeRecordOnly \<equiv> ''record-only''"
abbreviation (input) "ModeMinimum \<equiv> ''minimum''"
abbreviation (input) "CollectorActivityWatch \<equiv> ''activitywatch''"
abbreviation (input) "CollectorGenericJSON \<equiv> ''generic_json''"
abbreviation (input) "CollectorMedia \<equiv> ''media''"

type_synonym cfg_code = string

section \<open>Data\<close>

record RuntimeConfig =
  Mode :: string
  BackupInterfaceEnabled :: bool

record ScheduleWindowConfig =
  Days :: "string list"
  StartLocal :: string
  EndLocal :: string

record PlannedScheduleConfig =
  Timezone :: string
  Windows :: "ScheduleWindowConfig list"

record ActivityWatchConfig =
  aw_BaseURL :: string
  aw_BucketID :: string
  aw_PollInterval :: string
  aw_RequestTimeout :: string
  aw_InitialLookback :: string
  aw_RescanWindow :: string
  aw_PageSize :: int
  aw_MaxPagesPerPoll :: int
  aw_MaxResponseBytes :: int
  aw_ClockErrorMS :: int

record CollectorConfig =
  cc_ID :: string
  cc_Kind :: string
  cc_Enabled :: bool
  cc_HeartbeatPeriod :: string
  cc_AllowedLateness :: string
  cc_OfflineAfter :: string
  cc_PlannedSchedule :: PlannedScheduleConfig
  cc_ActivityWatch :: "ActivityWatchConfig option"

record TimelineConfig =
  ClockUncertainAfter :: string
  MaxQueryRange :: string
  MaxProjectionFacts :: int

record ServerConfig =
  ListenAddress :: string
  AllowNonLoopback :: bool
  sv_ReadHeader :: string
  sv_Read :: string
  sv_Write :: string
  sv_Idle :: string
  sv_Shutdown :: string

record LoggingConfig =
  lg_Level :: string
  FileEnabled :: bool
  MaxFileBytes :: int
  MaxFiles :: int

record PathsConfig =
  DataDirectory :: string

record StorageConfig =
  sg_BusyTimeout :: string
  MaxOpenConnections :: int
  WarningFreeBytes :: int
  CriticalFreeBytes :: int
  DatabaseReserveBytes :: int

record OperationsConfig =
  op_DiskCheckInterval :: string
  op_WALCheckpointInterval :: string
  WALMaxBytes :: int
  op_TempCleanupInterval :: string
  op_TempMaxAge :: string
  TempMaxFiles :: int

record RetentionConfig =
  rt_Enabled :: bool
  rt_ScanInterval :: string
  rt_MinimumAge :: string
  RequireFullBackup :: bool
  MaxDeletesPerRun :: int

record APIConfig =
  api_MaxRequestBytes :: int
  api_MaxBatchEvents :: int
  api_MaxEventBytes :: int
  api_MaxPayloadDepth :: int
  api_MaxConcurrentWrites :: int
  api_DefaultPageSize :: int
  api_MaxPageSize :: int

record MediaIngestConfig =
  mi_Enabled :: bool
  mi_InboxDirectory :: string
  mi_ScanInterval :: string
  mi_SettleInterval :: string
  mi_MaxSegmentBytes :: int
  mi_MaxSegmentDuration :: string
  mi_MaxSidecarBytes :: int
  mi_MaxScanEntries :: int
  mi_FFprobePath :: string
  mi_FFprobeTimeout :: string

record Config =
  cfg_SchemaVersion :: int
  cfg_Runtime :: RuntimeConfig
  cfg_Server :: ServerConfig
  cfg_Paths :: PathsConfig
  cfg_Storage :: StorageConfig
  cfg_API :: APIConfig
  cfg_MediaIngest :: MediaIngestConfig
  cfg_Collectors :: "CollectorConfig list"
  cfg_Timeline :: TimelineConfig
  cfg_Operations :: OperationsConfig
  cfg_Retention :: RetentionConfig
  cfg_Logging :: LoggingConfig
  cfg_DashboardEnabled :: bool

definition defaultConfig :: Config where
  "defaultConfig =
     \<lparr>cfg_SchemaVersion = 1,
      cfg_Runtime = \<lparr>Mode = ModeRecordOnly, BackupInterfaceEnabled = True\<rparr>,
      cfg_Server = \<lparr>ListenAddress = ''127.0.0.1:47831'', AllowNonLoopback = False, sv_ReadHeader = ''5s'', sv_Read = ''10s'',
                    sv_Write = ''10s'', sv_Idle = ''30s'', sv_Shutdown = ''10s''\<rparr>,
      cfg_Paths = \<lparr>DataDirectory = ''data''\<rparr>,
      cfg_Storage = \<lparr>sg_BusyTimeout = ''5s'', MaxOpenConnections = 8, WarningFreeBytes = 10 * 2 ^ 30,
                     CriticalFreeBytes = 5 * 2 ^ 30, DatabaseReserveBytes = 2 ^ 30\<rparr>,
      cfg_API = \<lparr>api_MaxRequestBytes = 2 ^ 20, api_MaxBatchEvents = 100, api_MaxEventBytes = 64 * 2 ^ 10,
                 api_MaxPayloadDepth = 16, api_MaxConcurrentWrites = 4, api_DefaultPageSize = 100, api_MaxPageSize = 500\<rparr>,
      cfg_MediaIngest = \<lparr>mi_Enabled = False, mi_InboxDirectory = ''media-inbox'', mi_ScanInterval = ''1s'',
                         mi_SettleInterval = ''1s'', mi_MaxSegmentBytes = 2 * 2 ^ 30, mi_MaxSegmentDuration = ''10m'',
                         mi_MaxSidecarBytes = 64 * 2 ^ 10, mi_MaxScanEntries = 1000, mi_FFprobePath = [], mi_FFprobeTimeout = ''30s''\<rparr>,
      cfg_Collectors = [],
      cfg_Timeline = \<lparr>ClockUncertainAfter = ''1s'', MaxQueryRange = ''744h'', MaxProjectionFacts = 100000\<rparr>,
      cfg_Operations = \<lparr>op_DiskCheckInterval = ''30s'', op_WALCheckpointInterval = ''5m'', WALMaxBytes = 64 * 2 ^ 20,
                        op_TempCleanupInterval = ''1h'', op_TempMaxAge = ''24h'', TempMaxFiles = 1000\<rparr>,
      cfg_Retention = \<lparr>rt_Enabled = False, rt_ScanInterval = ''1h'', rt_MinimumAge = ''168h'', RequireFullBackup = True,
                       MaxDeletesPerRun = 100\<rparr>,
      cfg_Logging = \<lparr>lg_Level = ''info'', FileEnabled = True, MaxFileBytes = 10 * 2 ^ 20, MaxFiles = 5\<rparr>,
      cfg_DashboardEnabled = True\<rparr>"

section \<open>Derived values\<close>

definition HeartbeatPeriodDuration :: "CollectorConfig \<Rightarrow> duration" where
  "HeartbeatPeriodDuration collector = parsed_duration (cc_HeartbeatPeriod collector)"

definition AllowedLatenessDuration :: "CollectorConfig \<Rightarrow> duration" where
  "AllowedLatenessDuration collector = parsed_duration (cc_AllowedLateness collector)"

definition OfflineAfterDuration :: "CollectorConfig \<Rightarrow> duration" where
  "OfflineAfterDuration collector = parsed_duration (cc_OfflineAfter collector)"

definition PollIntervalDuration :: "ActivityWatchConfig \<Rightarrow> duration" where
  "PollIntervalDuration aw = parsed_duration (aw_PollInterval aw)"

definition RequestTimeoutDuration :: "ActivityWatchConfig \<Rightarrow> duration" where
  "RequestTimeoutDuration aw = parsed_duration (aw_RequestTimeout aw)"

definition InitialLookbackDuration :: "ActivityWatchConfig \<Rightarrow> duration" where
  "InitialLookbackDuration aw = parsed_duration (aw_InitialLookback aw)"

definition RescanWindowDuration :: "ActivityWatchConfig \<Rightarrow> duration" where
  "RescanWindowDuration aw = parsed_duration (aw_RescanWindow aw)"

definition ReadHeaderTimeout :: "Config \<Rightarrow> duration" where
  "ReadHeaderTimeout cfg = parsed_duration (sv_ReadHeader (cfg_Server cfg))"

definition ReadTimeout :: "Config \<Rightarrow> duration" where
  "ReadTimeout cfg = parsed_duration (sv_Read (cfg_Server cfg))"

definition WriteTimeout :: "Config \<Rightarrow> duration" where
  "WriteTimeout cfg = parsed_duration (sv_Write (cfg_Server cfg))"

definition IdleTimeout :: "Config \<Rightarrow> duration" where
  "IdleTimeout cfg = parsed_duration (sv_Idle (cfg_Server cfg))"

definition ShutdownTimeout :: "Config \<Rightarrow> duration" where
  "ShutdownTimeout cfg = parsed_duration (sv_Shutdown (cfg_Server cfg))"

definition BusyTimeout :: "Config \<Rightarrow> duration" where
  "BusyTimeout cfg = parsed_duration (sg_BusyTimeout (cfg_Storage cfg))"

definition DiskCheckInterval :: "Config \<Rightarrow> duration" where
  "DiskCheckInterval cfg = parsed_duration (op_DiskCheckInterval (cfg_Operations cfg))"

definition WALCheckpointInterval :: "Config \<Rightarrow> duration" where
  "WALCheckpointInterval cfg = parsed_duration (op_WALCheckpointInterval (cfg_Operations cfg))"

definition TempCleanupInterval :: "Config \<Rightarrow> duration" where
  "TempCleanupInterval cfg = parsed_duration (op_TempCleanupInterval (cfg_Operations cfg))"

definition TempMaxAge :: "Config \<Rightarrow> duration" where
  "TempMaxAge cfg = parsed_duration (op_TempMaxAge (cfg_Operations cfg))"

definition DashboardIsEnabled :: "Config \<Rightarrow> bool" where
  "DashboardIsEnabled cfg \<longleftrightarrow> cfg_DashboardEnabled cfg \<and> Mode (cfg_Runtime cfg) = ModeRecordOnly"

definition RetentionScanInterval :: "Config \<Rightarrow> duration" where
  "RetentionScanInterval cfg = parsed_duration (rt_ScanInterval (cfg_Retention cfg))"

definition RetentionMinimumAge :: "Config \<Rightarrow> duration" where
  "RetentionMinimumAge cfg = parsed_duration (rt_MinimumAge (cfg_Retention cfg))"

definition MediaScanInterval :: "Config \<Rightarrow> duration" where
  "MediaScanInterval cfg = parsed_duration (mi_ScanInterval (cfg_MediaIngest cfg))"

definition MediaSettleInterval :: "Config \<Rightarrow> duration" where
  "MediaSettleInterval cfg = parsed_duration (mi_SettleInterval (cfg_MediaIngest cfg))"

definition MediaMaxSegmentDuration :: "Config \<Rightarrow> duration" where
  "MediaMaxSegmentDuration cfg = parsed_duration (mi_MaxSegmentDuration (cfg_MediaIngest cfg))"

section \<open>Validation of durations\<close>

text \<open>The shared shape of the five duration checks: the parsed value within bounds, or the code.\<close>

definition duration_within :: "cfg_code \<Rightarrow> string \<Rightarrow> duration \<Rightarrow> duration \<Rightarrow> cfg_code + duration" where
  "duration_within code value minimum maximum =
     (case ParseDuration value of None \<Rightarrow> Inl code
      | Some d \<Rightarrow> if d < minimum \<or> d > maximum then Inl code else Inr d)"

definition parseCollectorDuration :: "string \<Rightarrow> duration \<Rightarrow> duration \<Rightarrow> cfg_code + duration" where
  "parseCollectorDuration value minimum maximum = duration_within CodeInvalidCollector value minimum maximum"

definition validateMediaDuration :: "string \<Rightarrow> duration \<Rightarrow> duration \<Rightarrow> cfg_code + duration" where
  "validateMediaDuration value minimum maximum = duration_within CodeInvalidMedia value minimum maximum"

definition validateOperationsDuration :: "string \<Rightarrow> duration \<Rightarrow> duration \<Rightarrow> cfg_code + duration" where
  "validateOperationsDuration value minimum maximum = duration_within CodeInvalidOperations value minimum maximum"

definition validateRetentionDuration :: "string \<Rightarrow> duration \<Rightarrow> duration \<Rightarrow> cfg_code + duration" where
  "validateRetentionDuration value minimum maximum = duration_within CodeInvalidRetention value minimum maximum"

definition validateDuration :: "string \<Rightarrow> cfg_code + duration" where
  "validateDuration value = duration_within CodeInvalidTimeout value (100 * millisecond) (2 * minute)"

lemma duration_within_Inr_iff:
  "duration_within code value lo hi = Inr d \<longleftrightarrow> ParseDuration value = Some d \<and> lo \<le> d \<and> d \<le> hi"
  by (auto simp: duration_within_def split: option.splits)

definition validateTimeline :: "Config \<Rightarrow> cfg_code + unit" where
  "validateTimeline cfg =
     (case duration_within CodeInvalidTimeline (ClockUncertainAfter (cfg_Timeline cfg)) millisecond (24 * hour) of
        Inl e \<Rightarrow> Inl e
      | Inr _ \<Rightarrow>
          (case duration_within CodeInvalidTimeline (MaxQueryRange (cfg_Timeline cfg)) minute (366 * 24 * hour) of
             Inl e \<Rightarrow> Inl e
           | Inr _ \<Rightarrow>
               if MaxProjectionFacts (cfg_Timeline cfg) < 100 \<or> MaxProjectionFacts (cfg_Timeline cfg) > 1000000
               then Inl CodeInvalidTimeline else Inr ()))"

section \<open>Schedules\<close>

definition parseClockMinute :: "string \<Rightarrow> bool \<Rightarrow> nat option" where
  "parseClockMinute value allowEndOfDay =
     (if allowEndOfDay \<and> value = ''24:00'' then Some (24 * 60)
      else case parse_clock value of None \<Rightarrow> None
        | Some (h, m) \<Rightarrow> if clock_minute_text h m \<noteq> value then None else Some (h * 60 + m))"

definition validConfigIdentifier :: "string \<Rightarrow> nat \<Rightarrow> bool" where
  "validConfigIdentifier value maximum \<longleftrightarrow>
     \<not> (value = [] \<or> length value > maximum \<or> trim_space value \<noteq> value \<or> \<not> valid_utf8 value)
     \<and> list_all (\<lambda>character. \<not> is_control_rune character) (runes value)"

fun validDays :: "string list \<Rightarrow> string list \<Rightarrow> bool" where
  "validDays seen [] = True"
| "validDays seen (day # days) =
     (if day \<notin> set weekday_names \<or> day \<in> set seen then False else validDays (day # seen) days)"

fun validateWindows :: "ScheduleWindowConfig list \<Rightarrow> cfg_code + unit" where
  "validateWindows [] = Inr ()"
| "validateWindows (window # windows) =
     (if Days window = [] \<or> length (Days window) > 7 then Inl CodeInvalidCollector
      else if \<not> validDays [] (Days window) then Inl CodeInvalidCollector
      else case parseClockMinute (StartLocal window) False of None \<Rightarrow> Inl CodeInvalidCollector
        | Some start \<Rightarrow>
            (case parseClockMinute (EndLocal window) True of None \<Rightarrow> Inl CodeInvalidCollector
             | Some stop \<Rightarrow> if start \<ge> stop then Inl CodeInvalidCollector else validateWindows windows))"

definition validateSchedule :: "(string \<Rightarrow> location option) \<Rightarrow> PlannedScheduleConfig \<Rightarrow> cfg_code + unit" where
  "validateSchedule loadLocation schedule =
     (if Timezone schedule = [] \<or> Timezone schedule = ''Local'' then Inl CodeInvalidCollector
      else if loadLocation (Timezone schedule) = None then Inl CodeInvalidCollector
      else if Windows schedule = [] \<or> length (Windows schedule) > 64 then Inl CodeInvalidCollector
      else validateWindows (Windows schedule))"

lemma parseClockMinute_bounds: "parseClockMinute s e = Some m \<Longrightarrow> m \<le> 1440 \<and> (\<not> e \<longrightarrow> m < 1440)"
proof -
  assume *: "parseClockMinute s e = Some m"
  show ?thesis
  proof (cases "e \<and> s = ''24:00''")
    case False
    with * obtain h n where "parse_clock s = Some (h, n)" "m = h * 60 + n"
      by (auto simp: parseClockMinute_def split: option.splits if_splits prod.splits)
    with parse_clock_bounds [OF this(1)] show ?thesis by auto
  qed (use * in \<open>auto simp: parseClockMinute_def\<close>)
qed

lemma validDays_iff: "validDays seen ds \<longleftrightarrow> set ds \<subseteq> set weekday_names \<and> distinct ds \<and> set ds \<inter> set seen = {}"
  by (induction seen ds rule: validDays.induct) auto

text \<open>A canonical time of day: two digits, a colon and two digits, below 24 hours and 60 minutes; its value is the minute of the day.\<close>

definition canonical_clock :: "string \<Rightarrow> nat \<Rightarrow> bool" where
  "canonical_clock value n \<longleftrightarrow> (\<exists>a b c d. value = [digit a, digit b, CHR '':'', digit c, digit d]
     \<and> a < 10 \<and> b < 10 \<and> c < 10 \<and> d < 10 \<and> 10 * a + b < 24 \<and> 10 * c + d < 60 \<and> n = (10 * a + b) * 60 + (10 * c + d))"

lemma clock_minute_text_digits: "h < 100 \<Longrightarrow> m < 100 \<Longrightarrow> clock_minute_text h m = [digit (h div 10), digit (h mod 10), CHR '':'', digit (m div 10), digit (m mod 10)]"
  by (simp add: clock_minute_text_def numeral_2_eq_2)

lemma parse_clock_canonical:
  "(\<exists>h m. parse_clock value = Some (h, m) \<and> clock_minute_text h m = value \<and> n = h * 60 + m) \<longleftrightarrow> canonical_clock value n"
proof
  assume "\<exists>h m. parse_clock value = Some (h, m) \<and> clock_minute_text h m = value \<and> n = h * 60 + m"
  then obtain h m where *: "parse_clock value = Some (h, m)" "clock_minute_text h m = value" "n = h * 60 + m" by blast
  have b: "h < 24" "m < 60" using parse_clock_bounds [OF *(1)] by simp_all
  then have "value = [digit (h div 10), digit (h mod 10), CHR '':'', digit (m div 10), digit (m mod 10)]"
    using *(2) clock_minute_text_digits [of h m] by simp
  moreover have "10 * (h div 10) + h mod 10 = h" "10 * (m div 10) + m mod 10 = m" by simp_all
  moreover have "h div 10 < 10" "h mod 10 < 10" "m div 10 < 10" "m mod 10 < 10" using b by simp_all
  ultimately show "canonical_clock value n" unfolding canonical_clock_def using b *(3) by metis
next
  assume "canonical_clock value n"
  then obtain a b c d where v: "value = [digit a, digit b, CHR '':'', digit c, digit d]" "a < 10" "b < 10" "c < 10" "d < 10"
    "10 * a + b < 24" "10 * c + d < 60" "n = (10 * a + b) * 60 + (10 * c + d)" unfolding canonical_clock_def by blast
  then have "value = clock_minute_text (10 * a + b) (10 * c + d)" by (simp add: clock_minute_text_digits)
  with v parse_clock_text [of "10 * a + b" "10 * c + d"] show "\<exists>h m. parse_clock value = Some (h, m) \<and> clock_minute_text h m = value \<and> n = h * 60 + m" by auto
qed

lemma parseClockMinute_iff:
  "parseClockMinute value allowEndOfDay = Some n \<longleftrightarrow> canonical_clock value n \<or> allowEndOfDay \<and> value = ''24:00'' \<and> n = 1440"
proof (cases "allowEndOfDay \<and> value = ''24:00''")
  case True
  have "a = 2 \<and> b = 4" if "CHR ''2'' = digit a" "CHR ''4'' = digit b" "a < 10" "b < 10" for a b
    using that(1,2) [THEN arg_cong, of "of_char :: char \<Rightarrow> nat"] that(3,4) by (simp add: of_char_digit)
  then have "\<not> canonical_clock ''24:00'' n" unfolding canonical_clock_def by force
  with True show ?thesis by (auto simp: parseClockMinute_def)
next
  case False
  then have "parseClockMinute value allowEndOfDay = Some n \<longleftrightarrow> (\<exists>h m. parse_clock value = Some (h, m) \<and> clock_minute_text h m = value \<and> n = h * 60 + m)"
    by (auto simp: parseClockMinute_def split: option.splits)
  with False show ?thesis unfolding parse_clock_canonical by blast
qed

definition window_ok :: "ScheduleWindowConfig \<Rightarrow> bool" where
  "window_ok w \<longleftrightarrow> Days w \<noteq> [] \<and> set (Days w) \<subseteq> set weekday_names \<and> distinct (Days w)
     \<and> (\<exists>a b. canonical_clock (StartLocal w) a \<and> (canonical_clock (EndLocal w) b \<or> EndLocal w = ''24:00'' \<and> b = 1440) \<and> a < b)"

lemma window_ok_parse:
  "window_ok w \<longleftrightarrow> Days w \<noteq> [] \<and> set (Days w) \<subseteq> set weekday_names \<and> distinct (Days w)
     \<and> (\<exists>a b. parseClockMinute (StartLocal w) False = Some a \<and> parseClockMinute (EndLocal w) True = Some b \<and> a < b)"
  by (simp add: window_ok_def parseClockMinute_iff)

lemma validateWindows_iff: "validateWindows ws = Inr () \<longleftrightarrow> (\<forall>w \<in> set ws. window_ok w \<and> length (Days w) \<le> 7)"
  by (induction ws rule: validateWindows.induct) (auto simp: window_ok_parse validDays_iff split: option.splits)

lemma distinct_weekdays_length: "set ds \<subseteq> set weekday_names \<Longrightarrow> distinct ds \<Longrightarrow> length ds \<le> 7"
proof -
  assume "set ds \<subseteq> set weekday_names" "distinct ds"
  then have "length ds \<le> card (set weekday_names)"
    by (metis List.finite_set card_mono distinct_card)
  also have "\<dots> \<le> 7" using card_length [of weekday_names] by (simp add: weekday_names_def)
  finally show ?thesis .
qed

section \<open>Properties\<close>

text \<open>
  A duration accepted by \<^verbatim>\<open>time.ParseDuration\<close> always fits 64 bits, also where the text
  overflows, and a whole number of seconds that fits is read exactly.
\<close>

theorem parse_duration_bounds:
  "(case ParseDuration s of None \<Rightarrow> parsed_duration s = 0
    | Some d \<Rightarrow> parsed_duration s = d \<and> int64_min \<le> d \<and> d \<le> int64_max)
   \<and> ParseDuration (nat_digits (n mod 9223372036) @ ''s'') = Some (int (n mod 9223372036) * second)"
proof -
  have "m * 1000000000 < 2 ^ 63" if "m < 9223372036" for m :: nat using that by simp
  then have "n mod 9223372036 * 1000000000 < 2 ^ 63" by simp
  from ParseDuration_seconds [OF this] show ?thesis
    by (auto simp: parsed_duration_def dest: ParseDuration_range split: option.splits)
qed

text \<open>
  C28: \<^verbatim>\<open>validateSchedule\<close> accepts exactly the schedules with a loadable named time zone and 1 to 64
  windows, each on distinct days of the week and with a start strictly before its end.  Both are written
  with two digits, a colon and two digits, below 24 hours and 60 minutes; only the end may be \<^verbatim>\<open>24:00\<close>.
\<close>

theorem validate_schedule_correct:
  "validateSchedule loadLocation schedule = Inr () \<longleftrightarrow>
     Timezone schedule \<notin> {[], ''Local''} \<and> loadLocation (Timezone schedule) \<noteq> None
     \<and> 1 \<le> length (Windows schedule) \<and> length (Windows schedule) \<le> 64
     \<and> list_all window_ok (Windows schedule)"
  by (auto simp: validateSchedule_def validateWindows_iff list_all_iff Suc_le_eq window_ok_parse
      intro: distinct_weekdays_length)

end
