(* ===== verification/Coverage_Calc.thy ===== *)
theory Coverage_Calc
  imports Config "HOL-Library.Product_Lexorder"
begin

text \<open>
  \<^verbatim>\<open>internal/coverage/coverage.go\<close>: the availability of a collector over a range of time, from
  its planned schedule, its facts (heartbeats and events) and the current time.  The theory
  translates \<^verbatim>\<open>Build\<close> with all its helpers, gives the status of a single instant as an
  independent specification, and proves that the intervals are a partition that refines it.
  The date loop need not end in every zone: it ends when offsets differ by less than a day,
  and it does not across a skipped day.
\<close>

abbreviation (input) "Covered \<equiv> ''covered''"
abbreviation (input) "ConfirmedIdle \<equiv> ''confirmed_idle''"
abbreviation (input) "Pending \<equiv> ''pending''"
abbreviation (input) "Delayed \<equiv> ''delayed''"
abbreviation (input) "Offline \<equiv> ''offline''"
abbreviation (input) "Unknown \<equiv> ''unknown''"

record Fact =
  f_Start :: instant
  f_End :: instant
  f_Availability :: string
  f_QualityFlags :: "string list"
  f_ReasonCode :: string
  f_Priority :: int
  f_StableID :: string

record Interval =
  iv_Start :: instant
  iv_End :: instant
  iv_ScheduleStart :: instant
  iv_Availability :: string
  iv_QualityFlags :: "string list"
  iv_ReasonCode :: string

datatype build_error = CoverageRangeInvalid | CoverageLocationInvalid | CoverageFactInvalid

section \<open>Helpers\<close>

definition normalizeFlags :: "string list \<Rightarrow> string list" where
  "normalizeFlags values = sort (remdups values)"

fun equalFlags :: "string list \<Rightarrow> string list \<Rightarrow> bool" where
  "equalFlags [] [] = True"
| "equalFlags (a # xs) (b # ys) = (a = b \<and> equalFlags xs ys)"
| "equalFlags _ _ = False"

definition parseMinute :: "string \<Rightarrow> nat option" where
  "parseMinute value =
     (if value = ''24:00'' then Some (24 * 60)
      else map_option (\<lambda>(h, m). h * 60 + m) (parse_clock value))"

definition containsDay :: "string list \<Rightarrow> string \<Rightarrow> bool" where
  "containsDay values target = list_ex (\<lambda>value. value = target) values"

definition minTime :: "instant \<Rightarrow> instant \<Rightarrow> instant" where
  "minTime a b = (if a < b then a else b)"

definition maxTime :: "instant \<Rightarrow> instant \<Rightarrow> instant" where
  "maxTime a b = (if a > b then a else b)"

definition uniqueTimes :: "instant list \<Rightarrow> instant list" where
  "uniqueTimes values =
     foldl (\<lambda>result value. if result = [] \<or> last result \<noteq> value then result @ [value] else result) [] (sort values)"

definition appendMerged :: "Interval list \<Rightarrow> Interval \<Rightarrow> Interval list" where
  "appendMerged intervals next =
     (if intervals \<noteq> [] \<and>
         (let last = List.last intervals in
          iv_End last = iv_Start next \<and> iv_Availability last = iv_Availability next
          \<and> iv_ReasonCode last = iv_ReasonCode next \<and> equalFlags (iv_QualityFlags last) (iv_QualityFlags next))
      then butlast intervals @ [(List.last intervals)\<lparr>iv_End := iv_End next\<rparr>]
      else intervals @ [next])"

section \<open>Planned intervals\<close>

text \<open>The window of one schedule entry on the day of \<open>date\<close>, clipped to the range.\<close>

definition windowInterval :: "location \<Rightarrow> instant \<Rightarrow> instant \<Rightarrow> instant \<Rightarrow> ScheduleWindowConfig \<Rightarrow> Interval list" where
  "windowInterval loc rangeStart rangeEnd date window =
     (if \<not> containsDay (Days window) (weekday_in loc date) then []
      else
        let day = day_of (local_clock loc date);
            startMinute = (case parseMinute (StartLocal window) of None \<Rightarrow> 0 | Some m \<Rightarrow> m);
            endMinute = (case parseMinute (EndLocal window) of None \<Rightarrow> 0 | Some m \<Rightarrow> m);
            start = date_in loc day (int (startMinute div 60) * hour + int (startMinute mod 60) * minute);
            end = (if endMinute = 24 * 60 then add_days loc 1 (date_in loc day 0)
                   else date_in loc day (int (endMinute div 60) * hour + int (endMinute mod 60) * minute));
            scheduleStart = start;
            start = maxTime scheduleStart rangeStart;
            end = minTime end rangeEnd
        in if start < end
           then [\<lparr>iv_Start = start, iv_End = end, iv_ScheduleStart = scheduleStart, iv_Availability = [],
                  iv_QualityFlags = [], iv_ReasonCode = []\<rparr>]
           else [])"

definition dateIntervals :: "location \<Rightarrow> ScheduleWindowConfig list \<Rightarrow> instant \<Rightarrow> instant \<Rightarrow> instant \<Rightarrow> Interval list" where
  "dateIntervals loc windows rangeStart rangeEnd date = concat (map (windowInterval loc rangeStart rangeEnd date) windows)"

text \<open>The loop over the dates; it need not end for every zone, so its result is optional.\<close>

partial_function (option) datesLoop ::
  "location \<Rightarrow> ScheduleWindowConfig list \<Rightarrow> instant \<Rightarrow> instant \<Rightarrow> instant \<Rightarrow> instant \<Rightarrow> Interval list \<Rightarrow> Interval list option" where
  "datesLoop loc windows rangeStart rangeEnd lastDate date intervals =
     (if date > lastDate then Some intervals
      else datesLoop loc windows rangeStart rangeEnd lastDate (add_days loc 1 date)
             (intervals @ dateIntervals loc windows rangeStart rangeEnd date))"

declare datesLoop.simps [code]

definition mergePlanned :: "Interval list \<Rightarrow> Interval \<Rightarrow> Interval list" where
  "mergePlanned merged interval =
     (if merged = [] \<or> iv_Start interval > iv_End (last merged) then merged @ [interval]
      else
        let l = last merged;
            l = (if iv_ScheduleStart interval < iv_ScheduleStart l then l\<lparr>iv_ScheduleStart := iv_ScheduleStart interval\<rparr> else l);
            l = (if iv_End interval > iv_End l then l\<lparr>iv_End := iv_End interval\<rparr> else l)
        in butlast merged @ [l])"

definition firstDate :: "location \<Rightarrow> instant \<Rightarrow> instant" where
  "firstDate loc rangeStart = add_days loc (- 1) (date_in loc (day_of (local_clock loc rangeStart)) 0)"

definition lastDate :: "location \<Rightarrow> instant \<Rightarrow> instant" where
  "lastDate loc rangeEnd = add_days loc 1 (date_in loc (day_of (local_clock loc rangeEnd)) 0)"

definition plannedIntervals :: "(string \<Rightarrow> location option) \<Rightarrow> PlannedScheduleConfig \<Rightarrow> instant \<Rightarrow> instant
    \<Rightarrow> (build_error + Interval list) option" where
  "plannedIntervals loadLocation schedule rangeStart rangeEnd =
     (case loadLocation (Timezone schedule) of None \<Rightarrow> Some (Inl CoverageLocationInvalid)
      | Some loc \<Rightarrow>
          map_option (\<lambda>intervals. Inr (foldl mergePlanned [] (sort_key iv_Start intervals)))
            (datesLoop loc (Windows schedule) rangeStart rangeEnd (lastDate loc rangeEnd) (firstDate loc rangeStart) []))"

section \<open>Classification\<close>

definition covers :: "instant \<Rightarrow> instant \<Rightarrow> Fact \<Rightarrow> bool" where
  "covers start end ft \<longleftrightarrow> f_Start ft \<le> start \<and> f_End ft \<ge> end"

fun lastEvidence :: "instant \<Rightarrow> instant \<Rightarrow> Fact list \<Rightarrow> instant" where
  "lastEvidence start lastEnd [] = lastEnd"
| "lastEvidence start lastEnd (ft # facts) =
     lastEvidence start (if f_End ft \<le> start \<and> f_End ft > lastEnd then f_End ft else lastEnd) facts"

definition precedence :: "Fact \<Rightarrow> int \<times> string" where
  "precedence ft = (- f_Priority ft, f_StableID ft)"

definition classifySegment :: "CollectorConfig \<Rightarrow> instant \<Rightarrow> instant \<Rightarrow> instant \<Rightarrow> instant \<Rightarrow> Fact list
    \<Rightarrow> string \<times> string list \<times> string" where
  "classifySegment collector planStart start end now facts =
     (let covering = filter (covers start end) facts; lastEvidenceEnd = lastEvidence start 0 facts in
      if covering \<noteq> [] then
        let covering = sort_key precedence covering;
            flags = concat (map f_QualityFlags covering)
        in (f_Availability (hd covering), normalizeFlags flags, f_ReasonCode (hd covering))
      else if \<not> start < now then (Pending, [], ''SCHEDULED_FUTURE'')
      else
        let reference = (if lastEvidenceEnd = 0 then planStart else lastEvidenceEnd);
            expected = reference + HeartbeatPeriodDuration collector;
            lateDeadline = expected + AllowedLatenessDuration collector;
            offlineDeadline = reference + OfflineAfterDuration collector
        in if now < lateDeadline then (Pending, [], ''AWAITING_HEARTBEAT'')
           else if start < expected then (Unknown, [], ''HEARTBEAT_MISSING'')
           else if start < offlineDeadline then (Delayed, [], ''HEARTBEAT_LATE'')
           else (Offline, [], ''HEARTBEAT_OFFLINE''))"

section \<open>Build\<close>

definition factPoints :: "CollectorConfig \<Rightarrow> Interval \<Rightarrow> Fact \<Rightarrow> instant list" where
  "factPoints collector plan ft =
     (if f_End ft > iv_Start plan \<and> f_Start ft < iv_End plan
      then [maxTime (iv_Start plan) (f_Start ft), minTime (iv_End plan) (f_End ft)] else [])
     @ filter (\<lambda>deadline. deadline > iv_Start plan \<and> deadline < iv_End plan)
         [f_End ft + HeartbeatPeriodDuration collector,
          f_End ft + wrap64 (HeartbeatPeriodDuration collector + AllowedLatenessDuration collector),
          f_End ft + OfflineAfterDuration collector]"

definition planPoints :: "CollectorConfig \<Rightarrow> instant \<Rightarrow> Fact list \<Rightarrow> Interval \<Rightarrow> instant list" where
  "planPoints collector now facts plan =
     uniqueTimes
       ([iv_Start plan, iv_End plan] @ concat (map (factPoints collector plan) facts)
        @ filter (\<lambda>deadline. deadline > iv_Start plan \<and> deadline < iv_End plan)
            [iv_ScheduleStart plan + HeartbeatPeriodDuration collector,
             iv_ScheduleStart plan + wrap64 (HeartbeatPeriodDuration collector + AllowedLatenessDuration collector),
             iv_ScheduleStart plan + OfflineAfterDuration collector,
             now])"

fun planSegments :: "CollectorConfig \<Rightarrow> instant \<Rightarrow> Fact list \<Rightarrow> Interval \<Rightarrow> instant list \<Rightarrow> Interval list \<Rightarrow> Interval list" where
  "planSegments collector now facts plan (start # end # points) result =
     (if \<not> start < end then planSegments collector now facts plan (end # points) result
      else
        let (availability, flags, reason) = classifySegment collector (iv_ScheduleStart plan) start end now facts
        in planSegments collector now facts plan (end # points)
             (appendMerged result \<lparr>iv_Start = start, iv_End = end, iv_ScheduleStart = 0, iv_Availability = availability,
                iv_QualityFlags = flags, iv_ReasonCode = reason\<rparr>))"
| "planSegments collector now facts plan _ result = result"

definition factInvalid :: "Fact \<Rightarrow> bool" where
  "factInvalid ft \<longleftrightarrow> \<not> f_Start ft < f_End ft
     \<or> (f_Availability ft \<noteq> Covered \<and> f_Availability ft \<noteq> ConfirmedIdle)"

definition factOrder :: "Fact \<Rightarrow> int \<times> int \<times> string" where
  "factOrder ft = (f_Start ft, - f_Priority ft, f_StableID ft)"

definition preparedFacts :: "Fact list \<Rightarrow> Fact list" where
  "preparedFacts facts = sort_key factOrder (map (\<lambda>f. f\<lparr>f_QualityFlags := normalizeFlags (f_QualityFlags f)\<rparr>) facts)"

definition Build :: "(string \<Rightarrow> location option) \<Rightarrow> CollectorConfig \<Rightarrow> instant \<Rightarrow> instant \<Rightarrow> instant \<Rightarrow> Fact list
    \<Rightarrow> (build_error + Interval list) option" where
  "Build loadLocation collector rangeStart rangeEnd now facts =
     (if \<not> rangeStart < rangeEnd then Some (Inl CoverageRangeInvalid)
      else case plannedIntervals loadLocation (cc_PlannedSchedule collector) rangeStart rangeEnd of
        None \<Rightarrow> None
      | Some (Inl e) \<Rightarrow> Some (Inl e)
      | Some (Inr planned) \<Rightarrow>
          if list_ex factInvalid facts then Some (Inl CoverageFactInvalid)
          else
            let facts = preparedFacts facts
            in Some (Inr (foldl (\<lambda>result plan. planSegments collector now facts plan (planPoints collector now facts plan) result)
                            [] planned)))"

section \<open>Merging keeps the status of every instant\<close>

definition iv_has :: "instant \<Rightarrow> Interval \<Rightarrow> bool" where
  "iv_has t i \<longleftrightarrow> iv_Start i \<le> t \<and> t < iv_End i"

definition status_of :: "Interval \<Rightarrow> string \<times> string list \<times> string" where
  "status_of i = (iv_Availability i, iv_QualityFlags i, iv_ReasonCode i)"

definition coverage_at :: "Interval list \<Rightarrow> instant \<Rightarrow> (string \<times> string list \<times> string) option" where
  "coverage_at ivs t = map_option status_of (List.find (iv_has t) ivs)"

definition separated :: "Interval list \<Rightarrow> bool" where
  "separated ivs \<longleftrightarrow> sorted_wrt (\<lambda>a b. iv_End a \<le> iv_Start b) ivs \<and> list_all (\<lambda>i. iv_Start i < iv_End i) ivs"

definition ends_by :: "instant \<Rightarrow> Interval list \<Rightarrow> bool" where
  "ends_by x ivs \<longleftrightarrow> list_all (\<lambda>i. iv_End i \<le> x) ivs"

lemma find_append_case: "List.find P (xs @ ys) = (case List.find P xs of None \<Rightarrow> List.find P ys | Some x \<Rightarrow> Some x)"
  by (induction xs) auto

lemma equalFlags_iff [simp]: "equalFlags a b \<longleftrightarrow> a = b"
  by (induction a b rule: equalFlags.induct) auto

lemma ends_by_mono: "ends_by x ivs \<Longrightarrow> x \<le> y \<Longrightarrow> ends_by y ivs"
  by (auto simp: ends_by_def list_all_iff)

lemma ends_by_find: "ends_by x ivs \<Longrightarrow> x \<le> t \<Longrightarrow> List.find (iv_has t) ivs = None"
  by (force simp: ends_by_def list_all_iff find_None_iff iv_has_def)

lemma coverage_at_append:
  assumes "separated (ivs @ [n])"
  shows "coverage_at (ivs @ [n]) t = (if iv_has t n then Some (status_of n) else coverage_at ivs t)"
proof -
  have "ends_by (iv_Start n) ivs"
    using assms by (auto simp: separated_def ends_by_def list_all_iff sorted_wrt_append)
  from ends_by_find [OF this] show ?thesis
    by (auto simp: coverage_at_def find_append_case iv_has_def split: option.splits)
qed

lemma appendMerged_ok:
  assumes "separated ivs" "ends_by (iv_Start n) ivs" "iv_Start n < iv_End n"
  shows "separated (appendMerged ivs n)" "ends_by (iv_End n) (appendMerged ivs n)"
    "coverage_at (appendMerged ivs n) t = (if iv_has t n then Some (status_of n) else coverage_at ivs t)"
proof -
  let ?m = "ivs \<noteq> [] \<and> iv_End (last ivs) = iv_Start n \<and> status_of (last ivs) = status_of n"
  have am: "appendMerged ivs n = (if ?m then butlast ivs @ [(last ivs)\<lparr>iv_End := iv_End n\<rparr>] else ivs @ [n])"
    by (auto simp: appendMerged_def status_of_def Let_def)
  have plain: "separated (ivs @ [n])" "ends_by (iv_End n) (ivs @ [n])"
    using assms by (auto simp: separated_def ends_by_def list_all_iff sorted_wrt_append intro: order_trans [OF _ less_imp_le])
  show "separated (appendMerged ivs n)" "ends_by (iv_End n) (appendMerged ivs n)"
    "coverage_at (appendMerged ivs n) t = (if iv_has t n then Some (status_of n) else coverage_at ivs t)"
  proof (atomize (full), cases ?m)
    case False
    with am plain coverage_at_append [OF plain(1), of t]
    show "separated (appendMerged ivs n) \<and> ends_by (iv_End n) (appendMerged ivs n) \<and>
      coverage_at (appendMerged ivs n) t = (if iv_has t n then Some (status_of n) else coverage_at ivs t)"
      by simp
  next
    case True
    then obtain xs l where ivs: "ivs = xs @ [l]" by (metis append_butlast_last_id)
    let ?l = "l\<lparr>iv_End := iv_End n\<rparr>"
    from True ivs have l: "iv_End l = iv_Start n" "status_of l = status_of n" "status_of ?l = status_of n"
      by (simp_all add: status_of_def)
    have sep: "separated (xs @ [?l])"
      using assms l ivs by (auto simp: separated_def sorted_wrt_append)
    have "iv_Start l < iv_End l" using assms(1) by (simp add: ivs separated_def)
    then have has: "iv_has t ?l \<longleftrightarrow> iv_has t l \<or> iv_has t n"
      using l(1) assms(3) by (auto simp: iv_has_def)
    from True am ivs sep plain(2) coverage_at_append [OF sep, of t] coverage_at_append [OF assms(1) [unfolded ivs], of t] has l
    show "separated (appendMerged ivs n) \<and> ends_by (iv_End n) (appendMerged ivs n) \<and>
      coverage_at (appendMerged ivs n) t = (if iv_has t n then Some (status_of n) else coverage_at ivs t)"
      by (simp add: ends_by_def)
  qed
qed

section \<open>The breakpoints of a plan\<close>

lemma uniqueTimes_fold:
  assumes "sorted ys" "sorted_wrt (<) acc" "\<forall>a \<in> set acc. \<forall>y \<in> set ys. a \<le> y"
  shows "sorted_wrt (<) (foldl (\<lambda>result value. if result = [] \<or> last result \<noteq> value then result @ [value] else result) acc ys)
    \<and> set (foldl (\<lambda>result value. if result = [] \<or> last result \<noteq> value then result @ [value] else result) acc ys) = set acc \<union> set ys"
  using assms
proof (induction ys arbitrary: acc)
  case (Cons y ys)
  have "a < y" if "acc = [] \<or> last acc \<noteq> y" "a \<in> set acc" for a
  proof -
    from that obtain zs l where acc: "acc = zs @ [l]" by (metis append_butlast_last_id empty_iff list.set(1))
    with Cons.prems that show ?thesis by (force simp: sorted_wrt_append)
  qed
  moreover have "y \<in> set acc" if "\<not> (acc = [] \<or> last acc \<noteq> y)" using that by force
  ultimately show ?case
    using Cons.IH [of "if acc = [] \<or> last acc \<noteq> y then acc @ [y] else acc"] Cons.prems
    by (auto simp: sorted_wrt_append)
qed simp

lemma uniqueTimes_sorted: "sorted_wrt (<) (uniqueTimes xs)" and set_uniqueTimes: "set (uniqueTimes xs) = set xs"
  using uniqueTimes_fold [of "sort xs" "[]"] by (simp_all add: uniqueTimes_def)

lemma planSegments_ok:
  fixes P :: "instant set"
  assumes seg: "\<And>s e t. s \<in> P \<Longrightarrow> e \<in> P \<Longrightarrow> \<forall>x \<in> P. x \<le> s \<or> e \<le> x \<Longrightarrow> s \<le> t \<Longrightarrow> t < e \<Longrightarrow>
      classifySegment C (iv_ScheduleStart plan) s e now facts = spec t"
  shows "sorted_wrt (<) (p # ps) \<Longrightarrow> {x \<in> P. p \<le> x} = set (p # ps) \<Longrightarrow> separated ivs \<Longrightarrow> ends_by p ivs \<Longrightarrow>
    separated (planSegments C now facts plan (p # ps) ivs)
    \<and> ends_by (last (p # ps)) (planSegments C now facts plan (p # ps) ivs)
    \<and> (\<forall>t. coverage_at (planSegments C now facts plan (p # ps) ivs) t
         = (if p \<le> t \<and> t < last (p # ps) then Some (spec t) else coverage_at ivs t))"
proof (induction ps arbitrary: p ivs)
  case (Cons q ps)
  obtain a f r where c: "classifySegment C (iv_ScheduleStart plan) p q now facts = (a, f, r)" by (rule prod_cases3)
  let ?n = "\<lparr>iv_Start = p, iv_End = q, iv_ScheduleStart = 0, iv_Availability = a, iv_QualityFlags = f, iv_ReasonCode = r\<rparr>"
  have pq: "p < q" using Cons.prems(1) by simp
  have step: "planSegments C now facts plan (p # q # ps) ivs = planSegments C now facts plan (q # ps) (appendMerged ivs ?n)"
    using pq by (simp add: c)
  have n: "iv_Start ?n = p" "iv_End ?n = q" "status_of ?n = (a, f, r)"
    by (simp_all add: status_of_def)
  have P: "p \<in> P" "q \<in> P" "\<forall>x \<in> P. x \<le> p \<or> q \<le> x"
    using Cons.prems(1,2) by (auto simp: set_eq_iff) (metis leI less_imp_le order_refl)+
  have "{x \<in> P. q \<le> x} = set (q # ps)"
    using Cons.prems(1,2) pq by (auto simp: set_eq_iff) (metis leD less_imp_le order_trans order_refl)+
  note * = appendMerged_ok [OF Cons.prems(3), of ?n, unfolded n, OF Cons.prems(4) pq]
  have "sorted_wrt (<) (q # ps)" using Cons.prems(1) by simp
  from Cons.IH [OF this \<open>{x \<in> P. q \<le> x} = set (q # ps)\<close> *(1,2)]
  have IH: "separated (planSegments C now facts plan (p # q # ps) ivs)"
    "ends_by (last (p # q # ps)) (planSegments C now facts plan (p # q # ps) ivs)"
    "\<And>t. coverage_at (planSegments C now facts plan (p # q # ps) ivs) t
         = (if q \<le> t \<and> t < last (q # ps) then Some (spec t) else coverage_at (appendMerged ivs ?n) t)"
    unfolding step by simp_all
  have "q \<le> last (q # ps)" using Cons.prems(1) by (auto simp: less_imp_le)
  moreover have "coverage_at (appendMerged ivs ?n) t = Some (spec t)" if "p \<le> t" "t < q" for t
    using *(3) [of t] seg [OF P that] that by (simp add: iv_has_def c n)
  moreover have "coverage_at (appendMerged ivs ?n) t = coverage_at ivs t" if "\<not> (p \<le> t \<and> t < q)" for t
    using *(3) [of t] that by (simp add: iv_has_def n)
  ultimately show ?case
    using IH pq by (auto simp: not_less not_le)
qed auto


section \<open>The status of an instant\<close>

text \<open>
  The specification: what the collector's facts say about one instant of a plan.  A fact that
  covers the instant decides, the one of highest priority and smallest id first, and the flags
  of all covering facts are combined; otherwise the time since the last evidence decides.
\<close>

definition covering_at :: "Fact list \<Rightarrow> instant \<Rightarrow> Fact list" where
  "covering_at facts t = filter (\<lambda>f. f_Start f \<le> t \<and> t < f_End f) facts"

definition evidence_ends :: "Fact list \<Rightarrow> instant \<Rightarrow> instant set" where
  "evidence_ends facts t = {e \<in> f_End ` set facts. 0 < e \<and> e \<le> t}"

definition reference_at :: "instant \<Rightarrow> Fact list \<Rightarrow> instant \<Rightarrow> instant" where
  "reference_at planStart facts t = (if evidence_ends facts t = {} then planStart else Max (evidence_ends facts t))"

definition status_at :: "CollectorConfig \<Rightarrow> instant \<Rightarrow> instant \<Rightarrow> Fact list \<Rightarrow> instant \<Rightarrow> string \<times> string list \<times> string" where
  "status_at collector planStart now facts t =
     (let cov = covering_at facts t; r = reference_at planStart facts t in
      if cov \<noteq> [] then
        (f_Availability (arg_min_list (\<lambda>f. (- f_Priority f, f_StableID f)) cov), sorted_list_of_set (\<Union>f \<in> set cov. set (f_QualityFlags f)),
         f_ReasonCode (arg_min_list (\<lambda>f. (- f_Priority f, f_StableID f)) cov))
      else if now \<le> t then (Pending, [], ''SCHEDULED_FUTURE'')
      else if now < r + HeartbeatPeriodDuration collector + AllowedLatenessDuration collector
        then (Pending, [], ''AWAITING_HEARTBEAT'')
      else if t < r + HeartbeatPeriodDuration collector then (Unknown, [], ''HEARTBEAT_MISSING'')
      else if t < r + OfflineAfterDuration collector then (Delayed, [], ''HEARTBEAT_LATE'')
      else (Offline, [], ''HEARTBEAT_OFFLINE''))"

lemma status_at_eq:
  "status_at collector planStart now facts t =
     (let cov = covering_at facts t; r = reference_at planStart facts t in
      if cov \<noteq> [] then
        (f_Availability (arg_min_list precedence cov), sorted_list_of_set (\<Union>f \<in> set cov. set (f_QualityFlags f)),
         f_ReasonCode (arg_min_list precedence cov))
      else if now \<le> t then (Pending, [], ''SCHEDULED_FUTURE'')
      else if now < r + HeartbeatPeriodDuration collector + AllowedLatenessDuration collector
        then (Pending, [], ''AWAITING_HEARTBEAT'')
      else if t < r + HeartbeatPeriodDuration collector then (Unknown, [], ''HEARTBEAT_MISSING'')
      else if t < r + OfflineAfterDuration collector then (Delayed, [], ''HEARTBEAT_LATE'')
      else (Offline, [], ''HEARTBEAT_OFFLINE''))"
  unfolding status_at_def precedence_def [abs_def] ..

lemma lastEvidence_eq:
  "0 \<le> l \<Longrightarrow> lastEvidence s l facts = Max (insert l {e \<in> f_End ` set facts. e \<le> s})"
proof (induction facts arbitrary: l)
  case (Cons f facts)
  let ?E = "{e \<in> f_End ` set facts. e \<le> s}"
  have "{e \<in> f_End ` set (f # facts). e \<le> s} = (if f_End f \<le> s then insert (f_End f) ?E else ?E)" by auto
  moreover have "Max (insert x (insert y E)) = Max (insert (max x y) E)" if "finite E" for x y :: int and E
    using that by (cases "E = {}") (simp_all add: max.assoc)
  note this [of ?E l "f_End f"]
  ultimately show ?case
    using Cons.IH [of l] Cons.IH [of "f_End f"] Cons.prems
    by (cases "f_End f \<le> s"; cases "l < f_End f") (simp_all add: max_def)
qed simp

lemma lastEvidence_reference:
  "(if lastEvidence t 0 facts = 0 then p else lastEvidence t 0 facts) = reference_at p facts t"
proof -
  let ?E = "{e \<in> f_End ` set facts. e \<le> t}"
  have *: "lastEvidence t 0 facts = Max (insert 0 ?E)" by (simp add: lastEvidence_eq)
  have fin: "finite ?E" by simp
  show ?thesis
  proof (cases "evidence_ends facts t = {}")
    case True
    then have "\<forall>e \<in> ?E. e \<le> 0" by (force simp: evidence_ends_def)
    then have "Max (insert 0 ?E) = 0" by (intro Max_eqI) auto
    with * True show ?thesis by (simp add: reference_at_def)
  next
    case False
    have fin': "finite (evidence_ends facts t)" by (simp add: evidence_ends_def)
    have "Max (insert 0 ?E) = Max (evidence_ends facts t)"
    proof (rule Max_eqI)
      fix y assume "y \<in> insert 0 ?E"
      show "y \<le> Max (evidence_ends facts t)"
      proof (cases "y \<in> evidence_ends facts t")
        case out: False
        from \<open>evidence_ends facts t \<noteq> {}\<close> obtain z where "z \<in> evidence_ends facts t" by blast
        then have "0 < z" "z \<le> Max (evidence_ends facts t)" using fin' by (simp_all add: evidence_ends_def)
        moreover have "y \<le> 0" using \<open>y \<in> insert 0 ?E\<close> out by (auto simp: evidence_ends_def)
        ultimately show ?thesis by linarith
      qed (simp add: fin')
    next
      show "Max (evidence_ends facts t) \<in> insert 0 ?E"
        using Max_in [OF fin' False] by (auto simp: evidence_ends_def)
    qed simp
    moreover have "0 < Max (evidence_ends facts t)" using Max_in [OF fin' False] by (auto simp: evidence_ends_def)
    ultimately show ?thesis using * False by (simp add: reference_at_def)
  qed
qed

lemma hd_sort_key: "xs \<noteq> [] \<Longrightarrow> hd (sort_key k xs) = arg_min_list k xs"
proof (induction k xs rule: arg_min_list.induct)
  case (2 k x y zs)
  have "sort_key k (y # zs) \<noteq> []" by (metis length_0_conv length_sort list.distinct(1))
  moreover have "hd (insort_key k x ys) = (if k x \<le> k (hd ys) then x else hd ys)" if "ys \<noteq> []" for ys
    using that by (cases ys) auto
  ultimately show ?case using 2 by (simp add: Let_def)
qed simp_all

lemma normalizeFlags_set: "normalizeFlags fs = sorted_list_of_set (set fs)"
  by (simp add: normalizeFlags_def sorted_list_of_set_sort_remdups)

lemma classify_instant: "classifySegment C p t (t + 1) now facts = status_at C p now facts t"
proof -
  have "covers t (t + 1) = (\<lambda>f. f_Start f \<le> t \<and> t < f_End f)" by (auto simp: covers_def fun_eq_iff)
  then have cov: "filter (covers t (t + 1)) facts = covering_at facts t" by (simp add: covering_at_def)
  show ?thesis
    unfolding classifySegment_def status_at_eq Let_def cov lastEvidence_reference
    by (simp add: hd_sort_key normalizeFlags_set not_less)
qed

section \<open>No breakpoint inside a segment\<close>

lemma lastEvidence_mem: "lastEvidence s l facts \<in> insert l (f_End ` set facts)"
  by (induction s l facts rule: lastEvidence.induct) auto

lemma lastEvidence_cong:
  "(\<And>f. f \<in> set facts \<Longrightarrow> f_End f \<le> s \<longleftrightarrow> f_End f \<le> t) \<Longrightarrow> lastEvidence s l facts = lastEvidence t l facts"
  by (induction s l facts rule: lastEvidence.induct) auto

lemma planPoints_set:
  "set (planPoints C now facts plan) =
     {iv_Start plan, iv_End plan} \<union> (\<Union>f \<in> set facts. set (factPoints C plan f))
     \<union> {d \<in> {iv_ScheduleStart plan + HeartbeatPeriodDuration C,
             iv_ScheduleStart plan + wrap64 (HeartbeatPeriodDuration C + AllowedLatenessDuration C),
             iv_ScheduleStart plan + OfflineAfterDuration C, now}. iv_Start plan < d \<and> d < iv_End plan}"
  unfolding planPoints_def by (auto simp: set_uniqueTimes)

lemma factPoints_within:
  "iv_Start plan < iv_End plan \<Longrightarrow> x \<in> set (factPoints C plan f) \<Longrightarrow> iv_Start plan \<le> x \<and> x \<le> iv_End plan"
  by (simp add: factPoints_def maxTime_def minTime_def split: if_splits) linarith+

lemma planPoints_within:
  assumes "iv_Start plan < iv_End plan" "x \<in> set (planPoints C now facts plan)"
  shows "iv_Start plan \<le> x \<and> x \<le> iv_End plan"
  using assms factPoints_within [OF assms(1), of x C] unfolding planPoints_set by (elim UnE) auto

lemma plan_breakpoint:
  assumes "x \<in> {now} \<union> (\<lambda>d. iv_ScheduleStart plan + d) ` {HeartbeatPeriodDuration C, OfflineAfterDuration C}
      \<union> (\<Union>f \<in> set facts. {f_End f + HeartbeatPeriodDuration C, f_End f + OfflineAfterDuration C})"
    and "iv_Start plan < x" "x < iv_End plan"
  shows "x \<in> set (planPoints C now facts plan)"
  using assms by (auto simp: planPoints_set factPoints_def)

lemma fact_breakpoint:
  assumes "f \<in> set facts" "f_Start f < f_End f" "x = f_Start f \<or> x = f_End f" "iv_Start plan < x" "x < iv_End plan"
  shows "x \<in> set (planPoints C now facts plan)"
proof -
  have "f_End f > iv_Start plan" "f_Start f < iv_End plan" using assms by auto
  then have "x \<in> set (factPoints C plan f)"
    using assms by (auto simp: factPoints_def maxTime_def minTime_def)
  with assms(1) show ?thesis by (auto simp: planPoints_set)
qed

lemma classify_segment:
  assumes plan: "iv_Start plan < iv_End plan" and facts: "\<forall>f \<in> set facts. f_Start f < f_End f"
    and s: "s \<in> set (planPoints C now facts plan)" and e: "e \<in> set (planPoints C now facts plan)"
    and gap: "\<forall>x \<in> set (planPoints C now facts plan). x \<le> s \<or> e \<le> x" and t: "s \<le> t" "t < e"
  shows "classifySegment C (iv_ScheduleStart plan) s e now facts = status_at C (iv_ScheduleStart plan) now facts t"
proof -
  let ?P = "set (planPoints C now facts plan)"
  have bounds: "iv_Start plan \<le> s" "e \<le> iv_End plan" using planPoints_within [OF plan] s e by auto
  have no: "\<not> (s < x \<and> x \<le> t)" "\<not> (t < x \<and> x < e)" if "x \<in> ?P" for x using gap that t by auto
  have inner: "s < x \<longleftrightarrow> t < x" if "iv_Start plan < x \<Longrightarrow> x < iv_End plan \<Longrightarrow> x \<in> ?P" for x
    using no(1) [of x] that bounds t by (meson le_less_trans less_le_trans not_le)
  have ends: "f_End f \<le> s \<longleftrightarrow> f_End f \<le> t" if "f \<in> set facts" for f
    using inner [of "f_End f"] fact_breakpoint [OF that, of "f_End f" plan] facts that by force
  have cov: "covers s e f \<longleftrightarrow> covers t (t + 1) f" if "f \<in> set facts" for f
  proof -
    have "f_Start f \<le> s" if "f_Start f \<le> t"
      using inner [of "f_Start f"] fact_breakpoint [OF \<open>f \<in> set facts\<close>, of "f_Start f" plan] facts that \<open>f \<in> set facts\<close> by force
    moreover have "e \<le> f_End f" if "t < f_End f"
      using no(2) [OF fact_breakpoint [OF \<open>f \<in> set facts\<close>, of "f_End f" plan]] facts that \<open>f \<in> set facts\<close> bounds t by force
    ultimately show ?thesis using t by (auto simp: covers_def)
  qed
  have last: "lastEvidence s 0 facts = lastEvidence t 0 facts" using ends by (rule lastEvidence_cong)
  let ?r = "if lastEvidence t 0 facts = 0 then iv_ScheduleStart plan else lastEvidence t 0 facts"
  have r: "?r = iv_ScheduleStart plan \<or> ?r \<in> f_End ` set facts"
    using lastEvidence_mem [of t 0 facts] by auto
  have "s < now \<longleftrightarrow> t < now" "s < ?r + HeartbeatPeriodDuration C \<longleftrightarrow> t < ?r + HeartbeatPeriodDuration C"
    "s < ?r + OfflineAfterDuration C \<longleftrightarrow> t < ?r + OfflineAfterDuration C"
    using r by (intro inner plan_breakpoint; auto)+
  moreover have "filter (covers s e) facts = filter (covers t (t + 1)) facts"
    using cov by (rule filter_cong [OF refl])
  ultimately have "classifySegment C (iv_ScheduleStart plan) s e now facts
      = classifySegment C (iv_ScheduleStart plan) t (t + 1) now facts"
    unfolding classifySegment_def Let_def last by simp
  then show ?thesis by (simp only: classify_instant)
qed

lemma planPoints_ends:
  assumes "iv_Start plan < iv_End plan"
  obtains ps where "planPoints C now facts plan = iv_Start plan # ps" "last (iv_Start plan # ps) = iv_End plan"
proof -
  let ?p = "planPoints C now facts plan"
  have sorted: "sorted_wrt (<) ?p" by (simp add: planPoints_def uniqueTimes_sorted)
  have mem: "iv_Start plan \<in> set ?p" "iv_End plan \<in> set ?p" by (auto simp: planPoints_set)
  then obtain q qs where q: "?p = q # qs" by (cases ?p) auto
  have "q = iv_Start plan"
    using mem(1) planPoints_within [OF assms, of q C now facts] sorted by (fastforce simp: q)
  moreover have "last ?p = iv_End plan"
  proof -
    from q have "?p = butlast ?p @ [last ?p]" by (metis append_butlast_last_id list.distinct(1))
    then obtain xs l where l: "?p = xs @ [l]" by blast
    then show ?thesis
      using mem(2) planPoints_within [OF assms, of l C now facts] sorted by (fastforce simp: l sorted_wrt_append)
  qed
  ultimately show thesis using q that by simp
qed

lemma plan_ok:
  assumes plan: "iv_Start plan < iv_End plan" and facts: "\<forall>f \<in> set facts. f_Start f < f_End f"
    and ivs: "separated ivs" "ends_by (iv_Start plan) ivs"
  shows "separated (planSegments C now facts plan (planPoints C now facts plan) ivs)"
    "ends_by (iv_End plan) (planSegments C now facts plan (planPoints C now facts plan) ivs)"
    "coverage_at (planSegments C now facts plan (planPoints C now facts plan) ivs) t
      = (if iv_has t plan then Some (status_at C (iv_ScheduleStart plan) now facts t) else coverage_at ivs t)"
proof -
  let ?p = "planPoints C now facts plan"
  obtain ps where ps: "?p = iv_Start plan # ps" "last (iv_Start plan # ps) = iv_End plan" by (rule planPoints_ends [OF plan])
  have sorted: "sorted_wrt (<) (iv_Start plan # ps)"
    using uniqueTimes_sorted by (metis planPoints_def ps(1))
  have "{x \<in> set ?p. iv_Start plan \<le> x} = set (iv_Start plan # ps)"
    using planPoints_within [OF plan, of _ C now facts] ps(1) by auto
  note * = planSegments_ok [OF classify_segment [OF plan facts] sorted this ivs]
  show "separated (planSegments C now facts plan ?p ivs)" "ends_by (iv_End plan) (planSegments C now facts plan ?p ivs)"
    "coverage_at (planSegments C now facts plan ?p ivs) t
      = (if iv_has t plan then Some (status_at C (iv_ScheduleStart plan) now facts t) else coverage_at ivs t)"
    unfolding ps(1) using * unfolding ps(2) by (simp_all add: iv_has_def)
qed

text \<open>Plans that do not touch, in order.\<close>

definition apart :: "Interval list \<Rightarrow> bool" where
  "apart ivs \<longleftrightarrow> sorted_wrt (\<lambda>a b. iv_End a < iv_Start b) ivs \<and> list_all (\<lambda>i. iv_Start i < iv_End i) ivs"

lemma plans_ok:
  assumes facts: "\<forall>f \<in> set facts. f_Start f < f_End f"
  shows "apart plans \<Longrightarrow> separated ivs \<Longrightarrow> (\<forall>p \<in> set plans. ends_by (iv_Start p) ivs) \<Longrightarrow>
    separated (foldl (\<lambda>result plan. planSegments C now facts plan (planPoints C now facts plan) result) ivs plans)
    \<and> (\<forall>t. coverage_at (foldl (\<lambda>result plan. planSegments C now facts plan (planPoints C now facts plan) result) ivs plans) t
        = (case List.find (iv_has t) plans of
             Some p \<Rightarrow> Some (status_at C (iv_ScheduleStart p) now facts t) | None \<Rightarrow> coverage_at ivs t))"
proof (induction plans arbitrary: ivs)
  case (Cons plan plans)
  let ?ivs = "planSegments C now facts plan (planPoints C now facts plan) ivs"
  have plan: "iv_Start plan < iv_End plan" "ends_by (iv_Start plan) ivs"
    using Cons.prems by (auto simp: apart_def)
  note ok = plan_ok [OF plan(1) facts Cons.prems(2) plan(2)]
  have "apart plans" using Cons.prems(1) by (simp add: apart_def)
  moreover have "\<forall>p \<in> set plans. ends_by (iv_Start p) ?ivs"
    using Cons.prems(1) by (intro ballI ends_by_mono [OF ok(2)]) (auto simp: apart_def intro: less_imp_le)
  ultimately have IH: "separated (foldl (\<lambda>result plan. planSegments C now facts plan (planPoints C now facts plan) result) ?ivs plans)"
    "\<And>t. coverage_at (foldl (\<lambda>result plan. planSegments C now facts plan (planPoints C now facts plan) result) ?ivs plans) t
        = (case List.find (iv_has t) plans of
             Some p \<Rightarrow> Some (status_at C (iv_ScheduleStart p) now facts t) | None \<Rightarrow> coverage_at ?ivs t)"
    using Cons.IH [OF _ ok(1)] by blast+
  have "List.find (iv_has t) plans = None" if "iv_has t plan" for t
    using that Cons.prems(1) by (force simp: apart_def find_None_iff iv_has_def)
  then show ?case using IH ok(3) by (auto split: option.splits)
qed simp

section \<open>The order of the facts does not matter\<close>

definition normal_fact :: "Fact \<Rightarrow> Fact" where
  "normal_fact f = f\<lparr>f_QualityFlags := normalizeFlags (f_QualityFlags f)\<rparr>"

lemma normal_fact_sel [simp]:
  "f_Start (normal_fact f) = f_Start f" "f_End (normal_fact f) = f_End f"
  "f_Availability (normal_fact f) = f_Availability f" "f_ReasonCode (normal_fact f) = f_ReasonCode f"
  "precedence (normal_fact f) = precedence f" "set (f_QualityFlags (normal_fact f)) = set (f_QualityFlags f)"
  by (simp_all add: normal_fact_def precedence_def normalizeFlags_def)

lemma set_preparedFacts: "set (preparedFacts facts) = normal_fact ` set facts"
  by (simp add: preparedFacts_def normal_fact_def)

lemma arg_min_list_le: "x \<in> set xs \<Longrightarrow> k (arg_min_list k xs) \<le> (k x :: 'b :: linorder)"
  using f_arg_min_list_f [of xs k] by (cases "xs = []") auto

lemma status_at_prepared:
  assumes "inj_on precedence (set facts)"
  shows "status_at C p now (preparedFacts facts) t = status_at C p now facts t"
proof -
  let ?c = "covering_at facts t" and ?c' = "covering_at (preparedFacts facts) t"
  have c: "set ?c' = normal_fact ` set ?c" by (auto simp: covering_at_def set_preparedFacts)
  then have nil: "?c' = [] \<longleftrightarrow> ?c = []" by (metis image_is_empty set_empty)
  have "evidence_ends (preparedFacts facts) t = evidence_ends facts t"
    by (auto simp: evidence_ends_def set_preparedFacts image_image)
  then have r: "reference_at p (preparedFacts facts) t = reference_at p facts t" by (simp add: reference_at_def)
  have flags: "(\<Union>f \<in> set ?c'. set (f_QualityFlags f)) = (\<Union>f \<in> set ?c. set (f_QualityFlags f))"
    by (simp add: c)
  have best: "f_Availability (arg_min_list precedence ?c') = f_Availability (arg_min_list precedence ?c)
      \<and> f_ReasonCode (arg_min_list precedence ?c') = f_ReasonCode (arg_min_list precedence ?c)" if "?c \<noteq> []"
  proof -
    let ?m = "arg_min_list precedence ?c" and ?m' = "arg_min_list precedence ?c'"
    have m: "?m \<in> set ?c" using that by (rule arg_min_list_in)
    have "?m' \<in> set ?c'" using that nil by (intro arg_min_list_in) simp
    then obtain f where f: "f \<in> set ?c" "?m' = normal_fact f" using c by auto
    have "precedence ?m \<le> precedence f" using f(1) by (rule arg_min_list_le)
    moreover have "precedence f \<le> precedence ?m"
      using arg_min_list_le [of "normal_fact ?m" ?c' precedence] m f(2) c by simp
    ultimately have "f = ?m"
      using assms m f(1) by (auto simp: inj_on_def covering_at_def)
    with f(2) show ?thesis by simp
  qed
  show ?thesis unfolding status_at_eq Let_def nil r flags using best by simp
qed

section \<open>Merged plans\<close>

definition any_has :: "instant \<Rightarrow> Interval list \<Rightarrow> bool" where
  "any_has t ivs \<longleftrightarrow> (\<exists>i \<in> set ivs. iv_has t i)"

lemma any_has_append [simp]: "any_has t (xs @ ys) \<longleftrightarrow> any_has t xs \<or> any_has t ys"
  by (auto simp: any_has_def)

lemma any_has_Nil [simp]: "\<not> any_has t []"
  by (simp add: any_has_def)

lemma mergePlanned_ok:
  assumes "apart merged" "iv_Start y < iv_End y" "\<forall>m \<in> set merged. iv_Start m \<le> iv_Start y"
  shows "apart (mergePlanned merged y) \<and> (any_has t (mergePlanned merged y) \<longleftrightarrow> any_has t merged \<or> iv_has t y)
    \<and> (\<forall>m \<in> set (mergePlanned merged y). iv_Start m \<le> iv_Start y)"
proof (cases merged rule: rev_cases)
  case Nil
  with assms show ?thesis by (simp add: mergePlanned_def apart_def any_has_def)
next
  case (snoc xs l)
  have l: "iv_Start l < iv_End l" "iv_Start l \<le> iv_Start y" "\<forall>x \<in> set xs. iv_End x < iv_Start l"
    using assms snoc by (auto simp: apart_def sorted_wrt_append)
  show ?thesis
  proof (cases "iv_End l < iv_Start y")
    case True
    with l assms snoc show ?thesis
      by (auto simp: mergePlanned_def apart_def any_has_def sorted_wrt_append)
  next
    case False
    define l' where "l' = (let l = (if iv_ScheduleStart y < iv_ScheduleStart l then l\<lparr>iv_ScheduleStart := iv_ScheduleStart y\<rparr> else l)
      in if iv_End y > iv_End l then l\<lparr>iv_End := iv_End y\<rparr> else l)"
    have m: "mergePlanned merged y = xs @ [l']"
      using False snoc by (simp add: mergePlanned_def l'_def Let_def)
    have l': "iv_Start l' = iv_Start l" "iv_End l' = max (iv_End l) (iv_End y)"
      by (auto simp: l'_def Let_def)
    have "iv_has t l' \<longleftrightarrow> iv_has t l \<or> iv_has t y"
      using l False l' by (auto simp: iv_has_def)
    then show ?thesis
      using assms l l' m snoc by (auto simp: apart_def any_has_def sorted_wrt_append)
  qed
qed

lemma mergePlanned_fold:
  "apart merged \<Longrightarrow> sorted (map iv_Start ys) \<Longrightarrow> (\<forall>y \<in> set ys. iv_Start y < iv_End y) \<Longrightarrow>
   (\<forall>m \<in> set merged. \<forall>y \<in> set ys. iv_Start m \<le> iv_Start y) \<Longrightarrow>
   apart (foldl mergePlanned merged ys) \<and> (any_has t (foldl mergePlanned merged ys) \<longleftrightarrow> any_has t merged \<or> any_has t ys)"
proof (induction ys arbitrary: merged)
  case (Cons y ys)
  note * = mergePlanned_ok [of merged y t]
  have "\<forall>m \<in> set (mergePlanned merged y). \<forall>z \<in> set ys. iv_Start m \<le> iv_Start z"
    using * Cons.prems by fastforce
  with Cons.IH [of "mergePlanned merged y"] * Cons.prems show ?case
    by (auto simp: any_has_def)
qed simp

definition within_range :: "instant \<Rightarrow> instant \<Rightarrow> Interval \<Rightarrow> bool" where
  "within_range rs re i \<longleftrightarrow> iv_Start i < iv_End i \<and> rs \<le> iv_Start i \<and> iv_End i \<le> re"

lemma windowInterval_within: "list_all (within_range rs re) (windowInterval loc rs re date w)"
  by (simp add: windowInterval_def Let_def maxTime_def minTime_def within_range_def)

lemma dateIntervals_within: "list_all (within_range rs re) (dateIntervals loc ws rs re date)"
  unfolding dateIntervals_def by (induction ws) (simp_all add: windowInterval_within)

section \<open>The loop over the dates\<close>

lemma datesLoop_within:
  assumes "datesLoop loc ws rs re l d acc = Some r"
  shows "list_all (within_range rs re) acc \<Longrightarrow> list_all (within_range rs re) r"
  using assms
proof (induction rule: datesLoop.raw_induct [rotated, consumes 1, case_names step])
  case (step f loc ws rs re l d acc r)
  show ?case
  proof (cases "d > l")
    case False
    with step(2) have "f loc ws rs re l (add_days loc 1 d) (acc @ dateIntervals loc ws rs re d) = Some r" by simp
    then show ?thesis by (rule step(1)) (simp add: step(3) dateIntervals_within)
  qed (use step in simp)
qed

lemma int_ex_shift: "(\<exists>k \<ge> 0. Q k) \<longleftrightarrow> Q (0 :: int) \<or> (\<exists>k \<ge> 0. Q (k + 1))"
proof
  assume "\<exists>k \<ge> 0. Q k"
  then obtain k where "0 \<le> k" "Q k" by blast
  then show "Q 0 \<or> (\<exists>k \<ge> 0. Q (k + 1))" by (cases "k = 0") (auto intro!: exI [of _ "k - 1"])
next
  assume "Q 0 \<or> (\<exists>k \<ge> 0. Q (k + 1))"
  then show "\<exists>k \<ge> 0. Q k" by (metis add_nonneg_nonneg order_refl zero_le_one)
qed

lemma datesLoop_terminates:
  assumes jump: "\<And>s s'. fst (loc s) - fst (loc s') < 86400"
  shows "\<exists>r. datesLoop loc ws rs re l d acc = Some r"
proof (induction "nat (l - d + 1)" arbitrary: d acc rule: less_induct)
  case less
  show ?case
  proof (cases "d > l")
    case True
    then show ?thesis by (simp add: datesLoop.simps)
  next
    case False
    have "d + second \<le> add_days loc 1 d" using jump by (rule add_days_step)
    then have "nat (l - add_days loc 1 d + 1) < nat (l - d + 1)" using False by (simp add: second_def)
    from less [OF this] show ?thesis using False by (simp add: datesLoop.simps [of _ _ _ _ _ d])
  qed
qed

lemma datesLoop_steady:
  assumes "datesLoop loc ws rs re l d acc = Some r"
  shows "steady loc off \<Longrightarrow> any_has t r \<longleftrightarrow> any_has t acc
    \<or> (\<exists>k \<ge> 0. d + k * ns_per_day \<le> l \<and> any_has t (dateIntervals loc ws rs re (d + k * ns_per_day)))"
  using assms
proof (induction rule: datesLoop.raw_induct [rotated, consumes 1, case_names step])
  case (step f loc ws rs re l d acc r)
  let ?Q = "\<lambda>k. d + k * ns_per_day \<le> l \<and> any_has t (dateIntervals loc ws rs re (d + k * ns_per_day))"
  have npd: "0 < ns_per_day" by (simp add: ns_per_day_def)
  show ?case
  proof (cases "d > l")
    case True
    have "\<not> ?Q k" if "0 \<le> k" for k
    proof -
      have "0 \<le> k * ns_per_day" using that npd by simp
      then show ?thesis using True by simp
    qed
    with True step(2) show ?thesis by auto
  next
    case False
    then have "f loc ws rs re l (add_days loc 1 d) (acc @ dateIntervals loc ws rs re d) = Some r" using step(2) by simp
    from step(1) [OF this step(3)] step(3)
    have "any_has t r \<longleftrightarrow> any_has t acc \<or> any_has t (dateIntervals loc ws rs re d) \<or> (\<exists>k \<ge> 0. ?Q (k + 1))"
      by (simp add: steady_add_days algebra_simps)
    moreover note int_ex_shift [of ?Q]
    ultimately show ?thesis using False by auto
  qed
qed


section \<open>Plans\<close>

lemma plannedIntervals_cases:
  assumes "plannedIntervals tz sched rs re = Some (Inr plans)"
  obtains loc r where "tz (Timezone sched) = Some loc"
    "datesLoop loc (Windows sched) rs re (lastDate loc re) (firstDate loc rs) [] = Some r"
    "apart plans" "\<And>t. any_has t plans \<longleftrightarrow> any_has t r" "list_all (within_range rs re) r"
proof -
  from assms obtain loc r where loc: "tz (Timezone sched) = Some loc"
    "datesLoop loc (Windows sched) rs re (lastDate loc re) (firstDate loc rs) [] = Some r"
    and plans: "plans = foldl mergePlanned [] (sort_key iv_Start r)"
    by (auto simp: plannedIntervals_def split: option.splits)
  have r: "list_all (within_range rs re) r" using datesLoop_within [OF loc(2)] by simp
  have *: "apart plans \<and> (any_has t plans \<longleftrightarrow> any_has t [] \<or> any_has t (sort_key iv_Start r))" for t
    unfolding plans
    by (rule mergePlanned_fold) (use r in \<open>auto simp: apart_def within_range_def list_all_iff\<close>)
  from that [OF loc] * r show thesis by (simp add: any_has_def)
qed

lemma find_apart: "any_has t plans \<longleftrightarrow> List.find (iv_has t) plans \<noteq> None"
  by (auto simp: any_has_def find_None_iff)

lemma Build_cases:
  assumes "Build tz C rs re now facts = Some (Inr ivs)"
  obtains plans where "rs < re" "plannedIntervals tz (cc_PlannedSchedule C) rs re = Some (Inr plans)"
    "list_all (\<lambda>f. \<not> factInvalid f) facts" "separated ivs"
    "\<And>t. coverage_at ivs t = map_option (\<lambda>p. status_at C (iv_ScheduleStart p) now (preparedFacts facts) t) (List.find (iv_has t) plans)"
proof -
  from assms obtain plans where b: "rs < re" "plannedIntervals tz (cc_PlannedSchedule C) rs re = Some (Inr plans)"
    "list_all (\<lambda>f. \<not> factInvalid f) facts"
    and ivs: "ivs = foldl (\<lambda>result plan. planSegments C now (preparedFacts facts) plan (planPoints C now (preparedFacts facts) plan) result) [] plans"
    by (auto simp: Build_def Let_def list_ex_iff list_all_iff split: if_splits option.splits sum.splits)
  have "\<forall>f \<in> set (preparedFacts facts). f_Start f < f_End f"
    using b(3) by (auto simp: set_preparedFacts list_all_iff factInvalid_def)
  moreover from b(2) have "apart plans" by (rule plannedIntervals_cases)
  ultimately have "separated ivs \<and> (\<forall>t. coverage_at ivs t = (case List.find (iv_has t) plans of
      Some p \<Rightarrow> Some (status_at C (iv_ScheduleStart p) now (preparedFacts facts) t) | None \<Rightarrow> coverage_at [] t))"
    unfolding ivs by (rule plans_ok) (simp_all add: separated_def ends_by_def)
  with that [OF b] show thesis by (auto simp: coverage_at_def split: option.splits)
qed

lemma coverage_at_iff: "coverage_at ivs t \<noteq> None \<longleftrightarrow> any_has t ivs"
  by (simp add: coverage_at_def find_apart)

lemma separated_within:
  assumes "separated ivs" "\<And>t. any_has t ivs \<Longrightarrow> rs \<le> t \<and> t < re"
  shows "list_all (within_range rs re) ivs"
proof -
  have "within_range rs re i" if i: "i \<in> set ivs" for i
  proof -
    from assms(1) i have "iv_Start i < iv_End i" by (simp add: separated_def list_all_iff)
    moreover from this have "any_has (iv_Start i) ivs" "any_has (iv_End i - 1) ivs"
      using i by (auto simp: any_has_def iv_has_def)
    ultimately show ?thesis using assms(2) by (force simp: within_range_def)
  qed
  then show ?thesis by (simp add: list_all_iff)
qed

lemma Build_within: "Build tz C rs re now facts = Some (Inr ivs) \<Longrightarrow> list_all (within_range rs re) ivs"
proof (erule Build_cases)
  fix plans
  assume p: "plannedIntervals tz (cc_PlannedSchedule C) rs re = Some (Inr plans)" and "separated ivs"
    and c: "\<And>t. coverage_at ivs t = map_option (\<lambda>p. status_at C (iv_ScheduleStart p) now (preparedFacts facts) t) (List.find (iv_has t) plans)"
  from p obtain r where r: "\<And>t. any_has t plans \<longleftrightarrow> any_has t r" "list_all (within_range rs re) r"
    by (rule plannedIntervals_cases) blast
  from \<open>separated ivs\<close> show ?thesis
  proof (rule separated_within)
    fix t assume "any_has t ivs"
    then have "any_has t plans" using c [of t] coverage_at_iff [of ivs t] by (auto simp: find_apart)
    then show "rs \<le> t \<and> t < re"
      using r by (force simp: any_has_def list_all_iff within_range_def iv_has_def)
  qed
qed

section \<open>Merging is complete\<close>

text \<open>No interval could be joined to the one before it.\<close>

definition fully_merged :: "Interval list \<Rightarrow> bool" where
  "fully_merged ivs \<longleftrightarrow> successively (\<lambda>a b. iv_End a = iv_Start b \<longrightarrow> status_of a \<noteq> status_of b) ivs"

lemma appendMerged_merged: "fully_merged ivs \<Longrightarrow> fully_merged (appendMerged ivs n)"
proof (cases ivs rule: rev_cases)
  case Nil
  then show ?thesis by (simp add: fully_merged_def appendMerged_def)
next
  case (snoc xs l)
  assume "fully_merged ivs"
  with snoc show ?thesis
    by (auto simp: fully_merged_def appendMerged_def status_of_def Let_def successively_append_iff)
qed

lemma planSegments_merged: "fully_merged ivs \<Longrightarrow> fully_merged (planSegments C now facts plan ps ivs)"
  by (induction C now facts plan ps ivs rule: planSegments.induct) (auto simp: Let_def appendMerged_merged split: prod.splits)

lemma Build_merged: "Build tz C rs re now facts = Some (Inr ivs) \<Longrightarrow> fully_merged ivs"
proof -
  assume "Build tz C rs re now facts = Some (Inr ivs)"
  then obtain plans where ivs: "ivs = foldl (\<lambda>result plan. planSegments C now (preparedFacts facts) plan (planPoints C now (preparedFacts facts) plan) result) [] plans"
    by (auto simp: Build_def Let_def split: if_splits option.splits sum.splits)
  have "fully_merged acc \<Longrightarrow> fully_merged (foldl (\<lambda>result plan. planSegments C now fs plan (planPoints C now fs plan) result) acc plans)" for fs acc
    by (induction plans arbitrary: acc) (simp_all add: planSegments_merged)
  then show ?thesis unfolding ivs by (simp add: fully_merged_def)
qed

section \<open>Schedules in a zone with a constant offset\<close>

lemma parseMinute_le: "parseMinute s = Some m \<Longrightarrow> m \<le> 1440"
  using parse_clock_bounds [of s] by (fastforce simp: parseMinute_def split: if_splits)

definition window_minute :: "string \<Rightarrow> nat" where
  "window_minute s = (case parseMinute s of None \<Rightarrow> 0 | Some m \<Rightarrow> m)"

lemma minute_split: "int (m div 60) * hour + int (m mod 60) * minute = int m * minute"
proof -
  have "int m = int (m div 60) * 60 + int (m mod 60)" by (metis div_mult_mod_eq of_nat_add of_nat_mult of_nat_numeral)
  then show ?thesis by (simp add: hour_def algebra_simps)
qed

definition scheduled_at :: "ScheduleWindowConfig list \<Rightarrow> instant \<Rightarrow> bool" where
  "scheduled_at windows t \<longleftrightarrow> (\<exists>w \<in> set windows. weekday_of_day (day_of t) \<in> set (Days w)
     \<and> int (window_minute (StartLocal w)) * minute \<le> ns_of_day t \<and> ns_of_day t < int (window_minute (EndLocal w)) * minute)"

lemma windowInterval_steady:
  assumes "steady loc off" "local_clock loc date = day * ns_per_day"
  shows "any_has t (windowInterval loc rs re date w) \<longleftrightarrow> weekday_of_day day \<in> set (Days w) \<and> rs \<le> t \<and> t < re
    \<and> day * ns_per_day + int (window_minute (StartLocal w)) * minute \<le> local_clock loc t
    \<and> local_clock loc t < day * ns_per_day + int (window_minute (EndLocal w)) * minute"
proof -
  have day: "day_of (local_clock loc date) = day" "weekday_in loc date = weekday_of_day day"
    using assms(2) by (simp_all add: weekday_in_def day_of_def ns_per_day_def)
  let ?a = "day * ns_per_day + int (window_minute (StartLocal w)) * minute - off * second"
  let ?b = "day * ns_per_day + int (window_minute (EndLocal w)) * minute - off * second"
  have stop: "(if window_minute (EndLocal w) = 24 * 60 then add_days loc 1 (date_in loc day 0)
      else date_in loc day (int (window_minute (EndLocal w)) * minute)) = ?b"
    by (simp add: steady_date [OF assms(1)] steady_add_days [OF assms(1)]) (simp add: ns_per_day_def minute_def second_def)
  have "windowInterval loc rs re date w =
    (if weekday_of_day day \<notin> set (Days w) then []
     else if maxTime ?a rs < minTime ?b re
     then [\<lparr>iv_Start = maxTime ?a rs, iv_End = minTime ?b re, iv_ScheduleStart = ?a, iv_Availability = [],
            iv_QualityFlags = [], iv_ReasonCode = []\<rparr>] else [])"
    unfolding windowInterval_def day minute_split window_minute_def [symmetric] Let_def stop
    by (simp add: steady_date [OF assms(1)] containsDay_def list_ex_iff)
  then show ?thesis
    by (auto simp: any_has_def iv_has_def maxTime_def minTime_def steady_local [OF assms(1)] split: if_splits)
qed


lemma day_of_unique: "day * ns_per_day \<le> u \<Longrightarrow> u < (day + 1) * ns_per_day \<Longrightarrow> day_of u = day"
  unfolding day_of_def by (rule int_div_pos_eq [of _ _ _ "u - day * ns_per_day"]) (simp_all add: ns_per_day_def)


lemma window_minute_le: "window_minute s \<le> 1440"
  using parseMinute_le [of s] by (simp add: window_minute_def split: option.splits)

lemma dateIntervals_steady:
  assumes "steady loc off" "local_clock loc date = day * ns_per_day"
  shows "any_has t (dateIntervals loc ws rs re date) \<longleftrightarrow>
    rs \<le> t \<and> t < re \<and> day_of (local_clock loc t) = day \<and> scheduled_at ws (local_clock loc t)"
proof -
  let ?u = "local_clock loc t"
  have "any_has t (windowInterval loc rs re date w) \<longleftrightarrow> rs \<le> t \<and> t < re \<and> day_of ?u = day \<and> weekday_of_day (day_of ?u) \<in> set (Days w)
     \<and> int (window_minute (StartLocal w)) * minute \<le> ns_of_day ?u \<and> ns_of_day ?u < int (window_minute (EndLocal w)) * minute" for w
  proof -
    have stop: "int (window_minute (EndLocal w)) * minute \<le> ns_per_day"
      using window_minute_le [of "EndLocal w"] by (simp add: minute_def second_def ns_per_day_def)
    have "0 \<le> int (window_minute (StartLocal w)) * minute" by (simp add: minute_def second_def)
    then have "day_of ?u = day" if "day * ns_per_day + int (window_minute (StartLocal w)) * minute \<le> ?u"
      "?u < day * ns_per_day + int (window_minute (EndLocal w)) * minute"
      using that stop by (intro day_of_unique) (simp_all add: distrib_right)
    moreover have "day_of ?u = day \<Longrightarrow> ?u = day * ns_per_day + ns_of_day ?u" using day_split [of ?u] by simp
    ultimately show ?thesis unfolding windowInterval_steady [OF assms] by auto
  qed
  moreover have "any_has t (dateIntervals loc ws rs re date) \<longleftrightarrow> (\<exists>w \<in> set ws. any_has t (windowInterval loc rs re date w))"
    by (auto simp: dateIntervals_def any_has_def)
  ultimately show ?thesis by (auto simp: scheduled_at_def)
qed

lemma planned_steady:
  assumes "steady loc off" "datesLoop loc ws rs re (lastDate loc re) (firstDate loc rs) [] = Some r"
  shows "any_has t r \<longleftrightarrow> rs \<le> t \<and> t < re \<and> scheduled_at ws (local_clock loc t)"
proof -
  let ?d0 = "day_of (local_clock loc rs) - 1"
  note loc = steady_local [OF assms(1)]
  have npd: "0 < ns_per_day" by (simp add: ns_per_day_def)
  have first: "firstDate loc rs + k * ns_per_day = (?d0 + k) * ns_per_day - off * second" for k
    unfolding firstDate_def steady_add_days [OF assms(1)] steady_date [OF assms(1)] by (simp add: algebra_simps)
  have last: "lastDate loc re = (day_of (local_clock loc re) + 1) * ns_per_day - off * second"
    unfolding lastDate_def steady_add_days [OF assms(1)] steady_date [OF assms(1)] by (simp add: algebra_simps)
  have date: "any_has t (dateIntervals loc ws rs re (firstDate loc rs + k * ns_per_day)) \<longleftrightarrow>
     rs \<le> t \<and> t < re \<and> day_of (local_clock loc t) = ?d0 + k \<and> scheduled_at ws (local_clock loc t)" for k
    by (rule dateIntervals_steady [OF assms(1)]) (simp add: first loc)
  have le: "firstDate loc rs + k * ns_per_day \<le> lastDate loc re \<longleftrightarrow> ?d0 + k \<le> day_of (local_clock loc re) + 1" for k
    unfolding first last using npd by (simp add: mult_le_cancel_right)
  have mono: "day_of (local_clock loc a) \<le> day_of (local_clock loc b)" if "a \<le> b" for a b
    using that npd by (simp add: loc day_of_def zdiv_mono1)
  have "any_has t r \<longleftrightarrow> (\<exists>k \<ge> 0. ?d0 + k \<le> day_of (local_clock loc re) + 1 \<and> rs \<le> t \<and> t < re
      \<and> day_of (local_clock loc t) = ?d0 + k \<and> scheduled_at ws (local_clock loc t))"
    using datesLoop_steady [OF assms(2,1), of t] by (simp add: date le)
  also have "\<dots> \<longleftrightarrow> rs \<le> t \<and> t < re \<and> scheduled_at ws (local_clock loc t)"
  proof (intro iffI)
    assume *: "rs \<le> t \<and> t < re \<and> scheduled_at ws (local_clock loc t)"
    then have "?d0 < day_of (local_clock loc t)" "day_of (local_clock loc t) \<le> day_of (local_clock loc re)"
      using mono [of rs t] mono [of t re] by auto
    with * show "\<exists>k \<ge> 0. ?d0 + k \<le> day_of (local_clock loc re) + 1 \<and> rs \<le> t \<and> t < re
      \<and> day_of (local_clock loc t) = ?d0 + k \<and> scheduled_at ws (local_clock loc t)"
      by (intro exI [of _ "day_of (local_clock loc t) - ?d0"]) auto
  qed blast
  finally show ?thesis .
qed

section \<open>Schedules in a zone whose midnights exist\<close>













lemma covered_has_fact:
  assumes "Build loadLocation collector rangeStart rangeEnd now facts = Some (Inr ivs)"
    and "coverage_at ivs t = Some (availability, flags, reason)" and "availability \<in> {Covered, ConfirmedIdle}"
  shows "\<exists>f \<in> set facts. f_Start f \<le> t \<and> t < f_End f \<and> f_Availability f = availability \<and> f_ReasonCode f = reason"
  using assms(1)
proof (rule Build_cases)
  fix plans
  assume "\<And>t. coverage_at ivs t = map_option (\<lambda>p. status_at collector (iv_ScheduleStart p) now (preparedFacts facts) t) (List.find (iv_has t) plans)"
  from this [of t] assms(2) obtain p :: Interval where
    p: "status_at collector (iv_ScheduleStart p) now (preparedFacts facts) t = (availability, flags, reason)"
    by (metis (no_types, lifting) map_option_eq_Some)
  let ?c = "covering_at (preparedFacts facts) t"
  have "?c \<noteq> []" using p assms(3) by (auto simp: status_at_eq Let_def split: if_splits)
  from arg_min_list_in [OF this, of precedence] p this show ?thesis
    by (auto simp: status_at_eq covering_at_def set_preparedFacts)
qed

lemma coverage_at_member:
  assumes "separated ivs" "i \<in> set ivs" "iv_has t i" shows "coverage_at ivs t = Some (status_of i)"
proof -
  from assms(2) obtain us vs where ivs: "ivs = us @ i # vs" by (meson split_list)
  have "\<not> iv_has t j" if "j \<in> set us" for j
    using assms(1,3) that by (auto simp: ivs separated_def sorted_wrt_append iv_has_def)
  then have "List.find (iv_has t) us = None" by (auto simp: find_None_iff)
  with assms(3) show ?thesis by (simp add: coverage_at_def ivs find_append_case)
qed

section \<open>A sample collector\<close>

definition utc_zones :: "string \<Rightarrow> location option" where
  "utc_zones name = (if name = ''UTC'' then Some (fixed_zone 0) else None)"

definition sample_schedule :: PlannedScheduleConfig where
  "sample_schedule = \<lparr>Timezone = ''UTC'', Windows = [\<lparr>Days = [''friday''], StartLocal = ''03:00'', EndLocal = ''04:00''\<rparr>]\<rparr>"

definition sample_collector :: CollectorConfig where
  "sample_collector = \<lparr>cc_ID = ''phone'', cc_Kind = ''generic_json'', cc_Enabled = True, cc_HeartbeatPeriod = ''60s'',
     cc_AllowedLateness = ''60s'', cc_OfflineAfter = ''300s'', cc_PlannedSchedule = sample_schedule, cc_ActivityWatch = None\<rparr>"

text \<open>The sample times: Friday 2 January 2026, 03:04:05 UTC is \<open>sample_now\<close>.\<close>

definition sample_fact :: Fact where
  "sample_fact = \<lparr>f_Start = 63902919845000000000, f_End = 63902919905000000000, f_Availability = ''covered'', f_QualityFlags = [],
     f_ReasonCode = ''HEARTBEAT_ACTIVE'', f_Priority = 30, f_StableID = ''h1''\<rparr>"

definition sample_range_end :: instant where "sample_range_end = 63902920805000000000"

lemma sample_build_eval:
  "case Build utc_zones sample_collector sample_now sample_range_end sample_range_end [sample_fact] of
     Some (Inr ivs) \<Rightarrow> coverage_at ivs sample_now = Some (''covered'', [], ''HEARTBEAT_ACTIVE'') | _ \<Rightarrow> False"
  by code_simp

lemma sample_build_some:
  obtains ivs where "Build utc_zones sample_collector sample_now sample_range_end sample_range_end [sample_fact] = Some (Inr ivs)"
    "coverage_at ivs sample_now = Some (''covered'', [], ''HEARTBEAT_ACTIVE'')"
  using sample_build_eval by (auto split: option.splits sum.splits)

section \<open>A zone that changes its clocks\<close>









section \<open>A zone that crosses the date line\<close>

text \<open>
  Samoa moved from UTC-10 to UTC+14 at 2011-12-30T10:00:00Z, so that 30 December 2011 does not
  exist there.
\<close>

definition samoa_transition :: int where "samoa_transition = 63460836000"

definition samoa :: location where
  "samoa s = (if s < samoa_transition then (- 36000, - (2 ^ 63), samoa_transition) else (50400, samoa_transition, 2 ^ 63 - 1))"

definition samoa_zones :: "string \<Rightarrow> location option" where
  "samoa_zones name = (if name = ''Pacific/Apia'' then Some samoa else None)"

definition samoa_collector :: CollectorConfig where
  "samoa_collector = sample_collector\<lparr>cc_PlannedSchedule := sample_schedule\<lparr>Timezone := ''Pacific/Apia''\<rparr>\<rparr>"

text \<open>From 29 December 2011 at local midnight one day onwards is the same instant again.\<close>

definition samoa_stuck :: instant where "samoa_stuck = 63460749600000000000"

lemma samoa_stuck_step: "add_days samoa 1 samoa_stuck = samoa_stuck" by code_simp

lemma datesLoop_stuck:
  assumes "datesLoop loc ws rs re l d acc = Some r"
  shows "loc = samoa \<Longrightarrow> d = samoa_stuck \<Longrightarrow> l \<ge> samoa_stuck \<Longrightarrow> False"
  using assms
proof (induction rule: datesLoop.raw_induct [rotated, consumes 1, case_names step])
  case (step f loc ws rs re l d acc r)
  have "f loc ws rs re l (add_days loc 1 d) (acc @ dateIntervals loc ws rs re d) = Some r"
    using step(2,4,5) by (simp split: if_splits)
  then show ?case by (rule step(1)) (simp_all add: step samoa_stuck_step)
qed

text \<open>The range of one day from 2011-12-29T12:00:00Z.\<close>

definition samoa_start :: instant where "samoa_start = 63460756800000000000"
definition samoa_end :: instant where "samoa_end = 63460843200000000000"

lemma samoa_dates:
  "firstDate samoa samoa_start = 63460663200000000000" "add_days samoa 1 63460663200000000000 = samoa_stuck"
  "samoa_stuck \<le> lastDate samoa samoa_end" "\<not> lastDate samoa samoa_end < 63460663200000000000"
  by code_simp+

lemma datesLoop_samoa:
  "datesLoop samoa ws rs re (lastDate samoa samoa_end) (firstDate samoa samoa_start) acc = None"
proof -
  have "datesLoop samoa ws rs re (lastDate samoa samoa_end) (firstDate samoa samoa_start) acc
      = datesLoop samoa ws rs re (lastDate samoa samoa_end) samoa_stuck (acc @ dateIntervals samoa ws rs re 63460663200000000000)"
    unfolding samoa_dates(1) by (subst datesLoop.simps) (simp only: samoa_dates if_False)
  also have "\<dots> = None"
    using datesLoop_stuck [OF _ refl refl samoa_dates(3)] by (meson not_None_eq)
  finally show ?thesis .
qed

section \<open>Properties\<close>

text \<open>
  C21: Refinement: \<^verbatim>\<open>Build\<close> implements the status of every instant.  The intervals it returns give an
  instant a status exactly when it lies in a planned interval, and then the one the
  specification derives from the facts; the order in which the facts are handed over and the
  points at which the range is cut do not matter.
\<close>

theorem coverage_refines_status:
  assumes "Build loadLocation collector rangeStart rangeEnd now facts = Some (Inr ivs)"
    and "inj_on precedence (set facts)"
  shows "\<exists>plans. plannedIntervals loadLocation (cc_PlannedSchedule collector) rangeStart rangeEnd = Some (Inr plans)
    \<and> (\<forall>t. coverage_at ivs t =
          map_option (\<lambda>p. status_at collector (iv_ScheduleStart p) now facts t) (List.find (iv_has t) plans))"
  using assms(1) by (rule Build_cases) (auto simp: status_at_prepared [OF assms(2)])

text \<open>The sample collector at one instant.\<close>

theorem coverage_refines_status_witness:
  "\<exists>ivs plans. Build utc_zones sample_collector sample_now sample_range_end sample_range_end [sample_fact] = Some (Inr ivs)
    \<and> coverage_at ivs sample_now =
          map_option (\<lambda>p. status_at sample_collector (iv_ScheduleStart p) sample_range_end [sample_fact] sample_now)
            (List.find (iv_has sample_now) plans)"
proof -
  obtain ivs where "Build utc_zones sample_collector sample_now sample_range_end sample_range_end [sample_fact] = Some (Inr ivs)"
    by (rule sample_build_some)
  from coverage_refines_status [OF this] this show ?thesis by auto
qed

text \<open>
  C22: The intervals of \<^verbatim>\<open>Build\<close> are a partition: each is non-empty and inside the requested range,
  and they are in order and do not overlap, so that every instant has at most one availability.  They are
  maximal: two intervals that touch differ in availability, flags or reason.
\<close>

theorem coverage_partition:
  "case Build loadLocation collector rangeStart rangeEnd now facts of
     Some (Inr ivs) \<Rightarrow> separated ivs \<and> list_all (within_range rangeStart rangeEnd) ivs \<and> fully_merged ivs
   | _ \<Rightarrow> True"
  by (auto split: option.split sum.split elim: Build_cases dest: Build_within Build_merged)

text \<open>
  Activity and idleness are never inferred: where \<^verbatim>\<open>Build\<close> reports \<open>covered\<close> or \<open>confirmed_idle\<close> at
  an instant, some fact of that availability covers the instant.
\<close>

theorem coverage_never_inferred:
  assumes "Build loadLocation collector rangeStart rangeEnd now facts = Some (Inr ivs)"
    and "coverage_at ivs t = Some (availability, flags, reason)" and "availability \<in> {Covered, ConfirmedIdle}"
  shows "\<exists>f \<in> set facts. f_Start f \<le> t \<and> t < f_End f \<and> f_Availability f = availability \<and> f_ReasonCode f = reason"
  using assms by (rule covered_has_fact)

text \<open>The sample collector's first instant is covered by the sample fact.\<close>

theorem coverage_never_inferred_witness:
  "\<exists>f \<in> set [sample_fact]. f_Start f \<le> sample_now \<and> f_Availability f = Covered"
proof -
  obtain ivs where "Build utc_zones sample_collector sample_now sample_range_end sample_range_end [sample_fact] = Some (Inr ivs)"
    "coverage_at ivs sample_now = Some (Covered, [], ''HEARTBEAT_ACTIVE'')"
    by (rule sample_build_some)
  from coverage_never_inferred [OF this] show ?thesis by auto
qed



text \<open>
  C24: \<^verbatim>\<open>Build\<close> terminates for every zone whose offsets differ by less than 24 hours, and what it
  returns is an error exactly for an empty range, an unknown zone or an invalid fact.
\<close>

theorem build_terminates:
  assumes "\<forall>loc s s'. loadLocation (Timezone (cc_PlannedSchedule collector)) = Some loc \<longrightarrow> fst (loc s) - fst (loc s') < 86400"
  shows "\<exists>res. Build loadLocation collector rangeStart rangeEnd now facts = Some res
    \<and> ((\<exists>e. res = Inl e) \<longleftrightarrow>
        rangeEnd \<le> rangeStart \<or> loadLocation (Timezone (cc_PlannedSchedule collector)) = None \<or> list_ex factInvalid facts)"
proof (cases "loadLocation (Timezone (cc_PlannedSchedule collector))")
  case None
  then show ?thesis by (simp add: Build_def plannedIntervals_def)
next
  case (Some loc)
  with assms have "fst (loc s) - fst (loc s') < 86400" for s s' by blast
  from datesLoop_terminates [of loc, OF this] obtain r where
    "datesLoop loc (Windows (cc_PlannedSchedule collector)) rangeStart rangeEnd (lastDate loc rangeEnd) (firstDate loc rangeStart) [] = Some r"
    by blast
  with Some show ?thesis by (simp add: Build_def plannedIntervals_def Let_def not_less)
qed

text \<open>The sample collector in UTC.\<close>

theorem build_terminates_witness:
  "\<exists>res. Build utc_zones sample_collector sample_now sample_range_end sample_range_end [] = Some res"
proof -
  have "\<forall>loc s s'. utc_zones (Timezone (cc_PlannedSchedule sample_collector)) = Some loc \<longrightarrow> fst (loc s) - fst (loc s') < 86400"
    by (auto simp: utc_zones_def fixed_zone_def split: if_splits)
  from build_terminates [of utc_zones sample_collector, OF this] show ?thesis by blast
qed

text \<open>
  C25: A defect: in a zone that skipped a day by crossing the date line the date loop of
  \<^verbatim>\<open>plannedIntervals\<close> reaches a fixed point of \<^verbatim>\<open>AddDate(0, 0, 1)\<close>, so that \<^verbatim>\<open>Build\<close> never returns for a
  range that contains the skipped day, whatever the facts.
\<close>

theorem build_diverges_at_date_line:
  "Build samoa_zones samoa_collector samoa_start samoa_end now facts = None"
  by (simp add: Build_def plannedIntervals_def samoa_zones_def samoa_collector_def datesLoop_samoa)
    (simp add: samoa_start_def samoa_end_def)

end
