(* ===== verification/Store_Migration.thy ===== *)
theory Store_Migration
  imports Raw_Events
begin

text \<open>
  \<^verbatim>\<open>internal/eventstore/migration.go\<close>, \<^verbatim>\<open>readiness.go\<close> and the inspection functions of
  \<^verbatim>\<open>operations.go\<close>: the embedded migration sets, their transactional application to the core
  ledger and the three independent ledgers, the verification of a database against the
  embedded sets, and the readiness probe.
\<close>

section \<open>Data\<close>

record migration =
  m_version :: int
  m_name :: string
  m_contents :: string
  m_checksum :: string

record ledger_row =
  lr_version :: int
  lr_name :: string
  lr_checksum :: string
  lr_applied_at :: string

text \<open>
  The part of the database that migrations read and write: the schema version, the ledgers by
  table name (\<open>None\<close> where the table does not exist), the scripts executed so far and what
  \<^verbatim>\<open>PRAGMA integrity_check\<close> reports.
\<close>

record schema_db =
  user_version :: int
  ledgers :: "string \<Rightarrow> ledger_row list option"
  scripts :: "string list"
  integrity :: string

record SchemaInfo =
  si_Core :: int
  si_Media :: int
  si_M3 :: int
  si_M4 :: int

definition CurrentSchemaVersion :: int where "CurrentSchemaVersion = 1"
definition currentMediaSchemaVersion :: int where "currentMediaSchemaVersion = 2"
definition currentM3SchemaVersion :: int where "currentM3SchemaVersion = 1"
definition currentM4SchemaVersion :: int where "currentM4SchemaVersion = 1"

section \<open>The embedded migrations\<close>

text \<open>\<open>files\<close> gives the contents of the embedded files.\<close>

fun loadFrom :: "ext \<Rightarrow> (string \<Rightarrow> string option) \<Rightarrow> nat \<Rightarrow> string list \<Rightarrow> migration list option" where
  "loadFrom X files index [] = Some []"
| "loadFrom X files index (name # names) =
     (case files name of None \<Rightarrow> None
      | Some raw \<Rightarrow>
          map_option (\<lambda>ms. \<lparr>m_version = int index + 1, m_name = name, m_contents = raw, m_checksum = sha256_hex X raw\<rparr> # ms)
            (loadFrom X files (Suc index) names))"

definition loadMigrations :: "ext \<Rightarrow> (string \<Rightarrow> string option) \<Rightarrow> string list \<Rightarrow> migration list option" where
  "loadMigrations X files names = loadFrom X files 0 names"

definition repositoryMigrations :: "ext \<Rightarrow> (string \<Rightarrow> string option) \<Rightarrow> migration list option" where
  "repositoryMigrations X files = loadMigrations X files [''001_raw_events.sql'']"

definition repositoryMediaMigrations :: "ext \<Rightarrow> (string \<Rightarrow> string option) \<Rightarrow> migration list option" where
  "repositoryMediaMigrations X files = loadMigrations X files [''002_media_ingest.sql'', ''003_media_file_checks.sql'']"

definition repositoryM3Migrations :: "ext \<Rightarrow> (string \<Rightarrow> string option) \<Rightarrow> migration list option" where
  "repositoryM3Migrations X files = loadMigrations X files [''004_collectors_timeline.sql'']"

definition repositoryM4Migrations :: "ext \<Rightarrow> (string \<Rightarrow> string option) \<Rightarrow> migration list option" where
  "repositoryM4Migrations X files = loadMigrations X files [''005_operations.sql'']"

section \<open>Applying migrations\<close>

text \<open>\<^verbatim>\<open>CREATE TABLE IF NOT EXISTS\<close> of a ledger.\<close>

definition createLedger :: "string \<Rightarrow> schema_db \<Rightarrow> schema_db" where
  "createLedger ledger db =
     (case ledgers db ledger of Some _ \<Rightarrow> db | None \<Rightarrow> db\<lparr>ledgers := (ledgers db)(ledger := Some [])\<rparr>)"

definition ledgerRows :: "string \<Rightarrow> schema_db \<Rightarrow> ledger_row list" where
  "ledgerRows ledger db = (case ledgers db ledger of None \<Rightarrow> [] | Some rows \<Rightarrow> sort_key lr_version rows)"

text \<open>The recorded versions, each known, not newer than the target and unchanged.\<close>

fun checkRecorded :: "migration list \<Rightarrow> int \<Rightarrow> ledger_row list \<Rightarrow> go_error + unit" where
  "checkRecorded migrations targetVersion [] = Inr ()"
| "checkRecorded migrations targetVersion (row # rows) =
     (case List.find (\<lambda>m. m_version m = lr_version row) (rev migrations) of
        None \<Rightarrow> Inl (StoreErr CodeMigrationUnsupported ''unknown migration version'')
      | Some item \<Rightarrow>
          if lr_version row > targetVersion then Inl (StoreErr CodeMigrationUnsupported ''unknown migration version'')
          else if lr_checksum row \<noteq> m_checksum item then Inl (StoreErr CodeMigrationFailed ''migration checksum mismatch'')
          else checkRecorded migrations targetVersion rows)"

text \<open>A script creates tables, so it cannot be executed twice.\<close>

definition execScript :: "faults \<Rightarrow> migration \<Rightarrow> schema_db \<Rightarrow> go_error + schema_db" where
  "execScript flt item db =
     bind_result (db_call flt CodeMigrationFailed (''apply '' @ m_name item) 0) (\<lambda>_.
       if m_contents item \<in> set (scripts db)
       then Inl (classifySQLiteError CodeMigrationFailed (''apply '' @ m_name item) (FaultSqlite 1))
       else Inr (db\<lparr>scripts := scripts db @ [m_contents item]\<rparr>))"

definition recordMigration :: "faults \<Rightarrow> string \<Rightarrow> migration \<Rightarrow> instant \<Rightarrow> schema_db \<Rightarrow> go_error + schema_db" where
  "recordMigration flt ledger item at db =
     bind_result (db_call flt CodeMigrationFailed (''record '' @ m_name item) 0) (\<lambda>_.
       let rows = (case ledgers db ledger of None \<Rightarrow> [] | Some rows \<Rightarrow> rows) in
       if m_version item \<in> lr_version ` set rows
       then Inl (classifySQLiteError CodeMigrationFailed (''record '' @ m_name item) (FaultSqlite 1555))
       else if sql_length (m_checksum item) \<noteq> 64
       then Inl (classifySQLiteError CodeMigrationFailed (''record '' @ m_name item) (FaultSqlite sqlite_constraint_check))
       else Inr (db\<lparr>ledgers := (ledgers db)(ledger := Some (rows @
              [\<lparr>lr_version = m_version item, lr_name = m_name item, lr_checksum = m_checksum item,
                lr_applied_at = rfc3339nano at\<rparr>]))\<rparr>))"

fun applyItems :: "faults \<Rightarrow> (int \<Rightarrow> instant) \<Rightarrow> string \<Rightarrow> bool \<Rightarrow> int \<Rightarrow> migration list \<Rightarrow> int \<Rightarrow> schema_db
    \<Rightarrow> go_error + int \<times> schema_db" where
  "applyItems flt now ledger core targetVersion [] applied db = Inr (applied, db)"
| "applyItems flt now ledger core targetVersion (item # items) applied db =
     (if m_version item > targetVersion then Inr (applied, db)
      else if m_version item \<le> applied then applyItems flt now ledger core targetVersion items applied db
      else if m_version item \<noteq> applied + 1 then Inl (StoreErr CodeMigrationFailed ''migration sequence jumps'')
      else
        bind_result (execScript flt item db) (\<lambda>db1.
        bind_result (recordMigration flt ledger item (now (m_version item)) db1) (\<lambda>db2.
        bind_result (if core then db_call flt CodeMigrationFailed ''advance schema version'' 0 else Inr ()) (\<lambda>_.
          applyItems flt now ledger core targetVersion items (m_version item)
            (if core then db2\<lparr>user_version := m_version item\<rparr> else db2)))))"

definition applyMigrationsThrough :: "faults \<Rightarrow> migration list \<Rightarrow> (int \<Rightarrow> instant) \<Rightarrow> int \<Rightarrow> schema_db
    \<Rightarrow> (go_error + unit) \<times> schema_db" where
  "applyMigrationsThrough flt migrations now targetVersion db =
     (let migrations = sort_key m_version migrations;
          run =
            bind_result (db_call flt CodeMigrationFailed ''begin migration transaction'' 0) (\<lambda>_.
            bind_result (db_call flt CodeMigrationFailed ''create migration ledger'' 0) (\<lambda>_.
            let db1 = createLedger ''schema_migrations'' db in
            bind_result (db_call flt CodeMigrationFailed ''read schema version'' 0) (\<lambda>_.
            bind_result (guard_result (\<not> user_version db1 > targetVersion) (StoreErr CodeMigrationUnsupported ''newer schema'')) (\<lambda>_.
            bind_result (db_call flt CodeMigrationFailed ''read migration ledger'' 0) (\<lambda>_.
            bind_result (db_read flt CodeMigrationFailed ''scan migration ledger'' 0) (\<lambda>_.
            bind_result (db_call flt CodeMigrationFailed ''iterate migration ledger'' 0) (\<lambda>_.
            bind_result (db_read flt CodeMigrationFailed ''close migration ledger'' 0) (\<lambda>_.
            let recorded = ledgerRows ''schema_migrations'' db1 in
            bind_result (checkRecorded migrations targetVersion recorded) (\<lambda>_.
            bind_result (guard_result (int (length recorded) = user_version db1) (StoreErr CodeMigrationFailed ''ledger count'')) (\<lambda>_.
            bind_result (applyItems flt now ''schema_migrations'' True targetVersion migrations (user_version db1) db1) (\<lambda>(applied, db2).
            bind_result (guard_result (applied = targetVersion) (StoreErr CodeMigrationFailed ''not all required migrations were applied'')) (\<lambda>_.
            bind_result (db_call flt CodeMigrationFailed ''commit migrations'' 0) (\<lambda>_. Inr db2)))))))))))))
      in case run of Inl e \<Rightarrow> (Inl e, db) | Inr db' \<Rightarrow> (Inr (), db'))"

definition applyMigrations :: "faults \<Rightarrow> migration list \<Rightarrow> (int \<Rightarrow> instant) \<Rightarrow> schema_db \<Rightarrow> (go_error + unit) \<times> schema_db" where
  "applyMigrations flt migrations now db = applyMigrationsThrough flt migrations now CurrentSchemaVersion db"

text \<open>The length of the contiguous run of recorded versions from 1.\<close>

fun contiguous :: "int set \<Rightarrow> int \<Rightarrow> nat \<Rightarrow> int" where
  "contiguous recorded version 0 = version - 1"
| "contiguous recorded version (Suc n) =
     (if version \<in> recorded then contiguous recorded (version + 1) n else version - 1)"

definition applyIndependentMigrations :: "faults \<Rightarrow> migration list \<Rightarrow> (int \<Rightarrow> instant) \<Rightarrow> string \<Rightarrow> string \<Rightarrow> int \<Rightarrow> schema_db
    \<Rightarrow> (go_error + unit) \<times> schema_db" where
  "applyIndependentMigrations flt migrations now ledger label targetVersion db =
     (let migrations = sort_key m_version migrations;
          run =
            bind_result (db_call flt CodeMigrationFailed (''begin '' @ label @ '' migration transaction'') 0) (\<lambda>_.
            bind_result (db_call flt CodeMigrationFailed (''create '' @ label @ '' migration ledger'') 0) (\<lambda>_.
            let db1 = createLedger ledger db in
            bind_result (db_call flt CodeMigrationFailed (''read '' @ label @ '' migration ledger'') 0) (\<lambda>_.
            bind_result (db_read flt CodeMigrationFailed (''scan '' @ label @ '' migration ledger'') 0) (\<lambda>_.
            bind_result (db_call flt CodeMigrationFailed (''iterate '' @ label @ '' migration ledger'') 0) (\<lambda>_.
            bind_result (db_read flt CodeMigrationFailed (''close '' @ label @ '' migration ledger'') 0) (\<lambda>_.
            let recorded = ledgerRows ledger db1 in
            bind_result (checkRecorded migrations targetVersion recorded) (\<lambda>_.
            let appliedVersion = contiguous (lr_version ` set recorded) 1 (nat targetVersion) in
            bind_result (guard_result (int (length recorded) = appliedVersion) (StoreErr CodeMigrationFailed ''ledger is not contiguous'')) (\<lambda>_.
            bind_result (applyItems flt now ledger False targetVersion migrations appliedVersion db1) (\<lambda>(applied, db2).
            bind_result (guard_result (applied = targetVersion) (StoreErr CodeMigrationFailed ''not all required migrations were applied'')) (\<lambda>_.
            bind_result (db_call flt CodeMigrationFailed (''commit '' @ label @ '' migrations'') 0) (\<lambda>_. Inr db2)))))))))))
      in case run of Inl e \<Rightarrow> (Inl e, db) | Inr db' \<Rightarrow> (Inr (), db'))"

definition applyMediaMigrations where
  "applyMediaMigrations flt migrations now db =
     applyIndependentMigrations flt migrations now ''media_schema_migrations'' ''media'' currentMediaSchemaVersion db"

definition applyM3Migrations where
  "applyM3Migrations flt migrations now db =
     applyIndependentMigrations flt migrations now ''m3_schema_migrations'' ''M3'' currentM3SchemaVersion db"

definition applyM4Migrations where
  "applyM4Migrations flt migrations now db =
     applyIndependentMigrations flt migrations now ''m4_schema_migrations'' ''M4'' currentM4SchemaVersion db"

text \<open>One stage of \<^verbatim>\<open>migrate\<close>: load the embedded set, then apply it in its own transaction.\<close>

definition stage :: "string \<Rightarrow> migration list option \<Rightarrow> (migration list \<Rightarrow> schema_db \<Rightarrow> (go_error + unit) \<times> schema_db)
    \<Rightarrow> schema_db \<Rightarrow> (go_error + unit) \<times> schema_db" where
  "stage label loaded run db =
     (case loaded of None \<Rightarrow> (Inl (wrap CodeMigrationFailed label), db) | Some ms \<Rightarrow> run ms db)"

definition andThen :: "(go_error + unit) \<times> schema_db \<Rightarrow> (schema_db \<Rightarrow> (go_error + unit) \<times> schema_db) \<Rightarrow> (go_error + unit) \<times> schema_db" where
  "andThen p k = (case p of (Inl e, db) \<Rightarrow> (Inl e, db) | (Inr _, db) \<Rightarrow> k db)"

definition migrate :: "ext \<Rightarrow> (string \<Rightarrow> string option) \<Rightarrow> faults \<Rightarrow> (int \<Rightarrow> instant) \<Rightarrow> schema_db \<Rightarrow> (go_error + unit) \<times> schema_db" where
  "migrate X files flt now db =
     andThen (stage ''load embedded migrations'' (repositoryMigrations X files) (\<lambda>ms. applyMigrations flt ms now) db)
     (\<lambda>db. andThen (stage ''load embedded media migrations'' (repositoryMediaMigrations X files) (\<lambda>ms. applyMediaMigrations flt ms now) db)
     (\<lambda>db. andThen (stage ''load embedded M3 migrations'' (repositoryM3Migrations X files) (\<lambda>ms. applyM3Migrations flt ms now) db)
     (\<lambda>db. stage ''load embedded M4 migrations'' (repositoryM4Migrations X files) (\<lambda>ms. applyM4Migrations flt ms now) db)))"

section \<open>Inspection\<close>

definition maxVersion :: "ledger_row list \<Rightarrow> int" where
  "maxVersion rows = (if rows = [] then 0 else foldr (\<lambda>r m. max (lr_version r) m) (tl rows) (lr_version (hd rows)))"

definition readLedgerVersion :: "faults \<Rightarrow> nat \<Rightarrow> string \<Rightarrow> bool \<Rightarrow> schema_db \<Rightarrow> go_error + int" where
  "readLedgerVersion flt index name optional db =
     bind_result (if optional then db_call flt CodeQueryFailed ''inspect schema compatibility ledger'' index else Inr ()) (\<lambda>_.
       if optional \<and> ledgers db name = None then Inr 0
       else bind_result (db_call flt CodeQueryFailed ''read schema compatibility'' index) (\<lambda>_.
         case ledgers db name of
           None \<Rightarrow> Inl (classifySQLiteError CodeQueryFailed ''read schema compatibility'' (FaultSqlite 1))
         | Some rows \<Rightarrow> Inr (maxVersion rows)))"

definition readSchemaInfo :: "faults \<Rightarrow> schema_db \<Rightarrow> go_error + SchemaInfo" where
  "readSchemaInfo flt db =
     bind_result (readLedgerVersion flt 0 ''schema_migrations'' False db) (\<lambda>core.
     bind_result (readLedgerVersion flt 1 ''media_schema_migrations'' False db) (\<lambda>media.
     bind_result (readLedgerVersion flt 2 ''m3_schema_migrations'' False db) (\<lambda>m3.
     bind_result (readLedgerVersion flt 3 ''m4_schema_migrations'' True db) (\<lambda>m4.
       Inr \<lparr>si_Core = core, si_Media = media, si_M3 = m3, si_M4 = m4\<rparr>))))"

fun compareLedger :: "migration list \<Rightarrow> ledger_row list \<Rightarrow> bool" where
  "compareLedger [] [] = True"
| "compareLedger (m # ms) (r # rs) =
     (lr_version r = m_version m \<and> lr_name r = m_name m \<and> lr_checksum r = m_checksum m \<and> compareLedger ms rs)"
| "compareLedger _ _ = False"

definition verifyLedger :: "faults \<Rightarrow> nat \<Rightarrow> string \<Rightarrow> migration list option \<Rightarrow> schema_db \<Rightarrow> go_error + unit" where
  "verifyLedger flt index table loaded db =
     bind_result (require_some loaded (wrap CodeMigrationFailed ''load migrations for verification'')) (\<lambda>expected.
     bind_result (db_call flt CodeMigrationFailed ''read verified migration ledger'' index) (\<lambda>_.
       case ledgers db table of
         None \<Rightarrow> Inl (classifySQLiteError CodeMigrationFailed ''read verified migration ledger'' (FaultSqlite 1))
       | Some _ \<Rightarrow>
           bind_result (db_call flt CodeMigrationFailed ''scan verified migration ledger'' index) (\<lambda>_.
           bind_result (db_call flt CodeMigrationFailed ''iterate verified migration ledger'' index) (\<lambda>_.
           bind_result (db_read flt CodeMigrationFailed ''close verified migration ledger'' index) (\<lambda>_.
             guard_result (compareLedger expected (ledgerRows table db)) (StoreErr CodeMigrationFailed ''ledger differs''))))))"

definition verifyCurrentMigrationLedgers :: "ext \<Rightarrow> (string \<Rightarrow> string option) \<Rightarrow> faults \<Rightarrow> schema_db \<Rightarrow> go_error + unit" where
  "verifyCurrentMigrationLedgers X files flt db =
     bind_result (db_call flt CodeQueryFailed ''read verified database user version'' 0) (\<lambda>_.
     bind_result (guard_result (user_version db = CurrentSchemaVersion) (StoreErr CodeMigrationFailed ''core schema version'')) (\<lambda>_.
     bind_result (verifyLedger flt 0 ''schema_migrations'' (repositoryMigrations X files) db) (\<lambda>_.
     bind_result (verifyLedger flt 1 ''media_schema_migrations'' (repositoryMediaMigrations X files) db) (\<lambda>_.
     bind_result (verifyLedger flt 2 ''m3_schema_migrations'' (repositoryM3Migrations X files) db) (\<lambda>_.
       verifyLedger flt 3 ''m4_schema_migrations'' (repositoryM4Migrations X files) db)))))"

definition VerifyDatabase :: "ext \<Rightarrow> (string \<Rightarrow> string option) \<Rightarrow> faults \<Rightarrow> schema_db \<Rightarrow> go_error + unit" where
  "VerifyDatabase X files flt db =
     bind_result (db_call flt CodeQueryFailed ''verify database integrity'' 0) (\<lambda>_.
     bind_result (guard_result (integrity db = ''ok'') (StoreErr CodeQueryFailed ''database integrity check'')) (\<lambda>_.
     bind_result (readSchemaInfo flt db) (\<lambda>_.
       verifyCurrentMigrationLedgers X files flt db)))"

section \<open>Readiness\<close>

record Readiness =
  rd_Status :: string
  rd_SchemaVersion :: int
  rd_ErrorCode :: string

definition readinessFromError :: "go_error \<Rightarrow> Readiness" where
  "readinessFromError err =
     (if ErrorCode err = CodeBusy then \<lparr>rd_Status = ''busy'', rd_SchemaVersion = CurrentSchemaVersion, rd_ErrorCode = CodeBusy\<rparr>
      else if ErrorCode err = CodeReadOnly
        then \<lparr>rd_Status = ''read_only'', rd_SchemaVersion = CurrentSchemaVersion, rd_ErrorCode = CodeReadOnly\<rparr>
      else \<lparr>rd_Status = ''unavailable'', rd_SchemaVersion = CurrentSchemaVersion, rd_ErrorCode = ErrorCode err\<rparr>)"

definition readiness :: "faults \<Rightarrow> bool \<Rightarrow> schema_db \<Rightarrow> Readiness" where
  "readiness flt queryOnly db =
     (case
        bind_result (db_call flt CodeQueryFailed ''acquire readiness connection'' 0) (\<lambda>_.
        bind_result (db_call flt CodeQueryFailed ''read query-only mode'' 0) (\<lambda>_.
          if queryOnly then Inr \<lparr>rd_Status = ''read_only'', rd_SchemaVersion = CurrentSchemaVersion, rd_ErrorCode = CodeReadOnly\<rparr>
          else
            bind_result (db_call flt CodeWriteFailed ''probe writable database'' 0) (\<lambda>_.
            bind_result (db_call flt CodeQueryFailed ''read readiness schema version'' 0) (\<lambda>_.
            bind_result (db_call flt CodeWriteFailed ''finish writable database probe'' 0) (\<lambda>_.
              if user_version db \<noteq> CurrentSchemaVersion
              then Inr \<lparr>rd_Status = ''migration_failed'', rd_SchemaVersion = user_version db, rd_ErrorCode = CodeMigrationFailed\<rparr>
              else Inr \<lparr>rd_Status = ''writable'', rd_SchemaVersion = user_version db, rd_ErrorCode = []\<rparr>)))))
      of Inl e \<Rightarrow> readinessFromError e | Inr r \<Rightarrow> r)"

section \<open>A transaction fails without a trace\<close>

lemma applyMigrationsThrough_atomic: "applyMigrationsThrough flt ms now t db = (Inl e, db') \<Longrightarrow> db' = db"
  by (simp add: applyMigrationsThrough_def Let_def split: sum.splits)

lemma applyIndependentMigrations_atomic: "applyIndependentMigrations flt ms now l lab t db = (Inl e, db') \<Longrightarrow> db' = db"
  by (simp add: applyIndependentMigrations_def Let_def split: sum.splits)

section \<open>Completing a ledger\<close>

definition numbered :: "int \<Rightarrow> migration list \<Rightarrow> bool" where
  "numbered a ms \<longleftrightarrow> (\<forall>i < length ms. m_version (ms ! i) = a + int i + 1)"

definition row_of :: "(int \<Rightarrow> instant) \<Rightarrow> migration \<Rightarrow> ledger_row" where
  "row_of now m = \<lparr>lr_version = m_version m, lr_name = m_name m, lr_checksum = m_checksum m, lr_applied_at = rfc3339nano (now (m_version m))\<rparr>"

definition row_matches :: "migration \<Rightarrow> ledger_row \<Rightarrow> bool" where
  "row_matches m r \<longleftrightarrow> lr_version r = m_version m \<and> lr_name r = m_name m \<and> lr_checksum r = m_checksum m"

lemma compareLedger_iff: "compareLedger ms rs \<longleftrightarrow> list_all2 row_matches ms rs"
  by (induction ms rs rule: compareLedger.induct) (auto simp: row_matches_def)

lemma row_of_matches: "list_all2 row_matches ms (map (row_of now) ms)"
  by (simp add: list.rel_map row_matches_def row_of_def list.rel_refl)

lemma numbered_Cons: "numbered a (m # ms) \<longleftrightarrow> m_version m = a + 1 \<and> numbered (a + 1) ms"
  unfolding numbered_def
  by (auto simp: nth_Cons split: nat.splits)

lemma numbered_drop: "numbered a ms \<Longrightarrow> numbered (a + int k) (drop k ms)"
  by (auto simp: numbered_def)

lemma numbered_take: "numbered a ms \<Longrightarrow> numbered a (take k ms)"
  by (auto simp: numbered_def)

lemma numbered_versions: "numbered a ms \<Longrightarrow> m \<in> set ms \<Longrightarrow> a < m_version m \<and> m_version m \<le> a + int (length ms)"
  by (auto simp: numbered_def in_set_conv_nth)

lemma numbered_sorted: "numbered a ms \<Longrightarrow> sorted_wrt (<) (map m_version ms)"
  by (auto simp: numbered_def sorted_wrt_iff_nth_less)

lemma loadFrom_numbered: "loadFrom X files i names = Some ms \<Longrightarrow> numbered (int i) ms \<and> length ms = length names \<and> m_checksum ` set ms \<subseteq> range (sha256_hex X)"
proof (induction X files i names arbitrary: ms rule: loadFrom.induct)
  case (2 X files index name names)
  then show ?case by (fastforce simp: numbered_Cons add.commute split: option.splits)
qed (auto simp: numbered_def)

lemma applyItems_all:
  "numbered a ms \<Longrightarrow> a + int (length ms) = target \<Longrightarrow> distinct (scripts db @ map m_contents ms) \<Longrightarrow>
   (\<forall>m \<in> set ms. sql_length (m_checksum m) = 64) \<Longrightarrow> ledgers db l = Some rows \<Longrightarrow> (\<forall>r \<in> set rows. lr_version r \<le> a) \<Longrightarrow>
   applyItems no_faults now l core target ms a db =
     Inr (target, db\<lparr>user_version := (if core \<and> ms \<noteq> [] then target else user_version db),
       ledgers := (ledgers db)(l := Some (rows @ map (row_of now) ms)), scripts := scripts db @ map m_contents ms\<rparr>)"
proof (induction ms arbitrary: a db rows)
  case Nil
  then show ?case by (simp add: fun_upd_idem)
next
  case (Cons m ms)
  let ?db = "db\<lparr>scripts := scripts db @ [m_contents m], ledgers := (ledgers db)(l := Some (rows @ [row_of now m]))\<rparr>"
  let ?db' = "if core then ?db\<lparr>user_version := m_version m\<rparr> else ?db"
  have m: "m_version m = a + 1" "numbered (a + 1) ms" using Cons.prems(1) by (simp_all add: numbered_Cons)
  have fresh: "m_version m \<notin> lr_version ` set rows" using Cons.prems(6) m(1) by force
  have step: "applyItems no_faults now l core target (m # ms) a db = applyItems no_faults now l core target ms (a + 1) ?db'"
    using Cons.prems m fresh by (simp add: execScript_def recordMigration_def row_of_def Let_def)
  have "applyItems no_faults now l core target ms (a + 1) ?db' =
     Inr (target, ?db'\<lparr>user_version := (if core \<and> ms \<noteq> [] then target else user_version ?db'),
       ledgers := (ledgers ?db')(l := Some ((rows @ [row_of now m]) @ map (row_of now) ms)), scripts := scripts ?db' @ map m_contents ms\<rparr>)"
    by (rule Cons.IH) (use Cons.prems m in \<open>auto simp: row_of_def intro: order_trans\<close>)
  moreover have "ms = [] \<Longrightarrow> target = m_version m" using Cons.prems(2) m(1) by simp
  ultimately show ?case unfolding step by (auto intro!: schema_db.equality)
qed

lemma applyItems_skip:
  "(\<forall>m \<in> set xs. m_version m \<le> a) \<Longrightarrow> a \<le> target \<Longrightarrow>
   applyItems flt now l core target (xs @ ys) a db = applyItems flt now l core target ys a db"
  by (induction xs) auto

lemma find_numbered:
  assumes "sorted_wrt (<) (map m_version ms)" "m \<in> set ms"
  shows "List.find (\<lambda>x. m_version x = m_version m) (rev ms) = Some m"
proof -
  have "inj_on m_version (set ms)"
    using assms(1) by (metis distinct_map strict_sorted_iff)
  moreover obtain z where z: "List.find (\<lambda>x. m_version x = m_version m) (rev ms) = Some z"
    using assms(2) by (cases "List.find (\<lambda>x. m_version x = m_version m) (rev ms)") (auto simp: find_None_iff)
  ultimately show ?thesis
    using assms(2) find_SomeD [OF z] by (auto simp: inj_on_def)
qed

lemma checkRecorded_prefix:
  assumes "sorted_wrt (<) (map m_version ms)" "\<forall>m \<in> set ms. m_version m \<le> target"
  shows "list_all2 row_matches xs rows \<Longrightarrow> set xs \<subseteq> set ms \<Longrightarrow> checkRecorded ms target rows = Inr ()"
proof (induction xs rows rule: list_all2_induct)
  case (Cons x xs r rows)
  then have "List.find (\<lambda>m. m_version m = lr_version r) (rev ms) = Some x"
    using find_numbered [OF assms(1), of x] by (simp add: row_matches_def)
  with Cons assms(2) show ?case by (auto simp: row_matches_def)
qed simp

lemma matching_versions: "list_all2 row_matches ms rows \<Longrightarrow> map lr_version rows = map m_version ms"
  by (induction rule: list_all2_induct) (auto simp: row_matches_def)

lemma contiguous_prefix:
  "1 \<le> v \<Longrightarrow> contiguous {1..K} v n = (if v \<le> K + 1 then min K (v + int n - 1) else v - 1)"
  by (induction n arbitrary: v) (auto simp: min_def)

lemma numbered_set: "numbered 0 ms \<Longrightarrow> m_version ` set ms = {1..int (length ms)}"
proof (intro equalityI subsetI)
  fix v assume *: "numbered 0 ms" "v \<in> {1..int (length ms)}"
  then have "m_version (ms ! nat (v - 1)) = v" "nat (v - 1) < length ms" by (auto simp: numbered_def)
  then show "v \<in> m_version ` set ms" by (metis image_eqI nth_mem)
qed (use numbered_versions in fastforce)

text \<open>A ledger that holds the first \<open>k\<close> migrations of a set.\<close>

definition recorded_prefix :: "migration list \<Rightarrow> string \<Rightarrow> schema_db \<Rightarrow> nat \<Rightarrow> bool" where
  "recorded_prefix ms ledger db k \<longleftrightarrow> k \<le> length ms \<and>
     (case ledgers db ledger of None \<Rightarrow> k = 0 | Some rows \<Rightarrow> compareLedger (take k ms) rows)"

lemma recorded_prefixD:
  assumes "recorded_prefix ms l db k" "numbered 0 ms"
  obtains rows where "createLedger l db = db\<lparr>ledgers := (ledgers db)(l := Some rows)\<rparr>" "ledgers (createLedger l db) l = Some rows"
    "list_all2 row_matches (take k ms) rows" "ledgerRows l (createLedger l db) = rows" "length rows = k"
    "lr_version ` set rows = {1..int k}" "k \<le> length ms"
proof -
  obtain rows where r: "createLedger l db = db\<lparr>ledgers := (ledgers db)(l := Some rows)\<rparr>" "list_all2 row_matches (take k ms) rows"
  proof (cases "ledgers db l")
    case None
    with assms(1) show thesis by (intro that [of "[]"]) (simp_all add: recorded_prefix_def createLedger_def)
  next
    case (Some rows)
    with assms(1) show thesis
      by (intro that [of rows]) (simp_all add: recorded_prefix_def createLedger_def compareLedger_iff fun_upd_idem)
  qed
  have k: "k \<le> length ms" using assms(1) by (simp add: recorded_prefix_def)
  note v = matching_versions [OF r(2)]
  have "sorted (map lr_version rows)"
    unfolding v using numbered_sorted [OF numbered_take [OF assms(2)]] strict_sorted_iff by blast
  then have "ledgerRows l (createLedger l db) = rows" by (simp add: r ledgerRows_def sort_key_id_if_sorted)
  moreover have "lr_version ` set rows = {1..int k}"
    using arg_cong [OF v, of set] numbered_set [OF numbered_take [OF assms(2), of k]] k by (simp add: min_def)
  ultimately show thesis
    using that [of rows] r k list_all2_lengthD [OF r(2)] by (simp add: min.absorb2)
qed

definition completed :: "(int \<Rightarrow> instant) \<Rightarrow> string \<Rightarrow> migration list \<Rightarrow> nat \<Rightarrow> schema_db \<Rightarrow> schema_db" where
  "completed now l ms k db =
     db\<lparr>ledgers := (ledgers db)(l := Some ((case ledgers db l of None \<Rightarrow> [] | Some rows \<Rightarrow> rows) @ map (row_of now) (drop k ms))),
        scripts := scripts db @ map m_contents (drop k ms)\<rparr>"

lemma completed_recorded: "recorded_prefix ms l db k \<Longrightarrow> recorded_prefix ms l (completed now l ms k db) (length ms)"
  using row_of_matches [of "drop k ms" now] list_all2_appendI [of row_matches "take k ms" _ "drop k ms" "map (row_of now) (drop k ms)"]
  by (auto simp: recorded_prefix_def completed_def compareLedger_iff split: option.splits)


lemma prefix_items:
  assumes "numbered 0 ms" "recorded_prefix ms l db k" "distinct (scripts db @ map m_contents (drop k ms))"
    "\<forall>m \<in> set ms. sql_length (m_checksum m) = 64"
  shows "applyItems no_faults now l core (int (length ms)) ms (int k) (createLedger l db)
    = Inr (int (length ms), (completed now l ms k db)\<lparr>user_version := (if core \<and> k < length ms then int (length ms) else user_version db)\<rparr>)"
proof -
  obtain rows where r: "createLedger l db = db\<lparr>ledgers := (ledgers db)(l := Some rows)\<rparr>" "ledgers (createLedger l db) l = Some rows"
    "length rows = k" "lr_version ` set rows = {1..int k}" "k \<le> length ms"
    using recorded_prefixD [OF assms(2,1)] by blast
  have "\<forall>m \<in> set (take k ms). m_version m \<le> int k"
    using numbered_versions [OF numbered_take [OF assms(1)], of _ k] r(5) by (auto simp: min.absorb2)
  from applyItems_skip [OF this, of "int (length ms)" no_faults now l core "drop k ms" "createLedger l db"] r(5)
  have "applyItems no_faults now l core (int (length ms)) ms (int k) (createLedger l db)
      = applyItems no_faults now l core (int (length ms)) (drop k ms) (int k) (createLedger l db)"
    by simp
  also have "\<dots> = Inr (int (length ms), (createLedger l db)\<lparr>user_version := (if core \<and> drop k ms \<noteq> [] then int (length ms) else user_version (createLedger l db)),
       ledgers := (ledgers (createLedger l db))(l := Some (rows @ map (row_of now) (drop k ms))),
       scripts := scripts (createLedger l db) @ map m_contents (drop k ms)\<rparr>)"
  proof (rule applyItems_all)
    show "numbered (int k) (drop k ms)" using numbered_drop [OF assms(1), of k] by simp
    show "\<forall>m \<in> set (drop k ms). sql_length (m_checksum m) = 64" using assms(4) by (meson in_set_dropD)
    show "\<forall>w \<in> set rows. lr_version w \<le> int k" using r(4) by auto
  qed (use assms(3) r in \<open>simp_all\<close>)
  also have "\<dots> = Inr (int (length ms), (completed now l ms k db)\<lparr>user_version := (if core \<and> k < length ms then int (length ms) else user_version db)\<rparr>)"
  proof -
    have "(case ledgers db l of None \<Rightarrow> [] | Some rows \<Rightarrow> rows) = rows"
      using r(2) by (auto simp: createLedger_def split: option.splits)
    then show ?thesis using r(5) by (simp add: r(1) completed_def)
  qed
  finally show ?thesis .
qed

lemma prefix_checks:
  assumes "numbered 0 ms" "recorded_prefix ms l db k"
  shows "sort_key m_version ms = ms" "length (ledgerRows l (createLedger l db)) = k"
    "checkRecorded ms (int (length ms)) (ledgerRows l (createLedger l db)) = Inr ()"
    "contiguous (lr_version ` set (ledgerRows l (createLedger l db))) 1 (length ms) = int k"
    "user_version (createLedger l db) = user_version db" "k \<le> length ms"
proof -
  obtain rows where r: "list_all2 row_matches (take k ms) rows" "ledgerRows l (createLedger l db) = rows" "length rows = k"
    "lr_version ` set rows = {1..int k}" "k \<le> length ms"
    using recorded_prefixD [OF assms(2,1)] by blast
  show "sort_key m_version ms = ms"
    using numbered_sorted [OF assms(1)] by (simp add: strict_sorted_iff sort_key_id_if_sorted)
  show "checkRecorded ms (int (length ms)) (ledgerRows l (createLedger l db)) = Inr ()"
    unfolding r(2) by (rule checkRecorded_prefix [OF numbered_sorted [OF assms(1)] _ r(1)])
      (use numbered_versions [OF assms(1)] in \<open>auto dest: in_set_takeD\<close>)
  show "contiguous (lr_version ` set (ledgerRows l (createLedger l db))) 1 (length ms) = int k"
    using r(4,5) contiguous_prefix [of 1 "int k" "length ms"] by (simp add: r(2) min.absorb1)
  show "length (ledgerRows l (createLedger l db)) = k" "k \<le> length ms" using r by simp_all
  show "user_version (createLedger l db) = user_version db" by (simp add: createLedger_def split: option.splits)
qed

lemma independent_stage:
  assumes "numbered 0 ms" "recorded_prefix ms l db k" "distinct (scripts db @ map m_contents (drop k ms))"
    "\<forall>m \<in> set ms. sql_length (m_checksum m) = 64"
  shows "applyIndependentMigrations no_faults ms now l label (int (length ms)) db = (Inr (), completed now l ms k db)"
  by (simp add: applyIndependentMigrations_def Let_def prefix_checks [OF assms(1,2)] prefix_items [OF assms])
    (simp add: completed_def)

lemma core_stage:
  assumes "numbered 0 ms" "recorded_prefix ms ''schema_migrations'' db k" "distinct (scripts db @ map m_contents (drop k ms))"
    "\<forall>m \<in> set ms. sql_length (m_checksum m) = 64" "user_version db = int k"
  shows "applyMigrationsThrough no_faults ms now (int (length ms)) db
    = (Inr (), (completed now ''schema_migrations'' ms k db)\<lparr>user_version := int (length ms)\<rparr>)"
  using prefix_checks(6) [OF assms(1,2)]
  by (auto simp add: applyMigrationsThrough_def Let_def prefix_checks(1-5) [OF assms(1,2)] assms(5) prefix_items [OF assms(1-4)])

section \<open>The whole migration\<close>

lemma loaded_numbered:
  "loadMigrations X files names = Some ms \<Longrightarrow> sha256_documented X \<Longrightarrow>
   numbered 0 ms \<and> length ms = length names \<and> (\<forall>m \<in> set ms. sql_length (m_checksum m) = 64)"
  unfolding loadMigrations_def using loadFrom_numbered [of X files 0 names ms] sha256_plain [of X] by force

lemmas repository_defs = repositoryMigrations_def repositoryMediaMigrations_def repositoryM3Migrations_def repositoryM4Migrations_def
lemmas schema_versions = CurrentSchemaVersion_def currentMediaSchemaVersion_def currentM3SchemaVersion_def currentM4SchemaVersion_def

text \<open>
  A database a release of the program can have left: each ledger records the first migrations
  of its set, and none of the scripts still to run has been executed.
\<close>

definition upgradable :: "migration list \<Rightarrow> migration list \<Rightarrow> migration list \<Rightarrow> migration list \<Rightarrow> nat \<Rightarrow> nat \<Rightarrow> nat \<Rightarrow> nat \<Rightarrow> schema_db \<Rightarrow> bool" where
  "upgradable c md m3 m4 k1 k2 k3 k4 db \<longleftrightarrow>
     recorded_prefix c ''schema_migrations'' db k1 \<and> user_version db = int k1
     \<and> recorded_prefix md ''media_schema_migrations'' db k2 \<and> recorded_prefix m3 ''m3_schema_migrations'' db k3
     \<and> recorded_prefix m4 ''m4_schema_migrations'' db k4
     \<and> distinct (scripts db @ map m_contents (drop k1 c @ drop k2 md @ drop k3 m3 @ drop k4 m4))"

lemma completed_sel:
  "scripts (completed now l ms k db) = scripts db @ map m_contents (drop k ms)"
  "l' \<noteq> l \<Longrightarrow> ledgers (completed now l ms k db) l' = ledgers db l'"
  "user_version (completed now l ms k db) = user_version db" "integrity (completed now l ms k db) = integrity db"
  by (simp_all add: completed_def)

lemma recorded_prefix_other:
  "l' \<noteq> l \<Longrightarrow> recorded_prefix ms' l' (completed now l ms k db) k' \<longleftrightarrow> recorded_prefix ms' l' db k'"
  "recorded_prefix ms' l' (db\<lparr>user_version := v\<rparr>) k' \<longleftrightarrow> recorded_prefix ms' l' db k'"
  by (simp_all add: recorded_prefix_def completed_sel)

lemma completed_done: "recorded_prefix ms l db (length ms) \<Longrightarrow> ms \<noteq> [] \<Longrightarrow> completed now l ms (length ms) db = db"
  by (auto simp: recorded_prefix_def completed_def compareLedger_iff fun_upd_idem split: option.splits intro!: schema_db.equality)

lemma migrate_upgradable:
  assumes load: "repositoryMigrations X files = Some c" "repositoryMediaMigrations X files = Some md"
      "repositoryM3Migrations X files = Some m3" "repositoryM4Migrations X files = Some m4"
    and "sha256_documented X" and up: "upgradable c md m3 m4 k1 k2 k3 k4 db"
  shows "migrate X files no_faults now db = (Inr (),
    completed now ''m4_schema_migrations'' m4 k4 (completed now ''m3_schema_migrations'' m3 k3
      (completed now ''media_schema_migrations'' md k2 ((completed now ''schema_migrations'' c k1 db)\<lparr>user_version := 1\<rparr>))))"
proof -
  have n: "numbered 0 c \<and> length c = 1 \<and> (\<forall>m \<in> set c. sql_length (m_checksum m) = 64)"
    "numbered 0 md \<and> length md = 2 \<and> (\<forall>m \<in> set md. sql_length (m_checksum m) = 64)"
    "numbered 0 m3 \<and> length m3 = 1 \<and> (\<forall>m \<in> set m3. sql_length (m_checksum m) = 64)"
    "numbered 0 m4 \<and> length m4 = 1 \<and> (\<forall>m \<in> set m4. sql_length (m_checksum m) = 64)"
    using load [unfolded repository_defs] loaded_numbered [OF _ assms(5)] by force+
  let ?d1 = "(completed now ''schema_migrations'' c k1 db)\<lparr>user_version := 1\<rparr>"
  let ?d2 = "completed now ''media_schema_migrations'' md k2 ?d1"
  let ?d3 = "completed now ''m3_schema_migrations'' m3 k3 ?d2"
  note u = up [unfolded upgradable_def]
  have d: "distinct (scripts db @ map m_contents (drop k1 c))" "distinct (scripts ?d1 @ map m_contents (drop k2 md))"
    "distinct (scripts ?d2 @ map m_contents (drop k3 m3))" "distinct (scripts ?d3 @ map m_contents (drop k4 m4))"
    using u by (auto simp: completed_sel)
  have "applyMigrations no_faults c now db = (Inr (), ?d1)"
    using core_stage [OF _ _ d(1), of now] n(1) u by (simp add: applyMigrations_def schema_versions)
  moreover have "applyMediaMigrations no_faults md now ?d1 = (Inr (), ?d2)"
    using independent_stage [OF _ _ d(2), of "''media_schema_migrations''" now "''media''"] n(2) u
    by (simp add: applyMediaMigrations_def schema_versions recorded_prefix_other)
  moreover have "applyM3Migrations no_faults m3 now ?d2 = (Inr (), ?d3)"
    using independent_stage [OF _ _ d(3), of "''m3_schema_migrations''" now "''M3''"] n(3) u
    by (simp add: applyM3Migrations_def schema_versions recorded_prefix_other)
  moreover have "applyM4Migrations no_faults m4 now ?d3 = (Inr (), completed now ''m4_schema_migrations'' m4 k4 ?d3)"
    using independent_stage [OF _ _ d(4), of "''m4_schema_migrations''" now "''M4''"] n(4) u
    by (simp add: applyM4Migrations_def schema_versions recorded_prefix_other)
  ultimately show ?thesis by (simp add: migrate_def stage_def andThen_def load)
qed

text \<open>A database whose ledgers are complete.\<close>

lemma verify_complete:
  assumes "recorded_prefix ms l db (length ms)" "ms \<noteq> []" "numbered 0 ms"
  shows "verifyLedger no_faults i l (Some ms) db = Inr ()"
proof -
  obtain rows where r: "ledgers db l = Some rows" "list_all2 row_matches ms rows"
    using assms(1,2) by (auto simp: recorded_prefix_def compareLedger_iff split: option.splits)
  have "sorted (map lr_version rows)"
    using numbered_sorted [OF assms(3)] matching_versions [OF r(2)] by (simp add: strict_sorted_iff)
  with r show ?thesis by (simp add: verifyLedger_def ledgerRows_def compareLedger_iff sort_key_id_if_sorted)
qed

lemma readLedger_complete: "recorded_prefix ms l db (length ms) \<Longrightarrow> ms \<noteq> [] \<Longrightarrow> \<exists>v. readLedgerVersion no_faults i l opt db = Inr v"
  by (auto simp: recorded_prefix_def readLedgerVersion_def split: option.splits)

lemma VerifyDatabase_complete:
  assumes "repositoryMigrations X files = Some c" "repositoryMediaMigrations X files = Some md"
      "repositoryM3Migrations X files = Some m3" "repositoryM4Migrations X files = Some m4"
    and rec: "recorded_prefix c ''schema_migrations'' db (length c)" "recorded_prefix md ''media_schema_migrations'' db (length md)"
      "recorded_prefix m3 ''m3_schema_migrations'' db (length m3)" "recorded_prefix m4 ''m4_schema_migrations'' db (length m4)"
    and ne: "c \<noteq> []" "md \<noteq> []" "m3 \<noteq> []" "m4 \<noteq> []"
    and n: "numbered 0 c" "numbered 0 md" "numbered 0 m3" "numbered 0 m4" and db: "user_version db = 1" "integrity db = ''ok''"
  shows "VerifyDatabase X files no_faults db = Inr ()"
proof -
  obtain v1 v2 v3 v4 where "readLedgerVersion no_faults 0 ''schema_migrations'' False db = Inr v1"
    "readLedgerVersion no_faults 1 ''media_schema_migrations'' False db = Inr v2"
    "readLedgerVersion no_faults 2 ''m3_schema_migrations'' False db = Inr v3"
    "readLedgerVersion no_faults 3 ''m4_schema_migrations'' True db = Inr v4"
    using readLedger_complete [OF rec(1) ne(1)] readLedger_complete [OF rec(2) ne(2)] readLedger_complete [OF rec(3) ne(3)]
      readLedger_complete [OF rec(4) ne(4)] by metis
  then show ?thesis
    using db by (simp add: VerifyDatabase_def readSchemaInfo_def verifyCurrentMigrationLedgers_def assms(1-4) schema_versions
        verify_complete [OF rec(1) ne(1) n(1)] verify_complete [OF rec(2) ne(2) n(2)]
        verify_complete [OF rec(3) ne(3) n(3)] verify_complete [OF rec(4) ne(4) n(4)])
qed

section \<open>Sample databases\<close>

definition fresh_db :: schema_db where
  "fresh_db = \<lparr>user_version = 0, ledgers = (\<lambda>_. None), scripts = [], integrity = ''ok''\<rparr>"

text \<open>Embedded files that contain their own name.\<close>

definition sample_files :: "string \<Rightarrow> string option" where "sample_files name = Some name"

lemma sample_load:
  "\<exists>c md m3 m4. repositoryMigrations sample_ext sample_files = Some c \<and> repositoryMediaMigrations sample_ext sample_files = Some md
    \<and> repositoryM3Migrations sample_ext sample_files = Some m3 \<and> repositoryM4Migrations sample_ext sample_files = Some m4
    \<and> upgradable c md m3 m4 0 0 0 0 fresh_db"
  by (simp add: repository_defs loadMigrations_def sample_files_def upgradable_def recorded_prefix_def fresh_db_def)

section \<open>Properties\<close>

text \<open>
  C26: Migration is correct for every database a release can have left: it succeeds, runs exactly
  the missing scripts, each once and in order, its result passes the verification of the
  database, and running it again changes nothing.
\<close>

theorem migrate_completes:
  assumes "repositoryMigrations X files = Some c" "repositoryMediaMigrations X files = Some md"
      "repositoryM3Migrations X files = Some m3" "repositoryM4Migrations X files = Some m4"
    and "sha256_documented X" "upgradable c md m3 m4 k1 k2 k3 k4 db" "integrity db = ''ok''"
  shows "\<exists>db'. migrate X files no_faults now db = (Inr (), db')
    \<and> scripts db' = scripts db @ map m_contents (drop k1 c @ drop k2 md @ drop k3 m3 @ drop k4 m4)
    \<and> VerifyDatabase X files no_faults db' = Inr () \<and> migrate X files no_faults now' db' = (Inr (), db')"
proof -
  let ?d1 = "(completed now ''schema_migrations'' c k1 db)\<lparr>user_version := 1\<rparr>"
  let ?d2 = "completed now ''media_schema_migrations'' md k2 ?d1"
  let ?d3 = "completed now ''m3_schema_migrations'' m3 k3 ?d2"
  let ?d4 = "completed now ''m4_schema_migrations'' m4 k4 ?d3"
  have n: "numbered 0 c \<and> length c = 1" "numbered 0 md \<and> length md = 2" "numbered 0 m3 \<and> length m3 = 1" "numbered 0 m4 \<and> length m4 = 1"
    using assms(1-4) [unfolded repository_defs] loaded_numbered [OF _ assms(5)] by force+
  then have ne: "c \<noteq> []" "md \<noteq> []" "m3 \<noteq> []" "m4 \<noteq> []" by auto
  note u = assms(6) [unfolded upgradable_def]
  have rec: "recorded_prefix c ''schema_migrations'' ?d4 (length c)" "recorded_prefix md ''media_schema_migrations'' ?d4 (length md)"
    "recorded_prefix m3 ''m3_schema_migrations'' ?d4 (length m3)" "recorded_prefix m4 ''m4_schema_migrations'' ?d4 (length m4)"
    using u by (simp_all add: recorded_prefix_other completed_recorded)
  have ver: "user_version ?d4 = 1" and ok: "integrity ?d4 = ''ok''" using assms(7) by (simp_all add: completed_sel)
  have up: "upgradable c md m3 m4 (length c) (length md) (length m3) (length m4) ?d4"
    using rec ver n u by (simp add: upgradable_def) (simp add: completed_sel)
  have "migrate X files no_faults now' ?d4 = (Inr (), ?d4)"
    using migrate_upgradable [OF assms(1-5) up, of now'] rec ver ne
    by (simp add: completed_done recorded_prefix_other completed_sel)
  moreover have "VerifyDatabase X files no_faults ?d4 = Inr ()"
    by (rule VerifyDatabase_complete [OF assms(1-4) rec ne]) (simp_all add: n ver ok)
  moreover have "scripts ?d4 = scripts db @ map m_contents (drop k1 c @ drop k2 md @ drop k3 m3 @ drop k4 m4)"
    by (simp add: completed_sel)
  ultimately show ?thesis using migrate_upgradable [OF assms(1-6), of now] by blast
qed

text \<open>A new database with sample scripts.\<close>

theorem migrate_completes_witness:
  "\<exists>db'. migrate sample_ext sample_files no_faults (\<lambda>_. sample_now) fresh_db = (Inr (), db')
    \<and> VerifyDatabase sample_ext sample_files no_faults db' = Inr ()"
proof -
  obtain c md m3 m4 where *: "repositoryMigrations sample_ext sample_files = Some c" "repositoryMediaMigrations sample_ext sample_files = Some md"
    "repositoryM3Migrations sample_ext sample_files = Some m3" "repositoryM4Migrations sample_ext sample_files = Some m4"
    "upgradable c md m3 m4 0 0 0 0 fresh_db"
    using sample_load by blast
  have "integrity fresh_db = ''ok''" by (simp add: fresh_db_def)
  from migrate_completes [OF *(1-4) sample_ext_documented(1) *(5) this, of "\<lambda>_. sample_now"] show ?thesis by blast
qed

text \<open>
  A ledger of a newer release has a row whose version no embedded migration has, or one above the supported version.  Rows
  of known versions are unaltered when they carry the checksum of their migration.
\<close>

definition newer_ledger :: "migration list \<Rightarrow> int \<Rightarrow> string \<Rightarrow> schema_db \<Rightarrow> bool" where
  "newer_ledger ms targetVersion ledger db \<longleftrightarrow> (\<exists>rows r. ledgers db ledger = Some rows \<and> r \<in> set rows
     \<and> (lr_version r \<notin> m_version ` set ms \<or> targetVersion < lr_version r))"

definition unaltered :: "migration list \<Rightarrow> string \<Rightarrow> schema_db \<Rightarrow> bool" where
  "unaltered ms ledger db \<longleftrightarrow> (\<forall>rows r m. ledgers db ledger = Some rows \<longrightarrow> r \<in> set rows \<longrightarrow> m \<in> set ms \<longrightarrow>
     m_version m = lr_version r \<longrightarrow> lr_checksum r = m_checksum m)"

lemma checkRecorded_newer:
  "r \<in> set rows \<Longrightarrow> lr_version r \<notin> m_version ` set ms \<or> targetVersion < lr_version r \<Longrightarrow> checkRecorded ms targetVersion rows \<noteq> Inr ()"
proof (induction ms targetVersion rows rule: checkRecorded.induct)
  case (2 ms targetVersion row rows)
  show ?case
  proof (cases "List.find (\<lambda>m. m_version m = lr_version row) (rev ms)")
    case (Some item)
    then have "lr_version row \<in> m_version ` set ms" by (metis (mono_tags) find_SomeD image_eqI set_rev)
    with Some 2 show ?thesis by (auto split: if_splits)
  qed simp
qed simp

lemma checkRecorded_code:
  "\<forall>r \<in> set rows. \<forall>m \<in> set ms. m_version m = lr_version r \<longrightarrow> lr_checksum r = m_checksum m \<Longrightarrow> checkRecorded ms targetVersion rows = Inl e \<Longrightarrow>
   \<exists>op. e = StoreErr CodeMigrationUnsupported op"
proof (induction ms targetVersion rows rule: checkRecorded.induct)
  case (2 ms targetVersion row rows)
  show ?case
  proof (cases "List.find (\<lambda>m. m_version m = lr_version row) (rev ms)")
    case None
    with "2.prems" show ?thesis by auto
  next
    case (Some item)
    then have "item \<in> set ms" "m_version item = lr_version row" by (auto dest: find_SomeD)
    then have "lr_checksum row = m_checksum item" using "2.prems"(1) by simp
    with Some 2 show ?thesis by (auto split: if_splits)
  qed
qed simp

lemma ledger_rows_created: "ledgers db l = Some rows \<Longrightarrow> set (ledgerRows l (createLedger l db)) = set rows"
  by (simp add: ledgerRows_def createLedger_def)

lemma newer_checked:
  assumes "newer_ledger ms targetVersion l db"
  shows "\<exists>e. checkRecorded (sort_key m_version ms) targetVersion (ledgerRows l (createLedger l db)) = Inl e
    \<and> (unaltered ms l db \<longrightarrow> (\<exists>op. e = StoreErr CodeMigrationUnsupported op))"
proof -
  obtain rows r where r: "ledgers db l = Some rows" "r \<in> set rows" "lr_version r \<notin> m_version ` set ms \<or> targetVersion < lr_version r"
    using assms by (auto simp: newer_ledger_def)
  let ?check = "checkRecorded (sort_key m_version ms) targetVersion (ledgerRows l (createLedger l db))"
  have "?check \<noteq> Inr ()" using r by (intro checkRecorded_newer [of r]) (simp_all add: ledger_rows_created)
  then obtain e where e: "?check = Inl e" by (cases ?check) auto
  moreover have "\<exists>op. e = StoreErr CodeMigrationUnsupported op" if "unaltered ms l db"
    using that r(1) by (intro checkRecorded_code [OF _ e]) (simp add: ledger_rows_created unaltered_def)
  ultimately show ?thesis by blast
qed

lemma createLedger_version: "user_version (createLedger l db) = user_version db"
  by (simp add: createLedger_def split: option.splits)

lemma core_refuses_newer:
  assumes "targetVersion < user_version db \<or> newer_ledger ms targetVersion ''schema_migrations'' db"
  shows "\<exists>e. applyMigrationsThrough flt ms now targetVersion db = (Inl e, db)"
    and "unaltered ms ''schema_migrations'' db \<Longrightarrow>
      \<exists>op. applyMigrationsThrough no_faults ms now targetVersion db = (Inl (StoreErr CodeMigrationUnsupported op), db)"
proof -
  have "fst (applyMigrationsThrough flt ms now targetVersion db) \<noteq> Inr ()"
    using assms createLedger_version
    by (auto simp: applyMigrationsThrough_def Let_def bind_result_Inr_iff split: sum.split dest!: newer_checked)
  then show "\<exists>e. applyMigrationsThrough flt ms now targetVersion db = (Inl e, db)"
    using applyMigrationsThrough_atomic by (cases "applyMigrationsThrough flt ms now targetVersion db"; cases "fst (applyMigrationsThrough flt ms now targetVersion db)") force+
  show "\<exists>op. applyMigrationsThrough no_faults ms now targetVersion db = (Inl (StoreErr CodeMigrationUnsupported op), db)"
    if u: "unaltered ms ''schema_migrations'' db"
  proof (cases "targetVersion < user_version db")
    case True
    then show ?thesis by (simp add: applyMigrationsThrough_def Let_def createLedger_version)
  next
    case False
    with assms have "newer_ledger ms targetVersion ''schema_migrations'' db" by simp
    then obtain e where "checkRecorded (sort_key m_version ms) targetVersion (ledgerRows ''schema_migrations'' (createLedger ''schema_migrations'' db)) = Inl e"
      "\<exists>op. e = StoreErr CodeMigrationUnsupported op" using newer_checked u by blast
    with False show ?thesis by (auto simp: applyMigrationsThrough_def Let_def createLedger_version)
  qed
qed

lemma independent_refuses_newer:
  assumes "newer_ledger ms targetVersion ledger db"
  shows "\<exists>e. applyIndependentMigrations flt ms now ledger label targetVersion db = (Inl e, db)"
    and "unaltered ms ledger db \<Longrightarrow>
      \<exists>op. applyIndependentMigrations no_faults ms now ledger label targetVersion db = (Inl (StoreErr CodeMigrationUnsupported op), db)"
proof -
  have "fst (applyIndependentMigrations flt ms now ledger label targetVersion db) \<noteq> Inr ()"
    using assms by (auto simp: applyIndependentMigrations_def Let_def bind_result_Inr_iff split: sum.split dest!: newer_checked)
  then show "\<exists>e. applyIndependentMigrations flt ms now ledger label targetVersion db = (Inl e, db)"
    using applyIndependentMigrations_atomic
    by (cases "applyIndependentMigrations flt ms now ledger label targetVersion db"; cases "fst (applyIndependentMigrations flt ms now ledger label targetVersion db)") force+
  show "\<exists>op. applyIndependentMigrations no_faults ms now ledger label targetVersion db = (Inl (StoreErr CodeMigrationUnsupported op), db)"
    if u: "unaltered ms ledger db"
  proof -
    obtain e where "checkRecorded (sort_key m_version ms) targetVersion (ledgerRows ledger (createLedger ledger db)) = Inl e"
      "\<exists>op. e = StoreErr CodeMigrationUnsupported op" using newer_checked [OF assms] u by blast
    then show ?thesis by (auto simp: applyIndependentMigrations_def Let_def)
  qed
qed

text \<open>The stages before it leave the ledger of a stage alone.\<close>

lemma recordMigration_other: "recordMigration flt l item at db = Inr db' \<Longrightarrow> l \<noteq> l' \<Longrightarrow> ledgers db' l' = ledgers db l'"
  by (auto simp: recordMigration_def bind_result_Inr_iff Let_def split: if_splits)

lemma applyItems_other:
  "applyItems flt now l core t ms a db = Inr (a', db') \<Longrightarrow> l \<noteq> l' \<Longrightarrow> ledgers db' l' = ledgers db l'"
proof (induction ms arbitrary: a db)
  case (Cons m ms)
  show ?case
  proof (cases "m_version m > t \<or> m_version m \<le> a")
    case True
    with Cons show ?thesis by (auto split: if_splits)
  next
    case False
    with Cons.prems(1) obtain db1 db2 where s: "execScript flt m db = Inr db1" "recordMigration flt l m (now (m_version m)) db1 = Inr db2"
      and run: "applyItems flt now l core t ms (m_version m) (if core then db2\<lparr>user_version := m_version m\<rparr> else db2) = Inr (a', db')"
      by (auto simp: bind_result_Inr_iff split: if_splits)
    have "ledgers db1 = ledgers db" using s(1) by (auto simp: execScript_def bind_result_Inr_iff split: if_splits)
    with Cons.IH [OF run Cons.prems(2)] recordMigration_other [OF s(2) Cons.prems(2)] show ?thesis by simp
  qed
qed simp

lemma createLedger_other: "l \<noteq> l' \<Longrightarrow> ledgers (createLedger l db) l' = ledgers db l'"
  by (simp add: createLedger_def split: option.splits)

lemma core_other:
  assumes "applyMigrationsThrough flt ms now t db = (r, db')" "''schema_migrations'' \<noteq> l'"
  shows "ledgers db' l' = ledgers db l'"
proof (cases r)
  case (Inl e)
  then show ?thesis using assms(1) applyMigrationsThrough_atomic by blast
next
  case (Inr u)
  with assms(1) obtain ms' a a' where "applyItems flt now ''schema_migrations'' True t ms' a (createLedger ''schema_migrations'' db) = Inr (a', db')"
    unfolding applyMigrationsThrough_def Let_def by (auto simp: bind_result_Inr_iff split: sum.splits)
  from applyItems_other [OF this assms(2)] createLedger_other [OF assms(2)] show ?thesis by simp
qed

lemma independent_other:
  assumes "applyIndependentMigrations flt ms now l label t db = (r, db')" "l \<noteq> l'"
  shows "ledgers db' l' = ledgers db l'"
proof (cases r)
  case (Inl e)
  then show ?thesis using assms(1) applyIndependentMigrations_atomic by blast
next
  case (Inr u)
  with assms(1) obtain ms' a a' where "applyItems flt now l False t ms' a (createLedger l db) = Inr (a', db')"
    unfolding applyIndependentMigrations_def Let_def by (auto simp: bind_result_Inr_iff split: sum.splits)
  from applyItems_other [OF this assms(2)] createLedger_other [OF assms(2)] show ?thesis by simp
qed

lemma newer_ledger_cong: "ledgers db' l = ledgers db l \<Longrightarrow> newer_ledger ms t l db' \<longleftrightarrow> newer_ledger ms t l db"
  by (simp add: newer_ledger_def)

lemma stages_Inr:
  "andThen p k = (Inr u, db') \<longleftrightarrow> (\<exists>v db1. p = (Inr v, db1) \<and> k db1 = (Inr u, db'))"
  "stage label loaded run db = (Inr u, db') \<longleftrightarrow> (\<exists>ms. loaded = Some ms \<and> run ms db = (Inr u, db'))"
  by (auto simp: andThen_def stage_def split: prod.splits sum.splits option.splits)

lemma migrate_refuses_newer:
  assumes load: "repositoryMigrations X files = Some c" "repositoryMediaMigrations X files = Some md"
      "repositoryM3Migrations X files = Some m3" "repositoryM4Migrations X files = Some m4"
    and newer: "CurrentSchemaVersion < user_version db \<or> newer_ledger c CurrentSchemaVersion ''schema_migrations'' db
      \<or> newer_ledger md currentMediaSchemaVersion ''media_schema_migrations'' db
      \<or> newer_ledger m3 currentM3SchemaVersion ''m3_schema_migrations'' db \<or> newer_ledger m4 currentM4SchemaVersion ''m4_schema_migrations'' db"
  shows "\<exists>e db'. migrate X files flt now db = (Inl e, db')"
proof (rule ccontr)
  assume "\<not> ?thesis"
  then obtain u db4 where "migrate X files flt now db = (Inr u, db4)"
    by (cases "migrate X files flt now db"; cases "fst (migrate X files flt now db)") auto
  then obtain db1 db2 db3 where r: "applyMigrationsThrough flt c now CurrentSchemaVersion db = (Inr (), db1)"
    "applyIndependentMigrations flt md now ''media_schema_migrations'' ''media'' currentMediaSchemaVersion db1 = (Inr (), db2)"
    "applyIndependentMigrations flt m3 now ''m3_schema_migrations'' ''M3'' currentM3SchemaVersion db2 = (Inr (), db3)"
    "applyIndependentMigrations flt m4 now ''m4_schema_migrations'' ''M4'' currentM4SchemaVersion db3 = (Inr (), db4)"
    using load by (auto simp: migrate_def stages_Inr applyMigrations_def applyMediaMigrations_def applyM3Migrations_def applyM4Migrations_def)
  have "ledgers db1 ''media_schema_migrations'' = ledgers db ''media_schema_migrations''"
    "ledgers db2 ''m3_schema_migrations'' = ledgers db ''m3_schema_migrations''"
    "ledgers db3 ''m4_schema_migrations'' = ledgers db ''m4_schema_migrations''"
    using core_other [OF r(1)] independent_other [OF r(2)] independent_other [OF r(3)] by simp_all
  then have "CurrentSchemaVersion < user_version db \<or> newer_ledger c CurrentSchemaVersion ''schema_migrations'' db
      \<or> newer_ledger md currentMediaSchemaVersion ''media_schema_migrations'' db1
      \<or> newer_ledger m3 currentM3SchemaVersion ''m3_schema_migrations'' db2 \<or> newer_ledger m4 currentM4SchemaVersion ''m4_schema_migrations'' db3"
    using newer newer_ledger_cong by blast
  then show False
  proof (elim disjE)
    assume "CurrentSchemaVersion < user_version db"
    then show False using core_refuses_newer(1) [of CurrentSchemaVersion db c flt now] r(1) by auto
  next
    assume "newer_ledger c CurrentSchemaVersion ''schema_migrations'' db"
    then show False using core_refuses_newer(1) [of CurrentSchemaVersion db c flt now] r(1) by auto
  next
    assume "newer_ledger md currentMediaSchemaVersion ''media_schema_migrations'' db1"
    then show False using independent_refuses_newer(1) [of md _ _ db1 flt now "''media''"] r(2) by fastforce
  next
    assume "newer_ledger m3 currentM3SchemaVersion ''m3_schema_migrations'' db2"
    then show False using independent_refuses_newer(1) [of m3 _ _ db2 flt now "''M3''"] r(3) by fastforce
  next
    assume "newer_ledger m4 currentM4SchemaVersion ''m4_schema_migrations'' db3"
    then show False using independent_refuses_newer(1) [of m4 _ _ db3 flt now "''M4''"] r(4) by fastforce
  qed
qed

text \<open>
  C27: A database of a newer release is refused. When the schema version is above the supported one or the core ledger has a row
  of an unknown or unsupported version, the core migration fails and changes nothing, whatever faults occur; the same holds for
  each of the three independent ledgers (media, M3, M4) and its own migration; without database faults the error is
  \<^verbatim>\<open>MIGRATION_UNSUPPORTED\<close>, provided that the rows of known versions carry their checksums. Consequently the whole
  migration of such a database fails, whichever of the four ledgers is the newer one.
\<close>

theorem migration_refuses_newer:
  shows "(targetVersion < user_version db \<or> newer_ledger ms targetVersion ''schema_migrations'' db \<longrightarrow>
      (\<exists>e. applyMigrationsThrough flt ms now targetVersion db = (Inl e, db))
      \<and> (unaltered ms ''schema_migrations'' db \<longrightarrow>
          (\<exists>op. applyMigrationsThrough no_faults ms now targetVersion db = (Inl (StoreErr CodeMigrationUnsupported op), db))))
    \<and> (newer_ledger ms targetVersion ledger db \<longrightarrow>
      (\<exists>e. applyIndependentMigrations flt ms now ledger label targetVersion db = (Inl e, db))
      \<and> (unaltered ms ledger db \<longrightarrow>
          (\<exists>op. applyIndependentMigrations no_faults ms now ledger label targetVersion db = (Inl (StoreErr CodeMigrationUnsupported op), db))))
    \<and> (\<forall>c md m3 m4. repositoryMigrations X files = Some c \<longrightarrow> repositoryMediaMigrations X files = Some md \<longrightarrow>
      repositoryM3Migrations X files = Some m3 \<longrightarrow> repositoryM4Migrations X files = Some m4 \<longrightarrow>
      CurrentSchemaVersion < user_version db \<or> newer_ledger c CurrentSchemaVersion ''schema_migrations'' db
        \<or> newer_ledger md currentMediaSchemaVersion ''media_schema_migrations'' db
        \<or> newer_ledger m3 currentM3SchemaVersion ''m3_schema_migrations'' db \<or> newer_ledger m4 currentM4SchemaVersion ''m4_schema_migrations'' db \<longrightarrow>
      (\<exists>e db'. migrate X files flt now db = (Inl e, db')))"
  by (intro conjI allI impI migrate_refuses_newer core_refuses_newer independent_refuses_newer)

text \<open>
  A database of schema version 2, and one whose media ledger records a version 3 that this release does not have.
\<close>

theorem migration_refuses_newer_witness:
  "(\<exists>op. applyMigrationsThrough no_faults [] (\<lambda>_. 0) 1 (fresh_db\<lparr>user_version := 2\<rparr>) = (Inl (StoreErr CodeMigrationUnsupported op), fresh_db\<lparr>user_version := 2\<rparr>))
   \<and> (\<exists>e db'. migrate sample_ext sample_files no_faults (\<lambda>_. sample_now)
        (fresh_db\<lparr>ledgers := [''media_schema_migrations'' \<mapsto> [\<lparr>lr_version = 3, lr_name = ''later'', lr_checksum = [], lr_applied_at = []\<rparr>]]\<rparr>) = (Inl e, db'))"
    (is "?A \<and> (\<exists>e db'. migrate _ _ _ _ ?db = (Inl e, db'))")
proof
  show ?A
    using migration_refuses_newer [of 1 "fresh_db\<lparr>user_version := 2\<rparr>" "[]" no_faults "\<lambda>_. 0", THEN conjunct1]
    by (simp add: unaltered_def fresh_db_def)
  obtain c md m3 m4 where l: "repositoryMigrations sample_ext sample_files = Some c" "repositoryMediaMigrations sample_ext sample_files = Some md"
    "repositoryM3Migrations sample_ext sample_files = Some m3" "repositoryM4Migrations sample_ext sample_files = Some m4"
    using sample_load by blast
  have "newer_ledger md currentMediaSchemaVersion ''media_schema_migrations'' ?db"
    by (simp add: newer_ledger_def schema_versions)
  then show "\<exists>e db'. migrate sample_ext sample_files no_faults (\<lambda>_. sample_now) ?db = (Inl e, db')"
    using migration_refuses_newer [of 1 ?db "[]" no_faults "\<lambda>_. sample_now" _ _ sample_ext sample_files, THEN conjunct2, THEN conjunct2] l by blast
qed

text \<open>
  Readiness is truthful: the store is reported writable, with no error code, exactly when no
  statement of the probe fails, the connection is not query-only and the schema version is the
  current one.
\<close>

theorem readiness_writable_iff:
  "rd_Status (readiness flt queryOnly db) = ''writable'' \<longleftrightarrow>
     \<not> queryOnly \<and> user_version db = CurrentSchemaVersion
     \<and> list_all (\<lambda>label. flt label 0 = None)
         [''acquire readiness connection'', ''read query-only mode'', ''probe writable database'',
          ''read readiness schema version'', ''finish writable database probe'']"
  by (auto simp: readiness_def readinessFromError_def db_call_def split: sum.splits option.splits)

end
