(* ===== verification/Keyed_Log.thy ===== *)
theory Keyed_Log
  imports Idempotent_Log
begin

text \<open>
  The store's append-only tables of facts with a unique \<^verbatim>\<open>event_key\<close>: an insertion adds one row
  under the next id, does nothing when the key is present
  (\<^verbatim>\<open>ON CONFLICT(event_key) DO NOTHING\<close>), and fails when a constraint is violated.  The laws its
  clients use are stated once, in a locale over the columns of the table.
\<close>

text \<open>The extended result codes of a violated foreign key and of a violated uniqueness constraint.\<close>

definition sqlite_constraint_foreignkey :: int where "sqlite_constraint_foreignkey = 787"
definition sqlite_constraint_unique :: int where "sqlite_constraint_unique = 2067"

definition keyed_insert :: "('row \<Rightarrow> int) \<Rightarrow> ('row \<Rightarrow> string) \<Rightarrow> bool \<Rightarrow> bool \<Rightarrow> (int \<Rightarrow> 'row) \<Rightarrow> string \<Rightarrow> 'row list \<Rightarrow> sql_fault + 'row list" where
  "keyed_insert rid rkey checks references mk key rows =
     (if \<not> checks then Inl (FaultSqlite sqlite_constraint_check)
      else if list_ex (\<lambda>w. rkey w = key) rows then Inr rows
      else if \<not> references then Inl (FaultSqlite sqlite_constraint_foreignkey)
      else Inr (rows @ [mk (next_id rid rows)]))"

locale keyed_table =
  fixes rid :: "'row \<Rightarrow> int" and rkey :: "'row \<Rightarrow> string" and mk :: "'item \<Rightarrow> int \<Rightarrow> 'row" and ikey :: "'item \<Rightarrow> string"
  assumes mk_id: "rid (mk x i) = i" and mk_key: "rkey (mk x i) = ikey x"
begin

abbreviation "insert_item c r x rows \<equiv> keyed_insert rid rkey c r (mk x) (ikey x) rows"

lemma insert_cases:
  assumes "insert_item c r x rows = Inr rows'"
  obtains (present) w where "w \<in> set rows" "rkey w = ikey x" "rows' = rows" "c"
  | (new) "ikey x \<notin> rkey ` set rows" "rows' = rows @ [mk x (next_id rid rows)]" "c" "r"
proof (cases "list_ex (\<lambda>w. rkey w = ikey x) rows")
  case True
  then obtain w where "w \<in> set rows" "rkey w = ikey x" by (auto simp: list_ex_iff)
  moreover have "rows' = rows" "c" using assms True by (simp_all add: keyed_insert_def split: if_splits)
  ultimately show thesis by (rule present)
next
  case False
  then have "ikey x \<notin> rkey ` set rows" by (auto simp: list_ex_iff)
  moreover have "rows' = rows @ [mk x (next_id rid rows)]" "c" "r"
    using assms False by (simp_all add: keyed_insert_def split: if_splits)
  ultimately show thesis by (rule new)
qed

lemma insert_appends: "insert_item c r x rows = Inr rows' \<Longrightarrow> \<exists>new. rows' = rows @ new"
  by (erule insert_cases) auto

lemma insert_log_ok: "insert_item c r x rows = Inr rows' \<Longrightarrow> log_ok rid rkey rows \<Longrightarrow> log_ok rid rkey rows'"
  by (erule insert_cases) (auto intro: log_ok_snoc simp: mk_id mk_key)

lemma insert_present: "insert_item c r x rows = Inr rows' \<Longrightarrow> ikey x \<in> rkey ` set rows'"
  by (erule insert_cases) (force simp: mk_key image_iff)+

text \<open>Repeating an insertion, also after later ones, does nothing.\<close>

lemma insert_again: "insert_item c r x rows = Inr rows' \<Longrightarrow> insert_item c' r' x (rows' @ later) = Inr rows'' \<Longrightarrow> rows'' = rows' @ later"
proof -
  assume first: "insert_item c r x rows = Inr rows'" and "insert_item c' r' x (rows' @ later) = Inr rows''"
  from this(2) show ?thesis
  proof (rule insert_cases)
    assume "ikey x \<notin> rkey ` set (rows' @ later)"
    with insert_present [OF first] show ?thesis by auto
  qed
qed

end

section \<open>Tables with one row per key\<close>

text \<open>\<^verbatim>\<open>INSERT ... ON CONFLICT(key) DO UPDATE ... WHERE newer\<close>\<close>

definition upsert :: "('row \<Rightarrow> 'k) \<Rightarrow> ('row \<Rightarrow> 'row \<Rightarrow> bool) \<Rightarrow> 'row \<Rightarrow> 'row list \<Rightarrow> 'row list" where
  "upsert key newer row rows =
     (if list_ex (\<lambda>w. key w = key row) rows
      then map (\<lambda>w. if key w = key row \<and> newer row w then row else w) rows
      else rows @ [row])"

definition row_at :: "('row \<Rightarrow> 'k) \<Rightarrow> 'row list \<Rightarrow> 'k \<Rightarrow> 'row option" where
  "row_at key rows k = List.find (\<lambda>w. key w = k) rows"

lemma row_at_map:
  "(\<And>w. key (f w) = key w) \<Longrightarrow> row_at key (map f rows) k = map_option f (row_at key rows k)"
  by (induction rows) (auto simp: row_at_def)

lemma row_at_key: "row_at key rows k = Some w \<Longrightarrow> key w = k"
  by (auto simp: row_at_def dest: find_SomeD)

lemma row_at_snoc: "row_at key (rows @ [w]) k = (case row_at key rows k of None \<Rightarrow> if key w = k then Some w else None | Some v \<Rightarrow> Some v)"
  by (induction rows) (auto simp: row_at_def)

lemma upsert_keys: "distinct (map key rows) \<Longrightarrow> distinct (map key (upsert key newer row rows))"
proof (cases "list_ex (\<lambda>w. key w = key row) rows")
  case True
  have "map (key \<circ> (\<lambda>w. if key w = key row \<and> newer row w then row else w)) rows = map key rows"
    by (simp add: comp_def)
  moreover assume "distinct (map key rows)"
  ultimately show ?thesis using True by (simp only: upsert_def if_True map_map)
next
  case False
  moreover assume "distinct (map key rows)"
  ultimately show ?thesis by (auto simp: upsert_def list_ex_iff)
qed

lemma row_at_upsert:
  "row_at key (upsert key newer row rows) k =
     (if k = key row then Some (case row_at key rows k of None \<Rightarrow> row | Some w \<Rightarrow> if newer row w then row else w)
      else row_at key rows k)"
proof (cases "row_at key rows (key row)")
  case None
  then have "\<not> list_ex (\<lambda>w. key w = key row) rows" by (auto simp: row_at_def find_None_iff list_ex_iff)
  with None show ?thesis by (auto simp: upsert_def row_at_snoc split: option.splits)
next
  case (Some w)
  then have ex: "list_ex (\<lambda>w. key w = key row) rows" by (auto simp: row_at_def list_ex_iff dest: find_SomeD)
  have "row_at key (map (\<lambda>w. if key w = key row \<and> newer row w then row else w) rows) k
      = map_option (\<lambda>w. if key w = key row \<and> newer row w then row else w) (row_at key rows k)"
    by (rule row_at_map) auto
  with Some ex show ?thesis
    by (cases "row_at key rows k") (auto simp: upsert_def dest: row_at_key)
qed

section \<open>The latest row of a group\<close>

text \<open>\<^verbatim>\<open>ORDER BY id DESC LIMIT 1\<close> and the join with \<^verbatim>\<open>MAX(id) ... GROUP BY\<close>.\<close>

definition latest :: "('row \<Rightarrow> int) \<Rightarrow> ('row \<Rightarrow> bool) \<Rightarrow> 'row list \<Rightarrow> 'row option" where
  "latest rid P rows = (case rev (sort_key rid (filter P rows)) of [] \<Rightarrow> None | w # _ \<Rightarrow> Some w)"

definition latest_rows :: "('row \<Rightarrow> int) \<Rightarrow> ('row \<Rightarrow> 'k) \<Rightarrow> 'row list \<Rightarrow> 'row list" where
  "latest_rows rid key rows = filter (\<lambda>w. list_all (\<lambda>v. key v = key w \<longrightarrow> rid v \<le> rid w) rows) rows"

definition ids_ok :: "('row \<Rightarrow> int) \<Rightarrow> 'row list \<Rightarrow> bool" where
  "ids_ok rid rows \<longleftrightarrow> sorted_wrt (<) (map rid rows)"

lemma log_ids_ok: "log_ok rid key rows \<Longrightarrow> ids_ok rid rows"
  by (simp add: log_ok_def ids_ok_def)

lemma ids_ok_filter: "ids_ok rid rows \<Longrightarrow> sorted_wrt (<) (map rid (filter P rows))"
  by (simp add: ids_ok_def sorted_wrt_map sorted_wrt_filter)

lemma ids_ok_inj: "ids_ok rid rows \<Longrightarrow> v \<in> set rows \<Longrightarrow> w \<in> set rows \<Longrightarrow> rid v = rid w \<Longrightarrow> v = w"
  unfolding ids_ok_def by (induction rows) auto

lemma latest_last:
  assumes "ids_ok rid rows"
  shows "latest rid P rows = (if filter P rows = [] then None else Some (last (filter P rows)))"
proof -
  have "sort_key rid (filter P rows) = filter P rows"
    using ids_ok_filter [OF assms] by (intro sort_key_id_if_sorted) (rule strict_sorted_imp_sorted)
  then show ?thesis by (cases "filter P rows" rule: rev_cases) (simp_all add: latest_def)
qed

lemma latest_snoc:
  assumes "ids_ok rid (rows @ [w])"
  shows "latest rid P (rows @ [w]) = (if P w then Some w else latest rid P rows)"
proof -
  have "ids_ok rid rows" using assms by (simp add: ids_ok_def sorted_wrt_append)
  with assms show ?thesis by (simp add: latest_last)
qed

lemma latest_None: "latest rid P rows = None \<longleftrightarrow> (\<forall>w \<in> set rows. \<not> P w)"
proof -
  have "rev (sort_key rid (filter P rows)) = [] \<longleftrightarrow> filter P rows = []"
    by (metis length_0_conv length_rev length_sort)
  then show ?thesis by (auto simp: latest_def filter_empty_conv split: list.splits)
qed

lemma latest_Some:
  assumes "ids_ok rid rows"
  shows "latest rid P rows = Some w \<longleftrightarrow> w \<in> set rows \<and> P w \<and> (\<forall>v \<in> set rows. P v \<longrightarrow> rid v \<le> rid w)"
proof -
  have max: "l = last xs \<Longrightarrow> xs \<noteq> [] \<Longrightarrow> sorted_wrt (<) (map rid xs) \<Longrightarrow> v \<in> set xs \<Longrightarrow> rid v \<le> rid l" for l v xs
    by (induction xs rule: rev_induct) (auto simp: sorted_wrt_append less_imp_le)
  have "w \<in> set rows \<and> P w \<and> (\<forall>v \<in> set rows. P v \<longrightarrow> rid v \<le> rid w)" if "latest rid P rows = Some w"
  proof -
    have ne: "filter P rows \<noteq> []" and l: "w = last (filter P rows)"
      using that assms by (auto simp: latest_last split: if_splits)
    have "w \<in> set (filter P rows)" using last_in_set [OF ne] l by simp
    moreover have "\<forall>v \<in> set (filter P rows). rid v \<le> rid w"
      using max [OF l ne ids_ok_filter [OF assms]] by blast
    ultimately show ?thesis by simp
  qed
  moreover have "latest rid P rows = Some w" if *: "w \<in> set rows" "P w" "\<forall>v \<in> set rows. P v \<longrightarrow> rid v \<le> rid w"
  proof (cases "latest rid P rows")
    case None
    with * show ?thesis by (auto simp: latest_None)
  next
    case (Some u)
    then have "filter P rows \<noteq> []" "u = last (filter P rows)" using assms by (auto simp: latest_last split: if_splits)
    then have u: "u \<in> set rows" "P u" using last_in_set [of "filter P rows"] by auto
    have "w \<in> set (filter P rows)" using * by simp
    then have "rid w \<le> rid u"
      using max [OF \<open>u = last _\<close> \<open>_ \<noteq> []\<close> ids_ok_filter [OF assms]] by blast
    with * u have "u = w" using ids_ok_inj [OF assms] by (metis order_antisym)
    with Some show ?thesis by simp
  qed
  ultimately show ?thesis by blast
qed

section \<open>Projections of the latest rows\<close>

text \<open>
  A status table keeps, per group, a projection of the group's latest fact.  It is maintained by an
  upsert after each append and can be rebuilt from the facts.
\<close>

locale projection =
  fixes rid :: "'row \<Rightarrow> int" and group :: "'row \<Rightarrow> 'k" and proj :: "'row \<Rightarrow> 'st" and skey :: "'st \<Rightarrow> 'k" and slast :: "'st \<Rightarrow> int"
  assumes proj_key: "skey (proj e) = group e" and proj_last: "slast (proj e) = rid e"
begin

abbreviation "apply_row e statuses \<equiv> upsert skey (\<lambda>new old. slast new > slast old) (proj e) statuses"

definition current :: "'st list \<Rightarrow> 'row list \<Rightarrow> bool" where
  "current statuses rows \<longleftrightarrow> distinct (map skey statuses) \<and>
     (\<forall>k. row_at skey statuses k = map_option proj (latest rid (\<lambda>e. group e = k) rows))"

lemma current_append:
  assumes "current statuses rows" "ids_ok rid (rows @ [e])"
  shows "current (apply_row e statuses) (rows @ [e])"
proof -
  have ids: "ids_ok rid rows" and less: "\<forall>w \<in> set rows. rid w < rid e"
    using assms(2) by (auto simp: ids_ok_def sorted_wrt_append)
  have "row_at skey (apply_row e statuses) k = map_option proj (latest rid (\<lambda>e. group e = k) (rows @ [e]))" for k
  proof (cases "latest rid (\<lambda>e. group e = k) rows")
    case None
    then show ?thesis using assms by (auto simp: current_def row_at_upsert latest_snoc proj_key)
  next
    case (Some w)
    then have "rid w < rid e" using less by (auto simp: latest_Some [OF ids])
    with Some show ?thesis using assms by (auto simp: current_def row_at_upsert latest_snoc proj_key proj_last)
  qed
  with assms(1) show ?thesis by (simp add: current_def upsert_keys)
qed

lemma current_again:
  assumes "current statuses rows" "ids_ok rid rows" "e \<in> set rows"
  shows "current (apply_row e statuses) rows"
proof -
  have "row_at skey (apply_row e statuses) k = row_at skey statuses k" for k
  proof (cases "latest rid (\<lambda>e. group e = k) rows")
    case None
    with assms(3) have "k \<noteq> group e" by (auto simp: latest_None)
    then show ?thesis by (simp add: row_at_upsert proj_key)
  next
    case (Some w)
    then have "group e = k \<Longrightarrow> rid e \<le> rid w" using assms(3) by (auto simp: latest_Some [OF assms(2)])
    with Some assms(1) show ?thesis by (auto simp: current_def row_at_upsert proj_key proj_last)
  qed
  with assms(1) show ?thesis by (simp add: current_def upsert_keys)
qed

lemma latest_rows_iff:
  "ids_ok rid rows \<Longrightarrow> w \<in> set (latest_rows rid group rows) \<longleftrightarrow> latest rid (\<lambda>e. group e = group w) rows = Some w"
  by (auto simp: latest_Some latest_rows_def list_all_iff)

lemma latest_rows_distinct: "ids_ok rid rows \<Longrightarrow> distinct (map group (latest_rows rid group rows))"
proof -
  assume ids: "ids_ok rid rows"
  have "distinct rows" using ids by (metis ids_ok_def distinct_map strict_sorted_iff)
  then have "distinct (latest_rows rid group rows)" by (simp add: latest_rows_def)
  moreover have "inj_on group (set (latest_rows rid group rows))"
    by (rule inj_onI) (auto simp: latest_rows_iff [OF ids])
  ultimately show ?thesis by (simp add: distinct_map)
qed

lemma row_at_unique: "distinct (map skey sts) \<Longrightarrow> s \<in> set sts \<Longrightarrow> row_at skey sts (skey s) = Some s"
  by (induction sts) (auto simp: row_at_def)

lemma current_rebuild:
  assumes "ids_ok rid rows"
  shows "current (map proj (latest_rows rid group rows)) rows"
proof -
  let ?sts = "map proj (latest_rows rid group rows)"
  have keys: "distinct (map skey ?sts)"
    using latest_rows_distinct [OF assms] by (simp add: comp_def proj_key)
  have "row_at skey ?sts k = map_option proj (latest rid (\<lambda>e. group e = k) rows)" for k
  proof (cases "latest rid (\<lambda>e. group e = k) rows")
    case None
    then have "row_at skey ?sts k = None"
      by (auto simp: row_at_def find_None_iff latest_None latest_rows_def proj_key)
    with None show ?thesis by simp
  next
    case (Some w)
    then have "group w = k" by (simp add: latest_Some [OF assms])
    with Some have "w \<in> set (latest_rows rid group rows)" by (simp add: latest_rows_iff [OF assms])
    then have "row_at skey ?sts (skey (proj w)) = Some (proj w)" by (intro row_at_unique [OF keys]) simp
    with Some \<open>group w = k\<close> show ?thesis by (simp add: proj_key)
  qed
  with keys show ?thesis by (simp add: current_def)
qed

lemma current_rows: "current statuses rows \<Longrightarrow> ids_ok rid rows \<Longrightarrow> set statuses = proj ` set (latest_rows rid group rows)"
proof -
  assume c: "current statuses rows" and ids: "ids_ok rid rows"
  show ?thesis
  proof (intro set_eqI iffI)
    fix s assume "s \<in> set statuses"
    then have "row_at skey statuses (skey s) = Some s" using c by (intro row_at_unique) (simp_all add: current_def)
    with c obtain w where "latest rid (\<lambda>e. group e = skey s) rows = Some w" "s = proj w" by (auto simp: current_def)
    then show "s \<in> proj ` set (latest_rows rid group rows)" using ids by (auto simp: latest_rows_iff proj_key)
  next
    fix s assume "s \<in> proj ` set (latest_rows rid group rows)"
    then obtain w where w: "s = proj w" "latest rid (\<lambda>e. group e = group w) rows = Some w" using ids by (auto simp: latest_rows_iff)
    with c have "row_at skey statuses (group w) = Some s" by (simp add: current_def)
    then show "s \<in> set statuses" by (auto simp: row_at_def dest: find_SomeD)
  qed
qed

text \<open>Two current tables hold the same rows: incremental upkeep and a rebuild agree.\<close>

lemma current_unique: "current s rows \<Longrightarrow> current t rows \<Longrightarrow> ids_ok rid rows \<Longrightarrow> set s = set t"
  by (simp add: current_rows)

end

end
