(* ===== verification/Media_Store.thy ===== *)
theory Media_Store
  imports Keyed_Log Raw_Events
begin

text \<open>
  \<^verbatim>\<open>internal/eventstore/media.go\<close>: the media tables as lists of rows, the resolution of claims,
  the acceptance transaction, the ingest events and their status projections, the ingest summary and
  the file checks.  The fact tables keep an invariant, the status tables are projections of the
  latest facts, and acceptance is idempotent by source and by content.
\<close>

abbreviation (input) "MediaWriteAccepted \<equiv> ''accepted''"
abbreviation (input) "MediaWriteDuplicate \<equiv> ''duplicate''"
abbreviation (input) "MediaWriteConflict \<equiv> ''conflict''"

section \<open>Data\<close>

record MediaMetadata =
  mm_CollectorID :: string
  mm_SourceIdempotencyKey :: string
  mm_ManagedRelativePath :: string
  mm_DeviceStartRaw :: string
  mm_DeviceEndRaw :: string
  mm_DeviceStartUTC :: string
  mm_DeviceEndUTC :: string
  mm_ReceivedAtUTC :: string
  mm_ClockOffsetMS :: int
  mm_ClockErrorMS :: int
  mm_SizeBytes :: int
  mm_DurationMS :: int
  mm_CodecName :: string
  mm_FormatName :: string
  mm_MediaType :: string
  mm_SHA256 :: string
  mm_MetadataHash :: string
  mm_SidecarSchemaVersion :: int

record MediaIngestEvent =
  ie_EventKey :: string
  ie_IngestKey :: string
  ie_CollectorID :: string
  ie_SourceIdempotencyKey :: string
  ie_SourceName :: string
  ie_SourceFingerprint :: string
  ie_Status :: string
  ie_TemporaryRelativePath :: string
  ie_MediaSegmentID :: int
  ie_ErrorCode :: string
  ie_OccurredAtUTC :: string

record MediaClaim =
  mc_Status :: string
  mc_SegmentID :: int
  mc_ManagedRelativePath :: string
  mc_SHA256 :: string
  mc_MetadataHash :: string
  mc_SidecarFingerprint :: string

record MediaIngestSummary =
  ms_Backlog :: int
  ms_Discovered :: int
  ms_Pending :: int
  ms_Validated :: int
  ms_Quarantined :: int
  ms_Accepted :: int
  ms_Failed :: int
  ms_TotalSegments :: int
  ms_LastErrorCode :: string

text \<open>The rows of the tables of \<^verbatim>\<open>migrations/002_media_ingest.sql\<close> and \<^verbatim>\<open>003_media_file_checks.sql\<close>.\<close>

record segment_row =
  seg_id :: int
  seg_data :: MediaMetadata
  seg_created_at :: string

record ingest_row =
  ing_id :: int
  ing_event_key :: string
  ing_key :: string
  ing_collector :: "string option"
  ing_source_key :: "string option"
  ing_source_name :: string
  ing_fingerprint :: string
  ing_status :: string
  ing_temporary :: "string option"
  ing_segment :: "int option"
  ing_error :: "string option"
  ing_at :: string

record state_row =
  st_id :: int
  st_event_key :: string
  st_segment :: int
  st_status :: string
  st_reason :: "string option"
  st_producer :: string
  st_at :: string

record ingest_status_row =
  is_key :: string
  is_last :: int
  is_status :: string
  is_error :: "string option"
  is_segment :: "int option"
  is_updated :: string

record segment_status_row =
  ss_segment :: int
  ss_last :: int
  ss_status :: string
  ss_reason :: "string option"
  ss_updated :: string

record file_check_row =
  fc_key :: string
  fc_kind :: string
  fc_signature :: string
  fc_checked :: string

record media_db =
  segments :: "segment_row list"
  ingest_events :: "ingest_row list"
  state_events :: "state_row list"
  ingest_status :: "ingest_status_row list"
  segment_status :: "segment_status_row list"
  file_checks :: "file_check_row list"

definition nullableString :: "string \<Rightarrow> string option" where
  "nullableString value = (if value = [] then None else Some value)"

definition nullableInt64 :: "int \<Rightarrow> int option" where
  "nullableInt64 value = (if value = 0 then None else Some value)"

text \<open>The zero value a scanned NULL leaves in \<^verbatim>\<open>sql.NullString\<close> and \<^verbatim>\<open>sql.NullInt64\<close>.\<close>

definition null_string :: "string option \<Rightarrow> string" where
  "null_string v = (case v of None \<Rightarrow> [] | Some s \<Rightarrow> s)"

definition null_int :: "int option \<Rightarrow> int" where
  "null_int v = (case v of None \<Rightarrow> 0 | Some i \<Rightarrow> i)"

section \<open>Claims\<close>

definition sidecarText :: "MediaMetadata \<Rightarrow> string" where
  "sidecarText m =
     marshal_struct
       [(''schema_version'', int_digits (mm_SidecarSchemaVersion m)),
        (''complete'', ''true''),
        (''collector_id'', quote (mm_CollectorID m)),
        (''source_idempotency_key'', quote (mm_SourceIdempotencyKey m)),
        (''device_start_raw'', quote (mm_DeviceStartRaw m)),
        (''device_end_raw'', quote (mm_DeviceEndRaw m)),
        (''clock_offset_ms'', int_digits (mm_ClockOffsetMS m)),
        (''clock_error_ms'', int_digits (mm_ClockErrorMS m)),
        (''size_bytes'', int_digits (mm_SizeBytes m)),
        (''sha256'', quote (mm_SHA256 m)),
        (''media_type'', quote (mm_MediaType m))]"

text \<open>A scanned claim; the source's ids come from the query's columns.\<close>

definition queryMediaClaim :: "ext \<Rightarrow> string \<Rightarrow> string \<Rightarrow> segment_row \<Rightarrow> MediaClaim" where
  "queryMediaClaim X collectorID sourceKey w =
     \<lparr>mc_Status = [], mc_SegmentID = seg_id w, mc_ManagedRelativePath = mm_ManagedRelativePath (seg_data w),
      mc_SHA256 = mm_SHA256 (seg_data w), mc_MetadataHash = mm_MetadataHash (seg_data w),
      mc_SidecarFingerprint = sha256_hex X (sidecarText
        ((seg_data w)\<lparr>mm_CollectorID := collectorID, mm_SourceIdempotencyKey := sourceKey\<rparr>))\<rparr>"

definition noClaim :: MediaClaim where
  "noClaim = \<lparr>mc_Status = [], mc_SegmentID = 0, mc_ManagedRelativePath = [], mc_SHA256 = [], mc_MetadataHash = [],
     mc_SidecarFingerprint = []\<rparr>"

text \<open>The segments the source key claims: its own, or one an ingest event links to it.\<close>

definition claims_source :: "('z media_db_scheme) \<Rightarrow> string \<Rightarrow> string \<Rightarrow> segment_row \<Rightarrow> bool" where
  "claims_source db collectorID sourceKey w \<longleftrightarrow>
     mm_CollectorID (seg_data w) = collectorID \<and> mm_SourceIdempotencyKey (seg_data w) = sourceKey
     \<or> list_ex (\<lambda>e. ing_segment e = Some (seg_id w) \<and> ing_collector e = Some collectorID \<and> ing_source_key e = Some sourceKey)
         (ingest_events db)"

definition first_by_id :: "(segment_row \<Rightarrow> bool) \<Rightarrow> segment_row list \<Rightarrow> segment_row option" where
  "first_by_id P rows = List.find P (sort_key seg_id rows)"

definition resolveMediaClaim :: "ext \<Rightarrow> faults \<Rightarrow> string \<Rightarrow> string \<Rightarrow> string \<Rightarrow> string \<Rightarrow> 'z media_db_scheme \<Rightarrow> go_error + MediaClaim" where
  "resolveMediaClaim X flt collectorID sourceKey sha metadataHash db =
     bind_result (db_call flt CodeQueryFailed ''resolve media source claim'' 0) (\<lambda>_.
       case first_by_id (claims_source db collectorID sourceKey) (segments db) of
         Some w \<Rightarrow>
           let claim = queryMediaClaim X collectorID sourceKey w in
           if mc_SHA256 claim = sha \<and> mc_MetadataHash claim = metadataHash
           then Inr (claim\<lparr>mc_Status := MediaWriteDuplicate\<rparr>)
           else Inr (claim\<lparr>mc_Status := MediaWriteConflict\<rparr>)
       | None \<Rightarrow>
           bind_result (db_call flt CodeQueryFailed ''resolve media content claim'' 0) (\<lambda>_.
             case first_by_id (\<lambda>w. mm_SHA256 (seg_data w) = sha) (segments db) of
               None \<Rightarrow> Inr noClaim
             | Some w \<Rightarrow>
                 let claim = queryMediaClaim X (mm_CollectorID (seg_data w)) (mm_SourceIdempotencyKey (seg_data w)) w in
                 if mc_MetadataHash claim = metadataHash then Inr (claim\<lparr>mc_Status := MediaWriteDuplicate\<rparr>)
                 else Inr (claim\<lparr>mc_Status := MediaWriteConflict\<rparr>)))"

section \<open>Ingest events\<close>

definition ingest_checks :: "MediaIngestEvent \<Rightarrow> string \<Rightarrow> bool" where
  "ingest_checks e key \<longleftrightarrow>
     sql_length key = 64 \<and> sql_length (ie_IngestKey e) = 64
     \<and> (ie_CollectorID e = [] \<or> between 1 128 (ie_CollectorID e))
     \<and> (ie_SourceIdempotencyKey e = [] \<or> between 1 256 (ie_SourceIdempotencyKey e))
     \<and> between 1 512 (ie_SourceName e) \<and> sql_length (ie_SourceFingerprint e) = 64
     \<and> ie_Status e \<in> set [''discovered'', ''pending'', ''validated'', ''quarantined'', ''accepted'', ''failed'']
     \<and> (ie_TemporaryRelativePath e = [] \<or> between 1 512 (ie_TemporaryRelativePath e))
     \<and> (ie_ErrorCode e = [] \<or> between 1 128 (ie_ErrorCode e))"

definition ingest_row_of :: "string \<Rightarrow> MediaIngestEvent \<Rightarrow> int \<Rightarrow> ingest_row" where
  "ingest_row_of key e i =
     \<lparr>ing_id = i, ing_event_key = key, ing_key = ie_IngestKey e, ing_collector = nullableString (ie_CollectorID e),
      ing_source_key = nullableString (ie_SourceIdempotencyKey e), ing_source_name = ie_SourceName e,
      ing_fingerprint = ie_SourceFingerprint e, ing_status = ie_Status e,
      ing_temporary = nullableString (ie_TemporaryRelativePath e), ing_segment = nullableInt64 (ie_MediaSegmentID e),
      ing_error = nullableString (ie_ErrorCode e), ing_at = ie_OccurredAtUTC e\<rparr>"

definition same_ingest :: "ingest_row \<Rightarrow> MediaIngestEvent \<Rightarrow> bool" where
  "same_ingest previous event \<longleftrightarrow>
     null_string (ing_collector previous) = ie_CollectorID event
     \<and> null_string (ing_source_key previous) = ie_SourceIdempotencyKey event
     \<and> ing_source_name previous = ie_SourceName event \<and> ing_fingerprint previous = ie_SourceFingerprint event
     \<and> ing_status previous = ie_Status event
     \<and> null_string (ing_temporary previous) = ie_TemporaryRelativePath event
     \<and> null_int (ing_segment previous) = ie_MediaSegmentID event
     \<and> null_string (ing_error previous) = ie_ErrorCode event"

definition transitionKey :: "ext \<Rightarrow> MediaIngestEvent \<Rightarrow> int \<Rightarrow> string" where
  "transitionKey X event predecessorID = sha256_hex X (ie_EventKey event @ [char_of (0 :: nat)] @ int_digits predecessorID)"

definition insertMediaIngestEvent :: "ext \<Rightarrow> faults \<Rightarrow> MediaIngestEvent \<Rightarrow> 'z media_db_scheme \<Rightarrow> go_error + int \<times> 'z media_db_scheme" where
  "insertMediaIngestEvent X flt event db =
     bind_result (db_call flt CodeQueryFailed ''read previous media ingest event'' 0) (\<lambda>_.
       let previous = latest ing_id (\<lambda>e. ing_key e = ie_IngestKey event) (ingest_events db) in
       if previous \<noteq> None \<and> (ie_Status event = ''discovered'' \<or> same_ingest (the previous) event)
       then Inr (ing_id (the previous), db)
       else
         let key = transitionKey X event (case previous of None \<Rightarrow> 0 | Some p \<Rightarrow> ing_id p) in
         bind_result (db_call flt CodeWriteFailed ''append media ingest event'' 0) (\<lambda>_.
           case keyed_insert ing_id ing_event_key (ingest_checks event key)
                  (ie_MediaSegmentID event = 0 \<or> ie_MediaSegmentID event \<in> seg_id ` set (segments db))
                  (ingest_row_of key event) key (ingest_events db) of
             Inl f \<Rightarrow> Inl (classifySQLiteError CodeWriteFailed ''append media ingest event'' f)
           | Inr rows \<Rightarrow>
               bind_result (db_call flt CodeQueryFailed ''read media ingest event'' 0) (\<lambda>_.
                 case List.find (\<lambda>e. ing_event_key e = key) rows of
                   None \<Rightarrow> Inl (classifySQLiteError CodeQueryFailed ''read media ingest event'' FaultOther)
                 | Some e \<Rightarrow> Inr (ing_id e, db\<lparr>ingest_events := rows\<rparr>))))"

section \<open>Projections\<close>

definition ingest_projection :: "ingest_row \<Rightarrow> ingest_status_row" where
  "ingest_projection e = \<lparr>is_key = ing_key e, is_last = ing_id e, is_status = ing_status e, is_error = ing_error e,
     is_segment = ing_segment e, is_updated = ing_at e\<rparr>"

definition segment_projection :: "state_row \<Rightarrow> segment_status_row" where
  "segment_projection e = \<lparr>ss_segment = st_segment e, ss_last = st_id e, ss_status = st_status e, ss_reason = st_reason e,
     ss_updated = st_at e\<rparr>"

definition applyMediaIngestProjection :: "faults \<Rightarrow> int \<Rightarrow> 'z media_db_scheme \<Rightarrow> (go_error + unit) \<times> 'z media_db_scheme" where
  "applyMediaIngestProjection flt eventID db =
     (case db_call flt CodeWriteFailed ''update media ingest projection'' 0 of
        Inl e \<Rightarrow> (Inl e, db)
      | Inr _ \<Rightarrow>
          (case List.find (\<lambda>e. ing_id e = eventID) (ingest_events db) of
             None \<Rightarrow> (Inr (), db)
           | Some e \<Rightarrow> (Inr (), db\<lparr>ingest_status :=
               upsert is_key (\<lambda>new old. is_last new > is_last old) (ingest_projection e) (ingest_status db)\<rparr>)))"

definition projectSegment :: "int \<Rightarrow> 'z media_db_scheme \<Rightarrow> 'z media_db_scheme" where
  "projectSegment stateEventID db =
     (case List.find (\<lambda>e. st_id e = stateEventID) (state_events db) of
        None \<Rightarrow> db
      | Some e \<Rightarrow> db\<lparr>segment_status :=
          upsert ss_segment (\<lambda>new old. ss_last new > ss_last old) (segment_projection e) (segment_status db)\<rparr>)"

definition applyMediaSegmentProjection :: "faults \<Rightarrow> int \<Rightarrow> 'z media_db_scheme \<Rightarrow> (go_error + unit) \<times> 'z media_db_scheme" where
  "applyMediaSegmentProjection flt stateEventID db =
     (case db_call flt CodeWriteFailed ''update media segment projection'' 0 of
        Inl e \<Rightarrow> (Inl e, db)
      | Inr _ \<Rightarrow> (Inr (), projectSegment stateEventID db))"

definition RebuildMediaProjections :: "faults \<Rightarrow> 'z media_db_scheme \<Rightarrow> (go_error + unit) \<times> 'z media_db_scheme" where
  "RebuildMediaProjections flt db =
     (case
        bind_result (db_call flt CodeWriteFailed ''begin media projection rebuild'' 0) (\<lambda>_.
        bind_result (db_call flt CodeWriteFailed ''rebuild media projections'' 0) (\<lambda>_.
        bind_result (db_call flt CodeWriteFailed ''rebuild media projections'' 1) (\<lambda>_.
        bind_result (db_call flt CodeWriteFailed ''rebuild media projections'' 2) (\<lambda>_.
        bind_result (db_call flt CodeWriteFailed ''rebuild media projections'' 3) (\<lambda>_.
          db_call flt CodeWriteFailed ''commit media projection rebuild'' 0)))))
      of Inl e \<Rightarrow> (Inl e, db)
       | Inr _ \<Rightarrow> (Inr (), db\<lparr>ingest_status := map ingest_projection (latest_rows ing_id ing_key (ingest_events db)),
                              segment_status := map segment_projection (latest_rows st_id st_segment (state_events db))\<rparr>))"

definition AppendMediaIngestEvent :: "ext \<Rightarrow> faults \<Rightarrow> MediaIngestEvent \<Rightarrow> 'z media_db_scheme \<Rightarrow> (go_error + unit) \<times> 'z media_db_scheme" where
  "AppendMediaIngestEvent X flt event db =
     (case
        bind_result (db_call flt CodeWriteFailed ''begin media ingest event'' 0) (\<lambda>_.
        bind_result (insertMediaIngestEvent X flt event db) (\<lambda>(eventID, db1).
        bind_result (db_call flt CodeWriteFailed ''commit media ingest event'' 0) (\<lambda>_. Inr (eventID, db1))))
      of Inl e \<Rightarrow> (Inl e, db)
       | Inr (eventID, db1) \<Rightarrow> applyMediaIngestProjection flt eventID db1)"

section \<open>Acceptance\<close>

definition segment_checks :: "MediaMetadata \<Rightarrow> bool" where
  "segment_checks m \<longleftrightarrow>
     between 1 128 (mm_CollectorID m) \<and> between 1 256 (mm_SourceIdempotencyKey m)
     \<and> between 1 512 (mm_ManagedRelativePath m) \<and> between 1 128 (mm_DeviceStartRaw m)
     \<and> between 1 128 (mm_DeviceEndRaw m) \<and> between 20 35 (mm_DeviceStartUTC m)
     \<and> between 20 35 (mm_DeviceEndUTC m) \<and> between 20 35 (mm_ReceivedAtUTC m)
     \<and> mm_ClockErrorMS m \<ge> 0 \<and> mm_SizeBytes m > 0 \<and> mm_DurationMS m > 0
     \<and> between 1 128 (mm_CodecName m) \<and> between 1 128 (mm_FormatName m) \<and> mm_MediaType m = ''video''
     \<and> sql_length (mm_SHA256 m) = 64 \<and> sql_length (mm_MetadataHash m) = 64 \<and> mm_SidecarSchemaVersion m > 0"

definition source_of :: "segment_row \<Rightarrow> string \<times> string" where
  "source_of w = (mm_CollectorID (seg_data w), mm_SourceIdempotencyKey (seg_data w))"

definition insertSegment :: "faults \<Rightarrow> MediaMetadata \<Rightarrow> 'z media_db_scheme \<Rightarrow> go_error + int \<times> 'z media_db_scheme" where
  "insertSegment flt metadata db =
     bind_result (db_call flt CodeWriteFailed ''insert accepted media'' 0) (\<lambda>_.
       if \<not> segment_checks metadata
       then Inl (classifySQLiteError CodeWriteFailed ''insert accepted media'' (FaultSqlite sqlite_constraint_check))
       else if (mm_CollectorID metadata, mm_SourceIdempotencyKey metadata) \<in> source_of ` set (segments db)
       then Inl (classifySQLiteError CodeWriteFailed ''insert accepted media'' (FaultSqlite sqlite_constraint_unique))
       else
         let segmentID = next_id seg_id (segments db) in
         bind_result (db_read flt CodeWriteFailed ''read accepted media id'' 0) (\<lambda>_.
           Inr (segmentID, db\<lparr>segments := segments db @
             [\<lparr>seg_id = segmentID, seg_data = metadata, seg_created_at = mm_ReceivedAtUTC metadata\<rparr>]\<rparr>)))"

definition state_checks :: "string \<Rightarrow> string \<Rightarrow> string \<Rightarrow> string \<Rightarrow> bool" where
  "state_checks key status reason producer \<longleftrightarrow>
     sql_length key = 64 \<and> status \<in> set [''accepted'', ''missing'', ''restored'', ''retention_deleted'']
     \<and> (reason = [] \<or> between 1 128 reason) \<and> between 1 128 producer"

definition insertAcceptedState :: "faults \<Rightarrow> string \<Rightarrow> int \<Rightarrow> string \<Rightarrow> 'z media_db_scheme \<Rightarrow> go_error + int \<times> 'z media_db_scheme" where
  "insertAcceptedState flt stateEventKey segmentID at db =
     bind_result (db_call flt CodeWriteFailed ''append accepted media state'' 0) (\<lambda>_.
       if \<not> state_checks stateEventKey ''accepted'' [] ''recorder-core''
       then Inl (classifySQLiteError CodeWriteFailed ''append accepted media state'' (FaultSqlite sqlite_constraint_check))
       else if stateEventKey \<in> st_event_key ` set (state_events db)
       then Inl (classifySQLiteError CodeWriteFailed ''append accepted media state'' (FaultSqlite sqlite_constraint_unique))
       else if segmentID \<notin> seg_id ` set (segments db)
       then Inl (classifySQLiteError CodeWriteFailed ''append accepted media state'' (FaultSqlite sqlite_constraint_foreignkey))
       else
         let stateEventID = next_id st_id (state_events db) in
         bind_result (db_read flt CodeWriteFailed ''read accepted media state id'' 0) (\<lambda>_.
           Inr (stateEventID, db\<lparr>state_events := state_events db @
             [\<lparr>st_id = stateEventID, st_event_key = stateEventKey, st_segment = segmentID, st_status = ''accepted'',
               st_reason = None, st_producer = ''recorder-core'', st_at = at\<rparr>]\<rparr>)))"

text \<open>
  The segment an acceptance refers to: a new one with its first state event, or the one already
  claimed with its latest state event.
\<close>

definition acceptedSegment :: "faults \<Rightarrow> MediaMetadata \<Rightarrow> string \<Rightarrow> MediaClaim \<Rightarrow> 'z media_db_scheme
    \<Rightarrow> go_error + MediaClaim \<times> int \<times> 'z media_db_scheme" where
  "acceptedSegment flt metadata stateEventKey claim db =
     (if mc_Status claim \<noteq> MediaWriteDuplicate
      then
        bind_result (insertSegment flt metadata db) (\<lambda>(segmentID, db1).
        bind_result (insertAcceptedState flt stateEventKey segmentID (mm_ReceivedAtUTC metadata) db1) (\<lambda>(stateEventID, db2).
          Inr (\<lparr>mc_Status = MediaWriteAccepted, mc_SegmentID = segmentID,
                mc_ManagedRelativePath = mm_ManagedRelativePath metadata, mc_SHA256 = mm_SHA256 metadata,
                mc_MetadataHash = mm_MetadataHash metadata, mc_SidecarFingerprint = []\<rparr>, stateEventID, db2)))
      else
        bind_result (db_call flt CodeQueryFailed ''read latest media state event'' 0) (\<lambda>_.
          case latest st_id (\<lambda>e. st_segment e = mc_SegmentID claim) (state_events db) of
            None \<Rightarrow> Inl (classifySQLiteError CodeQueryFailed ''read latest media state event'' FaultOther)
          | Some e \<Rightarrow> Inr (claim, st_id e, db)))"

text \<open>The transaction; without a value for the event ids it ended in a conflict and is rolled back.\<close>

definition acceptTx :: "ext \<Rightarrow> faults \<Rightarrow> MediaMetadata \<Rightarrow> MediaIngestEvent \<Rightarrow> string \<Rightarrow> 'z media_db_scheme
    \<Rightarrow> go_error + MediaClaim \<times> (int \<times> int \<times> 'z media_db_scheme) option" where
  "acceptTx X flt metadata event stateEventKey db =
     bind_result (db_call flt CodeWriteFailed ''begin media acceptance'' 0) (\<lambda>_.
     bind_result (resolveMediaClaim X flt (mm_CollectorID metadata) (mm_SourceIdempotencyKey metadata)
                    (mm_SHA256 metadata) (mm_MetadataHash metadata) db) (\<lambda>claim.
       if mc_Status claim = MediaWriteConflict then Inr (claim, None)
       else
         bind_result (acceptedSegment flt metadata stateEventKey claim db) (\<lambda>(claim, stateEventID, db1).
         bind_result (insertMediaIngestEvent X flt
             (event\<lparr>ie_Status := ''accepted'', ie_MediaSegmentID := mc_SegmentID claim\<rparr>) db1) (\<lambda>(ingestEventID, db2).
         bind_result (db_call flt CodeWriteFailed ''commit media acceptance'' 0) (\<lambda>_.
           Inr (claim, Some (ingestEventID, stateEventID, db2)))))))"

definition AcceptMedia :: "ext \<Rightarrow> faults \<Rightarrow> MediaMetadata \<Rightarrow> MediaIngestEvent \<Rightarrow> string \<Rightarrow> 'z media_db_scheme
    \<Rightarrow> (MediaClaim \<times> go_error option) \<times> 'z media_db_scheme" where
  "AcceptMedia X flt metadata event stateEventKey db =
     (case acceptTx X flt metadata event stateEventKey db of
        Inl e \<Rightarrow> ((noClaim, Some e), db)
      | Inr (claim, None) \<Rightarrow> ((claim, None), db)
      | Inr (claim, Some (ingestEventID, stateEventID, db1)) \<Rightarrow>
          (case applyMediaIngestProjection flt ingestEventID db1 of
             (Inl e, db2) \<Rightarrow> ((claim, Some e), db2)
           | (Inr _, db2) \<Rightarrow>
               (case applyMediaSegmentProjection flt stateEventID db2 of
                  (Inl e, db3) \<Rightarrow> ((claim, Some e), db3)
                | (Inr _, db3) \<Rightarrow> ((claim, None), db3))))"

definition ResolveMediaClaim :: "ext \<Rightarrow> faults \<Rightarrow> string \<Rightarrow> string \<Rightarrow> string \<Rightarrow> string \<Rightarrow> 'z media_db_scheme \<Rightarrow> go_error + MediaClaim" where
  "ResolveMediaClaim X flt collectorID sourceKey sha metadataHash db = resolveMediaClaim X flt collectorID sourceKey sha metadataHash db"

section \<open>Summary and file checks\<close>

definition noSummary :: MediaIngestSummary where
  "noSummary = \<lparr>ms_Backlog = 0, ms_Discovered = 0, ms_Pending = 0, ms_Validated = 0, ms_Quarantined = 0, ms_Accepted = 0,
     ms_Failed = 0, ms_TotalSegments = 0, ms_LastErrorCode = []\<rparr>"

definition summaryStatus :: "MediaIngestSummary \<Rightarrow> string \<times> int \<Rightarrow> MediaIngestSummary" where
  "summaryStatus summary p =
     (let (status, count) = p in
      if status = ''discovered'' then summary\<lparr>ms_Discovered := count\<rparr>
      else if status = ''pending'' then summary\<lparr>ms_Pending := count\<rparr>
      else if status = ''validated'' then summary\<lparr>ms_Validated := count\<rparr>
      else if status = ''quarantined'' then summary\<lparr>ms_Quarantined := count\<rparr>
      else if status = ''accepted'' then summary\<lparr>ms_Accepted := count\<rparr>
      else if status = ''failed'' then summary\<lparr>ms_Failed := count\<rparr>
      else summary)"

definition status_groups :: "ingest_status_row list \<Rightarrow> (string \<times> int) list" where
  "status_groups rows = map (\<lambda>s. (s, int (length (filter (\<lambda>w. is_status w = s) rows)))) (remdups (map is_status rows))"

definition mediaIngestSummary :: "faults \<Rightarrow> 'z media_db_scheme \<Rightarrow> go_error + MediaIngestSummary" where
  "mediaIngestSummary flt db =
     bind_result (db_call flt CodeQueryFailed ''query media ingest summary'' 0) (\<lambda>_.
     bind_result (db_read flt CodeQueryFailed ''scan media ingest summary'' 0) (\<lambda>_.
     bind_result (db_call flt CodeQueryFailed ''iterate media ingest summary'' 0) (\<lambda>_.
       let summary = foldl summaryStatus noSummary (status_groups (ingest_status db));
           summary = summary\<lparr>ms_Backlog := ms_Discovered summary + ms_Pending summary + ms_Validated summary\<rparr> in
       bind_result (db_call flt CodeQueryFailed ''count media segments'' 0) (\<lambda>_.
         let summary = summary\<lparr>ms_TotalSegments := int (length (segments db))\<rparr> in
         bind_result (db_call flt CodeQueryFailed ''read latest media ingest error'' 0) (\<lambda>_.
           case latest is_last (\<lambda>w. is_error w \<noteq> None) (ingest_status db) of
             None \<Rightarrow> Inr summary
           | Some w \<Rightarrow> Inr (summary\<lparr>ms_LastErrorCode := null_string (is_error w)\<rparr>))))))"

definition MediaFileCheckMatches :: "faults \<Rightarrow> string \<Rightarrow> string \<Rightarrow> string \<Rightarrow> 'z media_db_scheme \<Rightarrow> go_error + bool" where
  "MediaFileCheckMatches flt ingestKey checkKind signature db =
     bind_result (db_call flt CodeQueryFailed ''read media file check'' 0) (\<lambda>_.
       case row_at fc_key (file_checks db) ingestKey of
         None \<Rightarrow> Inr False
       | Some w \<Rightarrow> Inr (fc_kind w = checkKind \<and> fc_signature w = signature))"

definition SaveMediaFileCheck :: "faults \<Rightarrow> string \<Rightarrow> string \<Rightarrow> string \<Rightarrow> string \<Rightarrow> 'z media_db_scheme
    \<Rightarrow> (go_error + unit) \<times> 'z media_db_scheme" where
  "SaveMediaFileCheck flt ingestKey checkKind signature checkedAtUTC db =
     (case db_call flt CodeWriteFailed ''save media file check'' 0 of
        Inl e \<Rightarrow> (Inl e, db)
      | Inr _ \<Rightarrow>
          if sql_length ingestKey = 64 \<and> checkKind \<in> set [''confirmed'', ''quarantined''] \<and> sql_length signature = 64
          then (Inr (), db\<lparr>file_checks := upsert fc_key (\<lambda>_ _. True)
                 \<lparr>fc_key = ingestKey, fc_kind = checkKind, fc_signature = signature, fc_checked = checkedAtUTC\<rparr> (file_checks db)\<rparr>)
          else (Inl (classifySQLiteError CodeWriteFailed ''save media file check'' (FaultSqlite sqlite_constraint_check)), db))"

section \<open>The facts\<close>

definition references_ok :: "'z media_db_scheme \<Rightarrow> bool" where
  "references_ok db \<longleftrightarrow>
     (\<forall>e \<in> set (ingest_events db). \<forall>i. ing_segment e = Some i \<longrightarrow> i \<in> seg_id ` set (segments db))
     \<and> st_segment ` set (state_events db) = seg_id ` set (segments db)"

definition content_of :: "segment_row \<Rightarrow> string" where
  "content_of w = mm_SHA256 (seg_data w)"

text \<open>
  The invariant of the fact tables: ids increase, keys are unique, no content is stored twice, every
  reference points at a segment and every segment has a state.
\<close>

definition media_ok :: "'z media_db_scheme \<Rightarrow> bool" where
  "media_ok db \<longleftrightarrow>
     log_ok seg_id source_of (segments db) \<and> distinct (map content_of (segments db))
     \<and> log_ok ing_id ing_event_key (ingest_events db) \<and> log_ok st_id st_event_key (state_events db)
     \<and> references_ok db"

interpretation ingest_table: keyed_table ing_id ing_event_key "\<lambda>p. ingest_row_of (fst p) (snd p)" fst
  by unfold_locales (simp_all add: ingest_row_of_def)

interpretation ingest_proj: projection ing_id ing_key ingest_projection is_key is_last
  by unfold_locales (simp_all add: ingest_projection_def)

interpretation segment_proj: projection st_id st_segment segment_projection ss_segment ss_last
  by unfold_locales (simp_all add: segment_projection_def)

text \<open>The status tables agree with the facts.\<close>

definition projections_ok :: "'z media_db_scheme \<Rightarrow> bool" where
  "projections_ok db \<longleftrightarrow> ingest_proj.current (ingest_status db) (ingest_events db)
     \<and> segment_proj.current (segment_status db) (state_events db)"

lemma media_ok_ids:
  "media_ok db \<Longrightarrow> ids_ok seg_id (segments db)"
  "media_ok db \<Longrightarrow> ids_ok ing_id (ingest_events db)"
  "media_ok db \<Longrightarrow> ids_ok st_id (state_events db)"
  by (auto simp: media_ok_def intro: log_ids_ok)

lemma latest_in: "ids_ok rid rows \<Longrightarrow> latest rid P rows = Some w \<Longrightarrow> w \<in> set rows \<and> P w"
  by (simp add: latest_Some)

lemma nullableInt64_Some: "nullableInt64 v = Some i \<longleftrightarrow> v = i \<and> v \<noteq> 0"
  by (auto simp: nullableInt64_def)

text \<open>An ingest event is already there as the latest of its key, or is appended.\<close>

lemma insert_ingest_cases:
  assumes "insertMediaIngestEvent X flt event db = Inr (i, db')"
  obtains (unchanged) "db' = db" "media_ok db \<longrightarrow> i \<in> ing_id ` set (ingest_events db)"
  | (appended) e where "e = ingest_row_of (ing_event_key e) event (ing_id e)"
      "ing_event_key e \<notin> ing_event_key ` set (ingest_events db)" "ing_id e = next_id ing_id (ingest_events db)"
      "\<forall>j. ing_segment e = Some j \<longrightarrow> j \<in> seg_id ` set (segments db)"
      "ing_id e = i" "db' = db\<lparr>ingest_events := ingest_events db @ [e]\<rparr>"
proof -
  let ?prev = "latest ing_id (\<lambda>e. ing_key e = ie_IngestKey event) (ingest_events db)"
  let ?key = "transitionKey X event (case ?prev of None \<Rightarrow> 0 | Some p \<Rightarrow> ing_id p)"
  show thesis
  proof (cases "?prev \<noteq> None \<and> (ie_Status event = ''discovered'' \<or> same_ingest (the ?prev) event)")
    case True
    then have "db' = db" "i = ing_id (the ?prev)"
      using assms by (auto simp: insertMediaIngestEvent_def Let_def bind_result_Inr_iff)
    moreover have "the ?prev \<in> set (ingest_events db)" if "media_ok db"
      using True media_ok_ids(2) [OF that] by (auto dest: latest_in)
    ultimately show thesis by (intro unchanged) auto
  next
    case False
    then obtain rows e where rows: "keyed_insert ing_id ing_event_key (ingest_checks event ?key)
          (ie_MediaSegmentID event = 0 \<or> ie_MediaSegmentID event \<in> seg_id ` set (segments db))
          (ingest_row_of ?key event) ?key (ingest_events db) = Inr rows"
      and e: "List.find (\<lambda>e. ing_event_key e = ?key) rows = Some e"
      and i: "i = ing_id e" and db': "db' = db\<lparr>ingest_events := rows\<rparr>"
      using assms by (auto simp: insertMediaIngestEvent_def Let_def bind_result_Inr_iff split: sum.splits option.splits if_splits)
    have "e \<in> set rows" "ing_event_key e = ?key" using e by (auto simp: find_Some_iff)
    have "ingest_table.insert_item (ingest_checks event ?key)
        (ie_MediaSegmentID event = 0 \<or> ie_MediaSegmentID event \<in> seg_id ` set (segments db)) (?key, event) (ingest_events db) = Inr rows"
      using rows by simp
    then consider (present) "rows = ingest_events db"
      | (new) "?key \<notin> ing_event_key ` set (ingest_events db)"
          "rows = ingest_events db @ [ingest_row_of ?key event (next_id ing_id (ingest_events db))]"
          "ie_MediaSegmentID event = 0 \<or> ie_MediaSegmentID event \<in> seg_id ` set (segments db)"
      by (rule ingest_table.insert_cases) auto
    then show thesis
    proof cases
      case present
      then show thesis using \<open>e \<in> set rows\<close> i db' by (intro unchanged) auto
    next
      case new
      let ?row = "ingest_row_of ?key event (next_id ing_id (ingest_events db))"
      have "e \<notin> set (ingest_events db)" using \<open>ing_event_key e = ?key\<close> new(1) by (metis imageI)
      then have "e = ?row" using \<open>e \<in> set rows\<close> \<open>ing_event_key e = ?key\<close> new(1,2) by auto
      with new i db' show thesis
        by (intro appended [of ?row]) (auto simp: ingest_row_of_def nullableInt64_Some)
    qed
  qed
qed

text \<open>Appending an ingest event keeps the facts well formed.\<close>

lemma insert_ingest_media_ok:
  assumes "insertMediaIngestEvent X flt event db = Inr (i, db')" "media_ok db"
  shows "media_ok db'" "i \<in> ing_id ` set (ingest_events db')"
proof -
  have "media_ok db' \<and> i \<in> ing_id ` set (ingest_events db')"
    using assms(1)
  proof (cases rule: insert_ingest_cases)
    case unchanged
    with assms(2) show ?thesis by simp
  next
    case (appended e)
    with assms(2) show ?thesis
      by (simp add: media_ok_def references_ok_def log_ok_snoc)
  qed
  then show "media_ok db'" "i \<in> ing_id ` set (ingest_events db')" by simp_all
qed

lemma insert_ingest_projection:
  assumes "insertMediaIngestEvent X flt event db = Inr (i, db')" "media_ok db" "e \<in> set (ingest_events db')" "ing_id e = i"
    "ingest_proj.current (ingest_status db) (ingest_events db)"
  shows "ingest_proj.current (ingest_proj.apply_row e (ingest_status db')) (ingest_events db')"
  using assms(1)
proof (cases rule: insert_ingest_cases)
  case unchanged
  then show ?thesis using assms by (auto intro: ingest_proj.current_again media_ok_ids)
next
  case (appended e')
  have ids: "ids_ok ing_id (ingest_events db')" using insert_ingest_media_ok [OF assms(1,2)] by (auto intro: media_ok_ids)
  moreover have "e' \<in> set (ingest_events db')" using appended by simp
  ultimately have "e = e'" using appended assms by (auto intro: ids_ok_inj)
  with appended assms(5) ids show ?thesis by (auto intro: ingest_proj.current_append)
qed

text \<open>Applying the projection of an event leaves the facts alone.\<close>

lemma find_id: "ids_ok rid rows \<Longrightarrow> i \<in> rid ` set rows \<Longrightarrow> \<exists>e \<in> set rows. List.find (\<lambda>e. rid e = i) rows = Some e \<and> rid e = i"
  by (cases "List.find (\<lambda>e. rid e = i) rows") (auto simp: find_None_iff_all dest: find_SomeD)

section \<open>What an acceptance does\<close>

definition status_for :: "bool \<Rightarrow> string" where
  "status_for same = (if same then MediaWriteDuplicate else MediaWriteConflict)"

lemma first_by_id_Some: "first_by_id P rows = Some w \<Longrightarrow> w \<in> set rows \<and> P w"
  unfolding first_by_id_def by (metis find_SomeD set_sort)

lemma first_by_id_None: "first_by_id P rows = None \<longleftrightarrow> (\<forall>w \<in> set rows. \<not> P w)"
  by (simp add: first_by_id_def find_None_iff_all)

lemma resolve_cases:
  assumes "resolveMediaClaim X flt collectorID sourceKey sha metadataHash db = Inr claim"
  obtains (source) w where "w \<in> set (segments db)" "claims_source db collectorID sourceKey w" "mc_SegmentID claim = seg_id w"
      "mc_Status claim = status_for (content_of w = sha \<and> mm_MetadataHash (seg_data w) = metadataHash)"
  | (content) w where "\<forall>v \<in> set (segments db). \<not> claims_source db collectorID sourceKey v" "w \<in> set (segments db)"
      "content_of w = sha" "mc_SegmentID claim = seg_id w"
      "mc_Status claim = status_for (mm_MetadataHash (seg_data w) = metadataHash)"
  | (free) "\<forall>v \<in> set (segments db). \<not> claims_source db collectorID sourceKey v"
      "\<forall>w \<in> set (segments db). content_of w \<noteq> sha" "claim = noClaim"
proof (cases "first_by_id (claims_source db collectorID sourceKey) (segments db)")
  case (Some w)
  with assms show thesis
    by (intro source [of w]) (auto simp: resolveMediaClaim_def bind_result_Inr_iff queryMediaClaim_def status_for_def content_of_def Let_def
        dest: first_by_id_Some split: if_splits)
next
  case None
  note no = None [unfolded first_by_id_None]
  show thesis
  proof (cases "first_by_id (\<lambda>w. mm_SHA256 (seg_data w) = sha) (segments db)")
    case None
    then have "claim = noClaim" using assms \<open>first_by_id (claims_source _ _ _) _ = None\<close>
      by (auto simp: resolveMediaClaim_def bind_result_Inr_iff)
    with no None show thesis by (intro free) (auto simp: first_by_id_None content_of_def)
  next
    case (Some w)
    then show thesis using assms \<open>first_by_id (claims_source _ _ _) _ = None\<close>
      by (intro content [OF no, of w])
         (auto simp: resolveMediaClaim_def bind_result_Inr_iff queryMediaClaim_def status_for_def content_of_def Let_def
            dest: first_by_id_Some split: if_splits)
  qed
qed

definition new_segment :: "MediaMetadata \<Rightarrow> 'z media_db_scheme \<Rightarrow> segment_row" where
  "new_segment metadata db = \<lparr>seg_id = next_id seg_id (segments db), seg_data = metadata, seg_created_at = mm_ReceivedAtUTC metadata\<rparr>"

definition new_state :: "MediaMetadata \<Rightarrow> string \<Rightarrow> 'z media_db_scheme \<Rightarrow> state_row" where
  "new_state metadata key db = \<lparr>st_id = next_id st_id (state_events db), st_event_key = key,
     st_segment = next_id seg_id (segments db), st_status = ''accepted'', st_reason = None, st_producer = ''recorder-core'',
     st_at = mm_ReceivedAtUTC metadata\<rparr>"

definition with_segment :: "MediaMetadata \<Rightarrow> string \<Rightarrow> 'z media_db_scheme \<Rightarrow> 'z media_db_scheme" where
  "with_segment metadata key db = db\<lparr>segments := segments db @ [new_segment metadata db],
     state_events := state_events db @ [new_state metadata key db]\<rparr>"

definition accepted_claim :: "MediaMetadata \<Rightarrow> int \<Rightarrow> MediaClaim" where
  "accepted_claim metadata i = \<lparr>mc_Status = MediaWriteAccepted, mc_SegmentID = i,
     mc_ManagedRelativePath = mm_ManagedRelativePath metadata, mc_SHA256 = mm_SHA256 metadata,
     mc_MetadataHash = mm_MetadataHash metadata, mc_SidecarFingerprint = []\<rparr>"

lemma accepted_segment_cases:
  assumes "acceptedSegment flt metadata key claim db = Inr (claim', i, db')"
  obtains (known) e where "mc_Status claim = MediaWriteDuplicate" "claim' = claim" "db' = db"
      "latest st_id (\<lambda>e. st_segment e = mc_SegmentID claim) (state_events db) = Some e" "i = st_id e"
  | (added) "mc_Status claim \<noteq> MediaWriteDuplicate" "claim' = accepted_claim metadata (next_id seg_id (segments db))"
      "db' = with_segment metadata key db" "i = next_id st_id (state_events db)"
      "source_of (new_segment metadata db) \<notin> source_of ` set (segments db)" "key \<notin> st_event_key ` set (state_events db)"
proof (cases "mc_Status claim = MediaWriteDuplicate")
  case True
  with assms show thesis
    by (auto simp: acceptedSegment_def bind_result_Inr_iff split: option.splits intro: known)
next
  case False
  with assms show thesis
    by (intro added)
       (auto simp: acceptedSegment_def insertSegment_def insertAcceptedState_def bind_result_Inr_iff Let_def accepted_claim_def
          with_segment_def new_segment_def new_state_def source_of_def split: if_splits)
qed

lemma with_segment_ok:
  assumes "media_ok db" "source_of (new_segment metadata db) \<notin> source_of ` set (segments db)"
    "key \<notin> st_event_key ` set (state_events db)" "\<forall>w \<in> set (segments db). content_of w \<noteq> mm_SHA256 metadata"
  shows "media_ok (with_segment metadata key db)"
proof -
  have "log_ok seg_id source_of (segments db @ [new_segment metadata db])"
    using assms by (intro log_ok_snoc) (auto simp: media_ok_def new_segment_def)
  moreover have "log_ok st_id st_event_key (state_events db @ [new_state metadata key db])"
    using assms by (intro log_ok_snoc) (auto simp: media_ok_def new_state_def)
  moreover have "references_ok (with_segment metadata key db)"
    using assms(1) by (auto simp: media_ok_def references_ok_def with_segment_def new_segment_def new_state_def)
  moreover have "distinct (map content_of (segments db @ [new_segment metadata db]))"
    using assms(1,4) by (auto simp: media_ok_def new_segment_def content_of_def)
  ultimately show ?thesis using assms(1) by (simp add: media_ok_def with_segment_def)
qed

text \<open>
  The three ways an acceptance commits or is refused: a conflict, a duplicate that only links an
  ingest event to the known segment, and a new segment with its state event.
\<close>

lemma accept_tx_cases:
  assumes "acceptTx X flt metadata event key db = Inr (claim, r)" "media_ok db"
  obtains (conflict) "r = None" "mc_Status claim = MediaWriteConflict"
      "mc_SegmentID claim \<in> seg_id ` set (segments db)"
  | (duplicate) w e i db' where "r = Some (i, st_id e, db')" "mc_Status claim = MediaWriteDuplicate"
      "w \<in> set (segments db)" "mc_SegmentID claim = seg_id w" "content_of w = mm_SHA256 metadata"
      "mm_MetadataHash (seg_data w) = mm_MetadataHash metadata" "e \<in> set (state_events db)"
      "insertMediaIngestEvent X flt (event\<lparr>ie_Status := ''accepted'', ie_MediaSegmentID := seg_id w\<rparr>) db = Inr (i, db')"
  | (accepted) i db' where "r = Some (i, next_id st_id (state_events db), db')" "claim = accepted_claim metadata (next_id seg_id (segments db))"
      "media_ok (with_segment metadata key db)"
      "\<forall>v \<in> set (segments db). \<not> claims_source db (mm_CollectorID metadata) (mm_SourceIdempotencyKey metadata) v"
      "\<forall>w \<in> set (segments db). content_of w \<noteq> mm_SHA256 metadata"
      "insertMediaIngestEvent X flt (event\<lparr>ie_Status := ''accepted'', ie_MediaSegmentID := next_id seg_id (segments db)\<rparr>)
         (with_segment metadata key db) = Inr (i, db')"
proof -
  obtain c where c: "resolveMediaClaim X flt (mm_CollectorID metadata) (mm_SourceIdempotencyKey metadata)
      (mm_SHA256 metadata) (mm_MetadataHash metadata) db = Inr c"
    and rest: "(if mc_Status c = MediaWriteConflict then Inr (c, None)
       else bind_result (acceptedSegment flt metadata key c db) (\<lambda>(claim, stateEventID, db1).
         bind_result (insertMediaIngestEvent X flt
             (event\<lparr>ie_Status := ''accepted'', ie_MediaSegmentID := mc_SegmentID claim\<rparr>) db1) (\<lambda>(ingestEventID, db2).
         bind_result (db_call flt CodeWriteFailed ''commit media acceptance'' 0) (\<lambda>_.
           Inr (claim, Some (ingestEventID, stateEventID, db2)))))) = Inr (claim, r)"
    using assms(1) by (auto simp: acceptTx_def bind_result_Inr_iff)
  show thesis
  proof (cases "mc_Status c = MediaWriteConflict")
    case True
    moreover have "mc_SegmentID c \<in> seg_id ` set (segments db)"
      using c True by (cases rule: resolve_cases) (auto simp: noClaim_def)
    ultimately show thesis using rest by (intro conflict) auto
  next
    case False
    with rest obtain c' si db1 i db2 where seg: "acceptedSegment flt metadata key c db = Inr (c', si, db1)"
      and ins: "insertMediaIngestEvent X flt (event\<lparr>ie_Status := ''accepted'', ie_MediaSegmentID := mc_SegmentID c'\<rparr>) db1 = Inr (i, db2)"
      and r: "claim = c'" "r = Some (i, si, db2)"
      by (auto simp: bind_result_Inr_iff)
    from seg show thesis
    proof (cases rule: accepted_segment_cases)
      case (known e)
      have e: "e \<in> set (state_events db)" using latest_in [OF media_ok_ids(3) known(4)] assms(2) by simp
      from c known False obtain w where w: "w \<in> set (segments db)" "mc_SegmentID c = seg_id w"
        "content_of w = mm_SHA256 metadata" "mm_MetadataHash (seg_data w) = mm_MetadataHash metadata"
        by (cases rule: resolve_cases) (auto simp: status_for_def noClaim_def split: if_splits)
      show thesis using known e w ins r by (intro duplicate [of i e db2 w]) simp_all
    next
      case added
      with c False have no: "\<forall>v \<in> set (segments db). \<not> claims_source db (mm_CollectorID metadata) (mm_SourceIdempotencyKey metadata) v"
        "\<forall>w \<in> set (segments db). content_of w \<noteq> mm_SHA256 metadata"
        by (cases rule: resolve_cases; auto simp: status_for_def split: if_splits)+
      then have "media_ok (with_segment metadata key db)" using added assms(2) by (intro with_segment_ok) simp_all
      with added no ins r show thesis by (intro accepted) (simp_all add: accepted_claim_def)
    qed
  qed
qed

section \<open>Projections do not touch the facts\<close>

definition same_facts :: "'z media_db_scheme \<Rightarrow> 'z media_db_scheme \<Rightarrow> bool" where
  "same_facts db db' \<longleftrightarrow> segments db' = segments db \<and> ingest_events db' = ingest_events db \<and> state_events db' = state_events db"

lemma same_facts_media_ok: "same_facts db db' \<Longrightarrow> media_ok db' = media_ok db"
  by (simp add: same_facts_def media_ok_def references_ok_def)

lemma apply_ingest_facts: "same_facts db (snd (applyMediaIngestProjection flt i db))"
  by (simp add: applyMediaIngestProjection_def same_facts_def split: sum.splits option.splits)

lemma project_segment_facts: "same_facts db (projectSegment i db)"
  by (simp add: projectSegment_def same_facts_def split: option.splits)

lemma apply_segment_facts: "same_facts db (snd (applyMediaSegmentProjection flt i db))"
  using project_segment_facts [of db i] by (simp add: applyMediaSegmentProjection_def same_facts_def split: sum.splits)

lemma same_facts_trans: "same_facts a b \<Longrightarrow> same_facts b c \<Longrightarrow> same_facts a c"
  by (simp add: same_facts_def)

text \<open>After an append, and after the transaction of an acceptance, only status tables change.\<close>

lemma append_ingest_cases:
  assumes "AppendMediaIngestEvent X flt event db = (r, db')"
  obtains (failed) e where "r = Inl e" "db' = db"
  | (appended) i db1 where "insertMediaIngestEvent X flt event db = Inr (i, db1)"
      "applyMediaIngestProjection flt i db1 = (r, db')"
  using assms by (auto simp: AppendMediaIngestEvent_def bind_result_Inr_iff split: sum.splits prod.splits)

lemma accept_cases:
  assumes "AcceptMedia X flt metadata event key db = ((claim, err), db')"
  obtains (failed) "claim = noClaim" "err \<noteq> None" "db' = db"
  | (refused) "acceptTx X flt metadata event key db = Inr (claim, None)" "err = None" "db' = db"
  | (committed) i j db1 where "acceptTx X flt metadata event key db = Inr (claim, Some (i, j, db1))" "same_facts db1 db'"
      "flt ''update media ingest projection'' 0 = None \<and> flt ''update media segment projection'' 0 = None \<longrightarrow>
         db' = snd (applyMediaSegmentProjection flt j (snd (applyMediaIngestProjection flt i db1)))"
proof (cases "acceptTx X flt metadata event key db")
  case (Inl e)
  with assms show thesis by (intro failed) (auto simp: AcceptMedia_def)
next
  case (Inr p)
  obtain c r where p: "p = (c, r)" by fastforce
  show thesis
  proof (cases r)
    case None
    with assms Inr p show thesis by (intro refused) (auto simp: AcceptMedia_def)
  next
    case (Some q)
    obtain i j db1 where q: "q = (i, j, db1)" by (cases q) auto
    obtain r2 db2 where i: "applyMediaIngestProjection flt i db1 = (r2, db2)" by fastforce
    obtain r3 db3 where j: "applyMediaSegmentProjection flt j db2 = (r3, db3)" by fastforce
    have "same_facts db1 db2" "same_facts db2 db3"
      using apply_ingest_facts [of db1 flt i] apply_segment_facts [of db2 flt j] i j by simp_all
    moreover have "flt ''update media ingest projection'' 0 = None \<Longrightarrow> \<exists>u. r2 = Inr u"
      using i by (auto simp: applyMediaIngestProjection_def db_call_def split: option.splits)
    ultimately show thesis using assms Inr p Some q i j
      by (intro committed [of i j db1]) (auto simp: AcceptMedia_def split: sum.splits intro: same_facts_trans)
  qed
qed

lemma append_ingest_media_ok: "media_ok db \<Longrightarrow> media_ok (snd (AppendMediaIngestEvent X flt event db))"
proof -
  assume ok: "media_ok db"
  obtain r db' where eq: "AppendMediaIngestEvent X flt event db = (r, db')" by fastforce
  then show ?thesis
  proof (cases rule: append_ingest_cases)
    case (appended i db1)
    then have "same_facts db1 db'" using apply_ingest_facts [of db1 flt i] by simp
    with appended ok eq show ?thesis by (simp add: same_facts_media_ok insert_ingest_media_ok)
  qed (use ok eq in simp)
qed

lemma accept_tx_media_ok:
  assumes "acceptTx X flt metadata event key db = Inr (claim, Some (i, j, db1))" "media_ok db"
  shows "media_ok db1" "i \<in> ing_id ` set (ingest_events db1)"
proof -
  have "media_ok db1 \<and> i \<in> ing_id ` set (ingest_events db1)"
  proof (rule accept_tx_cases [OF assms])
    fix w e i' db'
    assume "Some (i, j, db1) = Some (i', st_id e, db')"
      and *: "insertMediaIngestEvent X flt (event\<lparr>ie_Status := ''accepted'', ie_MediaSegmentID := seg_id w\<rparr>) db = Inr (i', db')"
    with insert_ingest_media_ok [OF * assms(2)] show ?thesis by simp
  next
    fix i' db'
    assume "Some (i, j, db1) = Some (i', next_id st_id (state_events db), db')" and ok: "media_ok (with_segment metadata key db)"
      and *: "insertMediaIngestEvent X flt (event\<lparr>ie_Status := ''accepted'', ie_MediaSegmentID := next_id seg_id (segments db)\<rparr>)
         (with_segment metadata key db) = Inr (i', db')"
    with insert_ingest_media_ok [OF * ok] show ?thesis by simp
  qed simp
  then show "media_ok db1" "i \<in> ing_id ` set (ingest_events db1)" by simp_all
qed

lemma accept_media_ok: "media_ok db \<Longrightarrow> media_ok (snd (AcceptMedia X flt metadata event key db))"
proof -
  assume ok: "media_ok db"
  obtain claim err db' where eq: "AcceptMedia X flt metadata event key db = ((claim, err), db')" by (metis surj_pair)
  then show ?thesis
  proof (cases rule: accept_cases)
    case (committed i j db1)
    then show ?thesis using accept_tx_media_ok [OF committed(1) ok] eq by (simp add: same_facts_media_ok)
  qed (use ok eq in simp_all)
qed

section \<open>Projections stay current\<close>

lemma apply_ingest_current:
  assumes "insertMediaIngestEvent X flt' event db = Inr (i, db1)" "media_ok db"
    "ingest_proj.current (ingest_status db) (ingest_events db)" "flt ''update media ingest projection'' 0 = None"
  shows "ingest_proj.current (ingest_status (snd (applyMediaIngestProjection flt i db1))) (ingest_events db1)"
proof -
  have ok: "media_ok db1" "i \<in> ing_id ` set (ingest_events db1)" using insert_ingest_media_ok [OF assms(1,2)] .
  obtain e where "e \<in> set (ingest_events db1)" "List.find (\<lambda>e. ing_id e = i) (ingest_events db1) = Some e" "ing_id e = i"
    using find_id [OF media_ok_ids(2) [OF ok(1)] ok(2)] by blast
  with insert_ingest_projection [OF assms(1,2) _ _ assms(3)] assms(4) show ?thesis
    by (simp add: applyMediaIngestProjection_def db_call_def)
qed

lemma append_ingest_projections:
  assumes "media_ok db" "projections_ok db" "flt ''update media ingest projection'' 0 = None"
  shows "projections_ok (snd (AppendMediaIngestEvent X flt event db))"
proof -
  obtain r db' where eq: "AppendMediaIngestEvent X flt event db = (r, db')" by fastforce
  then show ?thesis
  proof (cases rule: append_ingest_cases)
    case (appended i db1)
    have "segment_status db1 = segment_status db \<and> state_events db1 = state_events db"
      using appended(1) by (cases rule: insert_ingest_cases) simp_all
    moreover have "db' = snd (applyMediaIngestProjection flt i db1)" using appended(2) by simp
    moreover have "segment_status db' = segment_status db1" "same_facts db1 db'"
      using \<open>db' = _\<close> apply_ingest_facts [of db1 flt i]
      by (simp_all add: applyMediaIngestProjection_def split: sum.splits option.splits)
    ultimately show ?thesis using apply_ingest_current [of X flt event db i db1 flt] appended(1) assms eq
      by (simp add: projections_ok_def same_facts_def)
  qed (use assms eq in simp)
qed

lemma project_segment_status:
  assumes "ids_ok st_id (state_events db)" "e \<in> set (state_events db)"
  shows "segment_status (projectSegment (st_id e) db) = segment_proj.apply_row e (segment_status db)"
proof -
  obtain e' where e': "e' \<in> set (state_events db)" "List.find (\<lambda>w. st_id w = st_id e) (state_events db) = Some e'" "st_id e' = st_id e"
    using find_id [OF assms(1)] assms(2) by blast
  then have "e' = e" using assms by (auto intro: ids_ok_inj)
  with e'(2) show ?thesis by (simp add: projectSegment_def)
qed

lemma insert_ingest_others:
  "insertMediaIngestEvent X flt event db = Inr (i, db') \<Longrightarrow>
     segment_status db' = segment_status db \<and> state_events db' = state_events db \<and> segments db' = segments db
     \<and> ingest_status db' = ingest_status db \<and> (\<exists>new. ingest_events db' = ingest_events db @ new \<and> length new \<le> 1)"
  by (erule insert_ingest_cases) auto

text \<open>Applying both projections after an acceptance's transaction.\<close>

lemma apply_both:
  assumes "flt ''update media ingest projection'' 0 = None" "flt ''update media segment projection'' 0 = None"
    "db' = snd (applyMediaSegmentProjection flt j (snd (applyMediaIngestProjection flt i db1)))"
  shows "ingest_status db' = ingest_status (snd (applyMediaIngestProjection flt i db1))"
    "segment_status db' = segment_status (projectSegment j db1)" "same_facts db1 db'"
proof -
  let ?a = "snd (applyMediaIngestProjection flt i db1)"
  have a: "segment_status ?a = segment_status db1" "state_events ?a = state_events db1"
    by (simp_all add: applyMediaIngestProjection_def split: sum.splits option.splits)
  have db': "db' = projectSegment j ?a" using assms(2,3) by (simp add: applyMediaSegmentProjection_def db_call_def)
  then show "ingest_status db' = ingest_status ?a" by (simp add: projectSegment_def split: option.splits)
  show "segment_status db' = segment_status (projectSegment j db1)" using db' a by (simp add: projectSegment_def split: option.splits)
  show "same_facts db1 db'" using db' apply_ingest_facts project_segment_facts by (blast intro: same_facts_trans)
qed

lemma accept_projections:
  assumes "media_ok db" "projections_ok db" "flt ''update media ingest projection'' 0 = None" "flt ''update media segment projection'' 0 = None"
  shows "projections_ok (snd (AcceptMedia X flt metadata event key db))"
proof -
  obtain claim err db' where eq: "AcceptMedia X flt metadata event key db = ((claim, err), db')" by (metis surj_pair)
  note cur = assms(2) [unfolded projections_ok_def]
  show ?thesis
  proof (rule accept_cases [OF eq])
    fix i j db1
    assume tx: "acceptTx X flt metadata event key db = Inr (claim, Some (i, j, db1))"
      and "flt ''update media ingest projection'' 0 = None \<and> flt ''update media segment projection'' 0 = None \<longrightarrow>
         db' = snd (applyMediaSegmentProjection flt j (snd (applyMediaIngestProjection flt i db1)))"
    with assms have "db' = snd (applyMediaSegmentProjection flt j (snd (applyMediaIngestProjection flt i db1)))" by simp
    note both = apply_both [OF assms(3,4) this]
    have ok1: "media_ok db1" using accept_tx_media_ok [OF tx assms(1)] by simp
    have "ingest_proj.current (ingest_status db') (ingest_events db1)
        \<and> segment_proj.current (segment_status (projectSegment j db1)) (state_events db1)"
    proof (rule accept_tx_cases [OF tx assms(1)])
      fix w e i' db2
      assume *: "Some (i, j, db1) = Some (i', st_id e, db2)" "e \<in> set (state_events db)"
        and ins: "insertMediaIngestEvent X flt (event\<lparr>ie_Status := ''accepted'', ie_MediaSegmentID := seg_id w\<rparr>) db = Inr (i', db2)"
      have "ingest_proj.current (ingest_status db') (ingest_events db1)"
        using apply_ingest_current [OF ins assms(1), of flt] cur assms(3) both(1) * by simp
      moreover have "segment_proj.current (segment_proj.apply_row e (segment_status db1)) (state_events db1)"
        using insert_ingest_others [OF ins] * cur media_ok_ids(3) [OF assms(1)] by (simp add: segment_proj.current_again)
      ultimately show ?thesis
        using project_segment_status [OF media_ok_ids(3) [OF ok1], of e] insert_ingest_others [OF ins] * by simp
    next
      fix i' db2
      assume *: "Some (i, j, db1) = Some (i', next_id st_id (state_events db), db2)" and ok: "media_ok (with_segment metadata key db)"
        and ins: "insertMediaIngestEvent X flt (event\<lparr>ie_Status := ''accepted'', ie_MediaSegmentID := next_id seg_id (segments db)\<rparr>)
           (with_segment metadata key db) = Inr (i', db2)"
      let ?e = "new_state metadata key db"
      have *: "db2 = db1" "i' = i" "j = st_id ?e" using * by (simp_all add: new_state_def)
      have "ingest_proj.current (ingest_status db') (ingest_events db1)"
        using apply_ingest_current [OF ins ok, of flt] cur assms(3) both(1) * by (simp add: with_segment_def)
      moreover have st: "state_events db1 = state_events db @ [?e]" "segment_status db1 = segment_status db"
        using insert_ingest_others [OF ins] * by (simp_all add: with_segment_def)
      moreover have "segment_proj.current (segment_proj.apply_row ?e (segment_status db1)) (state_events db1)"
        using cur st media_ok_ids(3) [OF ok1] by (simp add: segment_proj.current_append)
      ultimately show ?thesis
        using project_segment_status [OF media_ok_ids(3) [OF ok1], of ?e] * by simp
    qed simp
    then show ?thesis using both(2,3) eq by (simp add: projections_ok_def same_facts_def)
  qed (use eq assms in simp_all)
qed

lemma rebuild_projections:
  assumes "media_ok db" "RebuildMediaProjections flt db = (Inr u, db')"
  shows "projections_ok db'" "same_facts db db'"
proof -
  have db': "db' = db\<lparr>ingest_status := map ingest_projection (latest_rows ing_id ing_key (ingest_events db)),
      segment_status := map segment_projection (latest_rows st_id st_segment (state_events db))\<rparr>"
    using assms(2) by (simp add: RebuildMediaProjections_def split: sum.splits)
  with media_ok_ids [OF assms(1)] show "projections_ok db'" "same_facts db db'"
    by (simp_all add: projections_ok_def same_facts_def ingest_proj.current_rebuild segment_proj.current_rebuild)
qed

lemma rebuild_facts: "same_facts db (snd (RebuildMediaProjections flt db))"
  by (simp add: RebuildMediaProjections_def same_facts_def split: sum.splits)

lemma rebuild_failed: "RebuildMediaProjections flt db = (Inl e, db') \<Longrightarrow> db' = db"
  by (simp add: RebuildMediaProjections_def split: sum.splits)

text \<open>
  The ingest event of an acceptance: at most one event is appended, and it is the accepted event of the ingest key linked to the
  segment.  None is appended only when such an event is there already, or when the key of the transition is taken.
\<close>

definition linked :: "MediaIngestEvent \<Rightarrow> int \<Rightarrow> ingest_row \<Rightarrow> bool" where
  "linked event i e \<longleftrightarrow> ing_key e = ie_IngestKey event \<and> ing_status e = ''accepted'' \<and> ing_segment e = Some i"

definition event_linked :: "ext \<Rightarrow> MediaIngestEvent \<Rightarrow> int \<Rightarrow> ingest_row list \<Rightarrow> ingest_row list \<Rightarrow> bool" where
  "event_linked X event i old new \<longleftrightarrow> (\<exists>added. new = old @ added \<and> length added \<le> 1 \<and> (\<forall>e \<in> set added. linked event i e)
     \<and> (added = [] \<longrightarrow> (\<exists>e \<in> set old. linked event i e) \<or> (\<exists>p. transitionKey X event p \<in> ing_event_key ` set old)))"

lemma insert_ingest_linked:
  assumes "insertMediaIngestEvent X flt (event\<lparr>ie_Status := ''accepted'', ie_MediaSegmentID := i\<rparr>) db = Inr (n, db')" "media_ok db" "0 < i"
  shows "event_linked X event i (ingest_events db) (ingest_events db')"
proof -
  let ?event = "event\<lparr>ie_Status := ''accepted'', ie_MediaSegmentID := i\<rparr>"
  let ?prev = "latest ing_id (\<lambda>e. ing_key e = ie_IngestKey ?event) (ingest_events db)"
  let ?p = "case ?prev of None \<Rightarrow> 0 | Some p \<Rightarrow> ing_id p"
  let ?key = "transitionKey X ?event ?p"
  have key: "?key = transitionKey X event ?p" by (simp add: transitionKey_def)
  show ?thesis
  proof (cases "?prev \<noteq> None \<and> (ie_Status ?event = ''discovered'' \<or> same_ingest (the ?prev) ?event)")
    case True
    then obtain e where e: "?prev = Some e" "same_ingest e ?event" by auto
    have "db' = db" using assms(1) True by (auto simp: insertMediaIngestEvent_def Let_def bind_result_Inr_iff)
    moreover have "e \<in> set (ingest_events db) \<and> ing_key e = ie_IngestKey ?event" by (rule latest_in [OF media_ok_ids(2) [OF assms(2)] e(1)])
    moreover have "ing_status e = ''accepted''" "ing_segment e = Some i"
      using e(2) assms(3) by (auto simp: same_ingest_def null_int_def split: option.splits)
    ultimately show ?thesis unfolding event_linked_def linked_def by auto
  next
    case False
    then obtain rows where rows: "keyed_insert ing_id ing_event_key (ingest_checks ?event ?key)
          (ie_MediaSegmentID ?event = 0 \<or> ie_MediaSegmentID ?event \<in> seg_id ` set (segments db))
          (ingest_row_of ?key ?event) ?key (ingest_events db) = Inr rows" and db': "db' = db\<lparr>ingest_events := rows\<rparr>"
      using assms(1) by (auto simp: insertMediaIngestEvent_def Let_def bind_result_Inr_iff split: sum.splits option.splits if_splits)
    from rows have "ingest_table.insert_item (ingest_checks ?event ?key)
        (ie_MediaSegmentID ?event = 0 \<or> ie_MediaSegmentID ?event \<in> seg_id ` set (segments db)) (?key, ?event) (ingest_events db) = Inr rows"
      by simp
    then consider (present) w where "w \<in> set (ingest_events db)" "ing_event_key w = ?key" "rows = ingest_events db"
      | (new) "rows = ingest_events db @ [ingest_row_of ?key ?event (next_id ing_id (ingest_events db))]"
      by (rule ingest_table.insert_cases) auto
    then show ?thesis
    proof cases
      case present
      then have "transitionKey X event ?p \<in> ing_event_key ` set (ingest_events db)" unfolding key by force
      with present show ?thesis unfolding event_linked_def db' by auto
    next
      case new
      have "linked event i (ingest_row_of ?key ?event (next_id ing_id (ingest_events db)))"
        using assms(3) by (simp add: linked_def ingest_row_of_def nullableInt64_def)
      with new show ?thesis unfolding event_linked_def db' by auto
    qed
  qed
qed

text \<open>The outcomes of an acceptance.\<close>

lemma accept_outcome:
  assumes "media_ok db" "AcceptMedia X flt metadata event key db = ((claim, err), db')"
  shows "(claim = noClaim \<and> err \<noteq> None \<and> db' = db)
    \<or> (mc_Status claim = MediaWriteConflict \<and> err = None \<and> db' = db \<and> mc_SegmentID claim \<in> seg_id ` set (segments db))
    \<or> (event_linked X event (mc_SegmentID claim) (ingest_events db) (ingest_events db')
       \<and> (mc_Status claim = MediaWriteDuplicate \<and> segments db' = segments db \<and> state_events db' = state_events db
            \<and> (\<exists>w \<in> set (segments db). seg_id w = mc_SegmentID claim \<and> mm_SHA256 (seg_data w) = mm_SHA256 metadata
                 \<and> mm_MetadataHash (seg_data w) = mm_MetadataHash metadata)
          \<or> claim = accepted_claim metadata (next_id seg_id (segments db))
            \<and> mm_SHA256 metadata \<notin> (mm_SHA256 \<circ> seg_data) ` set (segments db)
            \<and> segments db' = segments db @ [new_segment metadata db]
            \<and> state_events db' = state_events db @ [new_state metadata key db]))"
  using assms(2)
proof (rule accept_cases)
  assume "acceptTx X flt metadata event key db = Inr (claim, None)" "err = None" "db' = db"
  then show ?thesis by (auto elim!: accept_tx_cases [OF _ assms(1)])
next
  fix i j db1
  assume tx: "acceptTx X flt metadata event key db = Inr (claim, Some (i, j, db1))" and "same_facts db1 db'"
  then have f: "segments db' = segments db1" "ingest_events db' = ingest_events db1" "state_events db' = state_events db1"
    by (simp_all add: same_facts_def)
  show ?thesis
  proof (rule accept_tx_cases [OF tx assms(1)])
    fix w e i' db2
    assume d: "Some (i, j, db1) = Some (i', st_id e, db2)" "mc_Status claim = MediaWriteDuplicate" "w \<in> set (segments db)"
      "mc_SegmentID claim = seg_id w" "content_of w = mm_SHA256 metadata" "mm_MetadataHash (seg_data w) = mm_MetadataHash metadata"
      "insertMediaIngestEvent X flt (event\<lparr>ie_Status := ''accepted'', ie_MediaSegmentID := seg_id w\<rparr>) db = Inr (i', db2)"
    have "0 < seg_id w" using assms(1) d(3) by (fastforce simp: media_ok_def log_ok_def list_all_iff)
    from insert_ingest_linked [OF d(7) assms(1) this] d(1,4) f insert_ingest_others [OF d(7)]
    have "event_linked X event (mc_SegmentID claim) (ingest_events db) (ingest_events db')"
      "segments db' = segments db" "state_events db' = state_events db" by simp_all
    with d(2-6) show ?thesis unfolding content_of_def by (intro disjI2 conjI disjI1 bexI [of _ w]) simp_all
  next
    fix i' db2
    assume d: "Some (i, j, db1) = Some (i', next_id st_id (state_events db), db2)"
      "claim = accepted_claim metadata (next_id seg_id (segments db))" "\<forall>w \<in> set (segments db). content_of w \<noteq> mm_SHA256 metadata"
      "insertMediaIngestEvent X flt (event\<lparr>ie_Status := ''accepted'', ie_MediaSegmentID := next_id seg_id (segments db)\<rparr>)
           (with_segment metadata key db) = Inr (i', db2)" "media_ok (with_segment metadata key db)"
    have "0 < next_id seg_id (segments db)" using next_id_pos [of seg_id "segments db"] by simp
    from insert_ingest_linked [OF d(4,5) this] d(1,2) f
    have "event_linked X event (mc_SegmentID claim) (ingest_events db) (ingest_events db')"
      by (simp add: with_segment_def accepted_claim_def)
    moreover have "segments db' = segments db @ [new_segment metadata db]" "state_events db' = state_events db @ [new_state metadata key db]"
      using d(1) f insert_ingest_others [OF d(4)] by (simp_all add: with_segment_def)
    moreover have "mm_SHA256 metadata \<notin> (mm_SHA256 \<circ> seg_data) ` set (segments db)" using d(3) by (auto simp: content_of_def)
    ultimately show ?thesis using d(2) by blast
  qed simp
qed simp

definition sample_metadata :: MediaMetadata where
  "sample_metadata = \<lparr>mm_CollectorID = ''cam'', mm_SourceIdempotencyKey = ''clip-1'', mm_ManagedRelativePath = ''media/clip-1.mp4'',
     mm_DeviceStartRaw = ''2024-01-01T00:00:00Z'', mm_DeviceEndRaw = ''2024-01-01T00:01:00Z'',
     mm_DeviceStartUTC = ''2024-01-01T00:00:00Z'', mm_DeviceEndUTC = ''2024-01-01T00:01:00Z'',
     mm_ReceivedAtUTC = ''2024-01-01T00:02:00.5Z'', mm_ClockOffsetMS = 0, mm_ClockErrorMS = 0, mm_SizeBytes = 10,
     mm_DurationMS = 60000, mm_CodecName = ''h264'', mm_FormatName = ''mp4'', mm_MediaType = ''video'',
     mm_SHA256 = replicate 64 CHR ''b'', mm_MetadataHash = replicate 64 CHR ''c'', mm_SidecarSchemaVersion = 1\<rparr>"

definition sample_ingest :: MediaIngestEvent where
  "sample_ingest = \<lparr>ie_EventKey = ''k'', ie_IngestKey = replicate 64 CHR ''d'', ie_CollectorID = ''cam'',
     ie_SourceIdempotencyKey = ''clip-1'', ie_SourceName = ''clip-1.mp4'', ie_SourceFingerprint = replicate 64 CHR ''e'',
     ie_Status = ''validated'', ie_TemporaryRelativePath = [], ie_MediaSegmentID = 0, ie_ErrorCode = [],
     ie_OccurredAtUTC = ''2024-01-01T00:02:00Z''\<rparr>"

definition empty_media :: media_db where
  "empty_media = \<lparr>segments = [], ingest_events = [], state_events = [], ingest_status = [], segment_status = [], file_checks = []\<rparr>"

definition sample_accepted :: media_db where
  "sample_accepted = snd (AcceptMedia sample_ext no_faults sample_metadata sample_ingest (replicate 64 CHR ''f'') empty_media)"

lemma empty_media_ok: "media_ok empty_media" "projections_ok empty_media"
  by (simp_all add: media_ok_def empty_media_def references_ok_def log_ok_Nil projections_ok_def
      ingest_proj.current_def segment_proj.current_def latest_def row_at_def)

lemma sample_media_checks: "segment_checks sample_metadata" "state_checks (replicate 64 CHR ''f'') ''accepted'' [] ''recorder-core''"
  by code_simp+

lemma sample_ingest_checks:
  "ingest_checks (sample_ingest\<lparr>ie_Status := ''accepted'', ie_MediaSegmentID := 1\<rparr>) (replicate 64 CHR ''a'')"
  by code_simp

lemma sample_accept:
  "fst (AcceptMedia sample_ext no_faults sample_metadata sample_ingest (replicate 64 CHR ''f'') empty_media)
     = (accepted_claim sample_metadata 1, None)"
  using sample_media_checks sample_ingest_checks
  by (simp add: AcceptMedia_def acceptTx_def resolveMediaClaim_def first_by_id_def empty_media_def acceptedSegment_def noClaim_def
      insertSegment_def insertAcceptedState_def next_id_def insertMediaIngestEvent_def latest_def transitionKey_def sample_ext_def
      keyed_insert_def ingest_row_of_def accepted_claim_def Let_def applyMediaIngestProjection_def applyMediaSegmentProjection_def)

section \<open>Properties\<close>

text \<open>
  C29: Accepting a recording has exactly these outcomes.  It fails before it commits and nothing
  changes; or it is refused as a conflict with a stored segment and nothing changes; or it is a
  duplicate of a stored segment with the same content and metadata; or one segment holding the metadata and
  its first state event are appended, whose content was not stored before. In the last two cases the accepted
  ingest event of the key, linked to the segment of the claim -- the stored one of a duplicate, the new one otherwise --, is
  appended as the only ingest event, unless it is there already or its transition key is taken.  A later failure to update a status table is
  reported with the claim and undoes nothing.
\<close>

theorem accept_media_outcome:
  assumes "media_ok db" "AcceptMedia X flt metadata event key db = ((claim, err), db')"
  shows "(claim = noClaim \<and> err \<noteq> None \<and> db' = db)
    \<or> (mc_Status claim = MediaWriteConflict \<and> err = None \<and> db' = db \<and> mc_SegmentID claim \<in> seg_id ` set (segments db))
    \<or> (event_linked X event (mc_SegmentID claim) (ingest_events db) (ingest_events db')
       \<and> (mc_Status claim = MediaWriteDuplicate \<and> segments db' = segments db \<and> state_events db' = state_events db
            \<and> (\<exists>w \<in> set (segments db). seg_id w = mc_SegmentID claim \<and> mm_SHA256 (seg_data w) = mm_SHA256 metadata
                 \<and> mm_MetadataHash (seg_data w) = mm_MetadataHash metadata)
          \<or> claim = accepted_claim metadata (next_id seg_id (segments db))
            \<and> mm_SHA256 metadata \<notin> (mm_SHA256 \<circ> seg_data) ` set (segments db)
            \<and> segments db' = segments db @ [new_segment metadata db]
            \<and> state_events db' = state_events db @ [new_state metadata key db]))"
  using assms by (rule accept_outcome)

theorem accept_media_outcome_witness:
  "segments sample_accepted = [new_segment sample_metadata empty_media]
    \<and> map ing_segment (ingest_events sample_accepted) = [Some 1]"
proof -
  have "AcceptMedia sample_ext no_faults sample_metadata sample_ingest (replicate 64 CHR ''f'') empty_media
      = ((accepted_claim sample_metadata 1, None), sample_accepted)"
    using sample_accept by (simp add: sample_accepted_def prod_eq_iff)
  from accept_media_outcome [OF empty_media_ok(1) this] show ?thesis
    by (auto simp: accepted_claim_def noClaim_def empty_media_def event_linked_def linked_def le_Suc_eq length_Suc_conv)
qed

text \<open>After an acceptance the same recording resolves to the segment it created.\<close>

lemma resolve_after_accept:
  assumes "media_ok db" "AcceptMedia X flt metadata event key db = ((claim, err), db')" "mc_Status claim = MediaWriteAccepted"
    "resolveMediaClaim Y flt' (mm_CollectorID metadata) (mm_SourceIdempotencyKey metadata) (mm_SHA256 metadata)
       (mm_MetadataHash metadata) db' = Inr claim'"
  shows "mc_Status claim' = MediaWriteDuplicate"
proof (rule accept_cases [OF assms(2)])
  fix i j db1
  assume tx: "acceptTx X flt metadata event key db = Inr (claim, Some (i, j, db1))" and f: "same_facts db1 db'"
  let ?n = "new_segment metadata db"
  have fresh: "\<forall>v \<in> set (segments db). seg_id v \<noteq> seg_id ?n" using next_id_greater [of _ "segments db" seg_id] by (fastforce simp: new_segment_def)
  have "segments db1 = segments db @ [?n] \<and> (\<forall>v \<in> set (segments db). content_of v \<noteq> mm_SHA256 metadata
      \<and> \<not> claims_source db1 (mm_CollectorID metadata) (mm_SourceIdempotencyKey metadata) v)"
  proof (rule accept_tx_cases [OF tx assms(1)])
    fix i' db2
    assume *: "Some (i, j, db1) = Some (i', next_id st_id (state_events db), db2)"
      "\<forall>v \<in> set (segments db). \<not> claims_source db (mm_CollectorID metadata) (mm_SourceIdempotencyKey metadata) v"
      "\<forall>w \<in> set (segments db). content_of w \<noteq> mm_SHA256 metadata"
      and ins: "insertMediaIngestEvent X flt (event\<lparr>ie_Status := ''accepted'', ie_MediaSegmentID := next_id seg_id (segments db)\<rparr>)
         (with_segment metadata key db) = Inr (i', db2)"
    from ins have "\<not> claims_source db2 (mm_CollectorID metadata) (mm_SourceIdempotencyKey metadata) v" if v: "v \<in> set (segments db)" for v
    proof (cases rule: insert_ingest_cases)
      case unchanged
      with *(2) v show ?thesis by (auto simp: claims_source_def with_segment_def)
    next
      case (appended e)
      have "ing_segment e = Some (seg_id ?n)"
        by (subst appended(1)) (use next_id_pos [of seg_id "segments db"] in
          \<open>simp add: ingest_row_of_def nullableInt64_def new_segment_def\<close>)
      then have "ing_segment e \<noteq> Some (seg_id v)" using fresh v by auto
      with appended *(2) v show ?thesis by (auto simp: claims_source_def with_segment_def)
    qed
    with * insert_ingest_others [OF ins] show ?thesis by (auto simp: with_segment_def)
  qed (use assms(3) in \<open>simp_all\<close>)
  then have segs: "segments db' = segments db @ [?n]"
    and old: "\<forall>v \<in> set (segments db). content_of v \<noteq> mm_SHA256 metadata
      \<and> \<not> claims_source db' (mm_CollectorID metadata) (mm_SourceIdempotencyKey metadata) v"
    using f by (simp_all add: same_facts_def claims_source_def)
  have new: "content_of ?n = mm_SHA256 metadata" "mm_MetadataHash (seg_data ?n) = mm_MetadataHash metadata"
    "claims_source db' (mm_CollectorID metadata) (mm_SourceIdempotencyKey metadata) ?n"
    by (simp_all add: new_segment_def content_of_def claims_source_def)
  show ?thesis using assms(4) by (cases rule: resolve_cases) (use segs old new in \<open>auto simp: status_for_def\<close>)
qed (use assms(3) in \<open>auto simp: noClaim_def elim!: accept_tx_cases [OF _ assms(1)]\<close>)

lemma accept_tx_duplicate:
  assumes "acceptTx X flt metadata event key db = Inr (claim, r)"
  obtains c where "resolveMediaClaim X flt (mm_CollectorID metadata) (mm_SourceIdempotencyKey metadata)
      (mm_SHA256 metadata) (mm_MetadataHash metadata) db = Inr c"
    "mc_Status c = MediaWriteDuplicate \<longrightarrow> claim = c \<and> r \<noteq> None"
  using assms
  by (auto simp: acceptTx_def acceptedSegment_def bind_result_Inr_iff split: if_splits option.splits)

text \<open>
  C30: Accepting is idempotent.  Offering an accepted recording again -- the same source, content and
  metadata hash, whatever the other fields, ingest event and state key -- either fails and changes
  nothing, or is reported as a duplicate of the segment it created; no second segment and no second
  state event is stored.
\<close>

theorem accept_media_replay:
  assumes "media_ok db" "AcceptMedia X flt metadata event key db = ((claim, err), db')" "mc_Status claim = MediaWriteAccepted"
    "mm_CollectorID metadata' = mm_CollectorID metadata" "mm_SourceIdempotencyKey metadata' = mm_SourceIdempotencyKey metadata"
    "mm_SHA256 metadata' = mm_SHA256 metadata" "mm_MetadataHash metadata' = mm_MetadataHash metadata"
    "AcceptMedia Y flt' metadata' event' key' db' = ((claim', err'), db'')"
  shows "(claim' = noClaim \<and> err' \<noteq> None \<and> db'' = db')
    \<or> (mc_Status claim' = MediaWriteDuplicate \<and> mc_SegmentID claim' = mc_SegmentID claim
       \<and> segments db'' = segments db' \<and> state_events db'' = state_events db')"
proof -
  have ok: "media_ok db'" using accept_media_ok [OF assms(1)] assms(2) by (metis snd_conv)
  have dist: "distinct (map content_of (segments db'))" using ok by (simp add: media_ok_def)
  have claim: "mc_SegmentID claim = seg_id (new_segment metadata db)" "new_segment metadata db \<in> set (segments db')"
    "content_of (new_segment metadata db) = mm_SHA256 metadata"
    using accept_outcome [OF assms(1,2)] assms(3)
    by (auto simp: noClaim_def accepted_claim_def new_segment_def content_of_def)
  have dup: "mc_Status claim' = MediaWriteDuplicate \<and> r \<noteq> None" if "acceptTx Y flt' metadata' event' key' db' = Inr (claim', r)" for r
    using accept_tx_duplicate [OF that] resolve_after_accept [OF assms(1-3)] assms(4-7) by auto
  show ?thesis using assms(8)
  proof (rule accept_cases)
    assume "acceptTx Y flt' metadata' event' key' db' = Inr (claim', None)"
    with dup show ?thesis by blast
  next
    fix i j db1
    assume "acceptTx Y flt' metadata' event' key' db' = Inr (claim', Some (i, j, db1))"
    then have st: "mc_Status claim' = MediaWriteDuplicate" using dup by blast
    with accept_outcome [OF ok assms(8)] obtain w where w: "w \<in> set (segments db')" "seg_id w = mc_SegmentID claim'"
      "content_of w = mm_SHA256 metadata'" and same: "segments db'' = segments db'" "state_events db'' = state_events db'"
      by (auto simp: accepted_claim_def noClaim_def content_of_def)
    have "w = new_segment metadata db"
      using dist w(1,3) claim(2,3) assms(6) by (metis distinct_map inj_onD)
    with st same w claim show ?thesis by simp
  qed simp
qed

theorem accept_media_replay_witness:
  "case AcceptMedia sample_ext no_faults (sample_metadata\<lparr>mm_ReceivedAtUTC := ''2024-01-02T00:02:00Z''\<rparr>) sample_ingest [] sample_accepted of
     ((claim, err), db) \<Rightarrow> segments db = segments sample_accepted"
proof -
  have *: "AcceptMedia sample_ext no_faults sample_metadata sample_ingest (replicate 64 CHR ''f'') empty_media
      = ((accepted_claim sample_metadata 1, None), sample_accepted)"
    using sample_accept by (simp add: sample_accepted_def prod_eq_iff)
  obtain claim err db where r: "AcceptMedia sample_ext no_faults (sample_metadata\<lparr>mm_ReceivedAtUTC := ''2024-01-02T00:02:00Z''\<rparr>)
      sample_ingest [] sample_accepted = ((claim, err), db)" by (metis surj_pair)
  from accept_media_replay [OF empty_media_ok(1) * _ _ _ _ _ r] have "segments db = segments sample_accepted"
    by (auto simp: accepted_claim_def)
  with r show ?thesis by simp
qed

text \<open>
  File checks are a lookup table.  After a check has been saved, \<^verbatim>\<open>MediaFileCheckMatches\<close>
  reports a match for its file exactly for the saved kind and signature, and answers for every other
  file as before.
\<close>

theorem file_check_roundtrip:
  assumes "SaveMediaFileCheck flt ingestKey checkKind signature checkedAtUTC db = (Inr (), db')"
  shows "MediaFileCheckMatches flt' k kind sig db' =
    (if k = ingestKey \<and> flt' ''read media file check'' 0 = None then Inr (kind = checkKind \<and> sig = signature)
     else MediaFileCheckMatches flt' k kind sig db)"
proof -
  have "db' = db\<lparr>file_checks := upsert fc_key (\<lambda>_ _. True)
      \<lparr>fc_key = ingestKey, fc_kind = checkKind, fc_signature = signature, fc_checked = checkedAtUTC\<rparr> (file_checks db)\<rparr>"
    using assms by (auto simp: SaveMediaFileCheck_def split: sum.splits if_splits)
  then show ?thesis
    by (auto simp: MediaFileCheckMatches_def row_at_upsert db_call_def split: option.splits)
qed

theorem file_check_roundtrip_witness:
  "MediaFileCheckMatches no_faults (replicate 64 CHR ''a'') ''confirmed'' (replicate 64 CHR ''b'')
     (snd (SaveMediaFileCheck no_faults (replicate 64 CHR ''a'') ''confirmed'' (replicate 64 CHR ''b'') [] empty_media)) = Inr True"
proof -
  have "sql_length (replicate 64 CHR ''a'') = 64" "sql_length (replicate 64 CHR ''b'') = 64" by code_simp+
  then have "SaveMediaFileCheck no_faults (replicate 64 CHR ''a'') ''confirmed'' (replicate 64 CHR ''b'') [] empty_media
      = (Inr (), snd (SaveMediaFileCheck no_faults (replicate 64 CHR ''a'') ''confirmed'' (replicate 64 CHR ''b'') [] empty_media))"
    by (simp add: SaveMediaFileCheck_def)
  from file_check_roundtrip [OF this] show ?thesis by (simp add: no_faults_def)
qed

lemma summary_fields:
  assumes "distinct (map fst gs)"
  shows "ms_Discovered (foldl summaryStatus s gs) = (case map_of gs ''discovered'' of None \<Rightarrow> ms_Discovered s | Some c \<Rightarrow> c)"
    "ms_Pending (foldl summaryStatus s gs) = (case map_of gs ''pending'' of None \<Rightarrow> ms_Pending s | Some c \<Rightarrow> c)"
    "ms_Validated (foldl summaryStatus s gs) = (case map_of gs ''validated'' of None \<Rightarrow> ms_Validated s | Some c \<Rightarrow> c)"
    "ms_Quarantined (foldl summaryStatus s gs) = (case map_of gs ''quarantined'' of None \<Rightarrow> ms_Quarantined s | Some c \<Rightarrow> c)"
    "ms_Accepted (foldl summaryStatus s gs) = (case map_of gs ''accepted'' of None \<Rightarrow> ms_Accepted s | Some c \<Rightarrow> c)"
    "ms_Failed (foldl summaryStatus s gs) = (case map_of gs ''failed'' of None \<Rightarrow> ms_Failed s | Some c \<Rightarrow> c)"
  using assms
  by (induction gs arbitrary: s) (auto simp: summaryStatus_def map_of_eq_None_iff image_iff split: option.splits dest!: map_of_SomeD)

definition status_count :: "string \<Rightarrow> ingest_status_row list \<Rightarrow> int" where
  "status_count st rows = int (length (filter (\<lambda>w. is_status w = st) rows))"

lemma status_groups_lookup: "(case map_of (status_groups rows) st of None \<Rightarrow> 0 | Some c \<Rightarrow> c) = status_count st rows"
proof (cases "st \<in> is_status ` set rows")
  case True
  then have "map_of (status_groups rows) st = Some (status_count st rows)"
    by (simp add: status_groups_def status_count_def map_of_map_restrict restrict_map_def)
  then show ?thesis by simp
next
  case False
  then have "map_of (status_groups rows) st = None" "status_count st rows = 0"
    by (auto simp: status_groups_def status_count_def map_of_eq_None_iff image_iff filter_empty_conv)
  then show ?thesis by simp
qed

lemma status_groups_distinct: "distinct (map fst (status_groups rows))"
  by (simp add: status_groups_def comp_def)

definition keys_with :: "string \<Rightarrow> 'z media_db_scheme \<Rightarrow> string set" where
  "keys_with st db = {k. \<exists>e. latest ing_id (\<lambda>e. ing_key e = k) (ingest_events db) = Some e \<and> ing_status e = st}"

lemma status_count_keys:
  assumes "projections_ok db"
  shows "status_count st (ingest_status db) = int (card (keys_with st db))"
proof -
  let ?rows = "filter (\<lambda>w. is_status w = st) (ingest_status db)"
  have cur: "distinct (map is_key (ingest_status db))"
    "row_at is_key (ingest_status db) k = map_option ingest_projection (latest ing_id (\<lambda>e. ing_key e = k) (ingest_events db))" for k
    using assms by (simp_all add: projections_ok_def ingest_proj.current_def)
  have "is_key ` set ?rows = keys_with st db"
  proof (intro set_eqI iffI)
    fix k assume "k \<in> is_key ` set ?rows"
    then obtain w where w: "w \<in> set (ingest_status db)" "is_status w = st" "k = is_key w" by auto
    then have "row_at is_key (ingest_status db) k = Some w" using cur(1) by (simp add: ingest_proj.row_at_unique)
    with cur(2) w(2) show "k \<in> keys_with st db" by (auto simp: keys_with_def ingest_projection_def)
  next
    fix k assume "k \<in> keys_with st db"
    then obtain e where "latest ing_id (\<lambda>e. ing_key e = k) (ingest_events db) = Some e" "ing_status e = st" by (auto simp: keys_with_def)
    with cur(2) have *: "row_at is_key (ingest_status db) k = Some (ingest_projection e)" "is_status (ingest_projection e) = st"
      by (simp_all add: ingest_projection_def)
    then have "ingest_projection e \<in> set ?rows" "is_key (ingest_projection e) = k"
      by (auto simp: row_at_def dest: find_SomeD)
    then show "k \<in> is_key ` set ?rows" by blast
  qed
  moreover have "distinct (map is_key ?rows)" using cur(1) by (simp add: distinct_map inj_on_def)
  then have "length ?rows = card (is_key ` set ?rows)" by (metis distinct_card length_map set_map)
  ultimately show ?thesis by (simp add: status_count_def)
qed

text \<open>
  When the status tables are current, the summary counts files by the status of their latest
  ingest event, its backlog is the number of files not yet decided, and it counts every stored
  segment.
\<close>

theorem media_summary_counts:
  assumes "projections_ok db" "mediaIngestSummary flt db = Inr summary"
  shows "ms_Accepted summary = int (card (keys_with ''accepted'' db))
    \<and> ms_Quarantined summary = int (card (keys_with ''quarantined'' db))
    \<and> ms_Failed summary = int (card (keys_with ''failed'' db))
    \<and> ms_Backlog summary = int (card (keys_with ''discovered'' db)) + int (card (keys_with ''pending'' db)) + int (card (keys_with ''validated'' db))
    \<and> ms_TotalSegments summary = int (length (segments db))"
proof -
  let ?s = "foldl summaryStatus noSummary (status_groups (ingest_status db))"
  have f: "ms_Accepted summary = ms_Accepted ?s" "ms_Quarantined summary = ms_Quarantined ?s" "ms_Failed summary = ms_Failed ?s"
    "ms_Backlog summary = ms_Discovered ?s + ms_Pending ?s + ms_Validated ?s" "ms_TotalSegments summary = int (length (segments db))"
    using assms(2) by (auto simp: mediaIngestSummary_def Let_def bind_result_Inr_iff split: option.splits)
  note fields = summary_fields [OF status_groups_distinct, of noSummary "ingest_status db"]
  have zero: "ms_Discovered noSummary = 0" "ms_Pending noSummary = 0" "ms_Validated noSummary = 0" "ms_Quarantined noSummary = 0"
    "ms_Accepted noSummary = 0" "ms_Failed noSummary = 0" by (simp_all add: noSummary_def)
  show ?thesis unfolding f fields zero status_groups_lookup status_count_keys [OF assms(1)] by simp
qed

theorem media_summary_counts_witness:
  "\<exists>summary. mediaIngestSummary no_faults empty_media = Inr summary \<and> ms_Backlog summary = 0 \<and> keys_with ''accepted'' empty_media = {}"
proof -
  obtain summary where s: "mediaIngestSummary no_faults empty_media = Inr summary"
    by (simp add: mediaIngestSummary_def empty_media_def status_groups_def Let_def latest_def)
  have "keys_with st empty_media = {}" for st by (simp add: keys_with_def empty_media_def latest_def)
  with media_summary_counts [OF empty_media_ok(2) s] s show ?thesis by simp
qed

end
