(* ===== verification/Ops_Store.thy ===== *)
theory Ops_Store
  imports Media_Store Store_Migration "HOL-Library.Product_Lexorder"
begin

text \<open>
  \<^verbatim>\<open>internal/eventstore/operations.go\<close>: the operations tables beside the media tables, the appends
  of faults, module states, mode transitions, retention events and media states, the commit of a
  retention deletion, the dashboard's history, the retention candidates and the media manifest.  The
  step relation over all these operations and those of the media tables gives the histories of the
  store; its invariant and the agreement of the projections with a rebuild are proved along them.
\<close>

section \<open>Data\<close>

record FaultEvent =
  fe_Module :: string
  fe_Severity :: string
  fe_Status :: string
  fe_ErrorCode :: string
  fe_Detail :: string
  fe_OccurredAtUTC :: string

record ModuleStateEvent =
  mse_Module :: string
  mse_Status :: string
  mse_ReasonCode :: string
  mse_OccurredAtUTC :: string

record ModeTransitionEvent =
  mte_OldMode :: string
  mte_NewMode :: string
  mte_Operator :: string
  mte_Trigger :: string
  mte_ReasonCode :: string
  mte_OccurredAtUTC :: string

record RetentionEvent =
  re_MediaSegmentID :: int
  re_Status :: string
  re_ReasonCode :: string
  re_ManagedRelativePath :: string
  re_OccurredAtUTC :: string

record RetentionCandidate =
  rc_MediaSegmentID :: int
  rc_ManagedRelativePath :: string
  rc_SHA256 :: string
  rc_CreatedAtUTC :: string
  rc_SizeBytes :: int

record MediaManifestEntry =
  me_MediaSegmentID :: int
  me_ManagedRelativePath :: string
  me_SHA256 :: string
  me_SizeBytes :: int
  me_Status :: string

record DashboardFault =
  df_Module :: string
  df_Severity :: string
  df_Status :: string
  df_ErrorCode :: string
  df_OccurredAtUTC :: string

record DashboardModuleState =
  dms_Module :: string
  dms_Status :: string
  dms_ReasonCode :: string
  dms_OccurredAtUTC :: string

record DashboardModeTransition =
  dmt_OldMode :: string
  dmt_NewMode :: string
  dmt_ReasonCode :: string
  dmt_OccurredAtUTC :: string

record DashboardHistory =
  dh_RecentFaults :: "DashboardFault list"
  dh_Modules :: "DashboardModuleState list"
  dh_Mode :: "DashboardModeTransition option"

text \<open>A row of one of the tables of \<^verbatim>\<open>migrations/005_operations.sql\<close>: its id, event key and columns.\<close>

record 'a op_row =
  op_id :: int
  op_key :: string
  op_event :: 'a

text \<open>The operations tables, added to the media tables.\<close>

record ops_db = media_db +
  fault_events :: "FaultEvent op_row list"
  module_events :: "ModuleStateEvent op_row list"
  mode_events :: "ModeTransitionEvent op_row list"
  retention_events :: "RetentionEvent op_row list"

definition op_row_of :: "string \<times> 'a \<Rightarrow> int \<Rightarrow> 'a op_row" where
  "op_row_of p i = \<lparr>op_id = i, op_key = fst p, op_event = snd p\<rparr>"

section \<open>Appending\<close>

fun joinNul :: "string list \<Rightarrow> string" where
  "joinNul [] = []"
| "joinNul [part] = part"
| "joinNul (part # parts) = part @ [char_of (0 :: nat)] @ joinNul parts"

definition eventKey :: "ext \<Rightarrow> string list \<Rightarrow> string" where
  "eventKey X parts = sha256_hex X (joinNul parts)"

text \<open>Scanning the rows of a result one by one; each scan may fail.\<close>

fun scan_rows :: "faults \<Rightarrow> string \<Rightarrow> nat \<Rightarrow> 'a list \<Rightarrow> go_error + unit" where
  "scan_rows flt label i [] = Inr ()"
| "scan_rows flt label i (w # ws) = bind_result (db_call flt CodeQueryFailed label i) (\<lambda>_. scan_rows flt label (Suc i) ws)"

lemma scan_rows_no_faults [simp]: "scan_rows no_faults label i ws = Inr ()"
  by (induction ws arbitrary: i) simp_all

text \<open>An \<^verbatim>\<open>INSERT ... ON CONFLICT(event_key) DO NOTHING\<close> into an operations table.\<close>

definition exec_insert :: "faults \<Rightarrow> string \<Rightarrow> sql_fault + 'a \<Rightarrow> go_error + 'a" where
  "exec_insert flt label outcome =
     bind_result (db_call flt CodeWriteFailed label 0) (\<lambda>_.
       case outcome of Inl f \<Rightarrow> Inl (classifySQLiteError CodeWriteFailed label f) | Inr rows \<Rightarrow> Inr rows)"

definition insert_op :: "bool \<Rightarrow> bool \<Rightarrow> string \<Rightarrow> 'a \<Rightarrow> 'a op_row list \<Rightarrow> sql_fault + 'a op_row list" where
  "insert_op checks refs key event rows = keyed_insert op_id op_key (sql_length key = 64 \<and> checks) refs (op_row_of (key, event)) key rows"

definition fault_checks :: "FaultEvent \<Rightarrow> bool" where
  "fault_checks e \<longleftrightarrow> between 1 128 (fe_Module e) \<and> fe_Severity e \<in> set [''P0'', ''P1'', ''P2'', ''P3'']
     \<and> fe_Status e \<in> set [''active'', ''recovered'', ''degraded'', ''disabled''] \<and> between 1 128 (fe_ErrorCode e)
     \<and> between 1 1024 (fe_Detail e) \<and> between 20 35 (fe_OccurredAtUTC e)"

definition AppendFaultEvent :: "ext \<Rightarrow> faults \<Rightarrow> FaultEvent \<Rightarrow> 'z ops_db_scheme \<Rightarrow> (go_error + unit) \<times> 'z ops_db_scheme" where
  "AppendFaultEvent X flt event db =
     (case exec_insert flt ''append fault event''
             (insert_op (fault_checks event) True
                (eventKey X [fe_Module event, fe_Severity event, fe_Status event, fe_ErrorCode event, fe_Detail event, fe_OccurredAtUTC event])
                event (fault_events db))
      of Inl e \<Rightarrow> (Inl e, db) | Inr rows \<Rightarrow> (Inr (), db\<lparr>fault_events := rows\<rparr>))"

definition module_checks :: "ModuleStateEvent \<Rightarrow> bool" where
  "module_checks e \<longleftrightarrow> between 1 128 (mse_Module e)
     \<and> mse_Status e \<in> set [''healthy'', ''degraded'', ''disabled'', ''unavailable'']
     \<and> between 1 128 (mse_ReasonCode e) \<and> between 20 35 (mse_OccurredAtUTC e)"

definition AppendModuleStateEvent :: "ext \<Rightarrow> faults \<Rightarrow> ModuleStateEvent \<Rightarrow> 'z ops_db_scheme \<Rightarrow> (go_error + unit) \<times> 'z ops_db_scheme" where
  "AppendModuleStateEvent X flt event db =
     (case exec_insert flt ''append module state event''
             (insert_op (module_checks event) True
                (eventKey X [mse_Module event, mse_Status event, mse_ReasonCode event, mse_OccurredAtUTC event])
                event (module_events db))
      of Inl e \<Rightarrow> (Inl e, db) | Inr rows \<Rightarrow> (Inr (), db\<lparr>module_events := rows\<rparr>))"

definition mode_checks :: "ModeTransitionEvent \<Rightarrow> bool" where
  "mode_checks e \<longleftrightarrow> mte_OldMode e \<in> set [''unknown'', ''record-only'', ''minimum'']
     \<and> mte_NewMode e \<in> set [''record-only'', ''minimum''] \<and> between 1 128 (mte_Operator e) \<and> between 1 128 (mte_Trigger e)
     \<and> between 1 128 (mte_ReasonCode e) \<and> between 20 35 (mte_OccurredAtUTC e)"

definition current_mode :: "ModeTransitionEvent op_row list \<Rightarrow> string" where
  "current_mode rows = (case latest op_id (\<lambda>_. True) rows of None \<Rightarrow> ''unknown'' | Some w \<Rightarrow> mte_NewMode (op_event w))"

definition AppendModeTransition :: "ext \<Rightarrow> faults \<Rightarrow> string \<Rightarrow> string \<Rightarrow> string \<Rightarrow> string \<Rightarrow> string \<Rightarrow> 'z ops_db_scheme
    \<Rightarrow> (go_error + unit) \<times> 'z ops_db_scheme" where
  "AppendModeTransition X flt newMode operator trigger reason occurredAtUTC db =
     (case
        bind_result (db_call flt CodeWriteFailed ''begin mode transition'' 0) (\<lambda>_.
        bind_result (db_call flt CodeQueryFailed ''read current runtime mode'' 0) (\<lambda>_.
          let oldMode = current_mode (mode_events db) in
          if oldMode = newMode then Inr (mode_events db)
          else
            let event = \<lparr>mte_OldMode = oldMode, mte_NewMode = newMode, mte_Operator = operator, mte_Trigger = trigger,
                         mte_ReasonCode = reason, mte_OccurredAtUTC = occurredAtUTC\<rparr> in
            bind_result (exec_insert flt ''append mode transition''
                (insert_op (mode_checks event) True (eventKey X [oldMode, newMode, operator, trigger, reason, occurredAtUTC])
                   event (mode_events db))) (\<lambda>rows.
            bind_result (db_call flt CodeWriteFailed ''commit mode transition'' 0) (\<lambda>_. Inr rows))))
      of Inl e \<Rightarrow> (Inl e, db) | Inr rows \<Rightarrow> (Inr (), db\<lparr>mode_events := rows\<rparr>))"

section \<open>The dashboard\<close>

definition dashboardFault :: "FaultEvent \<Rightarrow> DashboardFault" where
  "dashboardFault e = \<lparr>df_Module = fe_Module e, df_Severity = fe_Severity e, df_Status = fe_Status e, df_ErrorCode = fe_ErrorCode e,
     df_OccurredAtUTC = fe_OccurredAtUTC e\<rparr>"

definition dashboardModule :: "ModuleStateEvent \<Rightarrow> DashboardModuleState" where
  "dashboardModule e = \<lparr>dms_Module = mse_Module e, dms_Status = mse_Status e, dms_ReasonCode = mse_ReasonCode e,
     dms_OccurredAtUTC = mse_OccurredAtUTC e\<rparr>"

definition dashboardMode :: "ModeTransitionEvent \<Rightarrow> DashboardModeTransition" where
  "dashboardMode e = \<lparr>dmt_OldMode = mte_OldMode e, dmt_NewMode = mte_NewMode e, dmt_ReasonCode = mte_ReasonCode e,
     dmt_OccurredAtUTC = mte_OccurredAtUTC e\<rparr>"

definition module_of :: "ModuleStateEvent op_row \<Rightarrow> string" where
  "module_of w = mse_Module (op_event w)"

definition QueryDashboardHistory :: "faults \<Rightarrow> int \<Rightarrow> 'z ops_db_scheme \<Rightarrow> go_error + DashboardHistory" where
  "QueryDashboardHistory flt faultLimit db =
     bind_result (guard_result (\<not> (faultLimit < 1 \<or> faultLimit > 100)) (StoreErr ''QUERY_PAGE_LIMIT_INVALID'' ''dashboard fault limit'')) (\<lambda>_.
     bind_result (db_call flt CodeQueryFailed ''query dashboard faults'' 0) (\<lambda>_.
       let recent = take (nat faultLimit) (rev (sort_key op_id (fault_events db))) in
     bind_result (scan_rows flt ''scan dashboard fault'' 0 recent) (\<lambda>_.
     bind_result (db_call flt CodeQueryFailed ''iterate dashboard faults'' 0) (\<lambda>_.
     bind_result (db_read flt CodeQueryFailed ''close dashboard fault rows'' 0) (\<lambda>_.
     bind_result (db_call flt CodeQueryFailed ''query dashboard module states'' 0) (\<lambda>_.
       let modules = take 64 (sort_key module_of (latest_rows op_id module_of (module_events db))) in
     bind_result (scan_rows flt ''scan dashboard module state'' 0 modules) (\<lambda>_.
     bind_result (db_call flt CodeQueryFailed ''iterate dashboard module states'' 0) (\<lambda>_.
     bind_result (db_read flt CodeQueryFailed ''close dashboard module state rows'' 0) (\<lambda>_.
     bind_result (db_call flt CodeQueryFailed ''query dashboard runtime mode'' 0) (\<lambda>_.
       Inr \<lparr>dh_RecentFaults = map (dashboardFault \<circ> op_event) recent, dh_Modules = map (dashboardModule \<circ> op_event) modules,
            dh_Mode = map_option (dashboardMode \<circ> op_event) (latest op_id (\<lambda>_. True) (mode_events db))\<rparr>))))))))))"

section \<open>Retention\<close>

definition segment_status_of :: "'z media_db_scheme \<Rightarrow> segment_row \<Rightarrow> string option" where
  "segment_status_of db w = map_option ss_status (row_at ss_segment (segment_status db) (seg_id w))"

definition present :: "'z media_db_scheme \<Rightarrow> segment_row \<Rightarrow> bool" where
  "present db w \<longleftrightarrow> segment_status_of db w \<in> set [Some ''accepted'', Some ''restored'']"

definition candidate_of :: "segment_row \<Rightarrow> RetentionCandidate" where
  "candidate_of w = \<lparr>rc_MediaSegmentID = seg_id w, rc_ManagedRelativePath = mm_ManagedRelativePath (seg_data w),
     rc_SHA256 = mm_SHA256 (seg_data w), rc_CreatedAtUTC = seg_created_at w, rc_SizeBytes = mm_SizeBytes (seg_data w)\<rparr>"

text \<open>SQLite's \<^verbatim>\<open>LIMIT\<close>: a negative value is no limit.  Text is compared byte by byte.\<close>

definition sql_limit :: "int \<Rightarrow> 'a list \<Rightarrow> 'a list" where
  "sql_limit n xs = (if n < 0 then xs else take (nat n) xs)"

definition candidate_rows :: "string \<Rightarrow> int \<Rightarrow> 'z media_db_scheme \<Rightarrow> segment_row list" where
  "candidate_rows cutoffUTC limit db =
     sql_limit limit (sort_key (\<lambda>w. (seg_created_at w, seg_id w)) (filter (\<lambda>w. present db w \<and> seg_created_at w < cutoffUTC) (segments db)))"

definition RetentionCandidates :: "faults \<Rightarrow> string \<Rightarrow> int \<Rightarrow> 'z media_db_scheme \<Rightarrow> go_error + RetentionCandidate list" where
  "RetentionCandidates flt cutoffUTC limit db =
     bind_result (db_call flt CodeQueryFailed ''query retention candidates'' 0) (\<lambda>_.
     bind_result (scan_rows flt ''scan retention candidate'' 0 (candidate_rows cutoffUTC limit db)) (\<lambda>_.
     bind_result (db_call flt CodeQueryFailed ''iterate retention candidates'' 0) (\<lambda>_.
       Inr (map candidate_of (candidate_rows cutoffUTC limit db)))))"

definition unfinished :: "ingest_row \<Rightarrow> bool" where
  "unfinished e \<longleftrightarrow> ing_status e \<in> set [''discovered'', ''pending'', ''validated'', ''failed'']"

definition TemporaryPathReferenced :: "faults \<Rightarrow> string \<Rightarrow> 'z media_db_scheme \<Rightarrow> go_error + bool" where
  "TemporaryPathReferenced flt relativePath db =
     bind_result (db_call flt CodeQueryFailed ''check temporary media reference'' 0) (\<lambda>_.
       Inr (0 < length (filter (\<lambda>e. ing_temporary e = Some relativePath \<and> unfinished e)
                          (latest_rows ing_id ing_key (ingest_events db)))))"

definition retention_checks :: "RetentionEvent \<Rightarrow> bool" where
  "retention_checks e \<longleftrightarrow> re_Status e \<in> set [''planned'', ''deleted'', ''failed''] \<and> between 1 128 (re_ReasonCode e)
     \<and> between 1 512 (re_ManagedRelativePath e) \<and> between 20 35 (re_OccurredAtUTC e)"

definition has_segment :: "'z media_db_scheme \<Rightarrow> int \<Rightarrow> bool" where
  "has_segment db i \<longleftrightarrow> i \<in> seg_id ` set (segments db)"

definition AppendRetentionEvent :: "ext \<Rightarrow> faults \<Rightarrow> RetentionEvent \<Rightarrow> 'z ops_db_scheme \<Rightarrow> (go_error + unit) \<times> 'z ops_db_scheme" where
  "AppendRetentionEvent X flt event db =
     (case exec_insert flt ''append retention event''
             (insert_op (retention_checks event) (has_segment db (re_MediaSegmentID event))
                (eventKey X [int_digits (re_MediaSegmentID event), re_Status event, re_ReasonCode event, re_ManagedRelativePath event, re_OccurredAtUTC event])
                event (retention_events db))
      of Inl e \<Rightarrow> (Inl e, db) | Inr rows \<Rightarrow> (Inr (), db\<lparr>retention_events := rows\<rparr>))"

definition retention_of :: "int \<Rightarrow> string \<Rightarrow> RetentionEvent op_row \<Rightarrow> bool" where
  "retention_of segmentID path w \<longleftrightarrow> re_MediaSegmentID (op_event w) = segmentID \<and> re_ManagedRelativePath (op_event w) = path"

definition RetentionDeletionPlanned :: "faults \<Rightarrow> int \<Rightarrow> string \<Rightarrow> 'z ops_db_scheme \<Rightarrow> go_error + bool" where
  "RetentionDeletionPlanned flt segmentID relativePath db =
     bind_result (db_call flt CodeQueryFailed ''read retention plan'' 0) (\<lambda>_.
       case latest op_id (retention_of segmentID relativePath) (retention_events db) of
         None \<Rightarrow> Inr False
       | Some w \<Rightarrow> Inr (re_Status (op_event w) = ''planned''))"

definition state_row_of :: "string \<times> int \<times> string \<times> string \<times> string \<times> string \<Rightarrow> int \<Rightarrow> state_row" where
  "state_row_of p i = (case p of (key, segmentID, status, reason, producer, at) \<Rightarrow>
     \<lparr>st_id = i, st_event_key = key, st_segment = segmentID, st_status = status, st_reason = nullableString reason,
      st_producer = producer, st_at = at\<rparr>)"

definition insert_state :: "string \<Rightarrow> int \<Rightarrow> string \<Rightarrow> string \<Rightarrow> string \<Rightarrow> string \<Rightarrow> 'z media_db_scheme \<Rightarrow> sql_fault + state_row list" where
  "insert_state key segmentID status reason producer at db =
     keyed_insert st_id st_event_key (state_checks key status reason producer) (has_segment db segmentID)
       (state_row_of (key, segmentID, status, reason, producer, at)) key (state_events db)"

definition AppendMediaState :: "ext \<Rightarrow> faults \<Rightarrow> int \<Rightarrow> string \<Rightarrow> string \<Rightarrow> string \<Rightarrow> string \<Rightarrow> 'z media_db_scheme
    \<Rightarrow> (go_error + unit) \<times> 'z media_db_scheme" where
  "AppendMediaState X flt segmentID status reason producer occurredAtUTC db =
     (let key = eventKey X [int_digits segmentID, status, reason, producer, occurredAtUTC] in
      case exec_insert flt ''append media state'' (insert_state key segmentID status reason producer occurredAtUTC db) of
        Inl e \<Rightarrow> (Inl e, db)
      | Inr rows \<Rightarrow>
          let db1 = db\<lparr>state_events := rows\<rparr> in
          (case
             bind_result (db_call flt CodeQueryFailed ''read media state'' 0) (\<lambda>_.
               case List.find (\<lambda>e. st_event_key e = key) rows of
                 None \<Rightarrow> Inl (classifySQLiteError CodeQueryFailed ''read media state'' FaultOther)
               | Some e \<Rightarrow> Inr (st_id e))
           of Inl e \<Rightarrow> (Inl e, db1)
            | Inr i \<Rightarrow> applyMediaSegmentProjection flt i db1))"

definition deletion_key :: "ext \<Rightarrow> RetentionEvent \<Rightarrow> string" where
  "deletion_key X event = eventKey X [int_digits (re_MediaSegmentID event), ''deleted'', re_ReasonCode event, re_ManagedRelativePath event]"

definition deleted_state_key :: "ext \<Rightarrow> RetentionEvent \<Rightarrow> string" where
  "deleted_state_key X event = eventKey X [int_digits (re_MediaSegmentID event), ''retention_deleted'', re_ReasonCode event, ''recorder-core-retention'']"

definition CommitRetentionDeletion :: "ext \<Rightarrow> faults \<Rightarrow> RetentionEvent \<Rightarrow> 'z ops_db_scheme \<Rightarrow> (go_error + unit) \<times> 'z ops_db_scheme" where
  "CommitRetentionDeletion X flt event db =
     (case
        bind_result (db_call flt CodeWriteFailed ''begin retention deletion commit'' 0) (\<lambda>_.
          let deleted = event\<lparr>re_Status := ''deleted''\<rparr> in
        bind_result (exec_insert flt ''append retention deletion''
            (insert_op (retention_checks deleted) (has_segment db (re_MediaSegmentID event)) (deletion_key X event) deleted (retention_events db)))
          (\<lambda>rows.
          let db1 = db\<lparr>retention_events := rows\<rparr>; stateKey = deleted_state_key X event in
        bind_result (exec_insert flt ''append retention media state''
            (insert_state stateKey (re_MediaSegmentID event) ''retention_deleted'' (re_ReasonCode event) ''recorder-core-retention''
               (re_OccurredAtUTC event) db1)) (\<lambda>states.
          let db2 = db1\<lparr>state_events := states\<rparr> in
        bind_result (db_call flt CodeQueryFailed ''read retention media state'' 0) (\<lambda>_.
          case List.find (\<lambda>e. st_event_key e = stateKey) states of
            None \<Rightarrow> Inl (classifySQLiteError CodeQueryFailed ''read retention media state'' FaultOther)
          | Some e \<Rightarrow>
              bind_result (db_call flt CodeWriteFailed ''update retention media projection'' 0) (\<lambda>_.
              bind_result (db_call flt CodeWriteFailed ''commit retention deletion'' 0) (\<lambda>_.
                Inr (projectSegment (st_id e) db2)))))))
      of Inl e \<Rightarrow> (Inl e, db) | Inr db' \<Rightarrow> (Inr (), db'))"

section \<open>The media manifest\<close>

definition manifest_of :: "'z media_db_scheme \<Rightarrow> segment_row \<Rightarrow> MediaManifestEntry" where
  "manifest_of db w = \<lparr>me_MediaSegmentID = seg_id w, me_ManagedRelativePath = mm_ManagedRelativePath (seg_data w),
     me_SHA256 = mm_SHA256 (seg_data w), me_SizeBytes = mm_SizeBytes (seg_data w),
     me_Status = (case segment_status_of db w of None \<Rightarrow> [] | Some s \<Rightarrow> s)\<rparr>"

text \<open>\<open>verified\<close> is what \<^verbatim>\<open>VerifyDatabase\<close> reports for the file.\<close>

definition ReadMediaManifest :: "faults \<Rightarrow> go_error + unit \<Rightarrow> 'z media_db_scheme \<Rightarrow> go_error + MediaManifestEntry list" where
  "ReadMediaManifest flt verified db =
     bind_result verified (\<lambda>_.
     bind_result (db_read flt CodeOpenFailed ''open media manifest database'' 0) (\<lambda>_.
     bind_result (db_call flt CodeQueryFailed ''query backup media manifest'' 0) (\<lambda>_.
       let rows = sort_key seg_id (filter (present db) (segments db)) in
     bind_result (scan_rows flt ''scan backup media manifest'' 0 rows) (\<lambda>_.
     bind_result (db_call flt CodeQueryFailed ''iterate backup media manifest'' 0) (\<lambda>_.
       Inr (map (manifest_of db) rows))))))"

text \<open>A checkpoint moves the log into the database file and changes no table; the mode is passive or truncate.\<close>

definition Checkpoint :: "faults \<Rightarrow> bool \<Rightarrow> go_error + unit" where
  "Checkpoint flt full = db_call flt CodeWriteFailed ''checkpoint WAL'' (if full then 1 else 0)"

section \<open>The store's invariant\<close>

text \<open>The recorded modes form a chain from \<^verbatim>\<open>unknown\<close> in which every transition changes the mode.\<close>

fun mode_chain :: "string \<Rightarrow> ModeTransitionEvent list \<Rightarrow> bool" where
  "mode_chain m [] \<longleftrightarrow> True"
| "mode_chain m (e # es) \<longleftrightarrow> mte_OldMode e = m \<and> mte_NewMode e \<noteq> m \<and> mode_chain (mte_NewMode e) es"

definition ops_ok :: "'z ops_db_scheme \<Rightarrow> bool" where
  "ops_ok db \<longleftrightarrow> media_ok db
     \<and> log_ok op_id op_key (fault_events db) \<and> log_ok op_id op_key (module_events db)
     \<and> log_ok op_id op_key (mode_events db) \<and> log_ok op_id op_key (retention_events db)
     \<and> mode_chain ''unknown'' (map op_event (mode_events db))
     \<and> (\<forall>w \<in> set (retention_events db). has_segment db (re_MediaSegmentID (op_event w)))"

interpretation op_table: keyed_table op_id op_key op_row_of fst
  by unfold_locales (simp_all add: op_row_of_def)

interpretation state_table: keyed_table st_id st_event_key state_row_of fst
  by unfold_locales (auto simp: state_row_of_def split: prod.splits)

lemma exec_insert_Inr: "exec_insert flt label r = Inr rows \<longleftrightarrow> flt label 0 = None \<and> r = Inr rows"
  by (auto simp: exec_insert_def bind_result_Inr_iff split: sum.splits)

lemma insert_op_cases:
  assumes "insert_op c r key event rows = Inr rows'"
  obtains (present) "rows' = rows" "key \<in> op_key ` set rows"
  | (new) "key \<notin> op_key ` set rows" "rows' = rows @ [op_row_of (key, event) (next_id op_id rows)]" c r
  using assms unfolding insert_op_def
  by (rule op_table.insert_cases [of _ _ "(key, event)", unfolded fst_conv]) (auto intro: that)

lemma insert_op_log_ok: "insert_op c r key event rows = Inr rows' \<Longrightarrow> log_ok op_id op_key rows \<Longrightarrow> log_ok op_id op_key rows'"
  unfolding insert_op_def using op_table.insert_log_ok [of _ _ "(key, event)" rows rows'] by simp

lemma mode_chain_append:
  "mode_chain m (es @ [e]) \<longleftrightarrow> mode_chain m es \<and> mte_OldMode e = (if es = [] then m else mte_NewMode (last es)) \<and> mte_NewMode e \<noteq> mte_OldMode e"
  by (induction es arbitrary: m) auto

lemma latest_true_last: "ids_ok rid rows \<Longrightarrow> latest rid (\<lambda>_. True) rows = (if rows = [] then None else Some (last rows))"
  by (simp add: latest_last)

lemma current_mode_last:
  "log_ok op_id op_key rows \<Longrightarrow> current_mode rows = (if rows = [] then ''unknown'' else mte_NewMode (op_event (last rows)))"
  by (simp add: current_mode_def latest_true_last log_ids_ok)

lemma fault_ops_ok: "ops_ok db \<Longrightarrow> ops_ok (snd (AppendFaultEvent X flt event db))"
  by (auto simp: AppendFaultEvent_def ops_ok_def media_ok_def references_ok_def has_segment_def exec_insert_Inr
      intro: insert_op_log_ok split: sum.splits)

lemma module_ops_ok: "ops_ok db \<Longrightarrow> ops_ok (snd (AppendModuleStateEvent X flt event db))"
  by (auto simp: AppendModuleStateEvent_def ops_ok_def media_ok_def references_ok_def has_segment_def exec_insert_Inr
      intro: insert_op_log_ok split: sum.splits)

text \<open>The mode recorded is unchanged, or one transition from the current mode is appended.\<close>

definition mode_event :: "string \<Rightarrow> string \<Rightarrow> string \<Rightarrow> string \<Rightarrow> string \<Rightarrow> 'z ops_db_scheme \<Rightarrow> ModeTransitionEvent" where
  "mode_event newMode operator trigger reason at db = \<lparr>mte_OldMode = current_mode (mode_events db), mte_NewMode = newMode,
     mte_Operator = operator, mte_Trigger = trigger, mte_ReasonCode = reason, mte_OccurredAtUTC = at\<rparr>"

lemma mode_cases:
  assumes "AppendModeTransition X flt newMode operator trigger reason at db = (r, db')"
  obtains (failed) e where "r = Inl e" "db' = db"
  | (same) "r = Inr ()" "db' = db" "current_mode (mode_events db) = newMode \<or>
      eventKey X [current_mode (mode_events db), newMode, operator, trigger, reason, at] \<in> op_key ` set (mode_events db)"
  | (appended) key where "r = Inr ()" "current_mode (mode_events db) \<noteq> newMode" "key \<notin> op_key ` set (mode_events db)"
      "db' = db\<lparr>mode_events := mode_events db @
         [op_row_of (key, mode_event newMode operator trigger reason at db) (next_id op_id (mode_events db))]\<rparr>"
proof (cases "current_mode (mode_events db) = newMode")
  case True
  then show thesis using assms
    by (auto simp: AppendModeTransition_def Let_def bind_result_Inr_iff split: sum.splits intro: failed same)
next
  case False
  let ?key = "eventKey X [current_mode (mode_events db), newMode, operator, trigger, reason, at]"
  let ?e = "mode_event newMode operator trigger reason at db"
  show thesis
  proof (cases r)
    case (Inl e)
    then have "db' = db" using assms by (simp add: AppendModeTransition_def split: sum.splits)
    with Inl show thesis by (rule failed)
  next
    case (Inr u)
    obtain rows where rows: "insert_op (mode_checks ?e) True ?key ?e (mode_events db) = Inr rows" "db' = db\<lparr>mode_events := rows\<rparr>"
      using assms False Inr
      by (simp add: AppendModeTransition_def Let_def bind_result_Inr_iff exec_insert_Inr mode_event_def split: sum.splits)
    from rows(1) show thesis
    proof (cases rule: insert_op_cases)
      case present
      with rows Inr show thesis by (intro same) simp_all
    next
      case new
      with rows Inr False show thesis by (intro appended) simp_all
    qed
  qed
qed

lemma mode_ops_ok: "ops_ok db \<Longrightarrow> ops_ok (snd (AppendModeTransition X flt newMode operator trigger reason at db))"
proof -
  assume ok: "ops_ok db"
  obtain r db' where eq: "AppendModeTransition X flt newMode operator trigger reason at db = (r, db')" by fastforce
  then show ?thesis
  proof (cases rule: mode_cases)
    case (appended key)
    let ?row = "op_row_of (key, mode_event newMode operator trigger reason at db) (next_id op_id (mode_events db))"
    have log: "log_ok op_id op_key (mode_events db)" using ok by (simp add: ops_ok_def)
    have "log_ok op_id op_key (mode_events db @ [?row])"
      using log appended(3) by (intro log_ok_snoc) (simp_all add: op_row_of_def)
    moreover have "mode_chain ''unknown'' (map op_event (mode_events db @ [?row]))"
      using ok appended(2) log
      by (simp add: ops_ok_def mode_chain_append op_row_of_def mode_event_def current_mode_last last_map)
    ultimately show ?thesis using ok eq appended
      by (simp add: ops_ok_def media_ok_def references_ok_def has_segment_def)
  qed (use ok eq in simp_all)
qed

lemma retention_ops_ok: "ops_ok db \<Longrightarrow> ops_ok (snd (AppendRetentionEvent X flt event db))"
proof (cases "AppendRetentionEvent X flt event db")
  case (Pair r db')
  assume ok: "ops_ok db"
  show ?thesis
  proof (cases r)
    case (Inl e)
    then show ?thesis using Pair ok by (auto simp: AppendRetentionEvent_def split: sum.splits)
  next
    case (Inr u)
    then obtain key rows where ins: "insert_op (retention_checks event) (has_segment db (re_MediaSegmentID event)) key event (retention_events db) = Inr rows"
      and db': "db' = db\<lparr>retention_events := rows\<rparr>"
      using Pair by (auto simp: AppendRetentionEvent_def exec_insert_Inr split: sum.splits)
    have "log_ok op_id op_key rows" using ok ins by (auto simp: ops_ok_def intro: insert_op_log_ok)
    moreover have "\<forall>w \<in> set rows. has_segment db (re_MediaSegmentID (op_event w))"
      using ins ok by (cases rule: insert_op_cases) (auto simp: ops_ok_def op_row_of_def)
    ultimately show ?thesis using ok Pair db' by (simp add: ops_ok_def media_ok_def references_ok_def has_segment_def)
  qed
qed

section \<open>Media states\<close>

lemma insert_state_cases:
  assumes "insert_state key segmentID status reason producer at db = Inr rows"
  obtains (present) "rows = state_events db" "key \<in> st_event_key ` set (state_events db)"
  | (new) "key \<notin> st_event_key ` set (state_events db)" "has_segment db segmentID"
      "rows = state_events db @ [state_row_of (key, segmentID, status, reason, producer, at) (next_id st_id (state_events db))]"
  using assms unfolding insert_state_def
  by (rule state_table.insert_cases [of _ _ "(key, segmentID, status, reason, producer, at)", unfolded fst_conv]) (auto intro: that)

lemma insert_state_ok:
  assumes "insert_state key segmentID status reason producer at db = Inr rows" "media_ok db"
  shows "media_ok (db\<lparr>state_events := rows\<rparr>)"
  using assms(1)
proof (cases rule: insert_state_cases)
  case present
  with assms(2) show ?thesis by (simp add: media_ok_def references_ok_def)
next
  case new
  let ?row = "state_row_of (key, segmentID, status, reason, producer, at) (next_id st_id (state_events db))"
  have "log_ok st_id st_event_key (state_events db @ [?row])"
    using assms(2) new(1) by (intro log_ok_snoc) (simp_all add: media_ok_def state_row_of_def)
  moreover have "st_segment ?row \<in> seg_id ` set (segments db)" using new(2) by (simp add: state_row_of_def has_segment_def)
  ultimately show ?thesis using assms(2) new(3) by (auto simp: media_ok_def references_ok_def)
qed

lemma insert_state_projection:
  assumes "insert_state key segmentID status reason producer at db = Inr rows" "media_ok db"
    "segment_proj.current (segment_status db) (state_events db)" "e \<in> set rows" "st_event_key e = key"
  shows "segment_proj.current (segment_status (projectSegment (st_id e) (db\<lparr>state_events := rows\<rparr>))) rows"
proof -
  have ids: "ids_ok st_id rows" using media_ok_ids(3) [OF insert_state_ok [OF assms(1,2)]] by simp
  have "segment_proj.current (segment_proj.apply_row e (segment_status db)) rows"
    using assms(1)
  proof (cases rule: insert_state_cases)
    case present
    with assms ids show ?thesis by (simp add: segment_proj.current_again)
  next
    case new
    have "e \<notin> set (state_events db)" using new(1) assms(5) by (metis imageI)
    with new assms(4) have "rows = state_events db @ [e]" by simp
    with assms(3) ids show ?thesis by (simp add: segment_proj.current_append)
  qed
  with project_segment_status [of "db\<lparr>state_events := rows\<rparr>" e] ids assms(4) show ?thesis by simp
qed

lemma append_state_cases:
  fixes db :: "'z media_db_scheme"
  assumes "AppendMediaState X flt segmentID status reason producer at db = (r, db')"
  obtains (failed) "db' = db"
  | (recorded) key rows e where "insert_state key segmentID status reason producer at db = Inr rows"
      "e \<in> set rows" "st_event_key e = key"
      "db' = db\<lparr>state_events := rows\<rparr> \<and> flt ''update media segment projection'' 0 \<noteq> None \<or> db' = projectSegment (st_id e) (db\<lparr>state_events := rows\<rparr>)"
  | (unread) key rows where "insert_state key segmentID status reason producer at db = Inr rows"
      "flt ''read media state'' 0 \<noteq> None" "db' = db\<lparr>state_events := rows\<rparr>"
proof -
  let ?key = "eventKey X [int_digits segmentID, status, reason, producer, at]"
  show thesis
  proof (cases "exec_insert flt ''append media state'' (insert_state ?key segmentID status reason producer at db)")
    case (Inl e)
    then show thesis using assms by (intro failed) (simp add: AppendMediaState_def Let_def)
  next
    case (Inr rows)
    then have ins: "insert_state ?key segmentID status reason producer at db = Inr rows" by (simp add: exec_insert_Inr)
    then have "?key \<in> st_event_key ` set rows"
      by (cases rule: insert_state_cases) (auto simp: state_row_of_def)
    then obtain e where find: "List.find (\<lambda>e. st_event_key e = ?key) rows = Some e"
      by (cases "List.find (\<lambda>e. st_event_key e = ?key) rows") (auto simp: find_None_iff_all)
    then have e: "e \<in> set rows" "st_event_key e = ?key" by (auto dest: find_SomeD)
    show thesis
    proof (cases "flt ''read media state'' 0")
      case None
      with assms Inr find have "(r, db') = applyMediaSegmentProjection flt (st_id e) (db\<lparr>state_events := rows\<rparr>)"
        by (simp add: AppendMediaState_def Let_def db_call_def)
      then show thesis using ins e
        by (intro recorded [of ?key rows e]) (auto simp: applyMediaSegmentProjection_def db_call_def split: option.splits)
    next
      case (Some f)
      with assms Inr find have "db' = db\<lparr>state_events := rows\<rparr>"
        by (simp add: AppendMediaState_def Let_def db_call_def)
      with Some ins show thesis by (intro unread) simp_all
    qed
  qed
qed

lemma commit_cases:
  fixes db :: "'z ops_db_scheme"
  assumes "CommitRetentionDeletion X flt event db = (r, db')"
  obtains (failed) err where "r = Inl err" "db' = db"
  | (committed) rows states e where "r = Inr ()"
      "insert_op (retention_checks (event\<lparr>re_Status := ''deleted''\<rparr>)) (has_segment db (re_MediaSegmentID event)) (deletion_key X event)
         (event\<lparr>re_Status := ''deleted''\<rparr>) (retention_events db) = Inr rows"
      "insert_state (deleted_state_key X event) (re_MediaSegmentID event) ''retention_deleted'' (re_ReasonCode event)
         ''recorder-core-retention'' (re_OccurredAtUTC event) (db\<lparr>retention_events := rows\<rparr>) = Inr states"
      "e \<in> set states" "st_event_key e = deleted_state_key X event"
      "db' = projectSegment (st_id e) (db\<lparr>retention_events := rows, state_events := states\<rparr>)"
proof (cases r)
  case (Inl err)
  then show thesis using assms by (intro failed) (auto simp: CommitRetentionDeletion_def split: sum.splits)
next
  case (Inr u)
  with assms show thesis
    by (auto simp: CommitRetentionDeletion_def Let_def bind_result_Inr_iff exec_insert_Inr split: sum.splits option.splits
        intro!: committed dest: find_SomeD)
qed

section \<open>The media operations leave the operations tables alone\<close>

lemma more_ops:
  fixes a b :: "'z ops_db_scheme"
  assumes "media_db.more a = media_db.more b"
  shows "fault_events a = fault_events b" "module_events a = module_events b" "mode_events a = mode_events b"
    "retention_events a = retention_events b"
  using assms by (cases a; cases b; simp)+

lemma insert_ingest_more: "insertMediaIngestEvent X flt event db = Inr (i, db') \<Longrightarrow> media_db.more db' = media_db.more db"
  by (erule insert_ingest_cases) simp_all

lemma project_ingest_more: "media_db.more (snd (applyMediaIngestProjection flt i db)) = media_db.more db"
  by (simp add: applyMediaIngestProjection_def split: sum.splits option.splits)

lemma project_segment_more: "media_db.more (projectSegment i db) = media_db.more db"
  by (simp add: projectSegment_def split: option.splits)

lemma apply_segment_more: "media_db.more (snd (applyMediaSegmentProjection flt i db)) = media_db.more db"
  by (simp add: applyMediaSegmentProjection_def project_segment_more split: sum.splits)

lemma accept_tx_more:
  "acceptTx X flt metadata event key db = Inr (claim, Some (i, j, db')) \<Longrightarrow> media_db.more db' = media_db.more db"
  by (auto simp: acceptTx_def bind_result_Inr_iff with_segment_def dest!: insert_ingest_more elim!: accepted_segment_cases split: if_splits)

lemma accept_more: "media_db.more (snd (AcceptMedia X flt metadata event key db)) = media_db.more db"
proof (cases "acceptTx X flt metadata event key db")
  case (Inr p)
  show ?thesis
  proof (cases "snd p")
    case None
    then show ?thesis using Inr by (cases p) (simp add: AcceptMedia_def)
  next
    case (Some q)
    obtain i j db1 where p: "p = (fst p, Some (i, j, db1))" using Some by (metis prod.collapse)
    then have "media_db.more db1 = media_db.more db" using Inr accept_tx_more by metis
    moreover have "snd (AcceptMedia X flt metadata event key db) \<in>
        {snd (applyMediaIngestProjection flt i db1), snd (applyMediaSegmentProjection flt j (snd (applyMediaIngestProjection flt i db1)))}"
      using Inr p by (subst (asm) p) (auto simp: AcceptMedia_def split: prod.splits sum.splits)
    ultimately show ?thesis by (elim insertE) (simp_all add: apply_segment_more project_ingest_more)
  qed
qed (simp add: AcceptMedia_def)

lemma append_ingest_more: "media_db.more (snd (AppendMediaIngestEvent X flt event db)) = media_db.more db"
proof (cases "AppendMediaIngestEvent X flt event db")
  case (Pair r db')
  then show ?thesis
  proof (cases rule: append_ingest_cases)
    case (appended i db1)
    then show ?thesis using insert_ingest_more [OF appended(1)] project_ingest_more [of flt i db1] Pair by simp
  qed (use Pair in simp)
qed

lemma rebuild_more: "media_db.more (snd (RebuildMediaProjections flt db)) = media_db.more db"
  by (simp add: RebuildMediaProjections_def split: sum.splits)

lemma save_check_more: "media_db.more (snd (SaveMediaFileCheck flt k kind sig at db)) = media_db.more db"
  by (simp add: SaveMediaFileCheck_def split: sum.splits)

lemma append_state_more: "media_db.more (snd (AppendMediaState X flt i st r p at db)) = media_db.more db"
  by (simp add: AppendMediaState_def Let_def apply_segment_more split: sum.splits)

text \<open>Segments are never removed.\<close>

definition keeps_segments :: "'z media_db_scheme \<Rightarrow> 'z media_db_scheme \<Rightarrow> bool" where
  "keeps_segments db db' \<longleftrightarrow> set (segments db) \<subseteq> set (segments db')"

lemma media_op_ops_ok:
  fixes db :: "'z ops_db_scheme"
  assumes "ops_ok db" "media_ok db'" "media_db.more db' = media_db.more db" "keeps_segments db db'"
  shows "ops_ok db'"
  using assms more_ops [OF assms(3)] by (simp add: ops_ok_def keeps_segments_def has_segment_def) (meson image_mono subsetD)

lemma save_check_facts: "same_facts db (snd (SaveMediaFileCheck flt k kind sig at db))"
  by (simp add: SaveMediaFileCheck_def same_facts_def split: sum.splits)

lemma same_facts_keeps: "same_facts db db' \<Longrightarrow> keeps_segments db db'"
  by (simp add: same_facts_def keeps_segments_def)

lemma append_ingest_keeps: "keeps_segments db (snd (AppendMediaIngestEvent X flt event db))"
proof (cases "AppendMediaIngestEvent X flt event db")
  case (Pair r db')
  then show ?thesis
  proof (cases rule: append_ingest_cases)
    case (appended i db1)
    then show ?thesis using insert_ingest_others [OF appended(1)] apply_ingest_facts [of db1 flt i] Pair
      by (simp add: keeps_segments_def same_facts_def)
  qed (use Pair in \<open>simp add: keeps_segments_def\<close>)
qed

lemma accept_keeps: "media_ok db \<Longrightarrow> keeps_segments db (snd (AcceptMedia X flt metadata event key db))"
proof -
  assume ok: "media_ok db"
  obtain claim err db' where eq: "AcceptMedia X flt metadata event key db = ((claim, err), db')" by (metis surj_pair)
  from accept_outcome [OF ok eq] show ?thesis using eq by (auto simp: keeps_segments_def)
qed

lemma append_state_media_ok:
  assumes "media_ok db"
  shows "media_ok (snd (AppendMediaState X flt i st r p at db)) \<and> keeps_segments db (snd (AppendMediaState X flt i st r p at db))"
proof (cases "AppendMediaState X flt i st r p at db")
  case (Pair res db')
  then show ?thesis
  proof (cases rule: append_state_cases)
    case failed
    with assms Pair show ?thesis by (simp add: keeps_segments_def)
  next
    case (recorded key rows e)
    have "same_facts (db\<lparr>state_events := rows\<rparr>) db'"
      using recorded(4) project_segment_facts [of "db\<lparr>state_events := rows\<rparr>" "st_id e"] by (elim disjE) (simp_all add: same_facts_def)
    with insert_state_ok [OF recorded(1) assms] Pair show ?thesis
      by (simp add: same_facts_media_ok) (simp add: keeps_segments_def same_facts_def)
  next
    case (unread key rows)
    with insert_state_ok [OF unread(1) assms] Pair show ?thesis by (simp add: keeps_segments_def)
  qed
qed

lemma commit_ops_ok: "ops_ok db \<Longrightarrow> ops_ok (snd (CommitRetentionDeletion X flt event db))"
proof (cases "CommitRetentionDeletion X flt event db")
  case (Pair r db')
  assume ok: "ops_ok db"
  from Pair show ?thesis
  proof (cases rule: commit_cases)
    case (committed rows states e)
    let ?db1 = "db\<lparr>retention_events := rows\<rparr>"
    have ok1: "ops_ok ?db1"
    proof -
      have "log_ok op_id op_key rows" using ok committed(2) by (auto simp: ops_ok_def intro: insert_op_log_ok)
      moreover have "\<forall>w \<in> set rows. has_segment db (re_MediaSegmentID (op_event w))"
        using committed(2) ok by (cases rule: insert_op_cases) (auto simp: ops_ok_def op_row_of_def)
      ultimately show ?thesis using ok by (simp add: ops_ok_def media_ok_def references_ok_def has_segment_def)
    qed
    have "media_ok (?db1\<lparr>state_events := states\<rparr>)" using insert_state_ok [OF committed(3)] ok1 by (simp add: ops_ok_def)
    moreover have f: "same_facts (?db1\<lparr>state_events := states\<rparr>) db'" using committed(6) project_segment_facts by blast
    ultimately have "media_ok db'" by (simp add: same_facts_media_ok)
    moreover have "media_db.more db' = media_db.more ?db1" using committed(6) project_segment_more [of "st_id e" "?db1\<lparr>state_events := states\<rparr>"] by simp
    moreover have "keeps_segments ?db1 db'" using f by (simp add: keeps_segments_def same_facts_def)
    ultimately show ?thesis using media_op_ops_ok [OF ok1] Pair by simp
  qed (use ok Pair in simp)
qed

section \<open>Histories of the store\<close>

text \<open>
  Every operation that changes the media and operations tables, under fault plans that satisfy
  \<open>ok\<close>; the tables change in no other way.
\<close>

inductive store_step :: "ext \<Rightarrow> (faults \<Rightarrow> bool) \<Rightarrow> ops_db \<Rightarrow> ops_db \<Rightarrow> bool" for X ok where
  step_ingest: "ok flt \<Longrightarrow> store_step X ok db (snd (AppendMediaIngestEvent X flt event db))"
| step_accept: "ok flt \<Longrightarrow> store_step X ok db (snd (AcceptMedia X flt metadata event key db))"
| step_rebuild: "ok flt \<Longrightarrow> store_step X ok db (snd (RebuildMediaProjections flt db))"
| step_check: "ok flt \<Longrightarrow> store_step X ok db (snd (SaveMediaFileCheck flt ingestKey kind signature at db))"
| step_state: "ok flt \<Longrightarrow> store_step X ok db (snd (AppendMediaState X flt segmentID status reason producer at db))"
| step_fault: "ok flt \<Longrightarrow> store_step X ok db (snd (AppendFaultEvent X flt fault_event db))"
| step_module: "ok flt \<Longrightarrow> store_step X ok db (snd (AppendModuleStateEvent X flt module_event db))"
| step_mode: "ok flt \<Longrightarrow> store_step X ok db (snd (AppendModeTransition X flt newMode operator trigger reason at db))"
| step_retention: "ok flt \<Longrightarrow> store_step X ok db (snd (AppendRetentionEvent X flt retention_event db))"
| step_commit: "ok flt \<Longrightarrow> store_step X ok db (snd (CommitRetentionDeletion X flt retention_event db))"

definition empty_store :: ops_db where
  "empty_store = \<lparr>segments = [], ingest_events = [], state_events = [], ingest_status = [], segment_status = [], file_checks = [],
     fault_events = [], module_events = [], mode_events = [], retention_events = []\<rparr>"

inductive store_reachable :: "ext \<Rightarrow> (faults \<Rightarrow> bool) \<Rightarrow> ops_db \<Rightarrow> bool" for X ok where
  start: "store_reachable X ok empty_store"
| further: "store_reachable X ok db \<Longrightarrow> store_step X ok db db' \<Longrightarrow> store_reachable X ok db'"

definition any_faults :: "faults \<Rightarrow> bool" where "any_faults flt \<longleftrightarrow> True"

text \<open>No fault between a committed fact and its projection.\<close>

definition projections_work :: "faults \<Rightarrow> bool" where
  "projections_work flt \<longleftrightarrow> flt ''update media ingest projection'' 0 = None \<and> flt ''update media segment projection'' 0 = None
     \<and> flt ''read media state'' 0 = None"

lemma ops_ok_media: "ops_ok db \<Longrightarrow> media_ok db"
  by (simp add: ops_ok_def)

lemma rebuild_media_ok: "media_ok db \<Longrightarrow> media_ok (snd (RebuildMediaProjections flt db))"
  by (simp add: same_facts_media_ok [OF rebuild_facts])

lemma save_check_media_ok: "media_ok db \<Longrightarrow> media_ok (snd (SaveMediaFileCheck flt k kind sig at db))"
  by (simp add: same_facts_media_ok [OF save_check_facts])

lemma media_ops_ok:
  assumes "ops_ok db"
  shows "ops_ok (snd (AppendMediaIngestEvent X flt event db))" "ops_ok (snd (AcceptMedia X flt metadata event key db))"
    "ops_ok (snd (RebuildMediaProjections flt db))" "ops_ok (snd (SaveMediaFileCheck flt ingestKey kind signature at db))"
    "ops_ok (snd (AppendMediaState X flt segmentID status reason producer at db))"
  by (rule media_op_ops_ok [OF assms]; simp add: ops_ok_media [OF assms] append_ingest_media_ok append_ingest_more append_ingest_keeps
      accept_media_ok accept_more accept_keeps rebuild_media_ok rebuild_more same_facts_keeps [OF rebuild_facts]
      save_check_media_ok save_check_more same_facts_keeps [OF save_check_facts] append_state_media_ok append_state_more)+

lemmas ops_op_lemmas = media_ops_ok fault_ops_ok module_ops_ok mode_ops_ok retention_ops_ok commit_ops_ok

lemma step_ops_ok: "store_step X ok db db' \<Longrightarrow> ops_ok db \<Longrightarrow> ops_ok db'"
  by (induction rule: store_step.induct) (rule ops_op_lemmas, assumption)+

lemma empty_store_ok: "ops_ok empty_store" "projections_ok empty_store"
  by (simp_all add: ops_ok_def empty_store_def media_ok_def references_ok_def log_ok_Nil projections_ok_def
      ingest_proj.current_def segment_proj.current_def latest_def row_at_def)

lemma reachable_ops_ok: "store_reachable X ok db \<Longrightarrow> ops_ok db"
  by (induction rule: store_reachable.induct) (auto intro: empty_store_ok step_ops_ok)

section \<open>Projections along histories\<close>

lemma project_segment_ingest: "ingest_status (projectSegment i db) = ingest_status db"
  by (simp add: projectSegment_def split: option.splits)

lemma append_state_projections:
  assumes "media_ok db" "projections_ok db" "projections_work flt"
  shows "projections_ok (snd (AppendMediaState X flt i st r p at db))"
proof (cases "AppendMediaState X flt i st r p at db")
  case (Pair res db')
  from Pair show ?thesis
  proof (cases rule: append_state_cases)
    case failed
    with assms Pair show ?thesis by simp
  next
    case (recorded key rows e)
    then have db': "db' = projectSegment (st_id e) (db\<lparr>state_events := rows\<rparr>)" using assms(3) by (simp add: projections_work_def)
    have "segment_proj.current (segment_status db') rows"
      using insert_state_projection [OF recorded(1) assms(1) _ recorded(2,3)] assms(2) db' by (simp add: projections_ok_def)
    moreover have "same_facts (db\<lparr>state_events := rows\<rparr>) db'" "ingest_status db' = ingest_status db"
      using db' by (simp_all add: project_segment_facts project_segment_ingest)
    ultimately show ?thesis using assms(2) Pair by (simp add: projections_ok_def same_facts_def)
  next
    case (unread key rows)
    with assms(3) show ?thesis by (simp add: projections_work_def)
  qed
qed

lemma commit_projections:
  assumes "ops_ok db" "projections_ok db"
  shows "projections_ok (snd (CommitRetentionDeletion X flt event db))"
proof (cases "CommitRetentionDeletion X flt event db")
  case (Pair r db')
  from Pair show ?thesis
  proof (cases rule: commit_cases)
    case (failed err)
    with assms Pair show ?thesis by simp
  next
    case (committed rows states e)
    let ?db1 = "db\<lparr>retention_events := rows\<rparr>"
    have "media_ok ?db1" using assms(1) by (simp add: ops_ok_def media_ok_def references_ok_def)
    then have "segment_proj.current (segment_status db') states"
      using insert_state_projection [OF committed(3) _ _ committed(4,5)] assms(2) committed(6)
      by (simp add: projections_ok_def)
    moreover have "same_facts (?db1\<lparr>state_events := states\<rparr>) db'" "ingest_status db' = ingest_status db"
      using committed(6) by (simp_all add: project_segment_facts project_segment_ingest)
    ultimately show ?thesis using assms(2) Pair by (simp add: projections_ok_def same_facts_def)
  qed
qed

definition same_media :: "'z media_db_scheme \<Rightarrow> 'z media_db_scheme \<Rightarrow> bool" where
  "same_media db db' \<longleftrightarrow> same_facts db db' \<and> ingest_status db' = ingest_status db \<and> segment_status db' = segment_status db"

lemma same_media_projections: "same_media db db' \<Longrightarrow> projections_ok db \<Longrightarrow> projections_ok db'"
  by (simp add: same_media_def same_facts_def projections_ok_def)

lemma ops_same_media:
  "same_media db (snd (AppendFaultEvent X flt fe db))" "same_media db (snd (AppendModuleStateEvent X flt me db))"
  "same_media db (snd (AppendModeTransition X flt m op tr rs at db))" "same_media db (snd (AppendRetentionEvent X flt re db))"
  "same_media db (snd (SaveMediaFileCheck flt k kind sig at db))"
  by (simp_all add: same_media_def same_facts_def AppendFaultEvent_def AppendModuleStateEvent_def AppendModeTransition_def
      AppendRetentionEvent_def SaveMediaFileCheck_def split: sum.splits)

lemma rebuild_keeps_projections: "media_ok db \<Longrightarrow> projections_ok db \<Longrightarrow> projections_ok (snd (RebuildMediaProjections flt db))"
  using rebuild_projections rebuild_failed by (metis sum.exhaust prod.collapse)

lemma step_projections:
  "store_step X ok db db' \<Longrightarrow> (\<And>flt. ok flt \<Longrightarrow> projections_work flt) \<Longrightarrow> ops_ok db \<Longrightarrow> projections_ok db \<Longrightarrow> projections_ok db'"
proof (induction rule: store_step.induct)
  case (step_ingest flt db event)
  then have "projections_work flt" by blast
  with step_ingest show ?case by (intro append_ingest_projections) (auto simp: projections_work_def ops_ok_media)
next
  case (step_accept flt db metadata event key)
  then have "projections_work flt" by blast
  with step_accept show ?case by (intro accept_projections) (auto simp: projections_work_def ops_ok_media)
next
  case (step_rebuild flt db)
  then show ?case by (intro rebuild_keeps_projections) (simp_all add: ops_ok_media)
next
  case (step_state flt db segmentID status reason producer at)
  then show ?case by (intro append_state_projections) (simp_all add: ops_ok_media)
next
  case (step_commit flt db retention_event)
  then show ?case by (intro commit_projections)
qed (rule same_media_projections, rule ops_same_media, assumption)+

lemma reachable_projections: "store_reachable X projections_work db \<Longrightarrow> projections_ok db"
  by (induction rule: store_reachable.induct)
     (auto intro: empty_store_ok dest: step_projections reachable_ops_ok)

section \<open>Properties\<close>

text \<open>
  C31: The invariant of the store.  After any history of media and operations calls, each possibly
  failing at any database statement: ids grow and event keys are unique in every fact table, no two
  segments share a source or a content hash, every reference points at a stored segment and every
  segment has a state, and the mode transitions form a chain from \<^verbatim>\<open>unknown\<close> in which each
  transition leaves the current mode for a different one.
\<close>

theorem store_history_invariant:
  assumes "store_reachable X any_faults db"
  shows "log_ok seg_id source_of (segments db) \<and> distinct (map (mm_SHA256 \<circ> seg_data) (segments db))
    \<and> log_ok ing_id ing_event_key (ingest_events db) \<and> log_ok st_id st_event_key (state_events db)
    \<and> log_ok op_id op_key (fault_events db) \<and> log_ok op_id op_key (module_events db)
    \<and> log_ok op_id op_key (mode_events db) \<and> log_ok op_id op_key (retention_events db)
    \<and> st_segment ` set (state_events db) = seg_id ` set (segments db)
    \<and> (\<forall>e \<in> set (ingest_events db). \<forall>i. ing_segment e = Some i \<longrightarrow> i \<in> seg_id ` set (segments db))
    \<and> (\<forall>w \<in> set (retention_events db). re_MediaSegmentID (op_event w) \<in> seg_id ` set (segments db))
    \<and> mode_chain ''unknown'' (map op_event (mode_events db))"
proof -
  have "ops_ok db" using assms by (rule reachable_ops_ok)
  then show ?thesis
    by (simp add: ops_ok_def media_ok_def references_ok_def has_segment_def content_of_def [abs_def] comp_def)
qed

definition sample_store :: ops_db where
  "sample_store = snd (AppendModeTransition sample_ext no_faults ''minimum'' ''operator'' ''start'' ''BOOT'' ''2024-01-01T00:02:00Z'' empty_store)"

lemma sample_store_reachable: "store_reachable sample_ext any_faults sample_store" "store_reachable sample_ext projections_work sample_store"
  unfolding sample_store_def
  by (rule store_reachable.further [OF store_reachable.start store_step.step_mode],
      simp add: any_faults_def projections_work_def no_faults_def)+

theorem store_history_invariant_witness:
  "mode_chain ''unknown'' (map op_event (mode_events sample_store))"
  using store_history_invariant [OF sample_store_reachable(1)] by simp

text \<open>
  C32: Incremental upkeep equals a rebuild.  In every history in which no fault hits between a
  committed media fact and its projection, rebuilding the status tables from the facts yields the
  rows they already hold.
\<close>

theorem projection_rebuild_equivalence:
  assumes "store_reachable X projections_work db" "RebuildMediaProjections flt db = (Inr (), db')"
  shows "set (ingest_status db') = set (ingest_status db) \<and> set (segment_status db') = set (segment_status db)
    \<and> segments db' = segments db \<and> ingest_events db' = ingest_events db \<and> state_events db' = state_events db"
proof -
  have ok: "media_ok db" using assms(1) by (rule ops_ok_media [OF reachable_ops_ok])
  have cur: "projections_ok db" using assms(1) by (rule reachable_projections)
  note re = rebuild_projections [OF ok assms(2)]
  have "set (ingest_status db') = set (ingest_status db)"
    using re cur media_ok_ids(2) [OF ok] by (intro ingest_proj.current_unique [of _ "ingest_events db"]) (simp_all add: projections_ok_def same_facts_def)
  moreover have "set (segment_status db') = set (segment_status db)"
    using re cur media_ok_ids(3) [OF ok] by (intro segment_proj.current_unique [of _ "state_events db"]) (simp_all add: projections_ok_def same_facts_def)
  ultimately show ?thesis using re(2) by (simp add: same_facts_def)
qed

theorem projection_rebuild_equivalence_witness:
  "set (ingest_status (snd (RebuildMediaProjections no_faults sample_store))) = set (ingest_status sample_store)"
proof -
  have "RebuildMediaProjections no_faults sample_store = (Inr (), snd (RebuildMediaProjections no_faults sample_store))"
    by (simp add: RebuildMediaProjections_def)
  from projection_rebuild_equivalence [OF sample_store_reachable(2) this] show ?thesis by simp
qed

text \<open>
  A retention deletion can be committed again.  Once a deletion has been committed, committing it
  a second time -- at any later time and whatever fails -- adds no retention event and no media state
  and leaves the status rows as they are.
\<close>

theorem retention_commit_retry:
  assumes "ops_ok db" "projections_ok db" "CommitRetentionDeletion X flt event db = (Inr (), db')"
    "CommitRetentionDeletion X flt' (event\<lparr>re_OccurredAtUTC := at\<rparr>) db' = (r, db'')"
  shows "retention_events db'' = retention_events db' \<and> state_events db'' = state_events db'
    \<and> set (segment_status db'') = set (segment_status db')"
proof -
  have ok: "ops_ok db'" using commit_ops_ok [OF assms(1), of X flt event] assms(3) by simp
  have cur: "projections_ok db'" using commit_projections [OF assms(1,2), of X flt event] assms(3) by simp
  have cur2: "projections_ok db''" using commit_projections [OF ok cur, of X flt'] assms(4) by (metis snd_conv)
  have keys: "deletion_key X event \<in> op_key ` set (retention_events db')" "deleted_state_key X event \<in> st_event_key ` set (state_events db')"
    using assms(3) by (rule commit_cases; force simp: op_row_of_def project_segment_facts [unfolded same_facts_def] more_ops [OF project_segment_more]
      elim: insert_op_cases)+
  have "retention_events db'' = retention_events db' \<and> state_events db'' = state_events db'"
    using assms(4)
  proof (cases rule: commit_cases)
    case (committed rows states e)
    have "rows = retention_events db'"
      using committed(2) keys(1) by (cases rule: insert_op_cases) (simp_all add: deletion_key_def)
    moreover have "states = state_events db'"
      using committed(3) keys(2) by (cases rule: insert_state_cases) (simp_all add: deleted_state_key_def)
    ultimately show ?thesis
      using committed(6) project_segment_facts [of "db'\<lparr>retention_events := rows, state_events := states\<rparr>" "st_id e"]
        more_ops [OF project_segment_more [of "st_id e" "db'\<lparr>retention_events := rows, state_events := states\<rparr>"]]
      by (simp add: same_facts_def)
  qed simp
  moreover have "set (segment_status db'') = set (segment_status db')"
    using cur cur2 calculation media_ok_ids(3) [OF ops_ok_media [OF ok]]
    by (intro segment_proj.current_unique [of _ "state_events db'"]) (simp_all add: projections_ok_def)
  ultimately show ?thesis by simp
qed

definition sample_digest :: ext where
  "sample_digest = \<lparr>sha256_hex = (\<lambda>s. replicate 64 (if CHR ''_'' \<in> set s then CHR ''a'' else CHR ''b'')), json_valid = (\<lambda>s. True)\<rparr>"

definition sample_segment_store :: ops_db where
  "sample_segment_store = snd (AcceptMedia sample_digest no_faults sample_metadata sample_ingest (replicate 64 CHR ''f'') empty_store)"

definition sample_deletion :: RetentionEvent where
  "sample_deletion = \<lparr>re_MediaSegmentID = 1, re_Status = ''deleted'', re_ReasonCode = ''RETENTION_POLICY'',
     re_ManagedRelativePath = ''media/clip-1.mp4'', re_OccurredAtUTC = ''2024-02-01T00:00:00Z''\<rparr>"

definition sample_deleted_store :: ops_db where
  "sample_deleted_store = snd (CommitRetentionDeletion sample_digest no_faults sample_deletion sample_segment_store)"

definition sample_restored_store :: ops_db where
  "sample_restored_store =
     snd (AppendMediaState sample_digest no_faults 1 ''restored'' [] ''operator'' ''2024-03-01T00:00:00Z'' sample_deleted_store)"

lemma sample_segment_store_segments: "segments sample_segment_store = [new_segment sample_metadata empty_store]"
  "state_events sample_segment_store = [new_state sample_metadata (replicate 64 CHR ''f'') empty_store]"
  "retention_events sample_segment_store = []"
proof -
  have "ingest_checks (sample_ingest\<lparr>ie_Status := ''accepted'', ie_MediaSegmentID := 1\<rparr>) (replicate 64 CHR ''b'')"
    "CHR ''_'' \<notin> set (ie_EventKey sample_ingest @ [char_of (0 :: nat)] @ int_digits 0)" by code_simp+
  then show "segments sample_segment_store = [new_segment sample_metadata empty_store]"
    "state_events sample_segment_store = [new_state sample_metadata (replicate 64 CHR ''f'') empty_store]"
    "retention_events sample_segment_store = []"
    using sample_media_checks
    by (simp_all add: sample_segment_store_def AcceptMedia_def acceptTx_def resolveMediaClaim_def first_by_id_def empty_store_def acceptedSegment_def noClaim_def
        insertSegment_def insertAcceptedState_def next_id_def insertMediaIngestEvent_def latest_def transitionKey_def sample_digest_def
        keyed_insert_def ingest_row_of_def accepted_claim_def Let_def applyMediaIngestProjection_def applyMediaSegmentProjection_def
        projectSegment_def new_segment_def new_state_def)
qed

lemma sample_store_histories:
  "store_reachable sample_digest projections_work sample_segment_store"
  "store_reachable sample_digest projections_work sample_deleted_store"
  "store_reachable sample_digest projections_work sample_restored_store"
proof -
  have ok: "projections_work no_faults" by (simp add: projections_work_def no_faults_def)
  show *: "store_reachable sample_digest projections_work sample_segment_store"
    unfolding sample_segment_store_def by (rule store_reachable.further [OF store_reachable.start store_step.step_accept [where ok = projections_work and flt = no_faults, OF ok]])
  show *: "store_reachable sample_digest projections_work sample_deleted_store"
    unfolding sample_deleted_store_def by (rule store_reachable.further [OF * store_step.step_commit [where ok = projections_work and flt = no_faults, OF ok]])
  show "store_reachable sample_digest projections_work sample_restored_store"
    unfolding sample_restored_store_def by (rule store_reachable.further [OF * store_step.step_state [where ok = projections_work and flt = no_faults, OF ok]])
qed

lemma sample_deletion_checks: "retention_checks (sample_deletion\<lparr>re_Status := ''deleted''\<rparr>)"
  "sql_length (replicate 64 CHR ''a'') = 64" "state_checks (replicate 64 CHR ''a'') ''retention_deleted'' ''RETENTION_POLICY'' ''recorder-core-retention''"
  by code_simp+

lemma sample_keys: "deletion_key sample_digest sample_deletion = replicate 64 CHR ''a''"
  "deleted_state_key sample_digest sample_deletion = replicate 64 CHR ''a''"
  by code_simp+

text \<open>Without faults a well-formed deletion of a stored segment commits.\<close>

lemma commit_total:
  assumes "has_segment db (re_MediaSegmentID event)" "retention_checks (event\<lparr>re_Status := ''deleted''\<rparr>)"
    "sql_length (deletion_key X event) = 64"
    "state_checks (deleted_state_key X event) ''retention_deleted'' (re_ReasonCode event) ''recorder-core-retention''"
  shows "fst (CommitRetentionDeletion X no_faults event db) = Inr ()"
proof -
  obtain rows where rows: "insert_op (retention_checks (event\<lparr>re_Status := ''deleted''\<rparr>)) (has_segment db (re_MediaSegmentID event)) (deletion_key X event)
         (event\<lparr>re_Status := ''deleted''\<rparr>) (retention_events db) = Inr rows"
    using assms by (cases "list_ex (\<lambda>w. op_key w = deletion_key X event) (retention_events db)") (simp_all add: insert_op_def keyed_insert_def)
  obtain states where states: "insert_state (deleted_state_key X event) (re_MediaSegmentID event) ''retention_deleted'' (re_ReasonCode event)
         ''recorder-core-retention'' (re_OccurredAtUTC event) (db\<lparr>retention_events := rows\<rparr>) = Inr states"
    using assms by (cases "list_ex (\<lambda>w. st_event_key w = deleted_state_key X event) (state_events db)") (simp_all add: insert_state_def keyed_insert_def has_segment_def)
  then have "deleted_state_key X event \<in> st_event_key ` set states"
    by (cases rule: insert_state_cases) (auto simp: state_row_of_def)
  then obtain e where "List.find (\<lambda>e. st_event_key e = deleted_state_key X event) states = Some e"
    by (cases "List.find (\<lambda>e. st_event_key e = deleted_state_key X event) states") (auto simp: find_None_iff_all)
  with rows states show ?thesis by (simp add: CommitRetentionDeletion_def Let_def exec_insert_def)
qed

lemma sample_deletion_fields: "re_MediaSegmentID sample_deletion = 1" "re_ReasonCode sample_deletion = ''RETENTION_POLICY''"
  "re_OccurredAtUTC sample_deletion = ''2024-02-01T00:00:00Z''"
  by (simp_all add: sample_deletion_def)

lemma sample_commits: "has_segment db 1 \<Longrightarrow> fst (CommitRetentionDeletion sample_digest no_faults sample_deletion db) = Inr ()"
  using sample_deletion_checks by (intro commit_total) (simp_all add: sample_keys sample_deletion_fields)

lemma sample_commit: "CommitRetentionDeletion sample_digest no_faults sample_deletion sample_segment_store = (Inr (), sample_deleted_store)"
proof -
  have "has_segment sample_segment_store 1"
    by (simp add: has_segment_def sample_segment_store_segments new_segment_def empty_store_def next_id_def)
  from sample_commits [OF this] show ?thesis by (simp add: prod_eq_iff sample_deleted_store_def)
qed

theorem retention_commit_retry_witness:
  "state_events (snd (CommitRetentionDeletion sample_digest no_faults (sample_deletion\<lparr>re_OccurredAtUTC := ''2024-02-02T00:00:00Z''\<rparr>)
     sample_deleted_store)) = state_events sample_deleted_store"
proof -
  obtain r db where r: "CommitRetentionDeletion sample_digest no_faults (sample_deletion\<lparr>re_OccurredAtUTC := ''2024-02-02T00:00:00Z''\<rparr>)
      sample_deleted_store = (r, db)" by fastforce
  from retention_commit_retry [OF reachable_ops_ok reachable_projections sample_commit r, OF sample_store_histories(1,1)] r
  show ?thesis by simp
qed

text \<open>
  C33: A second deletion is not recorded.  The key of the state \<^verbatim>\<open>retention_deleted\<close> does not depend
  on the time, so when a segment has been deleted before and has a newer state since (it was
  restored), committing its next deletion succeeds without appending a state: the store goes on
  reporting the newer state for a file that is gone.
\<close>

theorem retention_second_deletion_unrecorded:
  assumes "ops_ok db" "projections_ok db"
    "e \<in> set (state_events db)" "st_event_key e = deleted_state_key X event"
    "CommitRetentionDeletion X flt event db = (Inr (), db')"
  shows "state_events db' = state_events db \<and> row_at ss_segment (segment_status db') i = row_at ss_segment (segment_status db) i"
proof -
  have cur': "projections_ok db'" using commit_projections [OF assms(1,2), of X flt event] assms(5) by simp
  have "state_events db' = state_events db"
    using assms(5)
  proof (cases rule: commit_cases)
    case (committed rows states e')
    have "states = state_events db"
      using committed(3) assms(3) assms(4) [symmetric] by (cases rule: insert_state_cases) auto
    then show ?thesis
      using committed(6) project_segment_facts [of "db\<lparr>retention_events := rows, state_events := states\<rparr>" "st_id e'"] by (simp add: same_facts_def)
  qed simp
  with assms(2) cur' show ?thesis by (simp add: projections_ok_def segment_proj.current_def)
qed

lemma append_state_extends:
  "set (state_events db) \<subseteq> set (state_events (snd (AppendMediaState X flt i st r p at db)))
   \<and> segments (snd (AppendMediaState X flt i st r p at db)) = segments db"
proof (cases "AppendMediaState X flt i st r p at db")
  case (Pair res db')
  have grows: "insert_state key i st r p at db = Inr rows \<Longrightarrow> set (state_events db) \<subseteq> set rows" for key rows
    by (erule insert_state_cases) auto
  from Pair show ?thesis
  proof (cases rule: append_state_cases)
    case (recorded key rows e)
    with grows Pair show ?thesis
      using project_segment_facts [of "db\<lparr>state_events := rows\<rparr>" "st_id e"] by (elim disjE) (auto simp: same_facts_def)
  qed (use grows Pair in auto)
qed

lemma commit_leaves_state:
  assumes "CommitRetentionDeletion X flt event db = (Inr (), db')"
  shows "\<exists>e \<in> set (state_events db'). st_event_key e = deleted_state_key X event" "segments db' = segments db"
  using assms by (rule commit_cases; auto simp: project_segment_facts [unfolded same_facts_def])+

theorem retention_second_deletion_unrecorded_witness:
  "state_events (snd (CommitRetentionDeletion sample_digest no_faults sample_deletion sample_restored_store)) = state_events sample_restored_store"
proof -
  obtain e where "e \<in> set (state_events sample_deleted_store)" and key: "st_event_key e = deleted_state_key sample_digest sample_deletion"
    using commit_leaves_state(1) [OF sample_commit] by blast
  then have e: "e \<in> set (state_events sample_restored_store)"
    using append_state_extends [of sample_deleted_store] unfolding sample_restored_store_def by blast
  have "segments sample_restored_store = segments sample_segment_store"
    using append_state_extends [of sample_deleted_store] commit_leaves_state(2) [OF sample_commit] by (simp add: sample_restored_store_def)
  then have "has_segment sample_restored_store 1"
    by (simp add: has_segment_def sample_segment_store_segments new_segment_def empty_store_def next_id_def)
  from sample_commits [OF this] obtain db' where c: "CommitRetentionDeletion sample_digest no_faults sample_deletion sample_restored_store = (Inr (), db')"
    by (metis prod.collapse)
  from retention_second_deletion_unrecorded [OF reachable_ops_ok reachable_projections e key c, OF sample_store_histories(3,3)] c
  show ?thesis by simp
qed

section \<open>Candidates and the dashboard\<close>

interpretation module_latest: projection op_id module_of id module_of op_id
  by unfold_locales simp_all

text \<open>
  C34: What retention may delete.  With current status tables, the candidates are stored segments
  whose latest state is \<^verbatim>\<open>accepted\<close> or \<^verbatim>\<open>restored\<close> and whose creation time is textually before the
  cutoff, oldest first, without repetition, and no more than a non-negative limit.
\<close>

theorem retention_candidates_sound:
  assumes "ops_ok db" "projections_ok db" "RetentionCandidates flt cutoff limit db = Inr cs"
  shows "(\<forall>c \<in> set cs. \<exists>w \<in> set (segments db). c = candidate_of w \<and> seg_created_at w < cutoff
      \<and> (\<exists>e. latest st_id (\<lambda>e. st_segment e = seg_id w) (state_events db) = Some e \<and> st_status e \<in> {''accepted'', ''restored''}))
    \<and> distinct (map rc_MediaSegmentID cs) \<and> sorted (map rc_CreatedAtUTC cs) \<and> (limit \<ge> 0 \<longrightarrow> int (length cs) \<le> limit)"
proof -
  let ?f = "filter (\<lambda>w. present db w \<and> seg_created_at w < cutoff) (segments db)"
  let ?s = "sort_key (\<lambda>w. (seg_created_at w, seg_id w)) ?f"
  have cs: "cs = map candidate_of (sql_limit limit ?s)"
    using assms(3) by (auto simp: RetentionCandidates_def candidate_rows_def bind_result_Inr_iff)
  obtain n where lim: "sql_limit limit ?s = take n ?s" "limit \<ge> 0 \<longrightarrow> int n = limit"
    by (cases "limit < 0") (auto simp: sql_limit_def intro: that [of "length ?s"] that [of "nat limit"])
  have ids: "distinct (map seg_id (segments db))"
    using assms(1) by (auto simp: ops_ok_def media_ok_def log_ok_def strict_sorted_iff)
  have latest: "\<exists>e. latest st_id (\<lambda>e. st_segment e = seg_id w) (state_events db) = Some e \<and> st_status e \<in> {''accepted'', ''restored''}"
    if "present db w" for w
    using that assms(2)
    by (auto simp: present_def segment_status_of_def projections_ok_def segment_proj.current_def segment_projection_def)
  have "\<forall>c \<in> set cs. \<exists>w \<in> set ?f. c = candidate_of w" using cs lim set_take_subset [of n ?s] by auto
  moreover have "distinct (map rc_MediaSegmentID cs)"
  proof -
    have "distinct (map seg_id ?s)" using ids by (simp add: distinct_map inj_on_def)
    then show ?thesis unfolding cs lim by (simp add: comp_def candidate_of_def take_map [symmetric])
  qed
  moreover have "sorted (map rc_CreatedAtUTC cs)"
  proof -
    have "sorted (map (\<lambda>w. (seg_created_at w, seg_id w)) ?s)" by simp
    then have "sorted_wrt (\<lambda>v w. seg_created_at v \<le> seg_created_at w) ?s"
      unfolding sorted_map by (rule sorted_wrt_mono_rel [rotated]) auto
    then have "sorted_wrt (\<lambda>v w. seg_created_at v \<le> seg_created_at w) (take n ?s)" by (rule sorted_wrt_take)
    then show ?thesis unfolding cs lim by (simp add: comp_def candidate_of_def sorted_map)
  qed
  moreover have "limit \<ge> 0 \<longrightarrow> int (length cs) \<le> limit" using cs lim by auto
  ultimately show ?thesis using latest by fastforce
qed

theorem retention_candidates_sound_witness:
  "\<exists>cs. RetentionCandidates no_faults ''2024-02-01T00:00:00Z'' 10 sample_segment_store = Inr cs \<and> int (length cs) \<le> 10"
proof -
  obtain cs where cs: "RetentionCandidates no_faults ''2024-02-01T00:00:00Z'' 10 sample_segment_store = Inr cs"
    by (simp add: RetentionCandidates_def)
  from retention_candidates_sound [OF reachable_ops_ok reachable_projections cs, OF sample_store_histories(1,1)] cs
  show ?thesis by auto
qed

lemma candidate_rows_set:
  assumes "limit < 0 \<or> int (length (segments db)) \<le> limit"
  shows "set (candidate_rows cutoff limit db) = {w \<in> set (segments db). present db w \<and> seg_created_at w < cutoff}"
proof -
  let ?f = "filter (\<lambda>w. present db w \<and> seg_created_at w < cutoff) (segments db)"
  have "length ?f \<le> length (segments db)" by (rule length_filter_le)
  then have "limit < 0 \<or> length ?f \<le> nat limit" using assms by linarith
  then have "sql_limit limit (sort_key (\<lambda>w. (seg_created_at w, seg_id w)) ?f) = sort_key (\<lambda>w. (seg_created_at w, seg_id w)) ?f"
    by (auto simp: sql_limit_def)
  then show ?thesis by (auto simp: candidate_rows_def)
qed

text \<open>The state that retention looks at.\<close>

definition retained :: "'z media_db_scheme \<Rightarrow> segment_row \<Rightarrow> bool" where
  "retained db w \<longleftrightarrow> (\<exists>e. latest st_id (\<lambda>e. st_segment e = seg_id w) (state_events db) = Some e \<and> st_status e \<in> {''accepted'', ''restored''})"

lemma present_retained: "projections_ok db \<Longrightarrow> present db w \<longleftrightarrow> retained db w"
  by (auto simp: present_def retained_def segment_status_of_def projections_ok_def segment_proj.current_def segment_projection_def)

text \<open>
  C35: Which segments retention takes, and a defect of it: texts are compared where instants are meant. Let a segment and the cutoff
  carry times as the store writes them, and let the limit not cut the list short.  The segment is a candidate only if its latest state is
  \<^verbatim>\<open>accepted\<close> or \<^verbatim>\<open>restored\<close>; with such a state it is one if it was created in a second before that of the cutoff, and it is none if it was
  created in a later second, or exactly at the cutoff.  But when the cutoff is a whole second, every segment in such a state that was created
  in the second after it, and is thus too young, is a candidate too: \<^verbatim>\<open>.\<close> sorts before \<^verbatim>\<open>Z\<close>.
\<close>

theorem retention_candidate_too_young:
  assumes "ops_ok db" "projections_ok db" "RetentionCandidates flt (rfc3339nano cutoff) limit db = Inr cs"
    and "limit < 0 \<or> int (length (segments db)) \<le> limit"
    and "w \<in> set (segments db)" "seg_created_at w = rfc3339nano created" "text_year created" "text_year cutoff"
  shows "(candidate_of w \<in> set cs \<longrightarrow> retained db w \<and> created div second \<le> cutoff div second \<and> created \<noteq> cutoff)
    \<and> (retained db w \<longrightarrow> created div second < cutoff div second \<longrightarrow> candidate_of w \<in> set cs)
    \<and> (retained db w \<longrightarrow> nsec_of cutoff = 0 \<longrightarrow> cutoff < created \<longrightarrow> created < cutoff + second \<longrightarrow> candidate_of w \<in> set cs)"
proof -
  have cs: "cs = map candidate_of (candidate_rows (rfc3339nano cutoff) limit db)"
    using assms(3) by (auto simp: RetentionCandidates_def bind_result_Inr_iff)
  have "distinct (map seg_id (segments db))"
    using assms(1) by (auto simp: ops_ok_def media_ok_def log_ok_def strict_sorted_iff)
  then have same: "v = w" if "v \<in> set (segments db)" "candidate_of v = candidate_of w" for v
    using that assms(5) by (auto simp: candidate_of_def distinct_map inj_on_def)
  have iff: "candidate_of w \<in> set cs \<longleftrightarrow> retained db w \<and> rfc3339nano created < rfc3339nano cutoff"
    using same assms(5,6) present_retained [OF assms(2)] unfolding cs by (auto simp: candidate_rows_set [OF assms(4)])
  note lt = rfc3339nano_second_less [OF assms(7,8)]
  have "\<not> cutoff div second < created div second" if "rfc3339nano created < rfc3339nano cutoff"
    using rfc3339nano_second_less [OF assms(8,7)] that by (metis order_less_asym)
  moreover have "rfc3339nano created < rfc3339nano cutoff" if "nsec_of cutoff = 0" "cutoff < created" "created < cutoff + second"
  proof (rule rfc3339nano_fraction_less [OF assms(7)])
    have m: "cutoff mod second = 0" using that(1) fields_of_second(5) [of cutoff] by (simp add: second_def)
    have "created div second = (cutoff + (created - cutoff)) div second" by simp
    also have "\<dots> = cutoff div second" using m that(2,3) by (subst div_add1_eq) (simp add: second_def)
    finally show "created div second = cutoff div second" .
    then have "created mod second \<noteq> 0" using m that(2) by (metis add.right_neutral mult_div_mod_eq less_irrefl)
    then show "nsec_of created \<noteq> 0" using fields_of_second(5) [of created] by (simp add: second_def)
  qed (rule that(1))
  ultimately show ?thesis using iff lt by auto
qed

text \<open>A segment created half a second after the cutoff.\<close>

theorem retention_candidate_too_young_witness:
  "\<exists>created cutoff w cs. cutoff < created \<and> seg_created_at w = rfc3339nano created
     \<and> RetentionCandidates no_faults (rfc3339nano cutoff) 1 sample_segment_store = Inr cs \<and> candidate_of w \<in> set cs"
proof -
  let ?w = "new_segment sample_metadata empty_store"
  define created where "created = the (parse_rfc3339nano ''2024-01-01T00:02:00.5Z'')"
  define cutoff where "cutoff = the (parse_rfc3339nano ''2024-01-01T00:02:00Z'')"
  have t: "cutoff < created" "created < cutoff + second" "nsec_of cutoff = 0" "text_year created" "text_year cutoff"
    unfolding created_def cutoff_def text_year_def by code_simp+
  have at: "seg_created_at ?w = rfc3339nano created" "seg_id ?w = 1"
    unfolding created_def by (simp_all add: new_segment_def sample_metadata_def empty_store_def next_id_def, code_simp)
  have "latest st_id (\<lambda>e. st_segment e = 1) (state_events sample_segment_store) = Some (new_state sample_metadata (replicate 64 CHR ''f'') empty_store)"
    by (simp add: sample_segment_store_segments latest_def new_state_def empty_store_def next_id_def)
  then have r: "retained sample_segment_store ?w" by (simp add: retained_def at new_state_def)
  obtain cs where cs: "RetentionCandidates no_faults (rfc3339nano cutoff) 1 sample_segment_store = Inr cs" by (simp add: RetentionCandidates_def)
  have "?w \<in> set (segments sample_segment_store)" "int (length (segments sample_segment_store)) \<le> 1"
    by (simp_all add: sample_segment_store_segments)
  from retention_candidate_too_young [OF reachable_ops_ok reachable_projections cs _ this(1) at(1) t(4,5), OF sample_store_histories(1,1)] this(2) t r
  have "candidate_of ?w \<in> set cs" by blast
  with t(1) at(1) cs show ?thesis by blast
qed

text \<open>
  The dashboard's history.  It shows at most the requested number of faults, newest first,
  at most 64 modules in order of their names, each with its latest recorded state, and the latest mode
  transition, whose new mode is the current one.
\<close>

theorem dashboard_history_latest:
  assumes "ops_ok db" "QueryDashboardHistory flt n db = Inr h"
  shows "1 \<le> n \<and> n \<le> 100 \<and> dh_RecentFaults h = map (dashboardFault \<circ> op_event) (take (nat n) (rev (fault_events db)))
    \<and> length (dh_Modules h) \<le> 64 \<and> sorted_wrt (<) (map dms_Module (dh_Modules h))
    \<and> (\<forall>m \<in> set (dh_Modules h). \<exists>w. latest op_id (\<lambda>v. module_of v = dms_Module m) (module_events db) = Some w \<and> m = dashboardModule (op_event w))
    \<and> (case dh_Mode h of None \<Rightarrow> current_mode (mode_events db) = ''unknown'' | Some t \<Rightarrow> current_mode (mode_events db) = dmt_NewMode t)"
proof -
  have ids: "ids_ok op_id (fault_events db)" "ids_ok op_id (module_events db)" "ids_ok op_id (mode_events db)"
    using assms(1) by (auto simp: ops_ok_def intro: log_ids_ok)
  let ?l = "latest_rows op_id module_of (module_events db)"
  have h: "1 \<le> n" "n \<le> 100" "dh_RecentFaults h = map (dashboardFault \<circ> op_event) (take (nat n) (rev (sort_key op_id (fault_events db))))"
    "dh_Modules h = map (dashboardModule \<circ> op_event) (take 64 (sort_key module_of ?l))"
    "dh_Mode h = map_option (dashboardMode \<circ> op_event) (latest op_id (\<lambda>_. True) (mode_events db))"
    using assms(2) by (auto simp: QueryDashboardHistory_def bind_result_Inr_iff Let_def)
  have "sort_key op_id (fault_events db) = fault_events db"
    using ids(1) unfolding ids_ok_def by (intro sort_key_id_if_sorted strict_sorted_imp_sorted)
  moreover have "sorted_wrt (<) (map dms_Module (dh_Modules h))"
  proof -
    have "distinct (map module_of ?l)" using module_latest.latest_rows_distinct [OF ids(2)] .
    then have "distinct (map module_of (sort_key module_of ?l))" by (simp add: distinct_map)
    then have "sorted_wrt (<) (map module_of (sort_key module_of ?l))" by (simp add: strict_sorted_iff)
    then have "sorted_wrt (<) (map module_of (take 64 (sort_key module_of ?l)))" unfolding take_map [symmetric] by (rule sorted_wrt_take)
    moreover have "dms_Module \<circ> (dashboardModule \<circ> op_event) = module_of" by (auto simp: dashboardModule_def module_of_def)
    ultimately show ?thesis unfolding h(4) map_map by simp
  qed
  moreover have "\<exists>w. latest op_id (\<lambda>v. module_of v = dms_Module m) (module_events db) = Some w \<and> m = dashboardModule (op_event w)"
    if m: "m \<in> set (dh_Modules h)" for m
  proof -
    obtain w where w: "w \<in> set ?l" "m = dashboardModule (op_event w)"
      using m set_take_subset [of 64 "sort_key module_of ?l"] unfolding h(4) by auto
    then have "latest op_id (\<lambda>v. module_of v = module_of w) (module_events db) = Some w"
      by (simp add: module_latest.latest_rows_iff [OF ids(2)])
    with w(2) show ?thesis by (auto simp: dashboardModule_def module_of_def)
  qed
  moreover have "case dh_Mode h of None \<Rightarrow> current_mode (mode_events db) = ''unknown'' | Some t \<Rightarrow> current_mode (mode_events db) = dmt_NewMode t"
    unfolding h(5) current_mode_def by (simp add: dashboardMode_def split: option.splits)
  ultimately show ?thesis using h by simp
qed

theorem dashboard_history_latest_witness:
  "\<exists>h. QueryDashboardHistory no_faults 5 sample_store = Inr h \<and> length (dh_Modules h) \<le> 64"
proof -
  obtain h where h: "QueryDashboardHistory no_faults 5 sample_store = Inr h" by (simp add: QueryDashboardHistory_def Let_def)
  from dashboard_history_latest [OF reachable_ops_ok h, OF sample_store_reachable(1)] h show ?thesis by auto
qed

end
