(* ===== verification/Go_Path.thy ===== *)
theory Go_Path
  imports Go_Text
begin

text \<open>
  Path names as \<^verbatim>\<open>path/filepath\<close> treats them on Unix: \<^verbatim>\<open>Clean\<close>, \<^verbatim>\<open>Join\<close>, \<^verbatim>\<open>Dir\<close>, \<^verbatim>\<open>IsAbs\<close> and \<^verbatim>\<open>Rel\<close>.
\<close>

section \<open>Path names\<close>

text \<open>\<^verbatim>\<open>strings.Split(path, "/")\<close>\<close>

fun split_slash :: "string \<Rightarrow> string list" where
  "split_slash [] = [[]]"
| "split_slash (c # s) =
     (if c = CHR ''/'' then [] # split_slash s
      else case split_slash s of [] \<Rightarrow> [[c]] | p # ps \<Rightarrow> (c # p) # ps)"

fun join_slash :: "string list \<Rightarrow> string" where
  "join_slash [] = []"
| "join_slash [p] = p"
| "join_slash (p # ps) = p @ CHR ''/'' # join_slash ps"

definition isAbs :: "string \<Rightarrow> bool" where
  "isAbs path \<longleftrightarrow> path \<noteq> [] \<and> hd path = CHR ''/''"

text \<open>
  One element of a path after those already kept, innermost first: empty elements and \<^verbatim>\<open>.\<close> are
  dropped, \<^verbatim>\<open>..\<close> removes the element before it, and at a root it is dropped.
\<close>

definition cleanStep :: "bool \<Rightarrow> string list \<Rightarrow> string \<Rightarrow> string list" where
  "cleanStep rooted kept p =
     (if p = [] \<or> p = ''.'' then kept
      else if p = ''..'' then
        (if kept \<noteq> [] \<and> hd kept \<noteq> ''..'' then tl kept
         else if rooted then kept
         else p # kept)
      else p # kept)"

definition cleanElems :: "string \<Rightarrow> string list" where
  "cleanElems path = rev (foldl (cleanStep (isAbs path)) [] (split_slash path))"

definition cleanPath :: "string \<Rightarrow> string" where
  "cleanPath path =
     (if isAbs path then CHR ''/'' # join_slash (cleanElems path)
      else if cleanElems path = [] then ''.''
      else join_slash (cleanElems path))"

definition joinPath :: "string list \<Rightarrow> string" where
  "joinPath elems = (case dropWhile (\<lambda>e. e = []) elems of [] \<Rightarrow> [] | es \<Rightarrow> cleanPath (join_slash es))"

definition dirPath :: "string \<Rightarrow> string" where
  "dirPath path = cleanPath (rev (dropWhile (\<lambda>c. c \<noteq> CHR ''/'') (rev path)))"

fun strip_common :: "string list \<Rightarrow> string list \<Rightarrow> string list \<times> string list" where
  "strip_common (b # bs) (t # ts) = (if b = t then strip_common bs ts else (b # bs, t # ts))"
| "strip_common bs ts = (bs, ts)"

definition relPath :: "string \<Rightarrow> string \<Rightarrow> string option" where
  "relPath basepath targpath =
     (if cleanPath basepath = cleanPath targpath then Some ''.''
      else if isAbs basepath \<noteq> isAbs targpath then None
      else
        let (bs, ts) = strip_common (cleanElems basepath) (cleanElems targpath) in
        if bs \<noteq> [] \<and> hd bs = ''..'' then None
        else Some (join_slash (replicate (length bs) ''..'' @ ts)))"

text \<open>A target whose relative path is neither \<^verbatim>\<open>.\<close> nor leads upwards lies below the base.\<close>

definition leadsUp :: "string \<Rightarrow> bool" where
  "leadsUp rel \<longleftrightarrow> rel = ''..'' \<or> has_prefix rel ''../''"

lemma split_slash_nonempty: "split_slash s \<noteq> []"
  by (cases s) (auto split: list.splits)

lemma split_slash_no_slash: "p \<in> set (split_slash s) \<Longrightarrow> CHR ''/'' \<notin> set p"
proof (induction s arbitrary: p)
  case (Cons c s)
  obtain q qs where q: "split_slash s = q # qs" using split_slash_nonempty by (cases "split_slash s") auto
  show ?case
  proof (cases "c = CHR ''/''")
    case True
    with Cons q show ?thesis by (cases "p = []") auto
  next
    case False
    with Cons.prems q have "p = c # q \<or> p \<in> set qs" by auto
    with Cons.IH False q show ?thesis by auto
  qed
qed simp

lemma strip_common_append: "strip_common bs ts = (bs', ts') \<Longrightarrow> \<exists>common. bs = common @ bs' \<and> ts = common @ ts'"
proof (induction bs ts rule: strip_common.induct)
  case (1 b bs t ts)
  then show ?case by (auto split: if_splits intro: exI [of _ "[]"])
qed auto

lemma join_slash_Cons: "ps \<noteq> [] \<Longrightarrow> join_slash (p # ps) = p @ CHR ''/'' # join_slash ps"
  by (cases ps) auto

lemma below_base:
  assumes "relPath base target = Some rel" "rel \<noteq> ''.''" "\<not> leadsUp rel"
  shows "\<exists>ts. ts \<noteq> [] \<and> cleanElems target = cleanElems base @ ts"
proof -
  obtain bs ts where s: "strip_common (cleanElems base) (cleanElems target) = (bs, ts)" by fastforce
  have rel: "rel = join_slash (replicate (length bs) ''..'' @ ts)" and ne: "cleanPath base \<noteq> cleanPath target" and ab: "isAbs base = isAbs target"
    using assms(1,2) s by (auto simp: relPath_def Let_def split: if_splits)
  have "bs = []"
  proof (rule ccontr)
    assume "bs \<noteq> []"
    then obtain n where "length bs = Suc n" by (cases bs) auto
    then have "rel = ''..'' \<or> (\<exists>r. rel = ''../'' @ r)"
      unfolding rel by (cases "replicate n ''..'' @ ts") (auto simp: join_slash_Cons)
    with assms(3) show False by (auto simp: leadsUp_def has_prefix_def)
  qed
  with strip_common_append [OF s] have eq: "cleanElems target = cleanElems base @ ts" by auto
  moreover have "ts \<noteq> []"
  proof
    assume "ts = []"
    with eq have "cleanElems target = cleanElems base" by simp
    with ab have "cleanPath base = cleanPath target" by (simp add: cleanPath_def)
    with ne show False by simp
  qed
  ultimately show ?thesis by blast
qed

end
