(* ===== verification/Go_Unmarshal.thy ===== *)
theory Go_Unmarshal
  imports Raw_Events Go_Json_Text
begin

text \<open>
  \<^verbatim>\<open>json.Unmarshal\<close> where unknown members are ignored, into structs and slices, and the value of a
  JSON number, on top of the decoder of \<^verbatim>\<open>Go_Json\<close>.
\<close>

section \<open>Struct decoding that ignores unknown members\<close>

text \<open>\<^verbatim>\<open>json.Unmarshal\<close> into a struct: one complete document; members with other names are ignored.\<close>

fun loose_members :: "string list \<Rightarrow> (string \<Rightarrow> jitem list \<Rightarrow> 's \<Rightarrow> 's option) \<Rightarrow> (string \<times> jitem list) list \<Rightarrow> 's \<Rightarrow> 's option" where
  "loose_members names setf [] st = Some st"
| "loose_members names setf ((k, v) # ms) st =
     (case resolve_field names k of None \<Rightarrow> loose_members names setf ms st
      | Some n \<Rightarrow> Option.bind (setf n v st) (loose_members names setf ms))"

definition loose_struct :: "string list \<Rightarrow> (string \<Rightarrow> jitem list \<Rightarrow> 's \<Rightarrow> 's option) \<Rightarrow> jitem list \<Rightarrow> 's \<Rightarrow> 's option" where
  "loose_struct names setf v st =
     (if map it_tok v = [TNull] then Some st
      else Option.bind (value_members v) (\<lambda>ms. loose_members names setf ms st))"

text \<open>The value of a complete document.\<close>

definition document :: "string \<Rightarrow> jitem list option" where
  "document raw = (case decode_value raw of None \<Rightarrow> None | Some (v, d) \<Rightarrow> if ensureJSONEOF d then Some v else None)"

definition unmarshal :: "string list \<Rightarrow> (string \<Rightarrow> jitem list \<Rightarrow> 's \<Rightarrow> 's option) \<Rightarrow> 's \<Rightarrow> string \<Rightarrow> 's option" where
  "unmarshal names setf zero raw = Option.bind (document raw) (\<lambda>v. loose_struct names setf v zero)"

definition dec_bool :: "jitem list \<Rightarrow> bool \<Rightarrow> bool option" where
  "dec_bool v old = (case map it_tok v of [TNull] \<Rightarrow> Some old | [TBool b] \<Rightarrow> Some b | _ \<Rightarrow> None)"

section \<open>Slices\<close>

function array_elems :: "jitem list \<Rightarrow> jitem list list option" where
  "array_elems is =
     (if map it_tok is = [TDelim CHR '']''] then Some []
      else case split_value 0 is of None \<Rightarrow> None
           | Some (v, rest) \<Rightarrow> map_option (Cons v) (array_elems rest))"
  by pat_completeness auto
termination
  by (relation "measure length") (auto dest!: split_value_append)

fun decode_elems :: "(jitem list \<Rightarrow> 'a \<Rightarrow> 'a option) \<Rightarrow> 'a \<Rightarrow> 'a list \<Rightarrow> jitem list list \<Rightarrow> 'a list option" where
  "decode_elems dec zero old [] = Some []"
| "decode_elems dec zero old (v # vs) =
     Option.bind (dec v (case old of [] \<Rightarrow> zero | x # _ \<Rightarrow> x)) (\<lambda>x. map_option (Cons x) (decode_elems dec zero (tl old) vs))"

text \<open>Decoding an array into a slice reuses the elements the slice already has.\<close>

definition dec_slice :: "(jitem list \<Rightarrow> 'a \<Rightarrow> 'a option) \<Rightarrow> 'a \<Rightarrow> jitem list \<Rightarrow> 'a list \<Rightarrow> 'a list option" where
  "dec_slice dec zero v old =
     (if map it_tok v = [TNull] then Some []
      else case v of
        i # is \<Rightarrow> if it_tok i = TDelim CHR ''['' then Option.bind (array_elems is) (decode_elems dec zero old) else None
      | [] \<Rightarrow> None)"

text \<open>\<^verbatim>\<open>json.Unmarshal\<close> into a new \<^verbatim>\<open>[]string\<close>: a null is the empty slice, a null element the empty string.\<close>

definition unmarshal_strings :: "string \<Rightarrow> string list option" where
  "unmarshal_strings raw =
     Option.bind (document raw) (\<lambda>v. map_option (\<lambda>l. case l of None \<Rightarrow> [] | Some xs \<Rightarrow> xs) (dec_str_list_ptr v))"

section \<open>Floating-point numbers\<close>

text \<open>The exact value of a JSON number that is not negative, as numerator and denominator.\<close>

definition exponent_of :: "string \<Rightarrow> int" where
  "exponent_of s = (case s of [] \<Rightarrow> 0
     | c # ds \<Rightarrow> if c = CHR ''-'' then - int (digits_val ds) else if c = CHR ''+'' then int (digits_val ds) else int (digits_val s))"

definition number_value :: "string \<Rightarrow> bool \<times> nat \<times> nat" where
  "number_value n =
     (let neg = (n \<noteq> [] \<and> hd n = CHR ''-'');
          s = (if neg then tl n else n);
          whole = takeWhile is_digit s;
          r = dropWhile is_digit s;
          frac = (if r \<noteq> [] \<and> hd r = CHR ''.'' then takeWhile is_digit (tl r) else []);
          r' = (if r \<noteq> [] \<and> hd r = CHR ''.'' then dropWhile is_digit (tl r) else r);
          e = (if r' = [] then 0 else exponent_of (tl r')) - int (length frac);
          m = digits_val (whole @ frac)
      in (neg, if e \<ge> 0 then (m * 10 ^ nat e, 1) else (m, 10 ^ nat (- e))))"

section \<open>Flat objects survive their encoding\<close>

text \<open>Structs whose fields are non-negative integers and plain strings, such as the page cursors.\<close>

datatype flat = FNat nat | FStr string

fun flat_text :: "flat \<Rightarrow> string" where
  "flat_text (FNat n) = nat_digits n"
| "flat_text (FStr s) = quote s"

fun flat_tok :: "flat \<Rightarrow> jtoken" where
  "flat_tok (FNat n) = TNum (nat_digits n)"
| "flat_tok (FStr s) = TStr s"

fun flat_plain :: "flat \<Rightarrow> bool" where
  "flat_plain (FNat n) = True"
| "flat_plain (FStr s) = plain_text s"

definition flat_fields :: "(string \<times> flat) list \<Rightarrow> bool" where
  "flat_fields fs \<longleftrightarrow> fs \<noteq> [] \<and> (\<forall>(k, v) \<in> set fs. plain_text k \<and> flat_plain v)"

lemma lex_toks_value_str:
  assumes "plain_key s"
  shows "lex_toks ObjectValue stk pk (CHR 0x22 # s @ CHR 0x22 # r) = apfst (Cons (TStr s)) (lex_toks ObjectComma stk None r)"
  using assms by (subst lex_toks_step(1)) (auto simp: lex_step_defs not_ws scan_scalar_def scan_string_plain value_allowed_def)

lemma lex_toks_flat:
  assumes "flat_plain v" "c = CHR '','' \<or> c = CHR ''}''"
  shows "lex_toks ObjectValue stk pk (flat_text v @ c # r) = apfst (Cons (flat_tok v)) (lex_toks ObjectComma stk None (c # r))"
proof (cases v)
  case (FNat n)
  have "\<not> is_digit c" "c \<noteq> CHR ''.''" "c \<noteq> CHR ''e''" "c \<noteq> CHR ''E''" using assms(2) by (auto simp: is_digit_def)
  with FNat lex_toks_nat show ?thesis by simp
next
  case (FStr s)
  with assms(1) have "quote s = CHR 0x22 # s @ [CHR 0x22]" "plain_key s" by (auto simp: quote_plain plain_text_def)
  with FStr lex_toks_value_str [of s stk pk "c # r"] show ?thesis by simp
qed

lemma lex_toks_fields:
  "flat_fields fs \<Longrightarrow> st = ObjectStart \<or> st = ObjectKey \<Longrightarrow>
     lex_toks st [TopValue] pk (join '','' (map (\<lambda>(k, v). quote k @ '':'' @ flat_text v) fs) @ ''}'')
       = (concat (map (\<lambda>(k, v). [TStr k, flat_tok v]) fs) @ [TDelim CHR ''}''], True)"
proof (induction fs arbitrary: st pk)
  case (Cons f fs)
  obtain k v where f: "f = (k, v)" by (cases f)
  have p: "plain_text k" "plain_key k" "flat_plain v" using Cons.prems(1) by (auto simp: flat_fields_def f plain_text_def)
  note q = quote_plain [OF p(1)]
  note key = lex_toks_key [OF Cons.prems(2) p(2), of "[TopValue]" pk]
  show ?case
  proof (cases "fs = []")
    case True
    then show ?thesis
      using key [of "'':'' @ flat_text v @ ''}''"] lex_toks_flat [OF p(3), of "CHR ''}''" "[TopValue]" _ "[]"]
      by (simp add: f q lex_toks_punct)
  next
    case False
    let ?rest = "join '','' (map (\<lambda>(k, v). quote k @ '':'' @ flat_text v) fs) @ ''}''"
    have "flat_fields fs" using False Cons.prems(1) by (auto simp: flat_fields_def)
    then have ih: "lex_toks ObjectKey [TopValue] pk' ?rest = (concat (map (\<lambda>(k, v). [TStr k, flat_tok v]) fs) @ [TDelim CHR ''}''], True)" for pk'
      by (rule Cons.IH) simp
    have j: "join '','' (map (\<lambda>(k, v). quote k @ '':'' @ flat_text v) (f # fs)) @ ''}'' = CHR 0x22 # k @ CHR 0x22 # '':'' @ flat_text v @ CHR '','' # ?rest"
      using False by (cases fs) (simp_all add: f q)
    show ?thesis
      unfolding j using key [of "'':'' @ flat_text v @ CHR '','' # ?rest"] lex_toks_flat [OF p(3), of "CHR '',''" "[TopValue]" _ ?rest] ih
      by (simp add: f lex_toks_punct)
  qed
qed (simp add: flat_fields_def)

lemma decoder_tokens_flat:
  assumes "flat_fields fs"
  shows "decoder_tokens (marshal_struct (map (\<lambda>(k, v). (k, flat_text v)) fs))
    = (TDelim CHR ''{'' # concat (map (\<lambda>(k, v). [TStr k, flat_tok v]) fs) @ [TDelim CHR ''}''], True)"
proof -
  have m: "map (\<lambda>(k, t). quote k @ '':'' @ t) (map (\<lambda>(k, v). (k, flat_text v)) fs) = map (\<lambda>(k, v). quote k @ '':'' @ flat_text v) fs"
    by (simp add: comp_def case_prod_beta)
  show ?thesis
    using lex_toks_fields [OF assms, of ObjectStart None] unfolding marshal_struct_def m
    by (simp add: decoder_tokens_lex lex_toks_punct)
qed

lemma flat_tok_scalar: "\<not> is_open (flat_tok v)" "\<not> is_close (flat_tok v)" "\<not> is_open (TStr s)" "\<not> is_close (TStr s)"
  by (cases v; simp add: is_open_def is_close_def)+

lemma split_flat:
  "map it_tok is = concat (map (\<lambda>(k, v). [TStr k, flat_tok v]) fs) @ [TDelim CHR ''}''] \<Longrightarrow> split_value 1 is = Some (is, []) \<and> nesting 1 is = 1"
proof (induction fs arbitrary: "is")
  case Nil
  then obtain i where "is = [i]" "it_tok i = TDelim CHR ''}''" by auto
  then show ?case by (simp add: is_open_def is_close_def)
next
  case (Cons f fs)
  obtain k v where f: "f = (k, v)" by (cases f)
  with Cons.prems obtain i j js where "is": "is = i # j # js" "it_tok i = TStr k" "it_tok j = flat_tok v"
    "map it_tok js = concat (map (\<lambda>(k, v). [TStr k, flat_tok v]) fs) @ [TDelim CHR ''}'']"
    by (auto simp: map_eq_Cons_conv)
  with Cons.IH [OF "is"(4)] show ?case by (simp add: flat_tok_scalar)
qed

lemma obj_members_flat:
  "map it_tok is = concat (map (\<lambda>(k, v). [TStr k, flat_tok v]) fs) @ [TDelim CHR ''}''] \<Longrightarrow>
     \<exists>js. obj_members is = Some (zip (map fst fs) (map (\<lambda>j. [j]) js)) \<and> map it_tok js = map (flat_tok \<circ> snd) fs"
proof (induction fs arbitrary: "is")
  case Nil
  then obtain i where "is = [i]" "it_tok i = TDelim CHR ''}''" by auto
  then show ?case by simp
next
  case (Cons f fs)
  obtain k v where f: "f = (k, v)" by (cases f)
  with Cons.prems obtain i j rest where "is": "is = i # j # rest" "it_tok i = TStr k" "it_tok j = flat_tok v"
    "map it_tok rest = concat (map (\<lambda>(k, v). [TStr k, flat_tok v]) fs) @ [TDelim CHR ''}'']"
    by (auto simp: map_eq_Cons_conv)
  from Cons.IH [OF "is"(4)] obtain js where
    "obj_members rest = Some (zip (map fst fs) (map (\<lambda>j. [j]) js))" "map it_tok js = map (flat_tok \<circ> snd) fs" by blast
  with "is" show ?case by (intro exI [of _ "j # js"]) (simp add: f flat_tok_scalar)
qed

text \<open>What the decoder makes of a marshalled flat struct: its fields, in order, each with the one item of its value.\<close>

lemma flat_document:
  assumes "flat_fields fs" "raw = marshal_struct (map (\<lambda>(k, v). (k, flat_text v)) fs)"
  shows "\<exists>v d js. decode_value raw = Some (v, d) \<and> ensureJSONEOF d \<and> map it_tok v \<noteq> [TNull]
    \<and> value_members v = Some (zip (map fst fs) (map (\<lambda>j. [j]) js)) \<and> map it_tok js = map (flat_tok \<circ> snd) fs"
proof -
  obtain its e where d: "decoder_items raw = (its, e)" by fastforce
  with decoder_tokens_flat [OF assms(1)] assms(2) have e: "le_eof e"
    and toks: "map it_tok its = TDelim CHR ''{'' # concat (map (\<lambda>(k, v). [TStr k, flat_tok v]) fs) @ [TDelim CHR ''}'']"
    by (simp_all add: decoder_tokens_def)
  then obtain i "is" where its: "its = i # is" "it_tok i = TDelim CHR ''{''"
    "map it_tok is = concat (map (\<lambda>(k, v). [TStr k, flat_tok v]) fs) @ [TDelim CHR ''}'']"
    by (auto simp: map_eq_Cons_conv)
  have sp: "split_value 0 its = Some (its, [])" "nesting 0 its = 1"
    using split_flat [OF its(3)] its(2) by (simp_all add: its(1) is_open_def is_close_def)
  from obj_members_flat [OF its(3)] obtain js where
    js: "value_members its = Some (zip (map fst fs) (map (\<lambda>j. [j]) js))" "map it_tok js = map (flat_tok \<circ> snd) fs"
    by (auto simp: value_members_def its(1,2))
  have "decode_value raw = Some (its, [], e)" using sp d by (simp add: decode_value_def max_nesting_depth_def)
  with e js toks show ?thesis by (auto simp: ensureJSONEOF_def)
qed

lemma flat_decode:
  "map it_tok [j] = [flat_tok (FNat n)] \<Longrightarrow> int n \<le> int64_max \<Longrightarrow> dec_int [j] a = Some (int n)"
  "map it_tok [j] = [flat_tok (FStr s)] \<Longrightarrow> dec_str [j] b = Some s"
  using parse_int64_int_digits [of "int n"] by (simp_all add: dec_int_def dec_str_def int_digits_def int64_min_def)

end
