(* ===== verification/Ops_Manager.thy ===== *)
theory Ops_Manager
  imports Ops_Store Config Go_Path Go_Unmarshal
begin

text \<open>
  \<^verbatim>\<open>internal/operations/manager.go\<close>: disk levels and write gates, WAL checkpoints, cleaning the staging
  directory, the backup manifest and retention.  The manager acts on a world of files and the operations
  store; the environment decides at every interaction what the clock shows, what the disk probe
  returns, which statements and which file operations fail.  The logger has no effect on the
  state.  Operations that use the repository are run only when there is one.
\<close>

abbreviation (input) "DiskNormal \<equiv> ''normal''"
abbreviation (input) "DiskWarning \<equiv> ''warning''"
abbreviation (input) "DiskCritical \<equiv> ''critical''"
abbreviation (input) "DiskReserve \<equiv> ''reserve''"
abbreviation (input) "CodeDiskProbeFailed \<equiv> ''STORAGE_DISK_PROBE_FAILED''"
abbreviation (input) "CodeDiskWarning \<equiv> ''STORAGE_DISK_WARNING''"
abbreviation (input) "CodeDiskCritical \<equiv> ''STORAGE_DISK_CRITICAL''"
abbreviation (input) "CodeDiskReserve \<equiv> ''STORAGE_DATABASE_RESERVE_THREATENED''"
abbreviation (input) "CodeRetentionOff \<equiv> ''RETENTION_DISABLED''"
abbreviation (input) "CodeBackupMissing \<equiv> ''RETENTION_FULL_BACKUP_REQUIRED''"
abbreviation (input) "CodeBackupInvalid \<equiv> ''RETENTION_BACKUP_INVALID''"
abbreviation (input) "CodeRetentionCommit \<equiv> ''RETENTION_CONFIRM_FAILED''"
abbreviation (input) "CodeCleanupFailed \<equiv> ''TEMP_CLEANUP_FAILED''"
abbreviation (input) "CodeCheckpointFailed \<equiv> ''WAL_CHECKPOINT_FAILED''"

section \<open>The manager and its surroundings\<close>

text \<open>The runtime counters of \<^verbatim>\<open>Status.Runtime\<close> are read from the Go runtime and left out.\<close>

record Status =
  sm_SchemaVersion :: int
  sm_DiskLevel :: string
  sm_FreeBytes :: int
  sm_ErrorCode :: string
  sm_CheckedAtUTC :: string
  sm_Retention :: string

record Manager =
  mg_cfg :: Config
  mg_repository :: bool
  mg_status :: Status
  mg_reportedDiskLevel :: string

text \<open>Files by path: their kind, what reading them yields, their size and modification time.\<close>

datatype file_kind = Regular | Symlink | Directory | Special

record file_entry =
  en_kind :: file_kind
  en_content :: "string option"
  en_size :: int
  en_modified :: instant

type_synonym files = "(string \<times> file_entry) list"

text \<open>
  The world a manager acts on.  Every interaction with the clock, the disk probe, the file system or
  the repository advances the tick, and the environment says what happens at each tick: the time, the
  result of the probe, which database statements fail, and whether a file operation fails.
\<close>

record world =
  w_tick :: nat
  w_manager :: Manager
  w_files :: files
  w_db :: ops_db

record env =
  e_now :: "nat \<Rightarrow> instant"
  e_free :: "nat \<Rightarrow> int \<times> bool"
  e_faults :: "nat \<Rightarrow> faults"
  e_broken :: "nat \<Rightarrow> bool"
  e_text :: "go_error \<Rightarrow> string"
  e_os :: string

abbreviation "w_cfg w \<equiv> mg_cfg (w_manager w)"

definition ticked :: "world \<Rightarrow> world" where
  "ticked w = w\<lparr>w_tick := Suc (w_tick w)\<rparr>"

definition clockNow :: "env \<Rightarrow> world \<Rightarrow> instant \<times> world" where
  "clockNow E w = (e_now E (w_tick w), ticked w)"

definition repo :: "env \<Rightarrow> (faults \<Rightarrow> ops_db \<Rightarrow> (go_error + 'a) \<times> ops_db) \<Rightarrow> world \<Rightarrow> (go_error + 'a) \<times> world" where
  "repo E call w = (let (r, db) = call (e_faults E (w_tick w)) (w_db w) in (r, (ticked w)\<lparr>w_db := db\<rparr>))"

definition repo_read :: "env \<Rightarrow> (faults \<Rightarrow> ops_db \<Rightarrow> go_error + 'a) \<Rightarrow> world \<Rightarrow> (go_error + 'a) \<times> world" where
  "repo_read E call w = (call (e_faults E (w_tick w)) (w_db w), ticked w)"

datatype stat_result = NotExist | StatFailed | Stat file_entry

definition lstat :: "env \<Rightarrow> string \<Rightarrow> world \<Rightarrow> stat_result \<times> world" where
  "lstat E path w =
     (if e_broken E (w_tick w) then StatFailed
      else case map_of (w_files w) path of None \<Rightarrow> NotExist | Some e \<Rightarrow> Stat e, ticked w)"

definition readFile :: "env \<Rightarrow> string \<Rightarrow> world \<Rightarrow> string option \<times> world" where
  "readFile E path w =
     (if e_broken E (w_tick w) then None else Option.bind (map_of (w_files w) path) en_content, ticked w)"

definition removeFile :: "env \<Rightarrow> string \<Rightarrow> world \<Rightarrow> bool \<times> world" where
  "removeFile E path w =
     (if e_broken E (w_tick w) \<or> map_of (w_files w) path = None then (False, ticked w)
      else (True, (ticked w)\<lparr>w_files := filter (\<lambda>f. fst f \<noteq> path) (w_files w)\<rparr>))"

definition fileSHA256 :: "ext \<Rightarrow> env \<Rightarrow> string \<Rightarrow> world \<Rightarrow> string option \<times> world" where
  "fileSHA256 X E path w = (let (content, w) = readFile E path w in (map_option (sha256_hex X) content, w))"

definition DatabasePath :: "Config \<Rightarrow> string" where
  "DatabasePath cfg = joinPath [DataDirectory (cfg_Paths cfg), ''exam-monitor.db'']"

definition MediaStorageDirectory :: "Config \<Rightarrow> string" where
  "MediaStorageDirectory cfg = joinPath [DataDirectory (cfg_Paths cfg), ''media'']"

definition NewWithProbe :: "Config \<Rightarrow> bool \<Rightarrow> Manager" where
  "NewWithProbe cfg repository =
     \<lparr>mg_cfg = cfg, mg_repository = repository,
      mg_status = \<lparr>sm_SchemaVersion = 1, sm_DiskLevel = DiskNormal, sm_FreeBytes = 0, sm_ErrorCode = [], sm_CheckedAtUTC = [],
        sm_Retention = (if rt_Enabled (cfg_Retention cfg) then ''enabled'' else ''disabled'')\<rparr>,
      mg_reportedDiskLevel = DiskNormal\<rparr>"

section \<open>Recording\<close>

text \<open>The first runes of a text; a byte that is not UTF-8 becomes the replacement character.\<close>

definition truncateRunes :: "string \<Rightarrow> nat \<Rightarrow> string" where
  "truncateRunes value maximum =
     (let runes = rune_chunks value in
      if length runes \<le> maximum then value
      else concat (map (\<lambda>(r, s). case r of None \<Rightarrow> rune_error_bytes | Some _ \<Rightarrow> s) (take maximum runes)))"

definition appendFault :: "ext \<Rightarrow> env \<Rightarrow> string \<Rightarrow> string \<Rightarrow> string \<Rightarrow> string \<Rightarrow> string \<Rightarrow> string \<Rightarrow> world \<Rightarrow> world" where
  "appendFault X E modul severity status code detail now w =
     (if mg_repository (w_manager w)
      then snd (repo E (\<lambda>flt. AppendFaultEvent X flt \<lparr>fe_Module = modul, fe_Severity = severity, fe_Status = status,
             fe_ErrorCode = code, fe_Detail = truncateRunes detail 1024, fe_OccurredAtUTC = now\<rparr>) w)
      else w)"

definition appendModule :: "ext \<Rightarrow> env \<Rightarrow> string \<Rightarrow> string \<Rightarrow> string \<Rightarrow> string \<Rightarrow> world \<Rightarrow> world" where
  "appendModule X E modul status reason now w =
     (if mg_repository (w_manager w)
      then snd (repo E (\<lambda>flt. AppendModuleStateEvent X flt \<lparr>mse_Module = modul, mse_Status = status, mse_ReasonCode = reason,
             mse_OccurredAtUTC = now\<rparr>) w)
      else w)"

definition recordError :: "ext \<Rightarrow> env \<Rightarrow> string \<Rightarrow> string \<Rightarrow> string \<Rightarrow> string \<Rightarrow> world \<Rightarrow> world" where
  "recordError X E modul severity code detail w =
     (let (now, w) = clockNow E w in appendFault X E modul severity ''active'' code detail (rfc3339nano now) w)"

definition RecordFault :: "ext \<Rightarrow> env \<Rightarrow> string \<Rightarrow> string \<Rightarrow> string \<Rightarrow> string \<Rightarrow> string \<Rightarrow> world \<Rightarrow> world" where
  "RecordFault X E modul severity status code detail w =
     (let (now, w) = clockNow E w in appendFault X E modul severity status code detail (rfc3339nano now) w)"

definition RecordModuleState :: "ext \<Rightarrow> env \<Rightarrow> string \<Rightarrow> string \<Rightarrow> string \<Rightarrow> world \<Rightarrow> world" where
  "RecordModuleState X E modul status reason w =
     (let (now, w) = clockNow E w in appendModule X E modul status reason (rfc3339nano now) w)"

definition RecordRuntimeMode :: "ext \<Rightarrow> env \<Rightarrow> string \<Rightarrow> string \<Rightarrow> string \<Rightarrow> string \<Rightarrow> world \<Rightarrow> world" where
  "RecordRuntimeMode X E mode operator trigger reason w =
     (if \<not> mg_repository (w_manager w) then w
      else
        let (now, w) = clockNow E w;
            (r, w) = repo E (\<lambda>flt. AppendModeTransition X flt mode operator trigger reason (rfc3339nano now)) w
        in case r of Inr _ \<Rightarrow> w
           | Inl e \<Rightarrow> recordError X E ''runtime_mode'' ''P2'' ''MODE_TRANSITION_WRITE_FAILED'' (e_text E e) w)"

section \<open>Disk levels\<close>

definition uint64 :: "int \<Rightarrow> int" where "uint64 x = x mod 2 ^ 64"

definition diskLevel :: "Config \<Rightarrow> int \<Rightarrow> bool \<Rightarrow> string \<times> string" where
  "diskLevel cfg available failed =
     (if failed then (DiskWarning, CodeDiskProbeFailed)
      else if available \<le> uint64 (DatabaseReserveBytes (cfg_Storage cfg)) then (DiskReserve, CodeDiskReserve)
      else if available \<le> uint64 (CriticalFreeBytes (cfg_Storage cfg)) then (DiskCritical, CodeDiskCritical)
      else if available \<le> uint64 (WarningFreeBytes (cfg_Storage cfg)) then (DiskWarning, CodeDiskWarning)
      else (DiskNormal, []))"

definition refreshDiskStatus :: "env \<Rightarrow> world \<Rightarrow> (string \<times> string \<times> bool) \<times> world" where
  "refreshDiskStatus E w =
     (let (available, failed) = e_free E (w_tick w);
          (now, w) = clockNow E (ticked w);
          (level, code) = diskLevel (w_cfg w) available failed;
          m = w_manager w
      in ((level, code, failed),
          w\<lparr>w_manager := m\<lparr>mg_status := (mg_status m)\<lparr>sm_DiskLevel := level, sm_FreeBytes := available, sm_ErrorCode := code,
               sm_CheckedAtUTC := rfc3339nano now\<rparr>\<rparr>\<rparr>))"

definition MediaAllowed :: "env \<Rightarrow> world \<Rightarrow> (bool \<times> string) \<times> world" where
  "MediaAllowed E w =
     (let ((level, code, failed), w) = refreshDiskStatus E w
      in if level = DiskNormal then ((True, []), w) else ((False, code), w))"

definition CoreWritesAllowed :: "env \<Rightarrow> world \<Rightarrow> (bool \<times> string) \<times> world" where
  "CoreWritesAllowed E w =
     (let ((level, code, failed), w) = refreshDiskStatus E w
      in if level = DiskReserve then ((False, code), w) else ((True, []), w))"

definition ScanDiskOnce :: "ext \<Rightarrow> env \<Rightarrow> world \<Rightarrow> world" where
  "ScanDiskOnce X E w =
     (let ((level, code, failed), w) = refreshDiskStatus E w;
          m = w_manager w;
          previous = mg_reportedDiskLevel m;
          w = w\<lparr>w_manager := m\<lparr>mg_reportedDiskLevel := level\<rparr>\<rparr>;
          available = sm_FreeBytes (mg_status m);
          now = sm_CheckedAtUTC (mg_status m)
      in if previous \<noteq> level \<or> failed then
           let (severity, status) =
                 (if level = DiskReserve then (''P0'', ''active'')
                  else if level = DiskCritical then (''P1'', ''active'')
                  else if level = DiskWarning then (''P2'', ''degraded'')
                  else (''P3'', ''recovered''));
               code = (if code = [] then ''STORAGE_DISK_RECOVERED'' else code)
           in appendFault X E ''storage'' severity status code (''free_bytes='' @ int_digits available) now w
         else w)"

definition Initialize :: "ext \<Rightarrow> env \<Rightarrow> world \<Rightarrow> world" where
  "Initialize X E w =
     (let (now, w) = clockNow E w;
          (reason, state) = (if rt_Enabled (cfg_Retention (w_cfg w)) then (''RETENTION_ENABLED'', ''healthy'') else (CodeRetentionOff, ''disabled''));
          w = appendModule X E ''retention'' state reason (rfc3339nano now) w
      in ScanDiskOnce X E w)"

section \<open>Checkpoints and temporary files\<close>

text \<open>\<^verbatim>\<open>os.Stat\<close> follows a symbolic link, so the size is that of what reading it yields.\<close>

definition followed_size :: "file_entry \<Rightarrow> int option" where
  "followed_size e = (if en_kind e = Symlink then map_option (\<lambda>c. int (length c)) (en_content e) else Some (en_size e))"

definition CheckpointOnce :: "ext \<Rightarrow> env \<Rightarrow> world \<Rightarrow> world" where
  "CheckpointOnce X E w =
     (let (st, w) = lstat E (DatabasePath (w_cfg w) @ ''-wal'') w;
          full = (case st of
            Stat e \<Rightarrow> (case followed_size e of None \<Rightarrow> False | Some n \<Rightarrow> n > WALMaxBytes (cfg_Operations (w_cfg w)))
          | _ \<Rightarrow> False);
          (r, w) = repo E (\<lambda>flt db. (Checkpoint flt full, db)) w
      in case r of Inr _ \<Rightarrow> w | Inl e \<Rightarrow> recordError X E ''storage'' ''P2'' CodeCheckpointFailed (e_text E e) w)"

text \<open>\<^verbatim>\<open>^[0-9a-f]{64}\.partial$\<close>\<close>

definition partialName :: "string \<Rightarrow> bool" where
  "partialName name \<longleftrightarrow> length name = 72 \<and> list_all (\<lambda>c. c \<in> set ''0123456789abcdef'') (take 64 name) \<and> drop 64 name = ''.partial''"

text \<open>\<^verbatim>\<open>os.ReadDir\<close>: the entries directly below a directory, sorted by name.\<close>

definition dir_entries :: "string \<Rightarrow> files \<Rightarrow> (string \<times> file_entry) list" where
  "dir_entries rootDir fs = sort_key fst
     (concat (map (\<lambda>(p, e). if length p > Suc (length rootDir) \<and> take (Suc (length rootDir)) p = rootDir @ ''/''
          \<and> CHR ''/'' \<notin> set (drop (Suc (length rootDir)) p) then [(drop (Suc (length rootDir)) p, e)] else []) fs))"

fun cleanupLoop :: "env \<Rightarrow> string \<Rightarrow> instant \<Rightarrow> int \<Rightarrow> (string \<times> file_entry) list \<Rightarrow> world \<Rightarrow> world" where
  "cleanupLoop E rootDir cutoff removed [] w = w"
| "cleanupLoop E rootDir cutoff removed ((name, entry) # entries) w =
     (if removed \<ge> TempMaxFiles (cfg_Operations (w_cfg w)) \<or> en_kind entry = Directory \<or> en_kind entry = Symlink \<or> \<not> partialName name
      then cleanupLoop E rootDir cutoff removed entries w
      else
        let (info, w) = lstat E (rootDir @ ''/'' @ name) w in
        case info of
          Stat e \<Rightarrow>
            if en_kind e \<noteq> Regular \<or> \<not> en_modified e < cutoff then cleanupLoop E rootDir cutoff removed entries w
            else
              let (referenced, w) = repo_read E (\<lambda>flt. TemporaryPathReferenced flt (joinPath [''staging'', name])) w in
              if referenced \<noteq> Inr False then cleanupLoop E rootDir cutoff removed entries w
              else
                let (ok, w) = removeFile E (joinPath [rootDir, name]) w in
                cleanupLoop E rootDir cutoff (if ok then removed + 1 else removed) entries w
        | _ \<Rightarrow> cleanupLoop E rootDir cutoff removed entries w)"

definition CleanupTempOnce :: "ext \<Rightarrow> env \<Rightarrow> world \<Rightarrow> world" where
  "CleanupTempOnce X E w =
     (let rootDir = joinPath [MediaStorageDirectory (w_cfg w), ''staging''] in
      case map_of (w_files w) rootDir of
        None \<Rightarrow> ticked w
      | Some d \<Rightarrow>
          if e_broken E (w_tick w) \<or> en_kind d \<noteq> Directory
          then recordError X E ''media_ingest'' ''P2'' CodeCleanupFailed (e_os E) (ticked w)
          else
            let (now, w) = clockNow E (ticked w)
            in cleanupLoop E rootDir (now - TempMaxAge (w_cfg w)) 0 (dir_entries rootDir (w_files w)) w)"

section \<open>The backup manifest\<close>

record backupMarker =
  bm_SchemaVersion :: int
  bm_ManifestPath :: string
  bm_ManifestSHA256 :: string

record backupFile =
  bf_RelativePath :: string
  bf_BackupPath :: string
  bf_SHA256 :: string
  bf_Kind :: string
  bf_SizeBytes :: int
  bf_Included :: bool

record backupManifest =
  bn_SchemaVersion :: int
  bn_Type :: string
  bn_Files :: "backupFile list"

record backupCoverage =
  bc_BackupPath :: string
  bc_SHA256 :: string
  bc_SizeBytes :: int

definition setMarkerField :: "string \<Rightarrow> jitem list \<Rightarrow> backupMarker \<Rightarrow> backupMarker option" where
  "setMarkerField name v st =
     (if name = ''schema_version'' then map_option (\<lambda>x. st\<lparr>bm_SchemaVersion := x\<rparr>) (dec_int v (bm_SchemaVersion st))
      else if name = ''manifest_path'' then map_option (\<lambda>x. st\<lparr>bm_ManifestPath := x\<rparr>) (dec_str v (bm_ManifestPath st))
      else if name = ''manifest_sha256'' then map_option (\<lambda>x. st\<lparr>bm_ManifestSHA256 := x\<rparr>) (dec_str v (bm_ManifestSHA256 st))
      else None)"

definition decodeMarker :: "string \<Rightarrow> backupMarker option" where
  "decodeMarker raw = unmarshal [''schema_version'', ''manifest_path'', ''manifest_sha256''] setMarkerField
     \<lparr>bm_SchemaVersion = 0, bm_ManifestPath = [], bm_ManifestSHA256 = []\<rparr> raw"

definition setFileField :: "string \<Rightarrow> jitem list \<Rightarrow> backupFile \<Rightarrow> backupFile option" where
  "setFileField name v st =
     (if name = ''relative_path'' then map_option (\<lambda>x. st\<lparr>bf_RelativePath := x\<rparr>) (dec_str v (bf_RelativePath st))
      else if name = ''backup_path'' then map_option (\<lambda>x. st\<lparr>bf_BackupPath := x\<rparr>) (dec_str v (bf_BackupPath st))
      else if name = ''sha256'' then map_option (\<lambda>x. st\<lparr>bf_SHA256 := x\<rparr>) (dec_str v (bf_SHA256 st))
      else if name = ''kind'' then map_option (\<lambda>x. st\<lparr>bf_Kind := x\<rparr>) (dec_str v (bf_Kind st))
      else if name = ''size_bytes'' then map_option (\<lambda>x. st\<lparr>bf_SizeBytes := x\<rparr>) (dec_int v (bf_SizeBytes st))
      else if name = ''included'' then map_option (\<lambda>x. st\<lparr>bf_Included := x\<rparr>) (dec_bool v (bf_Included st))
      else None)"

definition zeroFile :: backupFile where
  "zeroFile = \<lparr>bf_RelativePath = [], bf_BackupPath = [], bf_SHA256 = [], bf_Kind = [], bf_SizeBytes = 0, bf_Included = False\<rparr>"

definition setManifestField :: "string \<Rightarrow> jitem list \<Rightarrow> backupManifest \<Rightarrow> backupManifest option" where
  "setManifestField name v st =
     (if name = ''schema_version'' then map_option (\<lambda>x. st\<lparr>bn_SchemaVersion := x\<rparr>) (dec_int v (bn_SchemaVersion st))
      else if name = ''type'' then map_option (\<lambda>x. st\<lparr>bn_Type := x\<rparr>) (dec_str v (bn_Type st))
      else if name = ''files'' then map_option (\<lambda>x. st\<lparr>bn_Files := x\<rparr>)
        (dec_slice (loose_struct [''relative_path'', ''backup_path'', ''sha256'', ''kind'', ''size_bytes'', ''included''] setFileField)
           zeroFile v (bn_Files st))
      else None)"

definition decodeManifest :: "string \<Rightarrow> backupManifest option" where
  "decodeManifest raw = unmarshal [''schema_version'', ''type'', ''files''] setManifestField
     \<lparr>bn_SchemaVersion = 0, bn_Type = [], bn_Files = []\<rparr> raw"

text \<open>\<^verbatim>\<open>strings.ToLower\<close> on ASCII text.\<close>

definition to_lower :: "string \<Rightarrow> string" where
  "to_lower s = map (\<lambda>c. if 65 \<le> byte c \<and> byte c \<le> 90 then char_of (byte c + 32) else c) s"

text \<open>The files of a manifest that can vouch for a managed file; a repeated path is an error.\<close>

definition coversMedia :: "backupFile \<Rightarrow> bool" where
  "coversMedia file \<longleftrightarrow>
     \<not> (bf_Kind file \<noteq> ''media'' \<or> \<not> bf_Included file \<or> length (bf_SHA256 file) \<noteq> 64 \<or> bf_SizeBytes file < 1 \<or> bf_BackupPath file = [])
     \<and> (let relativePath = cleanPath (bf_RelativePath file) in
        \<not> (relativePath \<noteq> bf_RelativePath file \<or> relativePath = ''.'' \<or> has_prefix relativePath ''../'' \<or> \<not> has_prefix relativePath ''accepted/''))
     \<and> (let clean = cleanPath (bf_BackupPath file) in \<not> (isAbs clean \<or> clean = ''..'' \<or> has_prefix clean ''../''))"

fun collectCoverage :: "string \<Rightarrow> backupFile list \<Rightarrow> (string \<rightharpoonup> backupCoverage) \<Rightarrow> (string \<rightharpoonup> backupCoverage) option" where
  "collectCoverage manifestPath [] coverage = Some coverage"
| "collectCoverage manifestPath (file # files) coverage =
     (if \<not> coversMedia file then collectCoverage manifestPath files coverage
      else if coverage (bf_RelativePath file) \<noteq> None then None
      else collectCoverage manifestPath files (coverage(bf_RelativePath file \<mapsto>
             \<lparr>bc_BackupPath = joinPath [dirPath manifestPath, cleanPath (bf_BackupPath file)], bc_SHA256 = to_lower (bf_SHA256 file),
              bc_SizeBytes = bf_SizeBytes file\<rparr>)))"

definition manifestCoverage :: "backupMarker \<Rightarrow> string \<Rightarrow> string + (string \<rightharpoonup> backupCoverage)" where
  "manifestCoverage marker manifestRaw =
     (case decodeManifest manifestRaw of
        None \<Rightarrow> Inl ''full backup manifest is invalid''
      | Some manifest \<Rightarrow>
          if bn_SchemaVersion manifest \<noteq> 1 \<or> bn_Type manifest \<noteq> ''full'' then Inl ''full backup manifest is invalid''
          else case collectCoverage (bm_ManifestPath marker) (bn_Files manifest) Map.empty of
                 None \<Rightarrow> Inl ''full backup manifest has duplicate media path''
               | Some coverage \<Rightarrow> Inr coverage)"

definition markerValid :: "string \<Rightarrow> backupMarker option" where
  "markerValid raw =
     (case decodeMarker raw of None \<Rightarrow> None
      | Some marker \<Rightarrow>
          if bm_SchemaVersion marker \<noteq> 1 \<or> \<not> isAbs (bm_ManifestPath marker) \<or> length (bm_ManifestSHA256 marker) \<noteq> 64
          then None else Some marker)"

definition loadBackupCoverage :: "ext \<Rightarrow> env \<Rightarrow> world \<Rightarrow> (string + (string \<rightharpoonup> backupCoverage)) \<times> world" where
  "loadBackupCoverage X E w =
     (if \<not> RequireFullBackup (cfg_Retention (w_cfg w)) then (Inr Map.empty, w)
      else
        let (raw, w) = readFile E (joinPath [DataDirectory (cfg_Paths (w_cfg w)), ''backup'', ''latest-full.json'']) w in
        case raw of None \<Rightarrow> (Inl (CodeBackupMissing @ '': '' @ e_os E), w)
        | Some raw \<Rightarrow>
            case markerValid raw of None \<Rightarrow> (Inl ''backup marker is invalid'', w)
            | Some marker \<Rightarrow>
                let (info, w) = lstat E (bm_ManifestPath marker) w in
                case info of
                  Stat e \<Rightarrow>
                    if en_kind e \<noteq> Regular then (Inl ''backup manifest is not a regular file'', w)
                    else
                      let (manifestRaw, w) = readFile E (bm_ManifestPath marker) w in
                      (case manifestRaw of None \<Rightarrow> (Inl (e_os E), w)
                       | Some manifestRaw \<Rightarrow>
                           if sha256_hex X manifestRaw \<noteq> to_lower (bm_ManifestSHA256 marker)
                           then (Inl ''backup manifest checksum mismatch'', w)
                           else (manifestCoverage marker manifestRaw, w))
                | _ \<Rightarrow> (Inl ''backup manifest is not a regular file'', w))"

definition backupBodyVerified :: "ext \<Rightarrow> env \<Rightarrow> backupCoverage \<Rightarrow> world \<Rightarrow> bool \<times> world" where
  "backupBodyVerified X E backup w =
     (let (info, w) = lstat E (bc_BackupPath backup) w in
      case info of
        Stat e \<Rightarrow>
          if en_kind e \<noteq> Regular \<or> en_size e \<noteq> bc_SizeBytes backup then (False, w)
          else let (actual, w) = fileSHA256 X E (bc_BackupPath backup) w in (actual = Some (bc_SHA256 backup), w)
      | _ \<Rightarrow> (False, w))"

section \<open>Retention\<close>

definition confirmRetentionDeletion :: "ext \<Rightarrow> env \<Rightarrow> RetentionCandidate \<Rightarrow> world \<Rightarrow> (go_error + unit) \<times> world" where
  "confirmRetentionDeletion X E candidate w =
     (let (deletedAt, w) = clockNow E w
      in repo E (\<lambda>flt. CommitRetentionDeletion X flt
           \<lparr>re_MediaSegmentID = rc_MediaSegmentID candidate, re_Status = ''deleted'', re_ReasonCode = ''RETENTION_POLICY'',
            re_ManagedRelativePath = rc_ManagedRelativePath candidate, re_OccurredAtUTC = rfc3339nano deletedAt\<rparr>) w)"

definition confirmOrRecord :: "ext \<Rightarrow> env \<Rightarrow> RetentionCandidate \<Rightarrow> world \<Rightarrow> world" where
  "confirmOrRecord X E candidate w =
     (let (r, w) = confirmRetentionDeletion X E candidate w
      in case r of Inr _ \<Rightarrow> w | Inl e \<Rightarrow> recordError X E ''retention'' ''P1'' CodeRetentionCommit (e_text E e) w)"

definition recordRetentionFailure :: "ext \<Rightarrow> env \<Rightarrow> RetentionCandidate \<Rightarrow> world \<Rightarrow> world" where
  "recordRetentionFailure X E candidate w =
     (let (now, w) = clockNow E w;
          (r, w) = repo E (\<lambda>flt. AppendRetentionEvent X flt
            \<lparr>re_MediaSegmentID = rc_MediaSegmentID candidate, re_Status = ''failed'', re_ReasonCode = ''RETENTION_DELETE_FAILED'',
             re_ManagedRelativePath = rc_ManagedRelativePath candidate, re_OccurredAtUTC = rfc3339nano now\<rparr>) w
      in recordError X E ''retention'' ''P1'' ''RETENTION_DELETE_FAILED'' (e_os E) w)"

definition acceptedRoot :: "Config \<Rightarrow> string" where
  "acceptedRoot cfg = cleanPath (joinPath [MediaStorageDirectory cfg, ''accepted''])"

definition candidatePath :: "Config \<Rightarrow> RetentionCandidate \<Rightarrow> string" where
  "candidatePath cfg candidate = cleanPath (joinPath [MediaStorageDirectory cfg, cleanPath (rc_ManagedRelativePath candidate)])"

definition insideAccepted :: "Config \<Rightarrow> string \<Rightarrow> bool" where
  "insideAccepted cfg path = (case relPath (acceptedRoot cfg) path of None \<Rightarrow> False | Some rel \<Rightarrow> \<not> (rel = ''.'' \<or> leadsUp rel))"

definition backupCovers :: "ext \<Rightarrow> env \<Rightarrow> (string \<rightharpoonup> backupCoverage) \<Rightarrow> RetentionCandidate \<Rightarrow> world \<Rightarrow> bool \<times> world" where
  "backupCovers X E coverage candidate w =
     (if \<not> RequireFullBackup (cfg_Retention (w_cfg w)) then (True, w)
      else case coverage (rc_ManagedRelativePath candidate) of
        None \<Rightarrow> (False, w)
      | Some backup \<Rightarrow>
          if bc_SHA256 backup \<noteq> to_lower (rc_SHA256 candidate) \<or> bc_SizeBytes backup \<noteq> rc_SizeBytes candidate then (False, w)
          else backupBodyVerified X E backup w)"

text \<open>Deleting a file that has just been found intact: plan, remove, confirm.\<close>

definition deleteFile :: "ext \<Rightarrow> env \<Rightarrow> RetentionCandidate \<Rightarrow> string \<Rightarrow> world \<Rightarrow> world" where
  "deleteFile X E candidate path w =
     (let (now, w) = clockNow E w;
          (r, w) = repo E (\<lambda>flt. AppendRetentionEvent X flt
            \<lparr>re_MediaSegmentID = rc_MediaSegmentID candidate, re_Status = ''planned'', re_ReasonCode = ''RETENTION_POLICY'',
             re_ManagedRelativePath = rc_ManagedRelativePath candidate, re_OccurredAtUTC = rfc3339nano now\<rparr>) w
      in case r of Inl _ \<Rightarrow> w
         | Inr _ \<Rightarrow>
             let (ok, w) = removeFile E path w
             in if \<not> ok then recordRetentionFailure X E candidate w else confirmOrRecord X E candidate w)"

definition retainCandidate :: "ext \<Rightarrow> env \<Rightarrow> (string \<rightharpoonup> backupCoverage) \<Rightarrow> RetentionCandidate \<Rightarrow> world \<Rightarrow> world" where
  "retainCandidate X E coverage candidate w =
     (let path = candidatePath (w_cfg w) candidate in
      if \<not> insideAccepted (w_cfg w) path then w
      else
        let (covered, w) = backupCovers X E coverage candidate w in
        if \<not> covered then w
        else
          let (planned, w) = repo_read E (\<lambda>flt. RetentionDeletionPlanned flt (rc_MediaSegmentID candidate) (rc_ManagedRelativePath candidate)) w in
          case planned of Inl _ \<Rightarrow> w
          | Inr plannedBefore \<Rightarrow>
              let (info, w) = lstat E path w in
              case info of
                NotExist \<Rightarrow> if plannedBefore then confirmOrRecord X E candidate w else w
              | StatFailed \<Rightarrow> w
              | Stat e \<Rightarrow>
                  if en_kind e \<noteq> Regular \<or> en_size e \<noteq> rc_SizeBytes candidate then w
                  else
                    let (actualHash, w) = fileSHA256 X E path w in
                    if actualHash \<noteq> Some (rc_SHA256 candidate) then w
                    else deleteFile X E candidate path w)"

definition RetentionOnce :: "ext \<Rightarrow> env \<Rightarrow> world \<Rightarrow> world" where
  "RetentionOnce X E w =
     (if \<not> rt_Enabled (cfg_Retention (w_cfg w)) then w
      else
        let ((allowed, code), w) = MediaAllowed E w in
        if allowed then w
        else
          let (coverage, w) = loadBackupCoverage X E w in
          case coverage of
            Inl err \<Rightarrow> recordError X E ''retention'' ''P1'' CodeBackupInvalid err w
          | Inr coverage \<Rightarrow>
              let (now, w) = clockNow E w;
                  cutoff = rfc3339nano (now - RetentionMinimumAge (w_cfg w));
                  (candidates, w) = repo_read E (\<lambda>flt. RetentionCandidates flt cutoff (MaxDeletesPerRun (cfg_Retention (w_cfg w)))) w
              in case candidates of
                   Inl e \<Rightarrow> recordError X E ''retention'' ''P1'' ''RETENTION_QUERY_FAILED'' (e_text E e) w
                 | Inr candidates \<Rightarrow> foldl (\<lambda>w candidate. retainCandidate X E coverage candidate w) w candidates)"

section \<open>What the steps leave alone\<close>

text \<open>A step that may write to the store but neither touches files nor the configuration.\<close>

definition keeps :: "world \<Rightarrow> world \<Rightarrow> bool" where
  "keeps w w' \<longleftrightarrow> w_cfg w' = w_cfg w \<and> w_files w' = w_files w
     \<and> set (retention_events (w_db w)) \<subseteq> set (retention_events (w_db w'))"

lemma keeps_refl: "keeps w w"
  by (simp add: keeps_def)

lemma keeps_trans: "keeps a b \<Longrightarrow> keeps b c \<Longrightarrow> keeps a c"
  by (auto simp: keeps_def)

lemma insert_op_grows: "insert_op c r key event rows = Inr rows' \<Longrightarrow> set rows \<subseteq> set rows' \<and> key \<in> op_key ` set rows'"
  by (erule insert_op_cases) (auto simp: op_row_of_def)

lemma fault_retention: "retention_events (snd (AppendFaultEvent X flt event db)) = retention_events db"
  by (simp add: AppendFaultEvent_def split: sum.splits)

lemma module_retention: "retention_events (snd (AppendModuleStateEvent X flt event db)) = retention_events db"
  by (simp add: AppendModuleStateEvent_def split: sum.splits)

lemma retention_grows: "set (retention_events db) \<subseteq> set (retention_events (snd (AppendRetentionEvent X flt event db)))"
  by (auto simp: AppendRetentionEvent_def exec_insert_Inr split: sum.splits dest!: insert_op_grows)

lemma retention_recorded:
  "AppendRetentionEvent X flt event db = (Inr u, db') \<Longrightarrow>
     eventKey X [int_digits (re_MediaSegmentID event), re_Status event, re_ReasonCode event, re_ManagedRelativePath event, re_OccurredAtUTC event]
       \<in> op_key ` set (retention_events db')"
  by (auto simp: AppendRetentionEvent_def exec_insert_Inr split: sum.splits dest!: insert_op_grows)

lemma commit_retention_grows: "set (retention_events db) \<subseteq> set (retention_events (snd (CommitRetentionDeletion X flt event db)))"
proof (cases "CommitRetentionDeletion X flt event db")
  case (Pair r db')
  then show ?thesis
  proof (cases rule: commit_cases)
    case (committed rows states e)
    have "retention_events db' = rows"
      using committed(6) more_ops [OF project_segment_more [of "st_id e" "db\<lparr>retention_events := rows, state_events := states\<rparr>"]] by simp
    with insert_op_grows [OF committed(2)] Pair show ?thesis by simp
  qed (use Pair in simp)
qed

lemma repo_keeps:
  "(\<And>flt db. set (retention_events db) \<subseteq> set (retention_events (snd (call flt db)))) \<Longrightarrow> keeps w (snd (repo E call w))"
  by (simp add: keeps_def repo_def ticked_def split: prod.splits) (metis snd_conv)

lemma basic_keeps:
  "keeps w (ticked w)" "keeps w (snd (clockNow E w))" "keeps w (snd (lstat E path w))" "keeps w (snd (readFile E path w))"
  "keeps w (snd (repo_read E call w))"
  by (simp_all add: keeps_def ticked_def clockNow_def lstat_def readFile_def repo_read_def)

lemma hash_keeps: "keeps w (snd (fileSHA256 X E path w))"
  using basic_keeps(4) [of w E path] by (cases "readFile E path w") (simp add: fileSHA256_def)

lemma fault_keeps: "keeps w (appendFault X E m s st c d n w)"
  by (simp add: appendFault_def keeps_refl repo_keeps fault_retention)

lemma module_keeps: "keeps w (appendModule X E m s r n w)"
  by (simp add: appendModule_def keeps_refl repo_keeps module_retention)

lemma error_keeps: "keeps w (recordError X E m s c d w)"
proof (cases "clockNow E w")
  case (Pair now w1)
  with basic_keeps(2) [of w E] have "keeps w w1" by simp
  then show ?thesis using Pair keeps_trans [OF _ fault_keeps] by (simp add: recordError_def)
qed

text \<open>The same facts for steps taken apart by their result.\<close>

lemma steps_keep:
  "clockNow E w = (t, w') \<Longrightarrow> keeps w w'"
  "lstat E path w = (st, w') \<Longrightarrow> keeps w w'"
  "readFile E path w = (c, w') \<Longrightarrow> keeps w w'"
  "repo_read E call w = (r, w') \<Longrightarrow> keeps w w'"
  "fileSHA256 X E path w = (h, w') \<Longrightarrow> keeps w w'"
  using basic_keeps hash_keeps by (metis snd_conv)+

lemma repo_step_keeps:
  assumes "repo E call w = (r, w')" and "\<And>flt db. set (retention_events db) \<subseteq> set (retention_events (snd (call flt db)))"
  shows "keeps w w'"
  using repo_keeps [of call w E] assms by simp

lemma confirm_keeps: "keeps w (confirmOrRecord X E candidate w)"
proof -
  obtain t w1 where c: "clockNow E w = (t, w1)" by fastforce
  have "keeps w1 (snd (repo E (\<lambda>flt. CommitRetentionDeletion X flt e) w1))" for e
    by (rule repo_keeps) (rule commit_retention_grows)
  with c have "keeps w1 (snd (confirmRetentionDeletion X E candidate w))" by (simp add: confirmRetentionDeletion_def)
  then have "keeps w (snd (confirmRetentionDeletion X E candidate w))" by (rule keeps_trans [OF steps_keep(1) [OF c]])
  then show ?thesis using keeps_trans [OF _ error_keeps]
    by (cases "confirmRetentionDeletion X E candidate w") (auto simp: confirmOrRecord_def split: sum.splits)
qed

lemma failure_keeps: "keeps w (recordRetentionFailure X E candidate w)"
proof -
  obtain t w1 where c: "clockNow E w = (t, w1)" by fastforce
  have k: "keeps w1 (snd (repo E (\<lambda>flt. AppendRetentionEvent X flt e) w1))" for e
    by (rule repo_keeps) (rule retention_grows)
  show ?thesis
    unfolding recordRetentionFailure_def Let_def c split_beta fst_conv snd_conv
    by (rule keeps_trans [OF steps_keep(1) [OF c] keeps_trans [OF k error_keeps]])
qed

text \<open>A step that reads: the store is unchanged, too.\<close>

definition looks :: "world \<Rightarrow> world \<Rightarrow> bool" where
  "looks w w' \<longleftrightarrow> w_cfg w' = w_cfg w \<and> w_files w' = w_files w \<and> w_db w' = w_db w \<and> w_tick w \<le> w_tick w'"

lemma looks_refl: "looks w w"
  by (simp add: looks_def)

lemma looks_trans: "looks a b \<Longrightarrow> looks b c \<Longrightarrow> looks a c"
  by (simp add: looks_def)

lemma looks_keeps: "looks w w' \<Longrightarrow> keeps w w'"
  by (simp add: looks_def keeps_def)

lemma steps_look:
  "clockNow E w = (t, w') \<Longrightarrow> looks w w'"
  "lstat E path w = (st, w') \<Longrightarrow> looks w w'"
  "readFile E path w = (c, w') \<Longrightarrow> looks w w'"
  "repo_read E call w = (r, w') \<Longrightarrow> looks w w'"
  "fileSHA256 X E path w = (h, w') \<Longrightarrow> looks w w'"
  by (auto simp: looks_def ticked_def clockNow_def lstat_def readFile_def repo_read_def fileSHA256_def)

lemma refresh_looks: "refreshDiskStatus E w = (r, w') \<Longrightarrow> looks w w'"
  by (auto simp: refreshDiskStatus_def looks_def clockNow_def ticked_def Let_def split: prod.splits)

lemma allowed_looks: "MediaAllowed E w = (r, w') \<Longrightarrow> looks w w'"
  by (auto simp: MediaAllowed_def split: prod.splits if_splits dest: refresh_looks)

lemma load_looks: "loadBackupCoverage X E w = (r, w') \<Longrightarrow> looks w w'"
  by (auto simp: loadBackupCoverage_def looks_refl split: prod.splits option.splits if_splits stat_result.splits
      dest!: steps_look intro: looks_trans)

lemma covers_looks: "backupCovers X E coverage candidate w = (r, w') \<Longrightarrow> looks w w'"
  by (auto simp: backupCovers_def backupBodyVerified_def looks_refl split: prod.splits option.splits if_splits stat_result.splits
      dest!: steps_look intro: looks_trans)

section \<open>What a deletion rests on\<close>

text \<open>A regular file of the given size whose content has the given digest.\<close>

definition intact :: "ext \<Rightarrow> files \<Rightarrow> string \<Rightarrow> int \<Rightarrow> string \<Rightarrow> bool" where
  "intact X fs path n digest \<longleftrightarrow>
     (\<exists>e content. map_of fs path = Some e \<and> en_kind e = Regular \<and> en_size e = n \<and> en_content e = Some content \<and> sha256_hex X content = digest)"

text \<open>
  The copy of a managed file that the latest full backup names: the marker file in the data directory names the manifest and its
  digest, the manifest is of type \<^verbatim>\<open>full\<close> and lists the managed path, with its digest and its size, as an included media file, and the copy
  is the path the manifest gives, relative to the manifest's directory.
\<close>

definition named_copy :: "ext \<Rightarrow> Config \<Rightarrow> files \<Rightarrow> string \<Rightarrow> string \<Rightarrow> int \<Rightarrow> string \<Rightarrow> bool" where
  "named_copy X cfg fs relative digest n copy \<longleftrightarrow> (\<exists>entry raw marker manifestEntry manifestRaw manifest file.
     map_of fs (joinPath [DataDirectory (cfg_Paths cfg), ''backup'', ''latest-full.json'']) = Some entry \<and> en_content entry = Some raw
     \<and> decodeMarker raw = Some marker \<and> isAbs (bm_ManifestPath marker)
     \<and> map_of fs (bm_ManifestPath marker) = Some manifestEntry \<and> en_kind manifestEntry = Regular \<and> en_content manifestEntry = Some manifestRaw
     \<and> sha256_hex X manifestRaw = to_lower (bm_ManifestSHA256 marker)
     \<and> decodeManifest manifestRaw = Some manifest \<and> bn_SchemaVersion manifest = 1 \<and> bn_Type manifest = ''full''
     \<and> file \<in> set (bn_Files manifest) \<and> bf_Kind file = ''media'' \<and> bf_Included file
     \<and> bf_RelativePath file = relative \<and> to_lower (bf_SHA256 file) = digest \<and> bf_SizeBytes file = n
     \<and> \<not> isAbs (cleanPath (bf_BackupPath file)) \<and> \<not> has_prefix (cleanPath (bf_BackupPath file)) ''../''
     \<and> copy = joinPath [dirPath (bm_ManifestPath marker), cleanPath (bf_BackupPath file)])"

definition vouches :: "ext \<Rightarrow> Config \<Rightarrow> files \<Rightarrow> (string \<rightharpoonup> backupCoverage) \<Rightarrow> bool" where
  "vouches X cfg fs coverage \<longleftrightarrow> (RequireFullBackup (cfg_Retention cfg) \<longrightarrow>
     (\<forall>relative b. coverage relative = Some b \<longrightarrow> named_copy X cfg fs relative (bc_SHA256 b) (bc_SizeBytes b) (bc_BackupPath b)))"

definition deletion_evidence :: "ext \<Rightarrow> Config \<Rightarrow> (string \<rightharpoonup> backupCoverage) \<Rightarrow> files \<Rightarrow> RetentionCandidate \<Rightarrow> bool" where
  "deletion_evidence X cfg coverage fs c \<longleftrightarrow>
     insideAccepted cfg (candidatePath cfg c) \<and> intact X fs (candidatePath cfg c) (rc_SizeBytes c) (rc_SHA256 c)
     \<and> (RequireFullBackup (cfg_Retention cfg) \<longrightarrow> (\<exists>b. coverage (rc_ManagedRelativePath c) = Some b \<and> bc_SHA256 b = to_lower (rc_SHA256 c)
          \<and> bc_SizeBytes b = rc_SizeBytes c \<and> intact X fs (bc_BackupPath b) (bc_SizeBytes b) (bc_SHA256 b)))"

lemma collect_named:
  "collectCoverage manifestPath files coverage = Some coverage' \<Longrightarrow> coverage' relative = Some b \<Longrightarrow>
     coverage relative = Some b \<or> (\<exists>file \<in> set files. coversMedia file \<and> bf_RelativePath file = relative
       \<and> b = \<lparr>bc_BackupPath = joinPath [dirPath manifestPath, cleanPath (bf_BackupPath file)], bc_SHA256 = to_lower (bf_SHA256 file), bc_SizeBytes = bf_SizeBytes file\<rparr>)"
proof (induction files arbitrary: coverage)
  case (Cons f files)
  show ?case
  proof (cases "coversMedia f")
    case True
    with Cons.prems have "collectCoverage manifestPath files (coverage(bf_RelativePath f \<mapsto>
        \<lparr>bc_BackupPath = joinPath [dirPath manifestPath, cleanPath (bf_BackupPath f)], bc_SHA256 = to_lower (bf_SHA256 f),
         bc_SizeBytes = bf_SizeBytes f\<rparr>)) = Some coverage'" by (simp split: if_splits)
    from Cons.IH [OF this Cons.prems(2)] True show ?thesis by (cases "relative = bf_RelativePath f") auto
  next
    case False
    with Cons.prems have "collectCoverage manifestPath files coverage = Some coverage'" by simp
    from Cons.IH [OF this Cons.prems(2)] show ?thesis by auto
  qed
qed simp

lemma read_Some: "readFile E path w = (Some raw, w') \<Longrightarrow> \<exists>e. map_of (w_files w) path = Some e \<and> en_content e = Some raw"
  by (auto simp: readFile_def split: if_splits bind_splits)

lemma load_vouches:
  assumes "loadBackupCoverage X E w = (Inr coverage, w')"
  shows "vouches X (w_cfg w) (w_files w) coverage"
  unfolding vouches_def
proof (intro impI allI)
  fix relative b
  assume req: "RequireFullBackup (cfg_Retention (w_cfg w))" and b: "coverage relative = Some b"
  let ?mp = "joinPath [DataDirectory (cfg_Paths (w_cfg w)), ''backup'', ''latest-full.json'']"
  obtain r1 w1 where r1: "readFile E ?mp w = (r1, w1)" by fastforce
  from assms req r1 obtain raw marker where raw: "r1 = Some raw" and marker: "markerValid raw = Some marker"
    by (auto simp: loadBackupCoverage_def split: option.splits)
  obtain st w2 where st: "lstat E (bm_ManifestPath marker) w1 = (st, w2)" by fastforce
  obtain r2 w3 where r2: "readFile E (bm_ManifestPath marker) w2 = (r2, w3)" by fastforce
  from assms req r1 raw marker st r2 obtain e manifestRaw where e: "st = Stat e" "en_kind e = Regular" and m: "r2 = Some manifestRaw"
    and sha: "sha256_hex X manifestRaw = to_lower (bm_ManifestSHA256 marker)" and cov: "manifestCoverage marker manifestRaw = Inr coverage"
    by (auto simp: loadBackupCoverage_def split: option.splits stat_result.splits if_splits)
  have files: "w_files w1 = w_files w" "w_files w2 = w_files w"
    using steps_look(3) [OF r1] steps_look(2) [OF st] by (simp_all add: looks_def)
  obtain entry where entry: "map_of (w_files w) ?mp = Some entry" "en_content entry = Some raw" using read_Some r1 raw by blast
  have "st = Stat e \<Longrightarrow> map_of (w_files w) (bm_ManifestPath marker) = Some e" using st files by (auto simp: lstat_def split: if_splits option.splits)
  with e(1) have me: "map_of (w_files w) (bm_ManifestPath marker) = Some e" by simp
  moreover obtain e' where "map_of (w_files w) (bm_ManifestPath marker) = Some e'" "en_content e' = Some manifestRaw"
    using read_Some r2 m files by metis
  ultimately have content: "en_content e = Some manifestRaw" by simp
  obtain manifest where manifest: "decodeManifest manifestRaw = Some manifest" "bn_SchemaVersion manifest = 1" "bn_Type manifest = ''full''"
    and coll: "collectCoverage (bm_ManifestPath marker) (bn_Files manifest) Map.empty = Some coverage"
    using cov by (auto simp: manifestCoverage_def split: option.splits if_splits)
  from collect_named [OF coll b] obtain f where listed: "f \<in> set (bn_Files manifest)" "coversMedia f" "bf_RelativePath f = relative"
    "b = \<lparr>bc_BackupPath = joinPath [dirPath (bm_ManifestPath marker), cleanPath (bf_BackupPath f)], bc_SHA256 = to_lower (bf_SHA256 f), bc_SizeBytes = bf_SizeBytes f\<rparr>"
    by auto
  have "decodeMarker raw = Some marker" "isAbs (bm_ManifestPath marker)" using marker by (auto simp: markerValid_def split: option.splits if_splits)
  with entry me content e(2) sha manifest listed show "named_copy X (w_cfg w) (w_files w) relative (bc_SHA256 b) (bc_SizeBytes b) (bc_BackupPath b)"
    unfolding named_copy_def coversMedia_def Let_def by auto
qed

definition planned_key :: "ext \<Rightarrow> RetentionCandidate \<Rightarrow> string \<Rightarrow> string" where
  "planned_key X c t = eventKey X [int_digits (rc_MediaSegmentID c), ''planned'', ''RETENTION_POLICY'', rc_ManagedRelativePath c, t]"

definition removes :: "ext \<Rightarrow> RetentionCandidate \<Rightarrow> world \<Rightarrow> world \<Rightarrow> bool" where
  "removes X c w w' \<longleftrightarrow> w_cfg w' = w_cfg w \<and> w_files w' = filter (\<lambda>f. fst f \<noteq> candidatePath (w_cfg w) c) (w_files w)
     \<and> set (retention_events (w_db w)) \<subseteq> set (retention_events (w_db w'))
     \<and> (\<exists>t. planned_key X c t \<in> op_key ` set (retention_events (w_db w')))"

lemma lstat_Stat: "lstat E path w = (Stat e, w') \<Longrightarrow> map_of (w_files w) path = Some e"
  by (auto simp: lstat_def split: if_splits option.splits)

lemma hash_Some: "fileSHA256 X E path w = (Some h, w') \<Longrightarrow>
    \<exists>e content. map_of (w_files w) path = Some e \<and> en_content e = Some content \<and> sha256_hex X content = h"
  by (auto simp: fileSHA256_def readFile_def split: if_splits bind_splits)

lemma stat_hash_intact:
  assumes "lstat E path w = (Stat e, w1)" "en_kind e = Regular" "looks w1 w2" "fileSHA256 X E path w2 = (Some h, w3)"
  shows "intact X (w_files w) path (en_size e) h"
proof -
  have "w_files w2 = w_files w" using steps_look(2) [OF assms(1)] assms(3) by (simp add: looks_def)
  with hash_Some [OF assms(4)] lstat_Stat [OF assms(1)] assms(2) show ?thesis by (auto simp: intact_def)
qed

lemma body_verified_intact:
  assumes "backupBodyVerified X E b w = (True, w')" shows "intact X (w_files w) (bc_BackupPath b) (bc_SizeBytes b) (bc_SHA256 b)"
proof -
  obtain st w1 where st: "lstat E (bc_BackupPath b) w = (st, w1)" by fastforce
  obtain h w2 where h: "fileSHA256 X E (bc_BackupPath b) w1 = (h, w2)" by fastforce
  from assms st h obtain e where "st = Stat e" "en_kind e = Regular" "en_size e = bc_SizeBytes b" "h = Some (bc_SHA256 b)"
    by (auto simp: backupBodyVerified_def split: stat_result.splits if_splits)
  with stat_hash_intact [of E "bc_BackupPath b" w e w1 w1 X] st h looks_refl show ?thesis by simp
qed

lemma covers_intact:
  assumes "backupCovers X E coverage c w = (True, w')" "RequireFullBackup (cfg_Retention (w_cfg w))"
  shows "\<exists>b. coverage (rc_ManagedRelativePath c) = Some b \<and> bc_SHA256 b = to_lower (rc_SHA256 c) \<and> bc_SizeBytes b = rc_SizeBytes c
    \<and> intact X (w_files w) (bc_BackupPath b) (bc_SizeBytes b) (bc_SHA256 b)"
  using assms body_verified_intact [of X E _ w w']
  by (auto simp: backupCovers_def split: option.splits if_splits) metis

lemma delete_file_cases:
  "keeps w (deleteFile X E c (candidatePath (w_cfg w) c) w) \<or> removes X c w (deleteFile X E c (candidatePath (w_cfg w) c) w)"
proof -
  define ev where "ev = (\<lambda>t. \<lparr>re_MediaSegmentID = rc_MediaSegmentID c, re_Status = ''planned'', re_ReasonCode = ''RETENTION_POLICY'',
             re_ManagedRelativePath = rc_ManagedRelativePath c, re_OccurredAtUTC = rfc3339nano t\<rparr>)"
  define p where "p = candidatePath (w_cfg w) c"
  obtain t w1 where c: "clockNow E w = (t, w1)" by fastforce
  obtain r w2 where r: "repo E (\<lambda>flt. AppendRetentionEvent X flt (ev t)) w1 = (r, w2)" by fastforce
  obtain ok w3 where d: "removeFile E p w2 = (ok, w3)" by fastforce
  have k2: "keeps w w2"
    using keeps_trans [OF steps_keep(1) [OF c] repo_step_keeps [OF r]] retention_grows by blast
  have step: "deleteFile X E c p w = (case r of Inl _ \<Rightarrow> w2
      | Inr _ \<Rightarrow> if \<not> ok then recordRetentionFailure X E c w3 else confirmOrRecord X E c w3)"
    using c r d by (simp add: deleteFile_def ev_def split: sum.split)
  show ?thesis
  proof (cases r)
    case (Inl e)
    with step k2 show ?thesis by (simp add: p_def)
  next
    case (Inr u)
    have planned: "planned_key X c (rfc3339nano t) \<in> op_key ` set (retention_events (w_db w2))"
      using r retention_recorded [of X _ "ev t" _ u] Inr
      by (auto simp: repo_def ev_def planned_key_def ticked_def split: prod.splits)
    show ?thesis
    proof (cases ok)
      case True
      with d have w3: "w_cfg w3 = w_cfg w2" "w_db w3 = w_db w2" "w_files w3 = filter (\<lambda>f. fst f \<noteq> p) (w_files w2)"
        by (auto simp: removeFile_def ticked_def split: if_splits)
      have "keeps w3 (confirmOrRecord X E c w3)" by (rule confirm_keeps)
      with w3 k2 planned True Inr step have "removes X c w (deleteFile X E c p w)"
        by (auto simp: removes_def keeps_def p_def intro!: exI [of _ "rfc3339nano t"])
      then show ?thesis by (simp add: p_def)
    next
      case False
      with d have "w3 = ticked w2" by (auto simp: removeFile_def split: if_splits)
      then have "keeps w (recordRetentionFailure X E c w3)"
        using keeps_trans [OF k2 keeps_trans [OF basic_keeps(1) failure_keeps]] by simp
      with False Inr step have "keeps w (deleteFile X E c p w)" by simp
      then show ?thesis by (simp add: p_def)
    qed
  qed
qed

lemma retain_cases:
  "keeps w (retainCandidate X E coverage c w)
     \<or> deletion_evidence X (w_cfg w) coverage (w_files w) c \<and> removes X c w (retainCandidate X E coverage c w)"
proof -
  define p where "p = candidatePath (w_cfg w) c"
  obtain cov w1 where cov: "backupCovers X E coverage c w = (cov, w1)" by fastforce
  obtain pl w2 where pl: "repo_read E (\<lambda>flt. RetentionDeletionPlanned flt (rc_MediaSegmentID c) (rc_ManagedRelativePath c)) w1 = (pl, w2)"
    by fastforce
  obtain st w3 where st: "lstat E p w2 = (st, w3)" by fastforce
  obtain h w4 where h: "fileSHA256 X E p w3 = (h, w4)" by fastforce
  note l = covers_looks [OF cov] steps_look(4) [OF pl] steps_look(2) [OF st] steps_look(5) [OF h]
  have lw: "looks w w1" "looks w w2" "looks w w3" "looks w w4"
    using l looks_trans by blast+
  have step: "retainCandidate X E coverage c w =
     (if \<not> insideAccepted (w_cfg w) p then w else if \<not> cov then w1
      else case pl of Inl _ \<Rightarrow> w2 | Inr plannedBefore \<Rightarrow>
        (case st of NotExist \<Rightarrow> if plannedBefore then confirmOrRecord X E c w3 else w3
         | StatFailed \<Rightarrow> w3
         | Stat e \<Rightarrow> if en_kind e \<noteq> Regular \<or> en_size e \<noteq> rc_SizeBytes c then w3
                     else if h \<noteq> Some (rc_SHA256 c) then w4 else deleteFile X E c p w4))"
    using cov pl st h by (simp add: retainCandidate_def p_def [symmetric] split: sum.split stat_result.split)
  have del: "keeps w (deleteFile X E c p w4) \<or> removes X c w (deleteFile X E c p w4)"
    using delete_file_cases [of w4 X E c] lw(4) by (auto simp: p_def looks_def keeps_def removes_def)
  show ?thesis
  proof (cases "insideAccepted (w_cfg w) p \<and> cov \<and> (\<exists>b e. pl = Inr b \<and> st = Stat e \<and> en_kind e = Regular \<and> en_size e = rc_SizeBytes c) \<and> h = Some (rc_SHA256 c)")
    case True
    then obtain b e where T: "insideAccepted (w_cfg w) p" "cov" "pl = Inr b" "st = Stat e" "en_kind e = Regular" "en_size e = rc_SizeBytes c"
      "h = Some (rc_SHA256 c)" by blast
    have "intact X (w_files w2) p (rc_SizeBytes c) (rc_SHA256 c)"
      using stat_hash_intact [of E p w2 e w3 w3 X] st h T looks_refl by simp
    then have "deletion_evidence X (w_cfg w) coverage (w_files w) c"
      using T(1,2) lw(2) cov covers_intact [of X E coverage c w w1] by (simp add: deletion_evidence_def p_def looks_def)
    with del T step show ?thesis by auto
  next
    case False
    then have "retainCandidate X E coverage c w \<in> {w, w1, w2, w3, w4, confirmOrRecord X E c w3}"
      unfolding step by (auto split: sum.split stat_result.split)
    then show ?thesis using lw looks_keeps keeps_refl keeps_trans [OF looks_keeps [OF lw(3)] confirm_keeps] by auto
  qed
qed

text \<open>Removing a file leaves every other entry as it was.\<close>

lemma map_of_removed: "map_of (filter (\<lambda>f. fst f \<noteq> p) fs) q = (if q = p then None else map_of fs q)"
  by (induction fs) auto

lemma intact_mono: "map_of fs' \<subseteq>\<^sub>m map_of fs \<Longrightarrow> intact X fs' p n d \<Longrightarrow> intact X fs p n d"
  by (auto simp: intact_def map_le_def dom_def)

lemma evidence_mono: "map_of fs' \<subseteq>\<^sub>m map_of fs \<Longrightarrow> deletion_evidence X cfg coverage fs' c \<Longrightarrow> deletion_evidence X cfg coverage fs c"
  by (auto simp: deletion_evidence_def intro: intact_mono)

definition only_evident :: "ext \<Rightarrow> (string \<rightharpoonup> backupCoverage) \<Rightarrow> RetentionCandidate list \<Rightarrow> world \<Rightarrow> world \<Rightarrow> bool" where
  "only_evident X coverage cs w w' \<longleftrightarrow> w_cfg w' = w_cfg w \<and> set (retention_events (w_db w)) \<subseteq> set (retention_events (w_db w'))
     \<and> (\<forall>p. map_of (w_files w') p = map_of (w_files w) p
          \<or> map_of (w_files w') p = None \<and> (\<exists>c \<in> set cs. p = candidatePath (w_cfg w) c \<and> deletion_evidence X (w_cfg w) coverage (w_files w) c
               \<and> (\<exists>t. planned_key X c t \<in> op_key ` set (retention_events (w_db w')))))"

lemma only_evident_le: "only_evident X coverage cs w w' \<Longrightarrow> map_of (w_files w') \<subseteq>\<^sub>m map_of (w_files w)"
  unfolding only_evident_def map_le_def by (metis domIff)

lemma retain_evident: "only_evident X coverage [c] w (retainCandidate X E coverage c w)"
  using retain_cases [of w X E coverage c] by (auto simp: only_evident_def keeps_def removes_def map_of_removed split: if_splits)

lemma only_evident_trans:
  assumes ab: "only_evident X coverage cs a b" and bc: "only_evident X coverage ds b c" shows "only_evident X coverage (cs @ ds) a c"
proof -
  have cfg: "w_cfg b = w_cfg a" "w_cfg c = w_cfg b" using ab bc by (auto simp: only_evident_def)
  have sub: "set (retention_events (w_db a)) \<subseteq> set (retention_events (w_db b))" "set (retention_events (w_db b)) \<subseteq> set (retention_events (w_db c))"
    using ab bc by (auto simp: only_evident_def)
  have "map_of (w_files c) p = map_of (w_files a) p \<or> map_of (w_files c) p = None \<and> (\<exists>x \<in> set (cs @ ds). p = candidatePath (w_cfg a) x
      \<and> deletion_evidence X (w_cfg a) coverage (w_files a) x \<and> (\<exists>t. planned_key X x t \<in> op_key ` set (retention_events (w_db c))))" for p
  proof (cases "map_of (w_files c) p = map_of (w_files b) p")
    case True
    from ab have "map_of (w_files b) p = map_of (w_files a) p \<or> map_of (w_files b) p = None \<and> (\<exists>x \<in> set cs. p = candidatePath (w_cfg a) x
      \<and> deletion_evidence X (w_cfg a) coverage (w_files a) x \<and> (\<exists>t. planned_key X x t \<in> op_key ` set (retention_events (w_db b))))"
      unfolding only_evident_def by blast
    with True sub(2) show ?thesis by (simp add: image_iff) blast
  next
    case False
    with bc obtain x t where "map_of (w_files c) p = None" "x \<in> set ds" "p = candidatePath (w_cfg b) x"
      "deletion_evidence X (w_cfg b) coverage (w_files b) x" "planned_key X x t \<in> op_key ` set (retention_events (w_db c))"
      unfolding only_evident_def by blast
    with cfg evidence_mono [OF only_evident_le [OF ab]] show ?thesis by (metis Un_iff set_append)
  qed
  with cfg sub show ?thesis unfolding only_evident_def by auto
qed

lemma fold_evident: "only_evident X coverage cs w (foldl (\<lambda>w c. retainCandidate X E coverage c w) w cs)"
proof (induction cs arbitrary: w)
  case Nil
  then show ?case by (simp add: only_evident_def)
next
  case (Cons c cs)
  from only_evident_trans [OF retain_evident Cons] show ?case by simp
qed

lemma only_evident_looks: "looks w w1 \<Longrightarrow> only_evident X coverage cs w1 w' \<Longrightarrow> only_evident X coverage cs w w'"
  by (simp add: only_evident_def looks_def)

lemma only_evident_keeps: "looks w w1 \<Longrightarrow> keeps w1 w' \<Longrightarrow> only_evident X coverage [] w w'"
  by (auto simp: only_evident_def looks_def keeps_def)

lemma retention_cases:
  fixes X E w
  defines "w' \<equiv> RetentionOnce X E w"
  obtains (untouched) "only_evident X Map.empty [] w w'"
  | (ran) tick flt cs coverage where "rt_Enabled (cfg_Retention (w_cfg w))" "fst (diskLevel (w_cfg w) (fst (e_free E (w_tick w))) (snd (e_free E (w_tick w)))) \<noteq> DiskNormal"
      "w_tick w \<le> tick"
      "RetentionCandidates flt (rfc3339nano (e_now E tick - RetentionMinimumAge (w_cfg w))) (MaxDeletesPerRun (cfg_Retention (w_cfg w))) (w_db w) = Inr cs"
      "vouches X (w_cfg w) (w_files w) coverage" "only_evident X coverage cs w w'"
proof (cases "rt_Enabled (cfg_Retention (w_cfg w))")
  case False
  then show ?thesis using untouched by (simp add: w'_def RetentionOnce_def only_evident_def)
next
  case enabled: True
  obtain allowed code w1 where a: "MediaAllowed E w = ((allowed, code), w1)" by (cases "MediaAllowed E w") auto
  obtain cov w2 where l: "loadBackupCoverage X E w1 = (cov, w2)" by fastforce
  obtain now w3 where n: "clockNow E w2 = (now, w3)" by fastforce
  define cutoff where "cutoff = rfc3339nano (now - RetentionMinimumAge (w_cfg w3))"
  obtain cs w4 where r: "repo_read E (\<lambda>flt. RetentionCandidates flt cutoff (MaxDeletesPerRun (cfg_Retention (w_cfg w3)))) w3 = (cs, w4)"
    by fastforce
  note lk = allowed_looks [OF a] load_looks [OF l] steps_look(1) [OF n] steps_look(4) [OF r]
  have lw: "looks w w1" "looks w w2" "looks w w3" "looks w w4" using lk looks_trans by blast+
  have step: "w' = (if allowed then w1 else case cov of Inl err \<Rightarrow> recordError X E ''retention'' ''P1'' CodeBackupInvalid err w2
      | Inr coverage \<Rightarrow> (case cs of Inl e \<Rightarrow> recordError X E ''retention'' ''P1'' ''RETENTION_QUERY_FAILED'' (e_text E e) w4
          | Inr cs \<Rightarrow> foldl (\<lambda>w c. retainCandidate X E coverage c w) w4 cs))"
    using enabled a l n r by (simp add: w'_def RetentionOnce_def cutoff_def Let_def split: sum.split)
  show ?thesis
  proof (cases "\<not> allowed \<and> (\<exists>coverage candidates. cov = Inr coverage \<and> cs = Inr candidates)")
    case False
    then have "keeps w1 w' \<and> looks w w1 \<or> keeps w2 w' \<and> looks w w2 \<or> keeps w4 w' \<and> looks w w4"
      unfolding step using lw error_keeps keeps_refl by (auto split: sum.split)
    then show ?thesis using only_evident_keeps untouched by blast
  next
    case True
    then obtain coverage candidates where T: "\<not> allowed" "cov = Inr coverage" "cs = Inr candidates" by blast
    have "only_evident X coverage candidates w w'"
      using only_evident_looks [OF lw(4) fold_evident [of X coverage candidates w4 E]] T step by simp
    moreover have "fst (diskLevel (w_cfg w) (fst (e_free E (w_tick w))) (snd (e_free E (w_tick w)))) \<noteq> DiskNormal"
      using a T(1) by (auto simp: MediaAllowed_def refreshDiskStatus_def clockNow_def ticked_def Let_def split: prod.splits if_splits)
    moreover have "RetentionCandidates (e_faults E (w_tick w3)) (rfc3339nano (e_now E (w_tick w2) - RetentionMinimumAge (w_cfg w)))
        (MaxDeletesPerRun (cfg_Retention (w_cfg w))) (w_db w) = Inr candidates"
      using r n T(3) lw(3) by (auto simp: repo_read_def looks_def cutoff_def clockNow_def)
    moreover have "vouches X (w_cfg w) (w_files w) coverage"
      using load_vouches [of X E w1 coverage w2] l T(2) lw(1) by (simp add: looks_def)
    moreover have "w_tick w \<le> w_tick w2" using lw(2) by (simp add: looks_def)
    ultimately show ?thesis using ran enabled by blast
  qed
qed

text \<open>
  C37: Retention deletes only what it may, and never without a trace.  When a run of
  \<^verbatim>\<open>RetentionOnce\<close> changes what is stored at a path, then the file is gone, retention is enabled and the
  disk level is not normal, the path lies strictly below the accepted media directory, and it belongs to one of the
  candidates that the store named for the cutoff \<^verbatim>\<open>now\<close> (a reading of the clock during the run) minus the minimum age.  The file
  was a regular file with that candidate's size and digest, and the deletion was recorded as planned in the store.  When full
  backups are required, the manifest of the latest full backup listed the managed path with that digest and size, and the
  copy it names was among the files, a regular file with that size and that digest.  (The code does not ask
  that the copy be another file than the one deleted: a manifest that lies in the media directory can name the original.)
\<close>

theorem retention_deletion_safe:
  assumes "map_of (w_files (RetentionOnce X E w)) path \<noteq> map_of (w_files w) path"
  shows "map_of (w_files (RetentionOnce X E w)) path = None
    \<and> rt_Enabled (cfg_Retention (w_cfg w))
    \<and> fst (diskLevel (w_cfg w) (fst (e_free E (w_tick w))) (snd (e_free E (w_tick w)))) \<noteq> DiskNormal
    \<and> (\<exists>below. below \<noteq> [] \<and> cleanElems path = cleanElems (acceptedRoot (w_cfg w)) @ below)
    \<and> (\<exists>flt tick cs c. w_tick w \<le> tick
        \<and> RetentionCandidates flt (rfc3339nano (e_now E tick - RetentionMinimumAge (w_cfg w))) (MaxDeletesPerRun (cfg_Retention (w_cfg w))) (w_db w) = Inr cs
        \<and> c \<in> set cs \<and> path = candidatePath (w_cfg w) c
        \<and> intact X (w_files w) path (rc_SizeBytes c) (rc_SHA256 c)
        \<and> (RequireFullBackup (cfg_Retention (w_cfg w)) \<longrightarrow>
            (\<exists>copy. named_copy X (w_cfg w) (w_files w) (rc_ManagedRelativePath c) (to_lower (rc_SHA256 c)) (rc_SizeBytes c) copy
              \<and> intact X (w_files w) copy (rc_SizeBytes c) (to_lower (rc_SHA256 c))))
        \<and> (\<exists>t. planned_key X c t \<in> op_key ` set (retention_events (w_db (RetentionOnce X E w)))))"
proof (cases rule: retention_cases [of X w E])
  case untouched
  with assms show ?thesis by (auto simp: only_evident_def)
next
  case (ran tick flt cs coverage)
  from ran(6) assms obtain c t where c: "c \<in> set cs" "path = candidatePath (w_cfg w) c" "deletion_evidence X (w_cfg w) coverage (w_files w) c"
    "planned_key X c t \<in> op_key ` set (retention_events (w_db (RetentionOnce X E w)))"
    and gone: "map_of (w_files (RetentionOnce X E w)) path = None"
    unfolding only_evident_def by blast
  from c(2,3) obtain rel where "relPath (acceptedRoot (w_cfg w)) path = Some rel" "rel \<noteq> ''.''" "\<not> leadsUp rel"
    by (auto simp: deletion_evidence_def insideAccepted_def split: option.splits)
  from below_base [OF this] have below: "\<exists>below. below \<noteq> [] \<and> cleanElems path = cleanElems (acceptedRoot (w_cfg w)) @ below" .
  have "\<exists>copy. named_copy X (w_cfg w) (w_files w) (rc_ManagedRelativePath c) (to_lower (rc_SHA256 c)) (rc_SizeBytes c) copy
      \<and> intact X (w_files w) copy (rc_SizeBytes c) (to_lower (rc_SHA256 c))" if "RequireFullBackup (cfg_Retention (w_cfg w))"
    using c(3) ran(5) that unfolding deletion_evidence_def vouches_def by metis
  moreover have "intact X (w_files w) path (rc_SizeBytes c) (rc_SHA256 c)" using c(2,3) by (simp add: deletion_evidence_def)
  ultimately show ?thesis using c(1,2,4) gone below ran(1-4) by blast
qed

section \<open>Cleaning the staging directory\<close>

definition changed :: "world \<Rightarrow> world \<Rightarrow> string set" where
  "changed w w' = {p. map_of (w_files w') p \<noteq> map_of (w_files w) p}"

definition stale_partial :: "string \<Rightarrow> instant \<Rightarrow> world \<Rightarrow> string \<Rightarrow> bool" where
  "stale_partial rootDir cutoff w p \<longleftrightarrow>
     (\<exists>name e flt. p = joinPath [rootDir, name] \<and> partialName name \<and> map_of (w_files w) (rootDir @ ''/'' @ name) = Some e
        \<and> en_kind e = Regular \<and> en_modified e < cutoff
        \<and> TemporaryPathReferenced flt (joinPath [''staging'', name]) (w_db w) = Inr False)"

definition cleans :: "string \<Rightarrow> instant \<Rightarrow> int \<Rightarrow> world \<Rightarrow> world \<Rightarrow> bool" where
  "cleans rootDir cutoff n w w' \<longleftrightarrow> w_cfg w' = w_cfg w \<and> w_db w' = w_db w \<and> map_of (w_files w') \<subseteq>\<^sub>m map_of (w_files w)
     \<and> finite (changed w w') \<and> int (card (changed w w')) \<le> max 0 n \<and> (\<forall>p \<in> changed w w'. stale_partial rootDir cutoff w p)"

lemma cleans_looks: "looks w w' \<Longrightarrow> cleans rootDir cutoff n w w'"
  by (simp add: cleans_def looks_def changed_def)

lemma cleans_trans:
  assumes "cleans rootDir cutoff m a b" "cleans rootDir cutoff n b c" "max 0 m + max 0 n \<le> max 0 k"
  shows "cleans rootDir cutoff k a c"
proof -
  have le: "map_of (w_files c) \<subseteq>\<^sub>m map_of (w_files b)" "map_of (w_files b) \<subseteq>\<^sub>m map_of (w_files a)" using assms by (auto simp: cleans_def)
  have sub: "changed a c \<subseteq> changed a b \<union> changed b c" by (auto simp: changed_def)
  have "card (changed a c) \<le> card (changed a b) + card (changed b c)"
    using card_mono [OF _ sub] card_Un_le [of "changed a b" "changed b c"] assms by (fastforce simp: cleans_def)
  moreover have "stale_partial rootDir cutoff a p" if "stale_partial rootDir cutoff b p" for p
    using that le(2) assms(1) by (fastforce simp: stale_partial_def cleans_def map_le_def dom_def)
  ultimately show ?thesis using assms sub map_le_trans [OF le] by (auto simp: cleans_def intro: finite_subset [OF sub])
qed

lemma remove_changed:
  assumes "removeFile E p w = (ok, w')"
  shows "w_cfg w' = w_cfg w" "w_db w' = w_db w" "map_of (w_files w') \<subseteq>\<^sub>m map_of (w_files w)" "changed w w' \<subseteq> (if ok then {p} else {})"
  using assms by (auto simp: removeFile_def ticked_def changed_def map_of_removed map_le_def split: if_splits)

lemma remove_cleans:
  assumes "removeFile E p w = (ok, w')" "stale_partial rootDir cutoff w p"
  shows "cleans rootDir cutoff (if ok then 1 else 0) w w'"
proof -
  note r = remove_changed [OF assms(1)]
  have "finite (changed w w')" "card (changed w w') \<le> (if ok then 1 else 0)"
    using finite_subset [OF r(4)] card_mono [OF _ r(4)] by (cases ok; simp)+
  with r assms(2) show ?thesis by (cases ok) (auto simp: cleans_def)
qed

lemma cleanup_loop_cleans:
  "cleans rootDir cutoff (TempMaxFiles (cfg_Operations (w_cfg w)) - removed) w (cleanupLoop E rootDir cutoff removed entries w)"
proof (induction entries arbitrary: removed w)
  case Nil
  then show ?case by (simp add: cleans_looks looks_refl)
next
  case (Cons x entries)
  obtain name entry where x: "x = (name, entry)" by (cases x)
  define limit where "limit = TempMaxFiles (cfg_Operations (w_cfg w))"
  define rel where "rel = joinPath [''staging'', name]"
  let ?skip = "removed \<ge> limit \<or> en_kind entry = Directory \<or> en_kind entry = Symlink \<or> \<not> partialName name"
  obtain info w1 where st: "lstat E (rootDir @ ''/'' @ name) w = (info, w1)" by fastforce
  obtain ref w2 where rf: "repo_read E (\<lambda>flt. TemporaryPathReferenced flt rel) w1 = (ref, w2)" by fastforce
  obtain ok w3 where rm: "removeFile E (joinPath [rootDir, name]) w2 = (ok, w3)" by fastforce
  have lw: "looks w w1" "looks w w2" using steps_look(2) [OF st] steps_look(4) [OF rf] looks_trans by blast+
  have rest: "cleans rootDir cutoff (limit - removed) w (cleanupLoop E rootDir cutoff removed entries v)" if "looks w v" for v
    using cleans_trans [OF cleans_looks [OF that, of rootDir cutoff 0] Cons.IH [of v removed]] that by (simp add: looks_def limit_def)
  show ?case
  proof (cases "\<not> ?skip \<and> (\<exists>e. info = Stat e \<and> en_kind e = Regular \<and> en_modified e < cutoff) \<and> ref = Inr False")
    case True
    then obtain e where T: "removed < limit" "partialName name" "info = Stat e" "en_kind e = Regular" "en_modified e < cutoff" "ref = Inr False"
      by auto
    have "stale_partial rootDir cutoff w2 (joinPath [rootDir, name])"
      using T lstat_Stat [of E "rootDir @ ''/'' @ name" w e w1] st rf lw by (auto simp: stale_partial_def repo_read_def looks_def rel_def)
    from cleans_trans [OF cleans_looks [OF lw(2), of rootDir cutoff 0] remove_cleans [OF rm this], of "if ok then 1 else 0"]
    have c3: "cleans rootDir cutoff (if ok then 1 else 0) w w3" by simp
    have "limit = TempMaxFiles (cfg_Operations (w_cfg w3))" using c3 by (simp add: cleans_def limit_def)
    with cleans_trans [OF c3 Cons.IH [of w3 "if ok then removed + 1 else removed"], of "limit - removed"] T(1)
    have "cleans rootDir cutoff (limit - removed) w (cleanupLoop E rootDir cutoff (if ok then removed + 1 else removed) entries w3)"
      by (cases ok) auto
    with True T st rf rm show ?thesis by (simp add: x limit_def rel_def)
  next
    case False
    then have "\<exists>v \<in> {w, w1, w2}. cleanupLoop E rootDir cutoff removed (x # entries) w = cleanupLoop E rootDir cutoff removed entries v"
      using st rf by (auto simp: x limit_def rel_def split: stat_result.split)
    with rest lw looks_refl show ?thesis by (auto simp: limit_def)
  qed
qed

lemma cleanup_cases:
  fixes X E w
  defines "rootDir \<equiv> joinPath [MediaStorageDirectory (w_cfg w), ''staging'']"
  shows "keeps w (CleanupTempOnce X E w) \<or> cleans rootDir (e_now E (Suc (w_tick w)) - TempMaxAge (w_cfg w)) (TempMaxFiles (cfg_Operations (w_cfg w))) w (CleanupTempOnce X E w)"
proof (cases "\<exists>d. map_of (w_files w) rootDir = Some d \<and> \<not> e_broken E (w_tick w) \<and> en_kind d = Directory")
  case True
  then obtain d where d: "map_of (w_files w) rootDir = Some d" "\<not> e_broken E (w_tick w)" "en_kind d = Directory" by blast
  obtain now w1 where n: "clockNow E (ticked w) = (now, w1)" by fastforce
  then have lw: "looks w w1" and now: "now = e_now E (Suc (w_tick w))" by (auto simp: clockNow_def ticked_def looks_def)
  have "CleanupTempOnce X E w = cleanupLoop E rootDir (now - TempMaxAge (w_cfg w1)) 0 (dir_entries rootDir (w_files w1)) w1"
    using d n by (simp add: CleanupTempOnce_def rootDir_def [symmetric] Let_def)
  moreover have "cleans rootDir (now - TempMaxAge (w_cfg w1)) (TempMaxFiles (cfg_Operations (w_cfg w1))) w \<dots>"
    using cleans_trans [OF cleans_looks [OF lw, of rootDir _ 0] cleanup_loop_cleans [of rootDir _ w1 0 E]] by simp
  ultimately show ?thesis using lw now by (simp add: looks_def)
next
  case False
  then have "CleanupTempOnce X E w \<in> {ticked w, recordError X E ''media_ingest'' ''P2'' CodeCleanupFailed (e_os E) (ticked w)}"
    by (auto simp: CleanupTempOnce_def rootDir_def [symmetric] Let_def split: option.split)
  then show ?thesis using basic_keeps(1) keeps_trans [OF basic_keeps(1) error_keeps] by auto
qed

text \<open>
  C40: Cleaning the staging directory removes only abandoned partial files.  Every path a run of
  \<^verbatim>\<open>CleanupTempOnce\<close> changes is gone afterwards; it named a regular file directly in the staging directory, with
  a name of the form 64 hexadecimal digits and \<^verbatim>\<open>.partial\<close>, modified before the cutoff, and not
  referenced by any unfinished ingest; and no more files than the configured maximum are removed.
\<close>

theorem cleanup_removes_stale_partials:
  fixes X E w
  defines "rootDir \<equiv> joinPath [MediaStorageDirectory (w_cfg w), ''staging'']"
    and "w' \<equiv> CleanupTempOnce X E w"
  shows "(\<forall>p \<in> changed w w'. map_of (w_files w') p = None \<and> stale_partial rootDir (e_now E (Suc (w_tick w)) - TempMaxAge (w_cfg w)) w p)
    \<and> int (card (changed w w')) \<le> max 0 (TempMaxFiles (cfg_Operations (w_cfg w)))"
  using cleanup_cases [of w X E]
proof
  assume "keeps w (CleanupTempOnce X E w)"
  then show ?thesis by (auto simp: keeps_def changed_def w'_def)
next
  assume c: "cleans (joinPath [MediaStorageDirectory (w_cfg w), ''staging'']) (e_now E (Suc (w_tick w)) - TempMaxAge (w_cfg w))
    (TempMaxFiles (cfg_Operations (w_cfg w))) w (CleanupTempOnce X E w)"
  have "map_of (w_files w') p = None" if "p \<in> changed w w'" for p
    using c that by (auto simp: cleans_def changed_def w'_def map_le_def dom_def)
  with c show ?thesis by (simp add: cleans_def w'_def rootDir_def)
qed

section \<open>Disk gates\<close>

text \<open>
  C39: The disk gates.  With thresholds as the configuration validator demands them, core
  writes are allowed exactly when the probe fails or more than the database reserve is free, and
  media is accepted exactly when the probe succeeds and more than the warning threshold is free; so the gate for
  core writes fails open, the one for media fails closed, and whenever media is accepted core
  writes are allowed at that reading, too.  Both leave the configuration, the files and the store alone.
\<close>

theorem disk_gates:
  assumes "e_free E (w_tick w) = (available, failed)"
    and "0 \<le> DatabaseReserveBytes (cfg_Storage (w_cfg w))"
    and "DatabaseReserveBytes (cfg_Storage (w_cfg w)) \<le> CriticalFreeBytes (cfg_Storage (w_cfg w))"
    and "CriticalFreeBytes (cfg_Storage (w_cfg w)) \<le> WarningFreeBytes (cfg_Storage (w_cfg w))"
    and "WarningFreeBytes (cfg_Storage (w_cfg w)) < 2 ^ 63"
  shows "fst (fst (CoreWritesAllowed E w)) = (failed \<or> DatabaseReserveBytes (cfg_Storage (w_cfg w)) < available)
    \<and> fst (fst (MediaAllowed E w)) = (\<not> failed \<and> WarningFreeBytes (cfg_Storage (w_cfg w)) < available)
    \<and> (fst (fst (MediaAllowed E w)) \<longrightarrow> fst (fst (CoreWritesAllowed E w)))
    \<and> looks w (snd (CoreWritesAllowed E w)) \<and> looks w (snd (MediaAllowed E w))"
proof -
  let ?s = "cfg_Storage (w_cfg w)"
  have u: "uint64 (DatabaseReserveBytes ?s) = DatabaseReserveBytes ?s" "uint64 (CriticalFreeBytes ?s) = CriticalFreeBytes ?s"
    "uint64 (WarningFreeBytes ?s) = WarningFreeBytes ?s"
    using assms by (auto simp: uint64_def)
  obtain level code f w1 where r: "refreshDiskStatus E w = ((level, code, f), w1)" by (metis prod_cases3 surj_pair)
  have level: "level = fst (diskLevel (w_cfg w) available failed)"
    using r assms(1) by (auto simp: refreshDiskStatus_def clockNow_def ticked_def Let_def split: prod.splits)
  have "level = DiskNormal \<longleftrightarrow> \<not> failed \<and> WarningFreeBytes ?s < available" "level \<noteq> DiskReserve \<longleftrightarrow> failed \<or> DatabaseReserveBytes ?s < available"
    using assms(3,4) unfolding level by (auto simp: diskLevel_def u)
  then show ?thesis using r refresh_looks [OF r] assms(3,4) by (auto simp: CoreWritesAllowed_def MediaAllowed_def)
qed

section \<open>The manager at work\<close>

text \<open>
  The loop of \<^verbatim>\<open>Run\<close> chooses among four tasks; between them other components record faults, module
  states and modes and consult the gates.  Each task runs to its end before the next; what other
  programs do to the files meanwhile is not part of a run.
\<close>

inductive manager_step :: "ext \<Rightarrow> env \<Rightarrow> world \<Rightarrow> world \<Rightarrow> bool" for X E where
  step_initialize: "manager_step X E w (Initialize X E w)"
| step_scan: "manager_step X E w (ScanDiskOnce X E w)"
| step_checkpoint: "manager_step X E w (CheckpointOnce X E w)"
| step_cleanup: "manager_step X E w (CleanupTempOnce X E w)"
| step_retention: "manager_step X E w (RetentionOnce X E w)"
| step_fault: "manager_step X E w (RecordFault X E m s st c d w)"
| step_module: "manager_step X E w (RecordModuleState X E m st r w)"
| step_mode: "manager_step X E w (RecordRuntimeMode X E mode operator trigger reason w)"
| step_media_gate: "manager_step X E w (snd (MediaAllowed E w))"
| step_core_gate: "manager_step X E w (snd (CoreWritesAllowed E w))"

lemma mode_retention: "retention_events (snd (AppendModeTransition X flt mode operator trigger reason now db)) = retention_events db"
  by (auto simp: AppendModeTransition_def Let_def bind_result_def split: sum.splits option.splits if_splits prod.splits)

lemma scan_keeps: "keeps w (ScanDiskOnce X E w)"
proof -
  obtain level code f w1 where r: "refreshDiskStatus E w = ((level, code, f), w1)" by (metis prod_cases3 surj_pair)
  let ?w2 = "w1\<lparr>w_manager := (w_manager w1)\<lparr>mg_reportedDiskLevel := level\<rparr>\<rparr>"
  have k: "keeps w ?w2" using looks_keeps [OF refresh_looks [OF r]] by (simp add: keeps_def)
  have "\<exists>s st c d n. ScanDiskOnce X E w = (if mg_reportedDiskLevel (w_manager w1) \<noteq> level \<or> f then appendFault X E ''storage'' s st c d n ?w2 else ?w2)"
    using r by (simp add: ScanDiskOnce_def Let_def split_beta) blast
  then show ?thesis using k keeps_trans [OF k fault_keeps] by metis
qed

lemma initialize_keeps: "keeps w (Initialize X E w)"
  by (auto simp: Initialize_def clockNow_def intro!: keeps_trans [OF basic_keeps(1) keeps_trans [OF module_keeps scan_keeps]])

lemma checkpoint_keeps: "keeps w (CheckpointOnce X E w)"
proof -
  obtain st w1 where s: "lstat E (DatabasePath (w_cfg w) @ ''-wal'') w = (st, w1)" by fastforce
  have k: "keeps w1 (snd (repo E (\<lambda>flt db. (Checkpoint flt full, db)) w1))" for full
    by (rule repo_keeps) simp
  have "keeps w v" if "repo E (\<lambda>flt db. (Checkpoint flt full, db)) w1 = (r, v)" for full r v
    using k [of full] that keeps_trans [OF steps_keep(2) [OF s]] by simp
  with s keeps_trans [OF _ error_keeps] show ?thesis
    by (auto simp: CheckpointOnce_def Let_def split: prod.split sum.split)
qed

lemma mode_keeps: "keeps w (RecordRuntimeMode X E mode operator trigger reason w)"
proof -
  obtain now w1 where c: "clockNow E w = (now, w1)" by fastforce
  have "keeps w v" if "repo E (\<lambda>flt. AppendModeTransition X flt mode operator trigger reason n) w1 = (r, v)" for n r v
  proof -
    have "keeps w1 (snd (repo E (\<lambda>flt. AppendModeTransition X flt mode operator trigger reason n) w1))"
      by (rule repo_keeps) (simp add: mode_retention)
    with that keeps_trans [OF steps_keep(1) [OF c]] show ?thesis by simp
  qed
  with c keeps_trans [OF _ error_keeps] show ?thesis
    by (auto simp: RecordRuntimeMode_def keeps_refl split: prod.split sum.split)
qed

text \<open>The paths the manager may remove.\<close>

definition disposable :: "Config \<Rightarrow> string \<Rightarrow> bool" where
  "disposable cfg p \<longleftrightarrow> (\<exists>below. below \<noteq> [] \<and> cleanElems p = cleanElems (acceptedRoot cfg) @ below)
     \<or> (\<exists>name. partialName name \<and> p = joinPath [joinPath [MediaStorageDirectory cfg, ''staging''], name])"

definition tame :: "world \<Rightarrow> world \<Rightarrow> bool" where
  "tame w w' \<longleftrightarrow> w_cfg w' = w_cfg w \<and> set (retention_events (w_db w)) \<subseteq> set (retention_events (w_db w'))
     \<and> map_of (w_files w') \<subseteq>\<^sub>m map_of (w_files w) \<and> (\<forall>p. \<not> disposable (w_cfg w) p \<longrightarrow> map_of (w_files w') p = map_of (w_files w) p)"

lemma keeps_tame: "keeps w w' \<Longrightarrow> tame w w'"
  by (simp add: keeps_def tame_def)

lemma tame_trans: "tame a b \<Longrightarrow> tame b c \<Longrightarrow> tame a c"
  unfolding tame_def by (auto intro: map_le_trans)

lemma cleanup_tame: "tame w (CleanupTempOnce X E w)"
  using cleanup_cases [of w X E]
proof
  assume c: "cleans (joinPath [MediaStorageDirectory (w_cfg w), ''staging'']) (e_now E (Suc (w_tick w)) - TempMaxAge (w_cfg w))
    (TempMaxFiles (cfg_Operations (w_cfg w))) w (CleanupTempOnce X E w)"
  have "disposable (w_cfg w) p" if "map_of (w_files (CleanupTempOnce X E w)) p \<noteq> map_of (w_files w) p" for p
    using c that by (auto simp: cleans_def changed_def stale_partial_def disposable_def)
  with c show ?thesis by (auto simp: cleans_def tame_def)
qed (rule keeps_tame)

lemma evident_tame: "only_evident X coverage cs w w' \<Longrightarrow> tame w w'"
proof -
  assume o: "only_evident X coverage cs w w'"
  have "disposable (w_cfg w) p" if "map_of (w_files w') p \<noteq> map_of (w_files w) p" for p
  proof -
    from o that obtain c where c: "p = candidatePath (w_cfg w) c" "deletion_evidence X (w_cfg w) coverage (w_files w) c"
      unfolding only_evident_def by blast
    then obtain rel where "relPath (acceptedRoot (w_cfg w)) p = Some rel" "rel \<noteq> ''.''" "\<not> leadsUp rel"
      by (auto simp: deletion_evidence_def insideAccepted_def split: option.splits)
    from below_base [OF this] show ?thesis by (simp add: disposable_def)
  qed
  with o only_evident_le [OF o] show ?thesis by (auto simp: tame_def only_evident_def)
qed

lemma retention_tame: "tame w (RetentionOnce X E w)"
  by (cases rule: retention_cases [of X w E]) (auto intro: evident_tame)

lemma step_tame: "manager_step X E w w' \<Longrightarrow> tame w w'"
proof (induction rule: manager_step.induct)
  case (step_fault w m s st c d)
  then show ?case by (auto simp: RecordFault_def clockNow_def intro!: keeps_tame keeps_trans [OF basic_keeps(1) fault_keeps])
next
  case (step_module w m st r)
  then show ?case by (auto simp: RecordModuleState_def clockNow_def intro!: keeps_tame keeps_trans [OF basic_keeps(1) module_keeps])
next
  case (step_media_gate w)
  show ?case using allowed_looks [of E w] by (cases "MediaAllowed E w") (auto intro: keeps_tame looks_keeps)
next
  case (step_core_gate w)
  have "looks w (snd (CoreWritesAllowed E w))"
    using refresh_looks [of E w] by (cases "refreshDiskStatus E w") (auto simp: CoreWritesAllowed_def)
  then show ?case by (auto intro: keeps_tame looks_keeps)
qed (auto intro: keeps_tame initialize_keeps scan_keeps checkpoint_keeps mode_keeps cleanup_tame retention_tame)

text \<open>
  C38: Whatever the manager does, for however long and whichever faults the environment throws at it: it
  never creates or changes a file; it removes files only strictly below the accepted media
  directory or partial files directly in the staging directory; its configuration stays, and no
  retention fact is ever lost.
\<close>

theorem manager_run_confined:
  assumes "(manager_step X E)\<^sup>*\<^sup>* w w'"
  shows "w_cfg w' = w_cfg w \<and> set (retention_events (w_db w)) \<subseteq> set (retention_events (w_db w'))
    \<and> (\<forall>p e. map_of (w_files w') p = Some e \<longrightarrow> map_of (w_files w) p = Some e)
    \<and> (\<forall>p. map_of (w_files w') p \<noteq> map_of (w_files w) p \<longrightarrow>
          (\<exists>below. below \<noteq> [] \<and> cleanElems p = cleanElems (acceptedRoot (w_cfg w)) @ below)
        \<or> (\<exists>name. partialName name \<and> p = joinPath [joinPath [MediaStorageDirectory (w_cfg w), ''staging''], name]))"
proof -
  from assms have "tame w w'"
  proof (induction rule: rtranclp_induct)
    case base
    then show ?case by (simp add: keeps_tame keeps_refl)
  next
    case (step y z)
    then show ?case using step_tame tame_trans by blast
  qed
  then show ?thesis unfolding tame_def disposable_def map_le_def by (metis domI)
qed

section \<open>Examples\<close>

definition full_config :: Config where
  "full_config = defaultConfig\<lparr>cfg_Retention := (cfg_Retention defaultConfig)\<lparr>rt_Enabled := True\<rparr>\<rparr>"

definition full_marker :: string where
  \<open>full_marker = ''{"schema_version":1,"manifest_path":"/b/m.json","manifest_sha256":"'' @ replicate 64 CHR ''a'' @ ''"}''\<close>

definition full_manifest :: string where
  \<open>full_manifest = ''{"schema_version":1,"type":"full","files":[{"relative_path":"accepted/x","backup_path":"x","sha256":"'' @
     replicate 64 CHR ''b'' @ ''","kind":"media","size_bytes":10,"included":true}]}''\<close>

definition regular_file :: "string \<Rightarrow> file_entry" where
  "regular_file content = \<lparr>en_kind = Regular, en_content = Some content, en_size = int (length content), en_modified = 0\<rparr>"

definition full_world :: world where
  "full_world = \<lparr>w_tick = 0, w_manager = NewWithProbe full_config True,
     w_files = [(''data/backup/latest-full.json'', regular_file full_marker), (''/b/m.json'', regular_file full_manifest),
       (''/b/x'', regular_file ''0123456789''), (''data/media/accepted/x'', regular_file ''0123456789'')],
     w_db = empty_store\<lparr>segments := [\<lparr>seg_id = 1, seg_data = sample_metadata\<lparr>mm_ManagedRelativePath := ''accepted/x''\<rparr>,
         seg_created_at = ''2024-01-01T00:02:00Z''\<rparr>],
       segment_status := [\<lparr>ss_segment = 1, ss_last = 1, ss_status = ''accepted'', ss_reason = None, ss_updated = ''2024-01-01T00:02:00Z''\<rparr>]\<rparr>\<rparr>"

definition full_env :: env where
  "full_env = \<lparr>e_now = (\<lambda>_. sample_now), e_free = (\<lambda>_. (3 * 2 ^ 30, False)), e_faults = (\<lambda>_. no_faults), e_broken = (\<lambda>_. False),
     e_text = (\<lambda>_. ''store''), e_os = ''os''\<rparr>"

definition full_candidate :: RetentionCandidate where
  "full_candidate = candidate_of (hd (segments (w_db full_world)))"

lemma full_facts:
  "fst (fst (MediaAllowed full_env full_world)) = False"
  "RetentionCandidates no_faults (rfc3339nano (sample_now - RetentionMinimumAge full_config)) 100 (w_db full_world) = Inr [full_candidate]"
  "case loadBackupCoverage sample_digest full_env (snd (MediaAllowed full_env full_world)) of
     (Inr coverage, w) \<Rightarrow> map fst (w_files (retainCandidate sample_digest full_env coverage full_candidate (ticked (ticked w))))
        = [''data/backup/latest-full.json'', ''/b/m.json'', ''/b/x'']
   | _ \<Rightarrow> False"
  by code_simp+

lemma full_run: "map fst (w_files (RetentionOnce sample_digest full_env full_world)) = [''data/backup/latest-full.json'', ''/b/m.json'', ''/b/x'']"
proof -
  obtain code w1 where a: "MediaAllowed full_env full_world = ((False, code), w1)"
    using full_facts(1) by (cases "MediaAllowed full_env full_world") auto
  obtain coverage w2 where l: "loadBackupCoverage sample_digest full_env w1 = (Inr coverage, w2)"
    and files: "map fst (w_files (retainCandidate sample_digest full_env coverage full_candidate (ticked (ticked w2))))
        = [''data/backup/latest-full.json'', ''/b/m.json'', ''/b/x'']"
    using full_facts(3) a by (auto split: prod.splits sum.splits)
  have cfg: "w_cfg full_world = full_config" by (simp add: full_world_def NewWithProbe_def)
  have w2: "w_cfg w2 = full_config" "w_db w2 = w_db full_world"
    using allowed_looks [OF a] load_looks [OF l] cfg by (simp_all add: looks_def)
  have "rt_Enabled (cfg_Retention full_config)" "MaxDeletesPerRun (cfg_Retention full_config) = 100"
    by (simp_all add: full_config_def defaultConfig_def)
  then have "RetentionOnce sample_digest full_env full_world = retainCandidate sample_digest full_env coverage full_candidate (ticked (ticked w2))"
    using a l cfg w2 full_facts(2)
    by (simp add: RetentionOnce_def clockNow_def repo_read_def ticked_def full_env_def Let_def)
  with files show ?thesis by simp
qed

lemma absent_path: "path \<notin> set (map fst fs) \<Longrightarrow> map_of fs path = None"
  by (simp add: map_of_eq_None_iff)

lemma full_run_gone:
  "map_of (w_files (RetentionOnce sample_digest full_env full_world)) ''data/media/accepted/x'' = None"
  "map_of (w_files (RetentionOnce sample_digest full_env full_world)) ''data/media/accepted/x'' \<noteq> map_of (w_files full_world) ''data/media/accepted/x''"
proof -
  show gone: "map_of (w_files (RetentionOnce sample_digest full_env full_world)) ''data/media/accepted/x'' = None"
    by (rule absent_path) (simp add: full_run)
  then show "map_of (w_files (RetentionOnce sample_digest full_env full_world)) ''data/media/accepted/x'' \<noteq> map_of (w_files full_world) ''data/media/accepted/x''"
    by (simp add: full_world_def)
qed

theorem retention_deletion_safe_witness:
  "map_of (w_files (RetentionOnce sample_digest full_env full_world)) ''data/media/accepted/x'' = None
     \<and> (\<exists>copy. named_copy sample_digest full_config (w_files full_world) ''accepted/x'' (replicate 64 CHR ''b'') 10 copy
          \<and> intact sample_digest (w_files full_world) copy 10 (replicate 64 CHR ''b''))"
proof -
  have cfg: "w_cfg full_world = full_config" by (simp add: full_world_def NewWithProbe_def)
  have req: "RequireFullBackup (cfg_Retention (w_cfg full_world))" by (simp add: cfg full_config_def defaultConfig_def)
  from retention_deletion_safe [OF full_run_gone(2)] obtain flt cutoff cs and c :: RetentionCandidate
    where cs: "RetentionCandidates flt cutoff (MaxDeletesPerRun (cfg_Retention (w_cfg full_world))) (w_db full_world) = Inr cs" "c \<in> set cs"
    and c: "intact sample_digest (w_files full_world) ''data/media/accepted/x'' (rc_SizeBytes c) (rc_SHA256 c)"
    "RequireFullBackup (cfg_Retention (w_cfg full_world)) \<longrightarrow>
       (\<exists>copy. named_copy sample_digest (w_cfg full_world) (w_files full_world) (rc_ManagedRelativePath c) (to_lower (rc_SHA256 c)) (rc_SizeBytes c) copy
         \<and> intact sample_digest (w_files full_world) copy (rc_SizeBytes c) (to_lower (rc_SHA256 c)))" by blast
  have "set (sql_limit n xs) \<subseteq> set xs" for n and xs :: "segment_row list" by (auto simp: sql_limit_def dest: in_set_takeD)
  then have "set (candidate_rows cutoff n db) \<subseteq> set (segments db)" for n and db :: ops_db unfolding candidate_rows_def by fastforce
  moreover have "cs = map candidate_of (candidate_rows cutoff (MaxDeletesPerRun (cfg_Retention (w_cfg full_world))) (w_db full_world))"
    using cs(1) by (auto simp: RetentionCandidates_def bind_result_Inr_iff)
  ultimately obtain v where "v \<in> set (segments (w_db full_world))" "c = candidate_of v" using cs(2) by fastforce
  then have "rc_ManagedRelativePath c = ''accepted/x''" by (simp add: candidate_of_def full_world_def)
  moreover from c(1) have "rc_SizeBytes c = 10" "rc_SHA256 c = replicate 64 CHR ''b''"
    by (auto simp: intact_def full_world_def regular_file_def sample_digest_def)
  moreover have "to_lower (replicate 64 CHR ''b'') = replicate 64 CHR ''b''" by code_simp
  ultimately show ?thesis using full_run_gone(1) c(2) req unfolding cfg by auto
qed

definition partial_path :: string where
  "partial_path = ''data/media/staging/'' @ replicate 64 CHR ''0'' @ ''.partial''"

definition staging_world :: world where
  "staging_world = full_world\<lparr>w_files := [(''data/media/staging'', \<lparr>en_kind = Directory, en_content = None, en_size = 0, en_modified = 0\<rparr>),
     (partial_path, regular_file ''x''), (''data/media/staging/notes'', regular_file ''y'')]\<rparr>"

lemma staging_run: "map fst (w_files (CleanupTempOnce sample_digest full_env staging_world)) = [''data/media/staging'', ''data/media/staging/notes'']"
  by code_simp

theorem cleanup_removes_stale_partials_witness:
  "partial_path \<in> changed staging_world (CleanupTempOnce sample_digest full_env staging_world)
     \<and> stale_partial (joinPath [MediaStorageDirectory (w_cfg staging_world), ''staging''])
         (e_now full_env (Suc (w_tick staging_world)) - TempMaxAge (w_cfg staging_world)) staging_world partial_path"
proof -
  have "map_of (w_files (CleanupTempOnce sample_digest full_env staging_world)) partial_path = None"
    by (rule absent_path) (simp add: staging_run partial_path_def)
  then have c: "partial_path \<in> changed staging_world (CleanupTempOnce sample_digest full_env staging_world)"
    by (simp add: changed_def staging_world_def partial_path_def)
  with cleanup_removes_stale_partials [of staging_world sample_digest full_env] show ?thesis by blast
qed

theorem disk_gates_witness:
  "\<not> fst (fst (MediaAllowed full_env full_world)) \<and> fst (fst (CoreWritesAllowed full_env full_world))"
  using disk_gates [of full_env full_world "3 * 2 ^ 30" False]
  by (simp add: full_env_def full_world_def NewWithProbe_def full_config_def defaultConfig_def)

theorem manager_run_confined_witness:
  "w_cfg (RetentionOnce sample_digest full_env full_world) = full_config
     \<and> ((\<exists>below. below \<noteq> [] \<and> cleanElems ''data/media/accepted/x'' = cleanElems (acceptedRoot full_config) @ below)
        \<or> (\<exists>name. partialName name \<and> ''data/media/accepted/x'' = joinPath [joinPath [MediaStorageDirectory full_config, ''staging''], name]))"
proof -
  have "manager_step sample_digest full_env full_world (RetentionOnce sample_digest full_env full_world)" by (rule step_retention)
  then have run: "(manager_step sample_digest full_env)\<^sup>*\<^sup>* full_world (RetentionOnce sample_digest full_env full_world)" by (rule r_into_rtranclp)
  have cfg: "w_cfg full_world = full_config" by (simp add: full_world_def NewWithProbe_def)
  show ?thesis using manager_run_confined [OF run] full_run_gone(2) unfolding cfg by blast
qed

end
