(* ===== verification/Checkpoints.thy ===== *)
theory Checkpoints
  imports Keyed_Log Raw_Events "HOL-Library.Product_Lexorder"
begin

text \<open>
  \<^verbatim>\<open>internal/eventstore/activitywatch.go\<close>: loading and saving the position a collector has reached
  in its source.  A save is an upsert that only moves forward; it refines taking the maximum of
  the stored and the offered position.
\<close>

abbreviation (input) "CodeCheckpointConflict \<equiv> ''ACTIVITYWATCH_CHECKPOINT_CONFLICT''"

record ActivityWatchCheckpoint =
  ac_CollectorID :: string
  ac_BucketID :: string
  ac_SourceTimeUTC :: string
  ac_SourceEventID :: int
  ac_UpdatedAtUTC :: string

type_synonym checkpoints = "ActivityWatchCheckpoint list"

definition LoadActivityWatchCheckpoint :: "faults \<Rightarrow> string \<Rightarrow> string \<Rightarrow> checkpoints \<Rightarrow> go_error + ActivityWatchCheckpoint option" where
  "LoadActivityWatchCheckpoint flt collectorID bucketID rows =
     bind_result (db_call flt CodeQueryFailed ''read ActivityWatch checkpoint'' 0) (\<lambda>_.
       case row_at ac_CollectorID rows collectorID of
         None \<Rightarrow> Inr None
       | Some checkpoint \<Rightarrow>
           if ac_BucketID checkpoint \<noteq> bucketID then Inl (StoreErr CodeCheckpointConflict ''different bucket'')
           else Inr (Some checkpoint))"

text \<open>The order of the SQL condition: by time text, then by event id.\<close>

definition position_of :: "ActivityWatchCheckpoint \<Rightarrow> string \<times> int" where
  "position_of c = (ac_SourceTimeUTC c, ac_SourceEventID c)"

definition checkpoint_checks :: "ActivityWatchCheckpoint \<Rightarrow> bool" where
  "checkpoint_checks c \<longleftrightarrow> between 1 128 (ac_CollectorID c) \<and> between 1 256 (ac_BucketID c) \<and> sql_length (ac_SourceTimeUTC c) = 30
     \<and> ac_SourceEventID c \<ge> 0 \<and> sql_length (ac_UpdatedAtUTC c) = 30"

text \<open>The upsert and the number of rows it affected; an update keeps the stored bucket.\<close>

definition upsertCheckpoint :: "ActivityWatchCheckpoint \<Rightarrow> checkpoints \<Rightarrow> nat \<times> checkpoints" where
  "upsertCheckpoint c rows =
     (case row_at ac_CollectorID rows (ac_CollectorID c) of
        None \<Rightarrow> (1, rows @ [c])
      | Some w \<Rightarrow>
          if ac_BucketID w = ac_BucketID c \<and> position_of w < position_of c
          then (1, map (\<lambda>v. if ac_CollectorID v = ac_CollectorID c then c\<lparr>ac_BucketID := ac_BucketID v\<rparr> else v) rows)
          else (0, rows))"

definition checkpointValid :: "ActivityWatchCheckpoint \<Rightarrow> instant option" where
  "checkpointValid c =
     (case parse_fixedUTC (ac_SourceTimeUTC c) of None \<Rightarrow> None
      | Some sourceTime \<Rightarrow>
          if ac_SourceEventID c < 0 \<or> \<not> validIdentifier (ac_CollectorID c) 128 \<or> \<not> validIdentifier (ac_BucketID c) 256
          then None else Some sourceTime)"

text \<open>What is reported once the statement ran; when no row was affected, the stored one must be at least as far.\<close>

definition confirmCheckpoint :: "faults \<Rightarrow> ActivityWatchCheckpoint \<Rightarrow> nat \<Rightarrow> checkpoints \<Rightarrow> go_error + unit" where
  "confirmCheckpoint flt c affected rows =
     bind_result (db_read flt CodeWriteFailed ''read ActivityWatch checkpoint result'' 0) (\<lambda>_.
       if affected = 0
       then bind_result (LoadActivityWatchCheckpoint flt (ac_CollectorID c) (ac_BucketID c) rows) (\<lambda>existing.
              case existing of
                None \<Rightarrow> Inl (StoreErr CodeCheckpointConflict ''not persisted'')
              | Some w \<Rightarrow>
                  if ac_SourceTimeUTC w > ac_SourceTimeUTC c
                     \<or> (ac_SourceTimeUTC w = ac_SourceTimeUTC c \<and> ac_SourceEventID w \<ge> ac_SourceEventID c)
                  then Inr ()
                  else Inl (StoreErr CodeCheckpointConflict ''update conflicted''))
       else Inr ())"

definition SaveActivityWatchCheckpoint :: "faults \<Rightarrow> instant \<Rightarrow> ActivityWatchCheckpoint \<Rightarrow> checkpoints \<Rightarrow> (go_error + unit) \<times> checkpoints" where
  "SaveActivityWatchCheckpoint flt now checkpoint rows =
     (case checkpointValid checkpoint of
        None \<Rightarrow> (Inl (StoreErr CodeCheckpointConflict ''checkpoint is invalid''), rows)
      | Some sourceTime \<Rightarrow>
          let c = checkpoint\<lparr>ac_SourceTimeUTC := fixedUTC sourceTime, ac_UpdatedAtUTC := fixedUTC now\<rparr> in
          case bind_result (db_call flt CodeWriteFailed ''save ActivityWatch checkpoint'' 0) (\<lambda>_.
                 if checkpoint_checks c then Inr ()
                 else Inl (classifySQLiteError CodeWriteFailed ''save ActivityWatch checkpoint'' (FaultSqlite sqlite_constraint_check))) of
            Inl e \<Rightarrow> (Inl e, rows)
          | Inr _ \<Rightarrow>
              let (affected, rows') = upsertCheckpoint c rows in
              (confirmCheckpoint flt c affected rows', rows'))"

section \<open>Checkpoints only move forward\<close>

definition checkpoints_ok :: "checkpoints \<Rightarrow> bool" where
  "checkpoints_ok rows \<longleftrightarrow> distinct (map ac_CollectorID rows)
     \<and> (\<forall>w \<in> set rows. \<exists>t. text_year t \<and> ac_SourceTimeUTC w = fixedUTC t)"

text \<open>What the collector needs of a checkpoint: the instant and the event id it has reached.\<close>

definition instant_position :: "ActivityWatchCheckpoint \<Rightarrow> instant \<times> int" where
  "instant_position w = (the (parse_fixedUTC (ac_SourceTimeUTC w)), ac_SourceEventID w)"

definition progress :: "checkpoints \<Rightarrow> string \<Rightarrow> (instant \<times> int) option" where
  "progress rows collectorID = map_option instant_position (row_at ac_CollectorID rows collectorID)"

text \<open>On canonical texts the order of positions is the order of instants.\<close>

lemma position_less_iff:
  assumes "text_year s" "text_year t"
  shows "(fixedUTC s, i) < (fixedUTC t, j) \<longleftrightarrow> (s, i) < (t, j)"
  using assms by (simp add: less_prod_def' fixedUTC_less_iff fixedUTC_eq_iff)

text \<open>What a save does to the table: nothing, or the collector's row becomes the new one.\<close>

definition canonical :: "instant \<Rightarrow> instant \<Rightarrow> ActivityWatchCheckpoint \<Rightarrow> ActivityWatchCheckpoint" where
  "canonical sourceTime now c = c\<lparr>ac_SourceTimeUTC := fixedUTC sourceTime, ac_UpdatedAtUTC := fixedUTC now\<rparr>"

lemma row_at_replace:
  assumes "row_at ac_CollectorID rows k = Some w" "ac_CollectorID c = k"
  shows "row_at ac_CollectorID (map (\<lambda>v. if ac_CollectorID v = k then c\<lparr>ac_BucketID := ac_BucketID v\<rparr> else v) rows) j
    = (if j = k then Some (c\<lparr>ac_BucketID := ac_BucketID w\<rparr>) else row_at ac_CollectorID rows j)"
proof -
  have "row_at ac_CollectorID (map (\<lambda>v. if ac_CollectorID v = k then c\<lparr>ac_BucketID := ac_BucketID v\<rparr> else v) rows) j
      = map_option (\<lambda>v. if ac_CollectorID v = k then c\<lparr>ac_BucketID := ac_BucketID v\<rparr> else v) (row_at ac_CollectorID rows j)"
    using assms(2) by (intro row_at_map) simp
  with assms show ?thesis by (auto dest: row_at_key simp: map_option_case split: option.splits)
qed

lemma save_cases:
  assumes "SaveActivityWatchCheckpoint flt now c rows = (r, rows')"
  obtains (unchanged) "rows' = rows" "r = Inr () \<longrightarrow> (\<exists>t w. checkpointValid c = Some t \<and> row_at ac_CollectorID rows (ac_CollectorID c) = Some w
        \<and> ac_BucketID w = ac_BucketID c \<and> position_of (canonical t now c) \<le> position_of w)"
  | (inserted) t where "checkpointValid c = Some t" "row_at ac_CollectorID rows (ac_CollectorID c) = None" "rows' = rows @ [canonical t now c]"
  | (advanced) t w where "checkpointValid c = Some t" "row_at ac_CollectorID rows (ac_CollectorID c) = Some w" "ac_BucketID w = ac_BucketID c"
      "position_of w < position_of (canonical t now c)"
      "rows' = map (\<lambda>v. if ac_CollectorID v = ac_CollectorID c then (canonical t now c)\<lparr>ac_BucketID := ac_BucketID v\<rparr> else v) rows"
proof (cases "checkpointValid c")
  case None
  with assms show thesis by (intro unchanged) (auto simp: SaveActivityWatchCheckpoint_def)
next
  case (Some t)
  let ?c = "canonical t now c"
  have same: "ac_CollectorID ?c = ac_CollectorID c" "ac_BucketID ?c = ac_BucketID c" by (simp_all add: canonical_def)
  show thesis
  proof (cases "flt ''save ActivityWatch checkpoint'' 0 = None \<and> checkpoint_checks ?c")
    case False
    then have "rows' = rows" "\<exists>e. r = Inl e" using assms Some
      by (auto simp: SaveActivityWatchCheckpoint_def canonical_def Let_def db_call_def split: option.splits)
    then show thesis by (intro unchanged) auto
  next
    case True
    then have *: "(let (affected, rows') = upsertCheckpoint ?c rows in (confirmCheckpoint flt ?c affected rows', rows')) = (r, rows')"
      using assms Some by (simp add: SaveActivityWatchCheckpoint_def canonical_def Let_def db_call_def)
    show thesis
    proof (cases "row_at ac_CollectorID rows (ac_CollectorID c)")
      case None
      with * same Some show thesis by (intro inserted) (auto simp: upsertCheckpoint_def)
    next
      case (Some w)
      show thesis
      proof (cases "ac_BucketID w = ac_BucketID c \<and> position_of w < position_of ?c")
        case True
        with * same Some \<open>checkpointValid c = Some t\<close> show thesis by (intro advanced [of t w]) (auto simp: upsertCheckpoint_def)
      next
        case False
        with * same Some have "rows' = rows" by (simp add: upsertCheckpoint_def)
        moreover have "ac_BucketID w = ac_BucketID c" if "r = Inr ()"
          using * same Some False that by (auto simp: upsertCheckpoint_def confirmCheckpoint_def LoadActivityWatchCheckpoint_def bind_result_Inr_iff split: if_splits)
        ultimately show thesis using False Some \<open>checkpointValid c = Some t\<close> by (intro unchanged) (auto simp: not_less)
      qed
    qed
  qed
qed

lemma valid_time: "checkpointValid c = Some t \<Longrightarrow> parse_fixedUTC (ac_SourceTimeUTC c) = Some t \<and> text_year t"
  by (auto simp: checkpointValid_def parse_fixedUTC_year split: option.splits if_splits)

lemma canonical_position:
  "text_year t \<Longrightarrow> instant_position (canonical t now c) = (t, ac_SourceEventID c)"
  "position_of (canonical t now c) = (fixedUTC t, ac_SourceEventID c)"
  by (simp_all add: instant_position_def position_of_def canonical_def parse_fixedUTC_roundtrip)

lemma stored_position:
  assumes "checkpoints_ok rows" "row_at ac_CollectorID rows k = Some w"
  obtains t where "text_year t" "position_of w = (fixedUTC t, ac_SourceEventID w)" "instant_position w = (t, ac_SourceEventID w)"
proof -
  have "w \<in> set rows" using assms(2) by (auto simp: row_at_def dest: find_SomeD)
  with assms(1) obtain t where "text_year t" "ac_SourceTimeUTC w = fixedUTC t" by (auto simp: checkpoints_ok_def)
  then show thesis by (intro that [of t]) (simp_all add: position_of_def instant_position_def parse_fixedUTC_roundtrip)
qed

lemma save_keeps_ok:
  assumes "checkpoints_ok rows" "SaveActivityWatchCheckpoint flt now c rows = (r, rows')"
  shows "checkpoints_ok rows'"
  using assms(2)
proof (cases rule: save_cases)
  case unchanged
  with assms show ?thesis by simp
next
  case (inserted t)
  then have "ac_CollectorID c \<notin> ac_CollectorID ` set rows" by (auto simp: row_at_def find_None_iff_all)
  with inserted valid_time [OF inserted(1)] assms(1) show ?thesis
    by (auto simp: checkpoints_ok_def canonical_def)
next
  case (advanced t w)
  let ?f = "\<lambda>v. if ac_CollectorID v = ac_CollectorID c then (canonical t now c)\<lparr>ac_BucketID := ac_BucketID v\<rparr> else v"
  have "map (ac_CollectorID \<circ> ?f) rows = map ac_CollectorID rows" by (auto simp: canonical_def)
  then have "distinct (map ac_CollectorID rows')" using assms(1) unfolding advanced(5) map_map checkpoints_ok_def by (simp only:)
  moreover have "\<forall>v \<in> set rows'. \<exists>t. text_year t \<and> ac_SourceTimeUTC v = fixedUTC t"
    using assms(1) advanced(5) valid_time [OF advanced(1)] by (auto simp: checkpoints_ok_def canonical_def)
  ultimately show ?thesis by (simp add: checkpoints_ok_def)
qed

lemma instant_position_bucket: "instant_position (c\<lparr>ac_BucketID := b\<rparr>) = instant_position c"
  by (simp add: instant_position_def)

section \<open>Properties\<close>

text \<open>
  C36: Saving a checkpoint computes a maximum.  When a save succeeds, the collector's position -- the
  instant and the event id reached -- is the later of the stored and the offered one, in the order of
  instants and not only of their texts; other collectors keep theirs, and the table stays well formed.
\<close>

theorem save_checkpoint_refines_max:
  assumes "checkpoints_ok rows" "SaveActivityWatchCheckpoint flt now c rows = (Inr (), rows')"
  shows "\<exists>t. parse_fixedUTC (ac_SourceTimeUTC c) = Some t
    \<and> progress rows' (ac_CollectorID c) = Some (case progress rows (ac_CollectorID c) of
         None \<Rightarrow> (t, ac_SourceEventID c) | Some p \<Rightarrow> max p (t, ac_SourceEventID c))
    \<and> (\<forall>k. k \<noteq> ac_CollectorID c \<longrightarrow> row_at ac_CollectorID rows' k = row_at ac_CollectorID rows k)
    \<and> checkpoints_ok rows'"
proof -
  note ok = save_keeps_ok [OF assms]
  from assms(2) show ?thesis
  proof (cases rule: save_cases)
    case unchanged
    then obtain t w where *: "checkpointValid c = Some t" "row_at ac_CollectorID rows (ac_CollectorID c) = Some w"
      "position_of (canonical t now c) \<le> position_of w" by auto
    obtain s where s: "text_year s" "position_of w = (fixedUTC s, ac_SourceEventID w)" "instant_position w = (s, ac_SourceEventID w)"
      using stored_position [OF assms(1) *(2)] .
    have "\<not> position_of w < position_of (canonical t now c)" using *(3) by (simp only: not_less)
    then have "\<not> (s, ac_SourceEventID w) < (t, ac_SourceEventID c)"
      unfolding s(2) canonical_position using position_less_iff [OF s(1)] valid_time [OF *(1)] by blast
    with * s valid_time [OF *(1)] unchanged ok show ?thesis
      by (intro exI [of _ t]) (auto simp: progress_def max_def)
  next
    case (inserted t)
    with valid_time [OF inserted(1)] ok show ?thesis
      by (intro exI [of _ t]) (simp add: progress_def row_at_snoc canonical_position split: option.splits, simp add: canonical_def)
  next
    case (advanced t w)
    obtain s where s: "text_year s" "position_of w = (fixedUTC s, ac_SourceEventID w)" "instant_position w = (s, ac_SourceEventID w)"
      using stored_position [OF assms(1) advanced(2)] .
    have "(s, ac_SourceEventID w) < (t, ac_SourceEventID c)"
      using advanced(4) unfolding s(2) canonical_position using position_less_iff [OF s(1)] valid_time [OF advanced(1)] by blast
    then have "max (s, ac_SourceEventID w) (t, ac_SourceEventID c) = (t, ac_SourceEventID c)" by (rule max_absorb2 [OF less_imp_le])
    moreover have "row_at ac_CollectorID rows' j = (if j = ac_CollectorID c then Some ((canonical t now c)\<lparr>ac_BucketID := ac_BucketID w\<rparr>)
        else row_at ac_CollectorID rows j)" for j
      unfolding advanced(5) by (rule row_at_replace [OF advanced(2)]) (simp add: canonical_def)
    ultimately show ?thesis using advanced s valid_time [OF advanced(1)] ok
      by (intro exI [of _ t]) (simp add: progress_def canonical_position instant_position_bucket)
  qed
qed

definition sample_checkpoint :: ActivityWatchCheckpoint where
  "sample_checkpoint = \<lparr>ac_CollectorID = ''desktop'', ac_BucketID = ''aw-watcher-window'', ac_SourceTimeUTC = ''2024-01-01T00:00:00.000000000Z'',
     ac_SourceEventID = 7, ac_UpdatedAtUTC = []\<rparr>"

theorem save_checkpoint_refines_max_witness:
  "\<exists>t. parse_fixedUTC ''2024-01-01T00:00:00.000000000Z'' = Some t
     \<and> progress (snd (SaveActivityWatchCheckpoint no_faults 0 sample_checkpoint [])) ''desktop'' = Some (t, 7)"
proof -
  have "fst (SaveActivityWatchCheckpoint no_faults 0 sample_checkpoint []) = Inr ()"
    by code_simp
  then have "SaveActivityWatchCheckpoint no_faults 0 sample_checkpoint [] = (Inr (), snd (SaveActivityWatchCheckpoint no_faults 0 sample_checkpoint []))"
    by (simp add: prod_eq_iff)
  moreover have "checkpoints_ok []" "progress [] k = None" for k by (simp_all add: checkpoints_ok_def progress_def row_at_def)
  ultimately show ?thesis using save_checkpoint_refines_max [of "[]" no_faults 0 sample_checkpoint]
    by (simp add: sample_checkpoint_def [THEN arg_cong, of ac_CollectorID] sample_checkpoint_def [THEN arg_cong, of ac_SourceTimeUTC]
        sample_checkpoint_def [THEN arg_cong, of ac_SourceEventID]) blast
qed

end
