(* ===== verification/Go_Float.thy ===== *)
theory Go_Float
  imports Go_Duration Go_Unmarshal
begin

text \<open>
  Go's \<^verbatim>\<open>float64\<close> as far as durations in JSON need it: decoding, comparison, \<^verbatim>\<open>math.Float64bits\<close> and the shortest text
  that package \<^verbatim>\<open>json\<close> writes.
\<close>

section \<open>Values\<close>

text \<open>A finite binary64 value: its sign and its magnitude as a fraction.\<close>

type_synonym float64 = "bool \<times> nat \<times> nat"

definition float_num :: "float64 \<Rightarrow> int" where
  "float_num x = (if fst x then - int (fst (snd x)) else int (fst (snd x)))"

definition float_den :: "float64 \<Rightarrow> int" where
  "float_den x = int (snd (snd x))"

definition float_less :: "float64 \<Rightarrow> float64 \<Rightarrow> bool" where
  "float_less x y \<longleftrightarrow> float_num x * float_den y < float_num y * float_den x"

definition float_eq :: "float64 \<Rightarrow> float64 \<Rightarrow> bool" where
  "float_eq x y \<longleftrightarrow> float_num x * float_den y = float_num y * float_den x"

text \<open>
  Decoding into \<^verbatim>\<open>float64\<close>: the binary64 value nearest to the number, with its sign; a number that rounds beyond the largest
  binary64 value is an error.
\<close>

definition parse_float64 :: "string \<Rightarrow> float64 option" where
  "parse_float64 n =
     (let (neg, num, den) = number_value n; (bn, bd) = binary64 num den in
      if bn \<ge> 2 ^ 1024 * bd then None else Some (neg, bn, bd))"

definition dec_float :: "jitem list \<Rightarrow> float64 \<Rightarrow> float64 option" where
  "dec_float v old = (case map it_tok v of [TNull] \<Rightarrow> Some old | [TNum n] \<Rightarrow> parse_float64 n | _ \<Rightarrow> None)"

definition dec_float_ptr :: "jitem list \<Rightarrow> float64 option option" where
  "dec_float_ptr v = (case map it_tok v of [TNull] \<Rightarrow> Some None | [TNum n] \<Rightarrow> map_option Some (parse_float64 n) | _ \<Rightarrow> None)"

text \<open>\<^verbatim>\<open>time.Duration(durationSeconds * float64(time.Second))\<close>\<close>

definition seconds_to_duration :: "nat \<times> nat \<Rightarrow> duration" where
  "seconds_to_duration q = (let (n, d) = binary64 (fst q * 1000000000) (snd q) in int (n div d))"

section \<open>Bits\<close>

text \<open>
  \<^verbatim>\<open>math.Float64bits\<close>: sign, biased exponent and fraction; the least exponent is that of the subnormal values.
\<close>

definition Float64bits :: "float64 \<Rightarrow> nat" where
  "Float64bits x =
     (let (neg, n, d) = x; sign = (if neg then 2 ^ 63 else 0) in
      if n = 0 then sign
      else let k = float_scale n d;
               m = (if k \<ge> 0 then n * 2 ^ nat k div d else n div (d * 2 ^ nat (- k)))
           in if m < 2 ^ 52 then sign + m else sign + nat (1075 - k) * 2 ^ 52 + (m - 2 ^ 52))"

text \<open>\<^verbatim>\<open>strconv.FormatUint(_, 16)\<close>\<close>

fun hex_text :: "nat \<Rightarrow> string" where
  "hex_text n = (let c = (''0123456789abcdef'' ! (n mod 16)) in if n < 16 then [c] else hex_text (n div 16) @ [c])"

declare hex_text.simps [simp del]

section \<open>Text\<close>

text \<open>The position of the decimal point: \<open>10 ^ (p - 1) \<le> n / d < 10 ^ p\<close>.\<close>

definition decimal_point :: "nat \<Rightarrow> nat \<Rightarrow> int" where
  "decimal_point n d =
     (let a = int (length (nat_digits n)); b = int (length (nat_digits d)); q = a - b
      in if (if q \<ge> 0 then d * 10 ^ nat q \<le> n else d \<le> n * 10 ^ nat (- q)) then q + 1 else q)"

definition decimal_value :: "nat \<Rightarrow> int \<Rightarrow> nat \<times> nat" where
  "decimal_value c e = (if e \<ge> 0 then (c * 10 ^ nat e, 1) else (c, 10 ^ nat (- e)))"

definition reads_back :: "nat \<Rightarrow> nat \<Rightarrow> nat \<Rightarrow> int \<Rightarrow> bool" where
  "reads_back n d c e = (let (cn, cd) = decimal_value c e; (bn, bd) = binary64 cn cd in bn * d = n * bd)"

text \<open>
  The shortest digits that read back as the value, and among those the nearest; at most 17 digits are needed.
\<close>

fun shortest_digits :: "nat \<Rightarrow> nat \<Rightarrow> int \<Rightarrow> nat \<Rightarrow> nat \<Rightarrow> nat \<times> int" where
  "shortest_digits n d p k fuel =
     (let e = p - int k;
          (sn, sd) = (if e \<ge> 0 then (n, d * 10 ^ nat e) else (n * 10 ^ nat (- e), d));
          lo = sn div sd; hi = lo + 1; near = round_even sn sd; far = (if near = lo then hi else lo)
      in if reads_back n d near e then (near, e)
         else if reads_back n d far e then (far, e)
         else case fuel of 0 \<Rightarrow> (near, e) | Suc fuel' \<Rightarrow> shortest_digits n d p (Suc k) fuel')"

definition trim_zeros :: "string \<Rightarrow> string" where
  "trim_zeros ds = rev (dropWhile (\<lambda>c. c = CHR ''0'') (rev ds))"

text \<open>The encoding of a \<^verbatim>\<open>float64\<close> by package \<^verbatim>\<open>json\<close>: plain, or with an exponent for very small and very large values.\<close>

definition format_float64 :: "float64 \<Rightarrow> string" where
  "format_float64 x =
     (let (neg, n, d) = x; sign = (if neg then ''-'' else []) in
      if n = 0 then sign @ ''0''
      else let (c, e) = shortest_digits n d (decimal_point n d) 1 16;
               digits = nat_digits c; p = int (length digits) + e; ds = trim_zeros digits;
               (sn, sd) = binary64 1 1000000
           in if n * sd < sn * d \<or> n \<ge> 10 ^ 21 * d
              then sign @ [hd ds] @ (if tl ds = [] then [] else ''.'' @ tl ds) @ ''e'' @ (if p - 1 < 0 then ''-'' else ''+'') @ nat_digits (nat \<bar>p - 1\<bar>)
              else if p \<le> 0 then sign @ ''0.'' @ replicate (nat (- p)) CHR ''0'' @ ds
              else if int (length ds) \<le> p then sign @ ds @ replicate (nat p - length ds) CHR ''0''
              else sign @ take (nat p) ds @ ''.'' @ drop (nat p) ds)"

end
