(* ===== verification/Timeline.thy ===== *)
theory Timeline
  imports Go_Float Media_Store Heartbeats Event_Query Complex_Main "HOL-Library.Product_Lexorder"
begin

text \<open>
  The timeline projection, \<^verbatim>\<open>internal/eventstore/timeline.go\<close>: raw events, heartbeats and media segments of a
  time range are projected onto entries with corrected times, upserted in chunks into the table
  \<^verbatim>\<open>timeline_entries\<close>, and read in pages whose cursors freeze the range and the newest entry.

  SQLite's floating point \<^verbatim>\<open>julianday\<close> arithmetic is the parameter \<open>sql_time\<close>.  The one thing the theorems rely on
  is that it reads the times the store writes and is right to half a second, which the queries allow for by widening the range by a second.
\<close>

abbreviation (input) "CodeTimelineRangeInvalid \<equiv> ''TIMELINE_RANGE_INVALID''"
abbreviation (input) "CodeTimelineFactLimit \<equiv> ''TIMELINE_FACT_LIMIT''"
abbreviation (input) "CodeTimelineByteLimit \<equiv> ''TIMELINE_BYTE_LIMIT''"
abbreviation (input) "CodeTimelineSyncBusy \<equiv> ''TIMELINE_SYNC_BUSY''"
abbreviation (input) "CodeTimelineCursor \<equiv> ''TIMELINE_CURSOR_INVALID''"

section \<open>Data\<close>

record timelineProjection =
  tp_StableID :: string
  tp_SourceType :: string
  tp_SourceID :: int
  tp_CollectorID :: string
  tp_EventType :: string
  tp_DeviceStartRaw :: string
  tp_DeviceEndRaw :: string
  tp_DeviceStartUTC :: string
  tp_DeviceEndUTC :: string
  tp_ReceivedAtUTC :: string
  tp_CorrectedStartUTC :: string
  tp_CorrectedEndUTC :: string
  tp_ClockOffsetMS :: int
  tp_ClockErrorMS :: int
  tp_ClockUncertain :: bool
  tp_QualityFlagsJSON :: string
  tp_PayloadJSON :: string
  tp_SourceSchemaVersion :: int

text \<open>
  A row of \<^verbatim>\<open>timeline_entries\<close>.  The columns that may be NULL are written through \<^verbatim>\<open>nullableString\<close> and
  read through \<^verbatim>\<open>COALESCE(_, '')\<close>, so NULL is the empty text here.
\<close>

record timeline_row =
  tl_id :: int
  tl_data :: timelineProjection

record TimelineEntry =
  te_ID :: int
  te_Data :: timelineProjection
  te_QualityFlags :: "string list"

record TimelinePage =
  tg_RangeStartUTC :: string
  tg_RangeEndUTC :: string
  tg_SnapshotID :: int
  tg_Entries :: "TimelineEntry list"
  tg_NextCursor :: string

record timelineCursor =
  tc_Version :: int
  tc_RangeStartUTC :: string
  tc_RangeEndUTC :: string
  tc_SnapshotID :: int
  tc_CorrectedUTC :: string
  tc_ReceivedUTC :: string
  tc_SourceType :: string
  tc_SourceID :: int
  tc_ProjectionID :: int

text \<open>The tables the projection reads and the one it writes.\<close>

record timeline_db =
  tb_raw :: "raw_row list"
  tb_heartbeats :: "heartbeat_row list"
  tb_segments :: "segment_row list"
  tb_entries :: "timeline_row list"

text \<open>
  SQLite's \<^verbatim>\<open>julianday\<close> and the expressions over it that the queries use, and the JSON conditions of
  \<^verbatim>\<open>activityWatchIntervalSQL\<close>; \<^const>\<open>None\<close> is NULL.
\<close>

record sql_time =
  sq_julianday :: "string \<Rightarrow> rat option"
  sq_corrected :: "string \<Rightarrow> int \<Rightarrow> rat option"
  sq_corrected_end :: "string \<Rightarrow> int \<Rightarrow> string \<Rightarrow> rat option"
  sq_activitywatch :: "string \<Rightarrow> bool"

definition sql_ge :: "rat option \<Rightarrow> rat option \<Rightarrow> bool" where
  "sql_ge a b = (case (a, b) of (Some x, Some y) \<Rightarrow> x \<ge> y | _ \<Rightarrow> False)"

definition sql_less :: "rat option \<Rightarrow> rat option \<Rightarrow> bool" where
  "sql_less a b = (case (a, b) of (Some x, Some y) \<Rightarrow> x < y | _ \<Rightarrow> False)"

section \<open>Projections of one source\<close>

definition qualityJSON :: "string list \<Rightarrow> bool \<Rightarrow> string" where
  "qualityJSON flags clockUncertain =
     marshal (JArray (map JString (sort (remdups (flags @ (if clockUncertain then [''clock_uncertain''] else []))))))"

record awPayload =
  aw_BucketID :: string
  aw_BucketType :: string
  aw_SourceEventID :: "int option"
  aw_DurationSeconds :: "float64 option"
  aw_Data :: "jitem list"

definition setAwField :: "string \<Rightarrow> jitem list \<Rightarrow> awPayload \<Rightarrow> awPayload option" where
  "setAwField name v st =
     (if name = ''bucket_id'' then map_option (\<lambda>x. st\<lparr>aw_BucketID := x\<rparr>) (dec_str v (aw_BucketID st))
      else if name = ''bucket_type'' then map_option (\<lambda>x. st\<lparr>aw_BucketType := x\<rparr>) (dec_str v (aw_BucketType st))
      else if name = ''source_event_id'' then map_option (\<lambda>x. st\<lparr>aw_SourceEventID := x\<rparr>) (dec_int_ptr v)
      else if name = ''duration_seconds'' then map_option (\<lambda>x. st\<lparr>aw_DurationSeconds := x\<rparr>) (dec_float_ptr v)
      else if name = ''data'' then Some (st\<lparr>aw_Data := v\<rparr>)
      else None)"

definition is_object_value :: "jitem list \<Rightarrow> bool" where
  "is_object_value v \<longleftrightarrow> v \<noteq> [] \<and> it_tok (hd v) = TDelim CHR ''{''"

text \<open>The duration of an ActivityWatch event, as a non-negative binary64 value.\<close>

definition activityWatchProjectionDuration :: "string \<Rightarrow> (nat \<times> nat) option" where
  "activityWatchProjectionDuration payload =
     (case unmarshal [''bucket_id'', ''bucket_type'', ''source_event_id'', ''duration_seconds'', ''data''] setAwField
         \<lparr>aw_BucketID = [], aw_BucketType = [], aw_SourceEventID = None, aw_DurationSeconds = None, aw_Data = []\<rparr> payload of
        None \<Rightarrow> None
      | Some aw \<Rightarrow>
          if \<not> validIdentifier (aw_BucketID aw) 256 \<or> \<not> validIdentifier (aw_BucketType aw) 128 then None
          else case aw_SourceEventID aw of None \<Rightarrow> None
          | Some sourceEventID \<Rightarrow>
              if sourceEventID < 0 then None
              else case aw_DurationSeconds aw of None \<Rightarrow> None
              | Some (neg, n, d) \<Rightarrow>
                  if (neg \<and> n > 0) \<or> n > 366 * 24 * 60 * 60 * d then None
                  else if \<not> is_object_value (aw_Data aw) then None
                  else Some (n, d))"

definition rawEventProjection :: "raw_row \<Rightarrow> duration \<Rightarrow> go_error + timelineProjection" where
  "rawEventProjection w uncertainAfter =
     (let e = row_event w in
      bind_result (require_some (parse_rfc3339nano (ev_DeviceTimeUTC e)) (wrap CodeQueryFailed ''parse raw event device time'')) (\<lambda>deviceTime.
      bind_result (require_some (parse_rfc3339nano (ev_ReceivedAtUTC e)) (wrap CodeQueryFailed ''parse raw event received time'')) (\<lambda>received.
        let offset = duration_ms (ev_ClockOffsetMS e);
            uncertain = duration_ms (ev_ClockErrorMS e) > uncertainAfter;
            projection = \<lparr>tp_StableID = ''event:'' @ int_digits (row_id w), tp_SourceType = ''raw_event'', tp_SourceID = row_id w,
              tp_CollectorID = ev_CollectorID e, tp_EventType = ev_EventType e, tp_DeviceStartRaw = ev_DeviceTimestampRaw e,
              tp_DeviceEndRaw = [], tp_DeviceStartUTC = rfc3339nano deviceTime, tp_DeviceEndUTC = [], tp_ReceivedAtUTC = fixedUTC received,
              tp_CorrectedStartUTC = fixedUTC (deviceTime + offset), tp_CorrectedEndUTC = [], tp_ClockOffsetMS = ev_ClockOffsetMS e,
              tp_ClockErrorMS = ev_ClockErrorMS e, tp_ClockUncertain = uncertain, tp_QualityFlagsJSON = qualityJSON [] uncertain,
              tp_PayloadJSON = ev_PayloadJSON e, tp_SourceSchemaVersion = ev_SchemaVersion e\<rparr>
        in if ev_EventType e = ''activitywatch.event'' then
             (case activityWatchProjectionDuration (ev_PayloadJSON e) of
                None \<Rightarrow> Inr (projection\<lparr>tp_QualityFlagsJSON := qualityJSON [''incomplete''] uncertain\<rparr>)
              | Some durationSeconds \<Rightarrow>
                  let stop = deviceTime + seconds_to_duration durationSeconds
                  in Inr (projection\<lparr>tp_DeviceEndUTC := rfc3339nano stop, tp_DeviceEndRaw := rfc3339nano stop,
                       tp_CorrectedEndUTC := fixedUTC (stop + offset)\<rparr>))
           else Inr projection)))"

definition heartbeatProjection :: "heartbeat_row \<Rightarrow> duration \<Rightarrow> go_error + timelineProjection" where
  "heartbeatProjection w uncertainAfter =
     (let h = hrow_heartbeat w; uncertain = duration_ms (hb_ClockErrorMS h) > uncertainAfter in
      bind_result (require_some (unmarshal_strings (hb_QualityFlagsJSON h)) (wrap CodeQueryFailed ''decode heartbeat quality flags'')) (\<lambda>quality.
        Inr \<lparr>tp_StableID = ''heartbeat:'' @ int_digits (hrow_id w), tp_SourceType = ''heartbeat'', tp_SourceID = hrow_id w,
          tp_CollectorID = hb_CollectorID h, tp_EventType = ''collector.heartbeat'', tp_DeviceStartRaw = hb_DeviceStartRaw h,
          tp_DeviceEndRaw = hb_DeviceEndRaw h, tp_DeviceStartUTC = hb_DeviceStartUTC h, tp_DeviceEndUTC = hb_DeviceEndUTC h,
          tp_ReceivedAtUTC = hb_ReceivedAtUTC h, tp_CorrectedStartUTC = hb_CorrectedStartUTC h, tp_CorrectedEndUTC = hb_CorrectedEndUTC h,
          tp_ClockOffsetMS = hb_ClockOffsetMS h, tp_ClockErrorMS = hb_ClockErrorMS h, tp_ClockUncertain = uncertain,
          tp_QualityFlagsJSON = qualityJSON quality uncertain, tp_PayloadJSON = marshal (JObject [(''state'', JString (hb_State h))]),
          tp_SourceSchemaVersion = hb_SchemaVersion h\<rparr>))"

definition mediaProjection :: "segment_row \<Rightarrow> duration \<Rightarrow> go_error + timelineProjection" where
  "mediaProjection w uncertainAfter =
     (let m = seg_data w; invalid = StoreErr CodeQueryFailed ''stored media time is invalid'' in
      bind_result (require_some (parse_rfc3339nano (mm_DeviceStartUTC m)) invalid) (\<lambda>startTime.
      bind_result (require_some (parse_rfc3339nano (mm_DeviceEndUTC m)) invalid) (\<lambda>endTime.
      bind_result (require_some (parse_rfc3339nano (mm_ReceivedAtUTC m)) invalid) (\<lambda>received.
        let offset = duration_ms (mm_ClockOffsetMS m); uncertain = duration_ms (mm_ClockErrorMS m) > uncertainAfter
        in Inr \<lparr>tp_StableID = ''media:'' @ int_digits (seg_id w), tp_SourceType = ''media_segment'', tp_SourceID = seg_id w,
          tp_CollectorID = mm_CollectorID m, tp_EventType = ''media.segment'', tp_DeviceStartRaw = mm_DeviceStartRaw m,
          tp_DeviceEndRaw = mm_DeviceEndRaw m, tp_DeviceStartUTC = mm_DeviceStartUTC m, tp_DeviceEndUTC = mm_DeviceEndUTC m,
          tp_ReceivedAtUTC = fixedUTC received, tp_CorrectedStartUTC = fixedUTC (startTime + offset),
          tp_CorrectedEndUTC = fixedUTC (endTime + offset), tp_ClockOffsetMS = mm_ClockOffsetMS m, tp_ClockErrorMS = mm_ClockErrorMS m,
          tp_ClockUncertain = uncertain, tp_QualityFlagsJSON = qualityJSON [] uncertain,
          tp_PayloadJSON = marshal (JObject [(''managed_relative_path'', JString (mm_ManagedRelativePath m)),
            (''size_bytes'', JNumber (int_digits (mm_SizeBytes m))), (''duration_ms'', JNumber (int_digits (mm_DurationMS m))),
            (''codec_name'', JString (mm_CodecName m)), (''format_name'', JString (mm_FormatName m)),
            (''media_type'', JString (mm_MediaType m)), (''sha256'', JString (mm_SHA256 m))]),
          tp_SourceSchemaVersion = mm_SidecarSchemaVersion m\<rparr>))))"

definition projectionMatchesRange :: "timelineProjection \<Rightarrow> instant \<Rightarrow> instant \<Rightarrow> bool \<Rightarrow> go_error + bool" where
  "projectionMatchesRange item start stop includeOverlapping =
     bind_result (require_some (parse_rfc3339nano (tp_CorrectedStartUTC item)) (wrap CodeQueryFailed ''parse corrected projection start'')) (\<lambda>correctedStart.
       if \<not> correctedStart < stop then Inr False
       else if \<not> correctedStart < start then Inr True
       else if \<not> includeOverlapping \<or> tp_CorrectedEndUTC item = [] then Inr False
       else bind_result (require_some (parse_rfc3339nano (tp_CorrectedEndUTC item)) (wrap CodeQueryFailed ''parse corrected projection end''))
              (\<lambda>correctedEnd. Inr (correctedEnd > start)))"

definition projectionHasPositiveInterval :: "timelineProjection \<Rightarrow> bool" where
  "projectionHasPositiveInterval item \<longleftrightarrow>
     tp_CorrectedEndUTC item \<noteq> []
     \<and> (case (parse_rfc3339nano (tp_CorrectedStartUTC item), parse_rfc3339nano (tp_CorrectedEndUTC item)) of
          (Some start, Some stop) \<Rightarrow> start < stop | _ \<Rightarrow> False)"

section \<open>Collecting\<close>

definition timelineProjectionSize :: "timelineProjection \<Rightarrow> int" where
  "timelineProjectionSize item =
     512 + int (length (tp_StableID item)) + int (length (tp_SourceType item)) + int (length (tp_CollectorID item)) + int (length (tp_EventType item))
     + int (length (tp_DeviceStartRaw item)) + int (length (tp_DeviceEndRaw item)) + int (length (tp_DeviceStartUTC item)) + int (length (tp_DeviceEndUTC item))
     + int (length (tp_ReceivedAtUTC item)) + int (length (tp_CorrectedStartUTC item)) + int (length (tp_CorrectedEndUTC item))
     + int (length (tp_QualityFlagsJSON item)) + int (length (tp_PayloadJSON item))"

type_synonym collected = "timelineProjection list \<times> int"

definition appendTimelineProjection :: "collected \<Rightarrow> timelineProjection \<Rightarrow> int \<Rightarrow> int \<Rightarrow> go_error + collected" where
  "appendTimelineProjection st item maxFacts maxBytes =
     (let (target, usedBytes) = st; itemSize = timelineProjectionSize item in
      if int (length target) \<ge> maxFacts then Inl (StoreErr CodeTimelineFactLimit ''timeline range exceeds the fact limit'')
      else if itemSize > maxBytes - usedBytes then Inl (StoreErr CodeTimelineByteLimit ''timeline range exceeds the memory budget'')
      else Inr (target @ [item], usedBytes + itemSize))"

text \<open>
  The loop over the rows of one query, given what it does with one row: fail, skip it, or project
  it.  The labels are those of the statements that read, scan, iterate and close the rows.
\<close>

fun collectRows :: "faults \<Rightarrow> string \<Rightarrow> ('w \<Rightarrow> go_error + timelineProjection option) \<Rightarrow> int \<Rightarrow> int \<Rightarrow> nat \<Rightarrow> 'w list \<Rightarrow> collected \<Rightarrow> go_error + collected" where
  "collectRows flt label project maxFacts maxBytes i [] st = Inr st"
| "collectRows flt label project maxFacts maxBytes i (w # ws) st =
     bind_result (db_read flt CodeQueryFailed label i) (\<lambda>_.
     bind_result (project w) (\<lambda>p.
       case p of None \<Rightarrow> collectRows flt label project maxFacts maxBytes (Suc i) ws st
       | Some item \<Rightarrow> bind_result (appendTimelineProjection st item maxFacts maxBytes) (collectRows flt label project maxFacts maxBytes (Suc i) ws)))"

fun collectQueries :: "faults \<Rightarrow> string \<times> string \<times> string \<times> string \<Rightarrow> ('w \<Rightarrow> go_error + timelineProjection option) \<Rightarrow> int \<Rightarrow> int \<Rightarrow> nat \<Rightarrow> nat
    \<Rightarrow> 'w list list \<Rightarrow> collected \<Rightarrow> go_error + collected" where
  "collectQueries flt labels project maxFacts maxBytes q i [] st = Inr st"
| "collectQueries flt labels project maxFacts maxBytes q i (rows # queries) st =
     (let (read, scan, iterate, close) = labels in
      bind_result (db_call flt CodeQueryFailed read q) (\<lambda>_.
      bind_result (collectRows flt scan project maxFacts maxBytes i rows st) (\<lambda>st'.
      bind_result (db_call flt CodeQueryFailed iterate q) (\<lambda>_.
      bind_result (db_read flt CodeQueryFailed close q) (\<lambda>_.
        collectQueries flt labels project maxFacts maxBytes (Suc q) (i + length rows) queries st')))))"

text \<open>
  The queries as the rows they select.  A scan of an index yields the rows in the order of the
  index: by the indexed expression, then by id.
\<close>

definition raw_corrected :: "sql_time \<Rightarrow> raw_row \<Rightarrow> rat option" where
  "raw_corrected S w = sq_corrected S (ev_DeviceTimeUTC (row_event w)) (ev_ClockOffsetMS (row_event w))"

definition raw_corrected_end :: "sql_time \<Rightarrow> raw_row \<Rightarrow> rat option" where
  "raw_corrected_end S w = sq_corrected_end S (ev_DeviceTimeUTC (row_event w)) (ev_ClockOffsetMS (row_event w)) (ev_PayloadJSON (row_event w))"

definition activityWatchIntervalSQL :: "sql_time \<Rightarrow> raw_row \<Rightarrow> bool" where
  "activityWatchIntervalSQL S w \<longleftrightarrow> ev_EventType (row_event w) = ''activitywatch.event'' \<and> sq_activitywatch S (ev_PayloadJSON (row_event w))"

definition rawEventProjectionQueries :: "sql_time \<Rightarrow> string \<Rightarrow> bool \<Rightarrow> string \<Rightarrow> string \<Rightarrow> raw_row list \<Rightarrow> raw_row list list" where
  "rawEventProjectionQueries S collectorID includeOverlapping candidateStart candidateEnd rows =
     (let from = sq_julianday S candidateStart; upto = sq_julianday S candidateEnd;
          starts = (\<lambda>w. sql_ge (raw_corrected S w) from \<and> sql_less (raw_corrected S w) upto);
          reaches = (\<lambda>w. activityWatchIntervalSQL S w \<and> sql_less (raw_corrected S w) from \<and> sql_less from (raw_corrected_end S w));
          own = (\<lambda>w. ev_CollectorID (row_event w) = collectorID);
          by_start = sort_key (\<lambda>w. (the (raw_corrected S w), row_id w));
          by_end = sort_key (\<lambda>w. (the (raw_corrected_end S w), row_id w))
      in if collectorID = [] then
           by_start (filter starts rows) # (if includeOverlapping then [by_end (filter reaches rows)] else [])
         else if includeOverlapping then
           [by_start (filter (\<lambda>w. own w \<and> activityWatchIntervalSQL S w \<and> starts w) rows),
            by_end (filter (\<lambda>w. own w \<and> reaches w) rows)]
         else [by_start (filter (\<lambda>w. own w \<and> starts w) rows)])"

definition heartbeatProjectionQueries :: "string \<Rightarrow> bool \<Rightarrow> string \<Rightarrow> string \<Rightarrow> heartbeat_row list \<Rightarrow> heartbeat_row list list" where
  "heartbeatProjectionQueries collectorID includeOverlapping startText endText rows =
     (let cs = hb_CorrectedStartUTC \<circ> hrow_heartbeat; ce = hb_CorrectedEndUTC \<circ> hrow_heartbeat;
          own = (\<lambda>w. collectorID = [] \<or> hb_CollectorID (hrow_heartbeat w) = collectorID)
      in sort_key (\<lambda>w. (cs w, hrow_id w)) (filter (\<lambda>w. own w \<and> cs w \<ge> startText \<and> cs w < endText) rows)
         # (if includeOverlapping
            then [sort_key (\<lambda>w. (ce w, hrow_id w)) (filter (\<lambda>w. own w \<and> cs w < startText \<and> ce w > startText) rows)] else []))"

definition media_corrected_start :: "sql_time \<Rightarrow> segment_row \<Rightarrow> rat option" where
  "media_corrected_start S w = sq_corrected S (mm_DeviceStartUTC (seg_data w)) (mm_ClockOffsetMS (seg_data w))"

definition media_corrected_end :: "sql_time \<Rightarrow> segment_row \<Rightarrow> rat option" where
  "media_corrected_end S w = sq_corrected S (mm_DeviceEndUTC (seg_data w)) (mm_ClockOffsetMS (seg_data w))"

definition mediaProjectionQueries :: "sql_time \<Rightarrow> string \<Rightarrow> bool \<Rightarrow> string \<Rightarrow> string \<Rightarrow> segment_row list \<Rightarrow> segment_row list list" where
  "mediaProjectionQueries S collectorID includeOverlapping candidateStart candidateEnd rows =
     (let from = sq_julianday S candidateStart; upto = sq_julianday S candidateEnd;
          own = (\<lambda>w. collectorID = [] \<or> mm_CollectorID (seg_data w) = collectorID)
      in sort_key (\<lambda>w. (the (media_corrected_start S w), seg_id w))
           (filter (\<lambda>w. own w \<and> sql_ge (media_corrected_start S w) from \<and> sql_less (media_corrected_start S w) upto) rows)
         # (if includeOverlapping
            then [sort_key (\<lambda>w. (the (media_corrected_end S w), seg_id w))
                   (filter (\<lambda>w. own w \<and> sql_less (media_corrected_start S w) from \<and> sql_less from (media_corrected_end S w)) rows)]
            else []))"

definition in_range :: "instant \<Rightarrow> instant \<Rightarrow> bool \<Rightarrow> timelineProjection \<Rightarrow> go_error + timelineProjection option" where
  "in_range start stop includeOverlapping item =
     bind_result (projectionMatchesRange item start stop includeOverlapping) (\<lambda>matches. Inr (if matches then Some item else None))"

definition projectRaw :: "instant \<Rightarrow> instant \<Rightarrow> duration \<Rightarrow> bool \<Rightarrow> raw_row \<Rightarrow> go_error + timelineProjection option" where
  "projectRaw start stop uncertainAfter includeOverlapping w =
     bind_result (rawEventProjection w uncertainAfter) (\<lambda>item.
     bind_result (in_range start stop includeOverlapping item) (\<lambda>found.
       Inr (case found of None \<Rightarrow> None
            | Some item \<Rightarrow> if includeOverlapping \<and> \<not> projectionHasPositiveInterval item then None else Some item)))"

definition projectHeartbeat :: "duration \<Rightarrow> heartbeat_row \<Rightarrow> go_error + timelineProjection option" where
  "projectHeartbeat uncertainAfter w = bind_result (heartbeatProjection w uncertainAfter) (\<lambda>item. Inr (Some item))"

definition projectMedia :: "instant \<Rightarrow> instant \<Rightarrow> duration \<Rightarrow> bool \<Rightarrow> segment_row \<Rightarrow> go_error + timelineProjection option" where
  "projectMedia start stop uncertainAfter includeOverlapping w =
     bind_result (mediaProjection w uncertainAfter) (in_range start stop includeOverlapping)"

definition collectRawEventProjections :: "sql_time \<Rightarrow> store_cfg \<Rightarrow> faults \<Rightarrow> instant \<Rightarrow> instant \<Rightarrow> duration \<Rightarrow> int \<Rightarrow> string \<Rightarrow> bool \<Rightarrow> raw_row list
    \<Rightarrow> collected \<Rightarrow> go_error + collected" where
  "collectRawEventProjections S C flt start stop uncertainAfter maxFacts collectorID includeOverlapping rows st =
     (let candidateStart = rfc3339nano (start - second); candidateEnd = rfc3339nano (stop + second)
      in collectQueries flt
           (''read raw events for timeline projection'', ''scan raw event timeline source'', ''iterate raw event timeline sources'', ''close raw event timeline sources'')
           (projectRaw start stop uncertainAfter includeOverlapping) maxFacts (maxTimelineProjectionBytes C) 0 0
           (rawEventProjectionQueries S collectorID includeOverlapping candidateStart candidateEnd rows) st)"

definition collectHeartbeatProjections :: "store_cfg \<Rightarrow> faults \<Rightarrow> instant \<Rightarrow> instant \<Rightarrow> duration \<Rightarrow> int \<Rightarrow> string \<Rightarrow> bool \<Rightarrow> heartbeat_row list
    \<Rightarrow> collected \<Rightarrow> go_error + collected" where
  "collectHeartbeatProjections C flt start stop uncertainAfter maxFacts collectorID includeOverlapping rows st =
     collectQueries flt
       (''read heartbeat timeline sources'', ''scan heartbeat timeline source'', ''iterate heartbeat timeline sources'', ''close heartbeat timeline sources'')
       (projectHeartbeat uncertainAfter) maxFacts (maxTimelineProjectionBytes C) 0 0
       (heartbeatProjectionQueries collectorID includeOverlapping (fixedUTC start) (fixedUTC stop) rows) st"

definition collectMediaProjections :: "sql_time \<Rightarrow> store_cfg \<Rightarrow> faults \<Rightarrow> instant \<Rightarrow> instant \<Rightarrow> duration \<Rightarrow> int \<Rightarrow> string \<Rightarrow> bool \<Rightarrow> segment_row list
    \<Rightarrow> collected \<Rightarrow> go_error + collected" where
  "collectMediaProjections S C flt start stop uncertainAfter maxFacts collectorID includeOverlapping rows st =
     (let candidateStart = rfc3339nano (start - second); candidateEnd = rfc3339nano (stop + second)
      in collectQueries flt
           (''read media timeline sources'', ''scan media timeline source'', ''iterate media timeline sources'', ''close media timeline sources'')
           (projectMedia start stop uncertainAfter includeOverlapping) maxFacts (maxTimelineProjectionBytes C) 0 0
           (mediaProjectionQueries S collectorID includeOverlapping candidateStart candidateEnd rows) st)"

section \<open>Writing the projection\<close>

text \<open>The CHECK constraints of \<^verbatim>\<open>timeline_entries\<close> in \<^verbatim>\<open>migrations/004_collectors_timeline.sql\<close>.\<close>

definition timeline_checks :: "ext \<Rightarrow> timelineProjection \<Rightarrow> bool" where
  "timeline_checks X p \<longleftrightarrow>
     between 3 160 (tp_StableID p) \<and> tp_SourceType p \<in> set [''raw_event'', ''heartbeat'', ''media_segment''] \<and> tp_SourceID p > 0
     \<and> between 1 128 (tp_CollectorID p) \<and> between 1 128 (tp_EventType p) \<and> between 1 128 (tp_DeviceStartRaw p)
     \<and> (tp_DeviceEndRaw p = [] \<or> between 1 128 (tp_DeviceEndRaw p))
     \<and> between 20 35 (tp_DeviceStartUTC p) \<and> (tp_DeviceEndUTC p = [] \<or> between 20 35 (tp_DeviceEndUTC p)) \<and> between 20 35 (tp_ReceivedAtUTC p)
     \<and> sql_length (tp_CorrectedStartUTC p) = 30 \<and> (tp_CorrectedEndUTC p = [] \<or> sql_length (tp_CorrectedEndUTC p) = 30)
     \<and> tp_ClockErrorMS p \<ge> 0 \<and> json_valid X (tp_QualityFlagsJSON p) \<and> take 1 (tp_QualityFlagsJSON p) = ''[''
     \<and> json_valid X (tp_PayloadJSON p) \<and> tp_SourceSchemaVersion p > 0"

definition source_key :: "timelineProjection \<Rightarrow> string \<times> int" where
  "source_key p = (tp_SourceType p, tp_SourceID p)"

text \<open>
  \<^verbatim>\<open>INSERT ... ON CONFLICT(source_type, source_id) DO UPDATE ... WHERE\<close> some column differs.  A stable
  id that another row holds violates its uniqueness.
\<close>

definition upsertTimelineProjection :: "ext \<Rightarrow> timelineProjection \<Rightarrow> timeline_row list \<Rightarrow> sql_fault + timeline_row list" where
  "upsertTimelineProjection X item rows =
     (if \<not> timeline_checks X item then Inl (FaultSqlite sqlite_constraint_check)
      else if list_ex (\<lambda>w. tp_StableID (tl_data w) = tp_StableID item \<and> source_key (tl_data w) \<noteq> source_key item) rows
      then Inl (FaultSqlite sqlite_constraint_unique)
      else if list_ex (\<lambda>w. source_key (tl_data w) = source_key item) rows
      then Inr (map (\<lambda>w. if source_key (tl_data w) = source_key item \<and> tl_data w \<noteq> item then w\<lparr>tl_data := item\<rparr> else w) rows)
      else Inr (rows @ [\<lparr>tl_id = next_id tl_id rows, tl_data = item\<rparr>]))"

fun upsertItems :: "ext \<Rightarrow> faults \<Rightarrow> nat \<Rightarrow> timelineProjection list \<Rightarrow> timeline_row list \<Rightarrow> go_error + timeline_row list" where
  "upsertItems X flt i [] rows = Inr rows"
| "upsertItems X flt i (item # items) rows =
     bind_result (db_call flt CodeWriteFailed ''insert timeline projection'' i) (\<lambda>_.
       case upsertTimelineProjection X item rows of
         Inl f \<Rightarrow> Inl (classifySQLiteError CodeWriteFailed ''insert timeline projection'' f)
       | Inr rows' \<Rightarrow> upsertItems X flt (Suc i) items rows')"

text \<open>One chunk is one transaction: on an error its rows are rolled back.\<close>

definition upsertTimelineProjectionChunk :: "ext \<Rightarrow> faults \<Rightarrow> nat \<Rightarrow> timelineProjection list \<Rightarrow> timeline_row list \<Rightarrow> (go_error + unit) \<times> timeline_row list" where
  "upsertTimelineProjectionChunk X flt offset projections rows =
     (case bind_result (db_call flt CodeWriteFailed ''begin timeline projection chunk'' offset) (\<lambda>_.
           bind_result (upsertItems X flt offset projections rows) (\<lambda>rows'.
           bind_result (db_call flt CodeWriteFailed ''commit timeline projection chunk'' offset) (\<lambda>_. Inr rows'))) of
        Inl e \<Rightarrow> (Inl e, rows) | Inr rows' \<Rightarrow> (Inr (), rows'))"

definition timelineProjectionChunkSize :: nat where "timelineProjectionChunkSize = 128"

function upsertChunks :: "ext \<Rightarrow> faults \<Rightarrow> nat \<Rightarrow> timelineProjection list \<Rightarrow> timeline_row list \<Rightarrow> (go_error + unit) \<times> timeline_row list" where
  "upsertChunks X flt offset projections rows =
     (if projections = [] then (Inr (), rows)
      else case upsertTimelineProjectionChunk X flt offset (take timelineProjectionChunkSize projections) rows of
             (Inl e, rows') \<Rightarrow> (Inl e, rows')
           | (Inr _, rows') \<Rightarrow> upsertChunks X flt (offset + timelineProjectionChunkSize) (drop timelineProjectionChunkSize projections) rows')"
  by pat_completeness auto
termination
  by (relation "measure (\<lambda>(X, flt, offset, projections, rows). length projections)") (auto simp: timelineProjectionChunkSize_def)

declare upsertChunks.simps [simp del]

definition collectProjections :: "sql_time \<Rightarrow> store_cfg \<Rightarrow> faults \<Rightarrow> instant \<Rightarrow> instant \<Rightarrow> duration \<Rightarrow> int \<Rightarrow> string \<Rightarrow> bool \<Rightarrow> 'z timeline_db_scheme
    \<Rightarrow> go_error + timelineProjection list" where
  "collectProjections S C flt start stop uncertainAfter maxFacts collectorID includeOverlapping db =
     bind_result (collectRawEventProjections S C flt start stop uncertainAfter maxFacts collectorID includeOverlapping (tb_raw db) ([], 0)) (\<lambda>st.
     bind_result (collectHeartbeatProjections C flt start stop uncertainAfter maxFacts collectorID includeOverlapping (tb_heartbeats db) st) (\<lambda>st.
     bind_result (collectMediaProjections S C flt start stop uncertainAfter maxFacts collectorID includeOverlapping (tb_segments db) st) (\<lambda>st.
       Inr (fst st))))"

text \<open>
  Only one synchronisation runs at a time; \<open>busy\<close> says that the wait for the other one timed out.
\<close>

definition syncTimelineProjection :: "ext \<Rightarrow> sql_time \<Rightarrow> store_cfg \<Rightarrow> faults \<Rightarrow> bool \<Rightarrow> instant \<Rightarrow> instant \<Rightarrow> duration \<Rightarrow> int \<Rightarrow> string \<Rightarrow> bool
    \<Rightarrow> 'z timeline_db_scheme \<Rightarrow> (go_error + unit) \<times> 'z timeline_db_scheme" where
  "syncTimelineProjection X S C flt busy start stop uncertainAfter maxFacts collectorID includeOverlapping db =
     (case bind_result (db_call flt CodeCanceled ''wait for timeline projection sync'' 0) (\<lambda>_.
           bind_result (guard_result (\<not> busy) (StoreErr CodeTimelineSyncBusy ''another timeline projection sync is already running'')) (\<lambda>_.
             collectProjections S C flt start stop uncertainAfter maxFacts collectorID includeOverlapping db)) of
        Inl e \<Rightarrow> (Inl e, db)
      | Inr projections \<Rightarrow>
          (let (r, rows) = upsertChunks X flt 0 projections (tb_entries db) in (r, db\<lparr>tb_entries := rows\<rparr>)))"

section \<open>Cursors and pages\<close>

definition encodeTimelineCursor :: "timelineCursor \<Rightarrow> string" where
  "encodeTimelineCursor c = b64_encode (marshal_struct
     [(''v'', int_digits (tc_Version c)), (''range_start_utc'', quote (tc_RangeStartUTC c)), (''range_end_utc'', quote (tc_RangeEndUTC c)),
      (''snapshot_id'', int_digits (tc_SnapshotID c)), (''corrected_utc'', quote (tc_CorrectedUTC c)), (''received_utc'', quote (tc_ReceivedUTC c)),
      (''source_type'', quote (tc_SourceType c)), (''source_id'', int_digits (tc_SourceID c)), (''projection_id'', int_digits (tc_ProjectionID c))])"

definition timelineCursorFields :: "string list" where
  "timelineCursorFields = [''v'', ''range_start_utc'', ''range_end_utc'', ''snapshot_id'', ''corrected_utc'', ''received_utc'', ''source_type'', ''source_id'', ''projection_id'']"

definition setTimelineCursorField :: "string \<Rightarrow> jitem list \<Rightarrow> timelineCursor \<Rightarrow> timelineCursor option" where
  "setTimelineCursorField name v st =
     (if name = ''v'' then map_option (\<lambda>x. st\<lparr>tc_Version := x\<rparr>) (dec_int v (tc_Version st))
      else if name = ''range_start_utc'' then map_option (\<lambda>x. st\<lparr>tc_RangeStartUTC := x\<rparr>) (dec_str v (tc_RangeStartUTC st))
      else if name = ''range_end_utc'' then map_option (\<lambda>x. st\<lparr>tc_RangeEndUTC := x\<rparr>) (dec_str v (tc_RangeEndUTC st))
      else if name = ''snapshot_id'' then map_option (\<lambda>x. st\<lparr>tc_SnapshotID := x\<rparr>) (dec_int v (tc_SnapshotID st))
      else if name = ''corrected_utc'' then map_option (\<lambda>x. st\<lparr>tc_CorrectedUTC := x\<rparr>) (dec_str v (tc_CorrectedUTC st))
      else if name = ''received_utc'' then map_option (\<lambda>x. st\<lparr>tc_ReceivedUTC := x\<rparr>) (dec_str v (tc_ReceivedUTC st))
      else if name = ''source_type'' then map_option (\<lambda>x. st\<lparr>tc_SourceType := x\<rparr>) (dec_str v (tc_SourceType st))
      else if name = ''source_id'' then map_option (\<lambda>x. st\<lparr>tc_SourceID := x\<rparr>) (dec_int v (tc_SourceID st))
      else if name = ''projection_id'' then map_option (\<lambda>x. st\<lparr>tc_ProjectionID := x\<rparr>) (dec_int v (tc_ProjectionID st))
      else None)"

definition zeroTimelineCursor :: timelineCursor where
  "zeroTimelineCursor = \<lparr>tc_Version = 0, tc_RangeStartUTC = [], tc_RangeEndUTC = [], tc_SnapshotID = 0, tc_CorrectedUTC = [],
     tc_ReceivedUTC = [], tc_SourceType = [], tc_SourceID = 0, tc_ProjectionID = 0\<rparr>"

definition timeline_cursor_error :: go_error where
  "timeline_cursor_error = StoreErr CodeTimelineCursor ''timeline cursor''"

definition timelineCursorValid :: "timelineCursor \<Rightarrow> bool" where
  "timelineCursorValid c \<longleftrightarrow>
     \<not> (tc_Version c \<noteq> 1 \<or> tc_SnapshotID c < 0 \<or> tc_SourceID c < 0 \<or> tc_ProjectionID c < 0 \<or> tc_ProjectionID c > tc_SnapshotID c)
     \<and> (case (parse_fixedUTC (tc_RangeStartUTC c), parse_fixedUTC (tc_RangeEndUTC c)) of (Some start, Some stop) \<Rightarrow> start < stop | _ \<Rightarrow> False)
     \<and> (tc_ProjectionID c > 0 \<longrightarrow>
          \<not> (tc_SourceID c \<le> 0 \<or> (tc_SourceType c \<noteq> ''raw_event'' \<and> tc_SourceType c \<noteq> ''heartbeat'' \<and> tc_SourceType c \<noteq> ''media_segment''))
          \<and> parse_fixedUTC (tc_CorrectedUTC c) \<noteq> None \<and> parse_fixedUTC (tc_ReceivedUTC c) \<noteq> None)"

text \<open>Every error of the decoder has the same code.\<close>

definition decodeTimelineCursor :: "string \<Rightarrow> go_error + timelineCursor" where
  "decodeTimelineCursor value =
     bind_result (guard_result (length value \<le> 2048) timeline_cursor_error) (\<lambda>_.
     bind_result (require_some (b64_decode value) timeline_cursor_error) (\<lambda>raw.
     bind_result (require_some (decode_value raw) timeline_cursor_error) (\<lambda>(v, d).
     bind_result (require_some (decode_struct timelineCursorFields setTimelineCursorField v zeroTimelineCursor) timeline_cursor_error) (\<lambda>cursor.
     bind_result (guard_result (ensureJSONEOF d) timeline_cursor_error) (\<lambda>_.
     bind_result (guard_result (timelineCursorValid cursor) timeline_cursor_error) (\<lambda>_. Inr cursor))))))"

text \<open>The condition that a row comes after the cursor, as the query writes it out.\<close>

definition afterCursor :: "timelineCursor \<Rightarrow> timeline_row \<Rightarrow> bool" where
  "afterCursor c w \<longleftrightarrow>
     (let p = tl_data w; cs = tp_CorrectedStartUTC p; ra = tp_ReceivedAtUTC p; sty = tp_SourceType p; sid = tp_SourceID p in
      tc_CorrectedUTC c = [] \<or> cs > tc_CorrectedUTC c
      \<or> (cs = tc_CorrectedUTC c \<and> ra > tc_ReceivedUTC c)
      \<or> (cs = tc_CorrectedUTC c \<and> ra = tc_ReceivedUTC c \<and> sty > tc_SourceType c)
      \<or> (cs = tc_CorrectedUTC c \<and> ra = tc_ReceivedUTC c \<and> sty = tc_SourceType c \<and> sid > tc_SourceID c)
      \<or> (cs = tc_CorrectedUTC c \<and> ra = tc_ReceivedUTC c \<and> sty = tc_SourceType c \<and> sid = tc_SourceID c \<and> tl_id w > tc_ProjectionID c))"

definition entry_order :: "timeline_row \<Rightarrow> string \<times> string \<times> string \<times> int \<times> int" where
  "entry_order w = (tp_CorrectedStartUTC (tl_data w), tp_ReceivedAtUTC (tl_data w), tp_SourceType (tl_data w), tp_SourceID (tl_data w), tl_id w)"

definition selectEntries :: "timelineCursor \<Rightarrow> string \<Rightarrow> string \<Rightarrow> int \<Rightarrow> timeline_row list \<Rightarrow> timeline_row list" where
  "selectEntries c startText endText limit rows =
     take (nat limit) (sort_key entry_order
       (filter (\<lambda>w. tl_id w \<le> tc_SnapshotID c \<and> tp_CorrectedStartUTC (tl_data w) \<ge> startText \<and> tp_CorrectedStartUTC (tl_data w) < endText
          \<and> afterCursor c w) rows))"

fun scanEntries :: "faults \<Rightarrow> nat \<Rightarrow> timeline_row list \<Rightarrow> go_error + TimelineEntry list" where
  "scanEntries flt i [] = Inr []"
| "scanEntries flt i (w # ws) =
     bind_result (db_read flt CodeQueryFailed ''scan timeline entry'' i) (\<lambda>_.
     bind_result (require_some (unmarshal_strings (tp_QualityFlagsJSON (tl_data w))) (wrap CodeQueryFailed ''decode timeline quality flags'')) (\<lambda>flags.
     bind_result (scanEntries flt (Suc i) ws) (\<lambda>entries.
       Inr (\<lparr>te_ID = tl_id w, te_Data = tl_data w, te_QualityFlags = flags\<rparr> # entries))))"

definition max_entry_id :: "timeline_row list \<Rightarrow> int" where
  "max_entry_id rows = foldr (\<lambda>w m. max (tl_id w) m) rows 0"

definition timelinePage :: "faults \<Rightarrow> string \<Rightarrow> string \<Rightarrow> timelineCursor \<Rightarrow> int \<Rightarrow> timeline_row list \<Rightarrow> go_error + TimelinePage" where
  "timelinePage flt startText endText cursor limit rows =
     bind_result (db_call flt CodeQueryFailed ''query timeline'' 0) (\<lambda>_.
     bind_result (scanEntries flt 0 (selectEntries cursor startText endText (limit + 1) rows)) (\<lambda>entries.
     bind_result (db_call flt CodeQueryFailed ''iterate timeline'' 0) (\<lambda>_.
     bind_result (db_read flt CodeQueryFailed ''close timeline'' 0) (\<lambda>_.
       let page = (if int (length entries) > limit then take (nat limit) entries else entries);
           p = te_Data (last page);
           next = (if int (length entries) > limit
             then encodeTimelineCursor \<lparr>tc_Version = 1, tc_RangeStartUTC = startText, tc_RangeEndUTC = endText, tc_SnapshotID = tc_SnapshotID cursor,
                    tc_CorrectedUTC = tp_CorrectedStartUTC p, tc_ReceivedUTC = tp_ReceivedAtUTC p, tc_SourceType = tp_SourceType p,
                    tc_SourceID = tp_SourceID p, tc_ProjectionID = te_ID (last page)\<rparr>
             else [])
       in Inr \<lparr>tg_RangeStartUTC = startText, tg_RangeEndUTC = endText, tg_SnapshotID = tc_SnapshotID cursor, tg_Entries = page, tg_NextCursor = next\<rparr>))))"

definition QueryTimeline :: "ext \<Rightarrow> sql_time \<Rightarrow> store_cfg \<Rightarrow> faults \<Rightarrow> bool \<Rightarrow> instant \<Rightarrow> instant \<Rightarrow> string \<Rightarrow> int \<Rightarrow> duration \<Rightarrow> int
    \<Rightarrow> 'z timeline_db_scheme \<Rightarrow> (go_error + TimelinePage) \<times> 'z timeline_db_scheme" where
  "QueryTimeline X S C flt busy start stop cursorText limit uncertainAfter maxFacts db =
     (if \<not> start < stop \<or> limit < 1 \<or> limit > maxPageSize C \<or> uncertainAfter < 0 \<or> maxFacts < 1
      then (Inl (StoreErr CodeTimelineRangeInvalid ''timeline range or limits are invalid''), db)
      else
        let startText = fixedUTC start; endText = fixedUTC stop;
            cursor = \<lparr>tc_Version = 1, tc_RangeStartUTC = startText, tc_RangeEndUTC = endText, tc_SnapshotID = 0, tc_CorrectedUTC = [],
               tc_ReceivedUTC = [], tc_SourceType = [], tc_SourceID = 0, tc_ProjectionID = 0\<rparr>
        in if cursorText = [] then
             (case syncTimelineProjection X S C flt busy start stop uncertainAfter maxFacts [] False db of
                (Inl e, db') \<Rightarrow> (Inl e, db')
              | (Inr _, db') \<Rightarrow>
                  (bind_result (db_call flt CodeQueryFailed ''create timeline snapshot'' 0) (\<lambda>_.
                     timelinePage flt startText endText (cursor\<lparr>tc_SnapshotID := max_entry_id (tb_entries db')\<rparr>) limit (tb_entries db')), db'))
           else
             (bind_result (decodeTimelineCursor cursorText) (\<lambda>decoded.
                if tc_RangeStartUTC decoded \<noteq> startText \<or> tc_RangeEndUTC decoded \<noteq> endText then Inl timeline_cursor_error
                else timelinePage flt startText endText decoded limit (tb_entries db)), db))"

section \<open>Timeline cursors survive their encoding\<close>

definition plain_char :: "char \<Rightarrow> bool" where
  "plain_char c \<longleftrightarrow> (32 \<le> byte c \<and> byte c < 128 \<and> c \<noteq> CHR 0x22 \<and> c \<noteq> CHR 0x5C) \<and> byte c \<notin> {38, 60, 62}"

lemma plain_text_chars: "plain_text s \<longleftrightarrow> list_all plain_char s"
  unfolding plain_text_def plain_key_def plain_char_def [abs_def] list_all_iff by (simp only: ball_conj_distrib)

lemma plain_digit: "is_digit c \<Longrightarrow> plain_char c"
  by (auto simp: plain_char_def is_digit_def byte_def)

lemma plain_fixed: "text_year t \<Longrightarrow> plain_text (fixedUTC t)"
proof -
  have d: "list_all plain_char (fixed_digits n k)" for n k
    using fixed_digits_all_digits plain_digit by (auto simp: list_all_iff)
  have s: "list_all plain_char ''-T:.Z''" by code_simp
  assume "text_year t"
  with s show ?thesis
    by (auto simp: plain_text_chars fixedUTC_def date_text_def clock_text_def d append_int_def Let_def text_year_def year_of_def)
qed

definition cursor_flat :: "timelineCursor \<Rightarrow> (string \<times> flat) list" where
  "cursor_flat c = [(''v'', FNat (nat (tc_Version c))), (''range_start_utc'', FStr (tc_RangeStartUTC c)), (''range_end_utc'', FStr (tc_RangeEndUTC c)),
      (''snapshot_id'', FNat (nat (tc_SnapshotID c))), (''corrected_utc'', FStr (tc_CorrectedUTC c)), (''received_utc'', FStr (tc_ReceivedUTC c)),
      (''source_type'', FStr (tc_SourceType c)), (''source_id'', FNat (nat (tc_SourceID c))), (''projection_id'', FNat (nat (tc_ProjectionID c)))]"

lemma encode_flat:
  assumes "0 \<le> tc_Version c" "0 \<le> tc_SnapshotID c" "0 \<le> tc_SourceID c" "0 \<le> tc_ProjectionID c"
  shows "encodeTimelineCursor c = b64_encode (marshal_struct (map (\<lambda>(k, v). (k, flat_text v)) (cursor_flat c)))"
  using assms by (simp add: encodeTimelineCursor_def cursor_flat_def int_digits_def)

text \<open>A cursor whose fields are plain decodes to itself, apart from the final validity check.\<close>

definition cursor_plain :: "timelineCursor \<Rightarrow> bool" where
  "cursor_plain c \<longleftrightarrow> tc_Version c = 1 \<and> 0 \<le> tc_SnapshotID c \<and> tc_SnapshotID c \<le> int64_max \<and> 0 \<le> tc_SourceID c \<and> tc_SourceID c \<le> int64_max
     \<and> 0 \<le> tc_ProjectionID c \<and> tc_ProjectionID c \<le> int64_max
     \<and> (\<forall>s \<in> {tc_RangeStartUTC c, tc_RangeEndUTC c, tc_CorrectedUTC c, tc_ReceivedUTC c, tc_SourceType c}. plain_text s \<and> length s \<le> 40)"

lemma cursor_fields_flat: "cursor_plain c \<Longrightarrow> flat_fields (cursor_flat c)"
proof -
  have k: "plain_text ''v''" "plain_text ''range_start_utc''" "plain_text ''range_end_utc''" "plain_text ''snapshot_id''" "plain_text ''corrected_utc''"
    "plain_text ''received_utc''" "plain_text ''source_type''" "plain_text ''source_id''" "plain_text ''projection_id''" by code_simp+
  show "cursor_plain c \<Longrightarrow> flat_fields (cursor_flat c)" by (simp add: cursor_plain_def flat_fields_def cursor_flat_def k)
qed

lemma decode_flat_cursor:
  assumes "cursor_plain c" "map it_tok js = map (flat_tok \<circ> snd) (cursor_flat c)"
  shows "decode_members timelineCursorFields setTimelineCursorField (zip (map fst (cursor_flat c)) (map (\<lambda>j. [j]) js)) zeroTimelineCursor = Some c"
proof -
  from assms(2) obtain j1 j2 j3 j4 j5 j6 j7 j8 j9 where js: "js = [j1, j2, j3, j4, j5, j6, j7, j8, j9]"
    and t: "it_tok j1 = flat_tok (FNat (nat (tc_Version c)))" "it_tok j2 = flat_tok (FStr (tc_RangeStartUTC c))" "it_tok j3 = flat_tok (FStr (tc_RangeEndUTC c))"
      "it_tok j4 = flat_tok (FNat (nat (tc_SnapshotID c)))" "it_tok j5 = flat_tok (FStr (tc_CorrectedUTC c))" "it_tok j6 = flat_tok (FStr (tc_ReceivedUTC c))"
      "it_tok j7 = flat_tok (FStr (tc_SourceType c))" "it_tok j8 = flat_tok (FNat (nat (tc_SourceID c)))" "it_tok j9 = flat_tok (FNat (nat (tc_ProjectionID c)))"
    by (auto simp: cursor_flat_def map_eq_Cons_conv)
  have ints: "dec_int [j1] a = Some (tc_Version c)" "dec_int [j4] a = Some (tc_SnapshotID c)" "dec_int [j8] a = Some (tc_SourceID c)"
    "dec_int [j9] a = Some (tc_ProjectionID c)" for a
    using flat_decode(1) [of j1 "nat (tc_Version c)"] flat_decode(1) [of j4 "nat (tc_SnapshotID c)"] flat_decode(1) [of j8 "nat (tc_SourceID c)"]
      flat_decode(1) [of j9 "nat (tc_ProjectionID c)"] assms(1) t
    by (auto simp: cursor_plain_def int64_max_def)
  have strs: "dec_str [j2] b = Some (tc_RangeStartUTC c)" "dec_str [j3] b = Some (tc_RangeEndUTC c)" "dec_str [j5] b = Some (tc_CorrectedUTC c)"
    "dec_str [j6] b = Some (tc_ReceivedUTC c)" "dec_str [j7] b = Some (tc_SourceType c)" for b
    using t by (auto intro!: flat_decode(2))
  show ?thesis
    by (cases c) (use ints strs in \<open>simp add: js cursor_flat_def resolve_field_def timelineCursorFields_def setTimelineCursorField_def zeroTimelineCursor_def\<close>)
qed

lemma cursor_text_length:
  assumes "cursor_plain c" shows "length (marshal_struct (map (\<lambda>(k, v). (k, flat_text v)) (cursor_flat c))) \<le> 600"
proof -
  have q: "length (quote s) \<le> 42" if "s \<in> {tc_RangeStartUTC c, tc_RangeEndUTC c, tc_CorrectedUTC c, tc_ReceivedUTC c, tc_SourceType c}" for s
    using that assms by (auto simp: cursor_plain_def quote_plain)
  have n: "length (nat_digits (nat i)) \<le> 19" if "i \<in> {tc_Version c, tc_SnapshotID c, tc_SourceID c, tc_ProjectionID c}" for i
    using that assms by (auto simp: cursor_plain_def int64_max_def intro!: nat_digits_le19)
  have k: "quote ''v'' = CHR 0x22 # ''v'' @ [CHR 0x22]" "quote ''range_start_utc'' = CHR 0x22 # ''range_start_utc'' @ [CHR 0x22]"
    "quote ''range_end_utc'' = CHR 0x22 # ''range_end_utc'' @ [CHR 0x22]" "quote ''snapshot_id'' = CHR 0x22 # ''snapshot_id'' @ [CHR 0x22]"
    "quote ''corrected_utc'' = CHR 0x22 # ''corrected_utc'' @ [CHR 0x22]" "quote ''received_utc'' = CHR 0x22 # ''received_utc'' @ [CHR 0x22]"
    "quote ''source_type'' = CHR 0x22 # ''source_type'' @ [CHR 0x22]" "quote ''source_id'' = CHR 0x22 # ''source_id'' @ [CHR 0x22]"
    "quote ''projection_id'' = CHR 0x22 # ''projection_id'' @ [CHR 0x22]" by code_simp+
  show ?thesis
    using q [of "tc_RangeStartUTC c"] q [of "tc_RangeEndUTC c"] q [of "tc_CorrectedUTC c"] q [of "tc_ReceivedUTC c"] q [of "tc_SourceType c"]
      n [of "tc_Version c"] n [of "tc_SnapshotID c"] n [of "tc_SourceID c"] n [of "tc_ProjectionID c"]
    by (simp add: marshal_struct_def cursor_flat_def k)
qed

lemma decode_encoded_cursor:
  assumes "cursor_plain c"
  shows "decodeTimelineCursor (encodeTimelineCursor c) = (if timelineCursorValid c then Inr c else Inl timeline_cursor_error)"
proof -
  let ?raw = "marshal_struct (map (\<lambda>(k, v). (k, flat_text v)) (cursor_flat c))"
  have e: "encodeTimelineCursor c = b64_encode ?raw" using assms by (intro encode_flat) (auto simp: cursor_plain_def)
  have len: "length (b64_encode ?raw) \<le> 2048" using b64_length [of ?raw] cursor_text_length [OF assms] by simp
  from flat_document [OF cursor_fields_flat [OF assms] refl] obtain v d js where
    v: "decode_value ?raw = Some (v, d)" "ensureJSONEOF d" "map it_tok v \<noteq> [TNull]"
       "value_members v = Some (zip (map fst (cursor_flat c)) (map (\<lambda>j. [j]) js))" "map it_tok js = map (flat_tok \<circ> snd) (cursor_flat c)" by blast
  have "decode_struct timelineCursorFields setTimelineCursorField v zeroTimelineCursor = Some c"
    using v(3,4) decode_flat_cursor [OF assms v(5)] by (simp add: decode_struct_def)
  with len v(1,2) show ?thesis
    by (simp add: decodeTimelineCursor_def e b64_roundtrip guard_result_def bind_result_def)
qed

section \<open>Following timeline cursors\<close>

definition entry_of :: "timeline_row \<Rightarrow> TimelineEntry" where
  "entry_of w = \<lparr>te_ID = tl_id w, te_Data = tl_data w, te_QualityFlags = the (unmarshal_strings (tp_QualityFlagsJSON (tl_data w)))\<rparr>"

definition range_rows :: "int \<Rightarrow> string \<Rightarrow> string \<Rightarrow> timeline_row list \<Rightarrow> timeline_row list" where
  "range_rows snap startText endText rows = sort_key entry_order
     (filter (\<lambda>w. tl_id w \<le> snap \<and> tp_CorrectedStartUTC (tl_data w) \<ge> startText \<and> tp_CorrectedStartUTC (tl_data w) < endText) rows)"

definition cursor_at :: "int \<Rightarrow> string \<Rightarrow> string \<Rightarrow> timeline_row \<Rightarrow> timelineCursor" where
  "cursor_at snap startText endText w = \<lparr>tc_Version = 1, tc_RangeStartUTC = startText, tc_RangeEndUTC = endText, tc_SnapshotID = snap,
     tc_CorrectedUTC = tp_CorrectedStartUTC (tl_data w), tc_ReceivedUTC = tp_ReceivedAtUTC (tl_data w), tc_SourceType = tp_SourceType (tl_data w),
     tc_SourceID = tp_SourceID (tl_data w), tc_ProjectionID = tl_id w\<rparr>"

text \<open>A clock that ticks in units of ten nanoseconds or more, as on Windows, never yields nine digits.\<close>

lemma frac_text_short: "ns mod 10 = 0 \<Longrightarrow> \<exists>ds. frac_text ns = ds \<and> length ds \<le> 9 \<and> list_all plain_char ds"
proof -
  assume "ns mod 10 = 0"
  have f: "fixed_digits 9 ns = fixed_digits 8 (ns div 10) @ [digit (ns mod 10)]" using fixed_digits.simps(2) [of 8 ns] by simp
  obtain k where k: "fixed_digits 9 ns = strip_zeros (fixed_digits 9 ns) @ replicate k CHR ''0''" using strip_zeros_append by blast
  have "digit 0 = CHR ''0''" by code_simp
  then have "last (fixed_digits 9 ns) = CHR ''0''" using \<open>ns mod 10 = 0\<close> by (simp add: f)
  then have "strip_zeros (fixed_digits 9 ns) = strip_zeros (fixed_digits 8 (ns div 10))" by (simp add: f strip_zeros_def)
  then have "length (strip_zeros (fixed_digits 9 ns)) \<le> 8"
    using strip_zeros_append [of "fixed_digits 8 (ns div 10)"] by (metis le_add1 length_append length_fixed_digits)
  moreover have "list_all plain_char (strip_zeros (fixed_digits 9 ns))"
    using k fixed_digits_all_digits plain_digit by (metis list_all_append list_all_iff)
  moreover have "plain_char CHR ''.''" by code_simp
  ultimately show ?thesis by (simp add: frac_text_def)
qed

lemma coarse_time_not_fixed:
  assumes "nsec_of t mod 10 = 0" "text_year t"
  shows "parse_fixedUTC (rfc3339nano t) = None" "plain_text (rfc3339nano t)" "length (rfc3339nano t) \<le> 40"
proof -
  obtain ds where ds: "frac_text (nsec_of t) = ds" "length ds \<le> 9" "list_all plain_char ds" using frac_text_short [OF assms(1)] by blast
  show "parse_fixedUTC (rfc3339nano t) = None"
    using ds(2) by (auto simp: parse_fixedUTC_def rfc3339nano_def ds(1) parse_datetime_text [OF assms(2)] parse_frac0_def split: option.splits)
  show "plain_text (rfc3339nano t)" "length (rfc3339nano t) \<le> 40"
    using plain_fixed [OF assms(2)] length_fixedUTC [OF assms(2)] ds
    by (simp_all add: plain_text_chars fixedUTC_def rfc3339nano_def)
qed

lemma fine_time_fixed:
  assumes "nsec_of t mod 10 \<noteq> 0"
  shows "rfc3339nano t = fixedUTC t"
proof -
  let ?ns = "nsec_of t"
  have f: "fixed_digits 9 ?ns = fixed_digits 8 (?ns div 10) @ [digit (?ns mod 10)]" using fixed_digits.simps(2) [of 8 ?ns] by simp
  have "(of_char (digit (?ns mod 10)) :: nat) = 48 + ?ns mod 10" by (rule of_char_digit) simp
  then have "digit (?ns mod 10) \<noteq> CHR ''0''" using assms by auto
  then have "strip_zeros (fixed_digits 9 ?ns) = fixed_digits 9 ?ns" by (simp add: f strip_zeros_def)
  moreover have "?ns \<noteq> 0" using assms by auto
  ultimately show ?thesis by (simp add: rfc3339nano_def fixedUTC_def frac_text_def)
qed

text \<open>
  What an entry looks like: the corrected start in the fixed UTC form, and the reception time in that form too, except that a
  heartbeat keeps the text it was stored with, whose fraction has no trailing zeros (lemma \<open>projection_received\<close>).
\<close>

definition received_text :: "string \<Rightarrow> instant \<Rightarrow> string" where
  "received_text source t = (if source = ''heartbeat'' then rfc3339nano t else fixedUTC t)"

definition entry_ok :: "timeline_row \<Rightarrow> bool" where
  "entry_ok w \<longleftrightarrow> tp_SourceType (tl_data w) \<in> {''raw_event'', ''heartbeat'', ''media_segment''} \<and> 1 \<le> tp_SourceID (tl_data w) \<and> tp_SourceID (tl_data w) \<le> int64_max
     \<and> unmarshal_strings (tp_QualityFlagsJSON (tl_data w)) \<noteq> None
     \<and> (\<exists>t. text_year t \<and> tp_CorrectedStartUTC (tl_data w) = fixedUTC t)
     \<and> (\<exists>t. text_year t \<and> tp_ReceivedAtUTC (tl_data w) = received_text (tp_SourceType (tl_data w)) t)"

text \<open>The entries whose cursor the server rejects: heartbeats received at a multiple of ten nanoseconds.\<close>

definition cursor_rejected :: "timeline_row \<Rightarrow> bool" where
  "cursor_rejected w \<longleftrightarrow> tp_SourceType (tl_data w) = ''heartbeat''
     \<and> (\<exists>t. text_year t \<and> tp_ReceivedAtUTC (tl_data w) = rfc3339nano t \<and> nsec_of t mod 10 = 0)"

lemma entry_received:
  assumes "entry_ok w"
  shows "parse_fixedUTC (tp_ReceivedAtUTC (tl_data w)) \<noteq> None \<longleftrightarrow> \<not> cursor_rejected w"
    and "plain_text (tp_ReceivedAtUTC (tl_data w))" "length (tp_ReceivedAtUTC (tl_data w)) \<le> 40"
proof -
  obtain t where t: "text_year t" "tp_ReceivedAtUTC (tl_data w) = received_text (tp_SourceType (tl_data w)) t"
    using assms by (auto simp: entry_ok_def)
  have fixed: "parse_fixedUTC (fixedUTC t) = Some t" "plain_text (fixedUTC t)" "length (fixedUTC t) \<le> 40"
    using t(1) by (simp_all add: parse_fixedUTC_roundtrip plain_fixed length_fixedUTC)
  show "parse_fixedUTC (tp_ReceivedAtUTC (tl_data w)) \<noteq> None \<longleftrightarrow> \<not> cursor_rejected w"
  proof (cases "cursor_rejected w")
    case True
    then show ?thesis using coarse_time_not_fixed(1) by (auto simp: cursor_rejected_def)
  next
    case False
    have "tp_ReceivedAtUTC (tl_data w) = fixedUTC t"
    proof (cases "tp_SourceType (tl_data w) = ''heartbeat''")
      case True
      then have r: "tp_ReceivedAtUTC (tl_data w) = rfc3339nano t" by (simp add: t(2) received_text_def)
      have "cursor_rejected w" if "nsec_of t mod 10 = 0"
        unfolding cursor_rejected_def using True t(1) r that by (intro conjI exI [of _ t])
      then have "nsec_of t mod 10 \<noteq> 0" using False by (rule contrapos_nn [rotated])
      then show ?thesis unfolding r by (rule fine_time_fixed)
    qed (simp add: t(2) received_text_def)
    with False fixed(1) show ?thesis by simp
  qed
  have "plain_text (rfc3339nano t) \<and> length (rfc3339nano t) \<le> 40"
    using coarse_time_not_fixed(2,3) [OF _ t(1)] fine_time_fixed [of t] fixed by (cases "nsec_of t mod 10 = 0") auto
  then show "plain_text (tp_ReceivedAtUTC (tl_data w))" "length (tp_ReceivedAtUTC (tl_data w)) \<le> 40"
    using fixed by (auto simp: t(2) received_text_def)
qed

text \<open>The cursors the code builds: the range of the request, the snapshot and an entry of the page.\<close>

definition cursor_for :: "int \<Rightarrow> instant \<Rightarrow> instant \<Rightarrow> timeline_row \<Rightarrow> bool" where
  "cursor_for snap start stop w \<longleftrightarrow> entry_ok w \<and> 1 \<le> tl_id w \<and> tl_id w \<le> snap \<and> snap \<le> int64_max
     \<and> start < stop \<and> text_year start \<and> text_year stop"

lemma decode_cursor_at:
  assumes "cursor_for snap start stop w" and "c = cursor_at snap (fixedUTC start) (fixedUTC stop) w"
  shows "decodeTimelineCursor (encodeTimelineCursor c) = (if cursor_rejected w then Inl timeline_cursor_error else Inr c)"
proof -
  have w: "entry_ok w" "1 \<le> tl_id w" "tl_id w \<le> snap" "snap \<le> int64_max" "start < stop" "text_year start" "text_year stop"
    using assms(1) by (auto simp: cursor_for_def)
  obtain t where t: "text_year t" "tp_CorrectedStartUTC (tl_data w) = fixedUTC t" using w(1) by (auto simp: entry_ok_def)
  note fixed = w(6,7) t(1)
  have s: "plain_text ''raw_event''" "plain_text ''heartbeat''" "plain_text ''media_segment''" by code_simp+
  have "cursor_plain c"
    using w(1-4) entry_received(2,3) [OF w(1)] fixed [THEN plain_fixed] fixed [THEN length_fixedUTC] s
    by (auto simp: assms(2) cursor_at_def cursor_plain_def t(2) entry_ok_def)
  moreover have "timelineCursorValid c \<longleftrightarrow> \<not> cursor_rejected w"
    using w(1-5) fixed [THEN parse_fixedUTC_roundtrip] entry_received(1) [OF w(1)]
    by (auto simp: assms(2) cursor_at_def timelineCursorValid_def t(2) entry_ok_def)
  ultimately show ?thesis by (simp add: decode_encoded_cursor)
qed

text \<open>
  C16: What becomes of a cursor the code builds, for a page that ends with some entry. For an entry of a raw event or a media
  segment, and for a heartbeat received at a time that needs all nine digits, decoding returns exactly the
  cursor that was encoded; for every other heartbeat it fails with \<^verbatim>\<open>TIMELINE_CURSOR_INVALID\<close>, because the entry's
  reception time is not in the fixed form that the decoder demands.
\<close>

theorem timeline_cursor_roundtrip:
  assumes "cursor_for snap start stop w" and "c = cursor_at snap (fixedUTC start) (fixedUTC stop) w"
  shows "decodeTimelineCursor (encodeTimelineCursor c) = (if cursor_rejected w then Inl timeline_cursor_error else Inr c)
    \<and> (tp_SourceType (tl_data w) \<noteq> ''heartbeat'' \<longrightarrow> \<not> cursor_rejected w)
    \<and> (\<forall>t. tp_SourceType (tl_data w) = ''heartbeat'' \<longrightarrow> tp_ReceivedAtUTC (tl_data w) = rfc3339nano t \<longrightarrow> text_year t \<longrightarrow>
          (cursor_rejected w \<longleftrightarrow> nsec_of t mod 10 = 0))"
proof (intro conjI allI impI)
  show "decodeTimelineCursor (encodeTimelineCursor c) = (if cursor_rejected w then Inl timeline_cursor_error else Inr c)"
    by (rule decode_cursor_at [OF assms])
  show "\<not> cursor_rejected w" if "tp_SourceType (tl_data w) \<noteq> ''heartbeat''" using that by (simp add: cursor_rejected_def)
  show "cursor_rejected w \<longleftrightarrow> nsec_of t mod 10 = 0"
    if "tp_SourceType (tl_data w) = ''heartbeat''" "tp_ReceivedAtUTC (tl_data w) = rfc3339nano t" "text_year t" for t
    using that parse_rfc3339nano_roundtrip unfolding cursor_rejected_def by (metis option.inject)
qed

lemma after_cursor_at:
  "tp_CorrectedStartUTC (tl_data v) \<noteq> [] \<Longrightarrow> afterCursor (cursor_at snap st en v) w \<longleftrightarrow> entry_order v < entry_order w"
  by (auto simp: afterCursor_def cursor_at_def entry_order_def less_prod_def' Let_def)

lemma scan_entries_no_faults:
  "\<forall>w \<in> set ws. unmarshal_strings (tp_QualityFlagsJSON (tl_data w)) \<noteq> None \<Longrightarrow> scanEntries no_faults i ws = Inr (map entry_of ws)"
  by (induction ws arbitrary: i) (auto simp: entry_of_def require_some_def no_faults_def db_read_def bind_result_def)

lemma timeline_page_no_faults:
  assumes "1 \<le> limit" "rem = filter (afterCursor c) (range_rows (tc_SnapshotID c) st en rows)"
    and "\<forall>w \<in> set rem. unmarshal_strings (tp_QualityFlagsJSON (tl_data w)) \<noteq> None"
  shows "timelinePage no_faults st en c limit rows = Inr
    (if int (length rem) \<le> limit
     then \<lparr>tg_RangeStartUTC = st, tg_RangeEndUTC = en, tg_SnapshotID = tc_SnapshotID c, tg_Entries = map entry_of rem, tg_NextCursor = []\<rparr>
     else \<lparr>tg_RangeStartUTC = st, tg_RangeEndUTC = en, tg_SnapshotID = tc_SnapshotID c, tg_Entries = map entry_of (take (nat limit) rem),
           tg_NextCursor = encodeTimelineCursor (cursor_at (tc_SnapshotID c) st en (last (take (nat limit) rem)))\<rparr>)"
proof -
  have sel: "selectEntries c st en (limit + 1) rows = take (nat (limit + 1)) rem"
    unfolding selectEntries_def assms(2) range_rows_def filter_sort filter_filter
    by (rule arg_cong [of _ _ "\<lambda>ws. take (nat (limit + 1)) (sort_key entry_order ws)"], rule filter_cong) auto
  have scan: "scanEntries no_faults 0 (take (nat (limit + 1)) rem) = Inr (map entry_of (take (nat (limit + 1)) rem))"
    using assms(3) by (intro scan_entries_no_faults) (auto dest: in_set_takeD)
  have tk2: "take (nat limit) (take (nat (limit + 1)) rem) = take (nat limit) rem" by (simp add: min_def)
  have len: "int (length (take (nat (limit + 1)) rem)) > limit \<longleftrightarrow> \<not> int (length rem) \<le> limit"
    using assms(1) by (simp add: min_def) linarith
  have last: "take (nat limit) rem \<noteq> []" if "\<not> int (length rem) \<le> limit" using that assms(1) by auto
  show ?thesis
  proof (cases "int (length rem) \<le> limit")
    case True
    with scan_entries_no_faults [OF assms(3)] show ?thesis by (simp add: timelinePage_def sel Let_def)
  next
    case False
    have "last (take (nat limit) (map entry_of (take (nat (limit + 1)) rem))) = entry_of (last (take (nat limit) rem))"
      using last [OF False] by (simp add: take_map tk2 last_map)
    with False len tk2 show ?thesis
      by (simp add: timelinePage_def sel scan Let_def take_map cursor_at_def entry_of_def [of "last _"])
  qed
qed

text \<open>A client that starts without a cursor and asks for one page after the other, at most \<open>n\<close> in all.\<close>

fun drainTimeline :: "ext \<Rightarrow> sql_time \<Rightarrow> store_cfg \<Rightarrow> instant \<Rightarrow> instant \<Rightarrow> int \<Rightarrow> duration \<Rightarrow> int \<Rightarrow> nat \<Rightarrow> string \<Rightarrow> timeline_db \<Rightarrow> TimelineEntry list option" where
  "drainTimeline X S C start stop limit ua mf 0 cursor db = None"
| "drainTimeline X S C start stop limit ua mf (Suc n) cursor db =
     (case QueryTimeline X S C no_faults False start stop cursor limit ua mf db of
        (Inl e, db') \<Rightarrow> None
      | (Inr page, db') \<Rightarrow>
          if tg_NextCursor page = [] then Some (tg_Entries page)
          else map_option ((@) (tg_Entries page)) (drainTimeline X S C start stop limit ua mf n (tg_NextCursor page) db'))"

lemma encode_timeline_not_Nil [simp]: "encodeTimelineCursor c \<noteq> []"
  by (simp add: encodeTimelineCursor_def marshal_struct_def)

lemma sorted_range_rows:
  "distinct (map tl_id rows) \<Longrightarrow> sorted_wrt (<) (map entry_order (range_rows snap st en rows))"
proof -
  assume "distinct (map tl_id rows)"
  then have "distinct (map tl_id (range_rows snap st en rows))" by (simp add: range_rows_def distinct_map inj_on_def)
  then have "distinct (map entry_order (range_rows snap st en rows))" by (auto simp: distinct_map inj_on_def entry_order_def)
  then show ?thesis by (simp add: strict_sorted_iff range_rows_def)
qed

text \<open>
  Reading \<open>L\<close> in pages of \<open>limit\<close> gets to the end when no page but the last ends with an entry whose cursor is rejected.
\<close>

definition pages_readable :: "nat \<Rightarrow> timeline_row list \<Rightarrow> bool" where
  "pages_readable limit L \<longleftrightarrow> (\<forall>k. 0 < k \<longrightarrow> k * limit < length L \<longrightarrow> \<not> cursor_rejected (L ! (k * limit - 1)))"

lemma pages_readable_short: "length L \<le> limit \<Longrightarrow> pages_readable limit L"
  unfolding pages_readable_def by (metis le_trans linorder_not_le mult_le_mono1 nat_mult_1 Suc_leI One_nat_def)

lemma pages_readable_drop:
  assumes "0 < limit" "limit < length L"
  shows "pages_readable limit L \<longleftrightarrow> \<not> cursor_rejected (last (take limit L)) \<and> pages_readable limit (drop limit L)"
proof -
  have "take limit L \<noteq> []" using assms by auto
  then have l: "last (take limit L) = L ! (limit - 1)" using assms by (simp add: last_conv_nth min_def)
  have shift: "drop limit L ! (k * limit - 1) = L ! (Suc k * limit - 1)" "k * limit < length (drop limit L) \<longleftrightarrow> Suc k * limit < length L"
    if "0 < k" for k
  proof -
    have "0 < k * limit" using that assms(1) by simp
    then have "limit + (k * limit - 1) = Suc k * limit - 1" by simp
    then show "drop limit L ! (k * limit - 1) = L ! (Suc k * limit - 1)" using assms(2) by simp
    show "k * limit < length (drop limit L) \<longleftrightarrow> Suc k * limit < length L" by auto
  qed
  show ?thesis
  proof
    assume r: "pages_readable limit L"
    then have "\<not> cursor_rejected (L ! (1 * limit - 1))" using assms unfolding pages_readable_def by (metis nat_mult_1 zero_less_one)
    moreover have "pages_readable limit (drop limit L)"
      unfolding pages_readable_def using r shift unfolding pages_readable_def by (metis zero_less_Suc)
    ultimately show "\<not> cursor_rejected (last (take limit L)) \<and> pages_readable limit (drop limit L)" by (simp add: l)
  next
    assume r: "\<not> cursor_rejected (last (take limit L)) \<and> pages_readable limit (drop limit L)"
    show "pages_readable limit L"
      unfolding pages_readable_def
    proof (intro allI impI)
      fix k assume k: "0 < k" "k * limit < length L"
      show "\<not> cursor_rejected (L ! (k * limit - 1))"
      proof (cases "k = 1")
        case True
        then show ?thesis using r l by simp
      next
        case False
        with k(1) obtain j where "k = Suc j" "0 < j" by (cases k) auto
        with k(2) have "\<not> cursor_rejected (drop limit L ! (j * limit - 1))"
          using r shift(2) [of j] unfolding pages_readable_def by blast
        then show ?thesis unfolding shift(1) [OF \<open>0 < j\<close>] \<open>k = Suc j\<close> .
      qed
    qed
  qed
qed

lemma drain_timeline_rest:
  assumes lim: "start < stop" "1 \<le> limit" "limit \<le> maxPageSize C" "0 \<le> ua" "1 \<le> mf" "text_year start" "text_year stop" "snap \<le> int64_max"
    and L: "L = range_rows snap (fixedUTC start) (fixedUTC stop) (tb_entries db)"
    and dist: "distinct (map tl_id (tb_entries db))" and ok: "\<forall>w \<in> set L. entry_ok w \<and> 1 \<le> tl_id w"
  shows "v \<in> set L \<Longrightarrow> int (length (filter (\<lambda>w. entry_order v < entry_order w) L)) \<le> limit * int n \<Longrightarrow> n > 0 \<Longrightarrow>
    drainTimeline X S C start stop limit ua mf n (encodeTimelineCursor (cursor_at snap (fixedUTC start) (fixedUTC stop) v)) db
      = (if \<not> cursor_rejected v \<and> pages_readable (nat limit) (filter (\<lambda>w. entry_order v < entry_order w) L)
         then Some (map entry_of (filter (\<lambda>w. entry_order v < entry_order w) L)) else None)"
proof (induction n arbitrary: v)
  case (Suc n)
  let ?c = "cursor_at snap (fixedUTC start) (fixedUTC stop) v" and ?rem = "filter (\<lambda>w. entry_order v < entry_order w) L"
  have v: "entry_ok v" "1 \<le> tl_id v" "tl_id v \<le> snap" using Suc.prems(1) ok by (auto simp: L range_rows_def)
  then have dec: "decodeTimelineCursor (encodeTimelineCursor ?c) = (if cursor_rejected v then Inl timeline_cursor_error else Inr ?c)"
    using lim by (intro decode_cursor_at [OF _ refl]) (simp add: cursor_for_def)
  have ne: "tp_CorrectedStartUTC (tl_data v) \<noteq> []" using v(1) length_fixedUTC by (fastforce simp: entry_ok_def)
  have rem: "?rem = filter (afterCursor ?c) (range_rows (tc_SnapshotID ?c) (fixedUTC start) (fixedUTC stop) (tb_entries db))"
    unfolding L by (rule filter_cong) (simp_all add: after_cursor_at [OF ne], simp add: cursor_at_def)
  have page: "QueryTimeline X S C no_faults False start stop (encodeTimelineCursor ?c) limit ua mf db
    = (if cursor_rejected v then Inl timeline_cursor_error else timelinePage no_faults (fixedUTC start) (fixedUTC stop) ?c limit (tb_entries db), db)"
    using lim dec by (simp add: QueryTimeline_def Let_def bind_result_def) (simp add: cursor_at_def)
  note tp = timeline_page_no_faults [OF lim(2) rem]
  have snap: "tc_SnapshotID ?c = snap" by (simp add: cursor_at_def)
  show ?case
  proof (cases "cursor_rejected v")
    case True
    with page show ?thesis by simp
  next
    case good: False
    show ?thesis
    proof (cases "int (length ?rem) \<le> limit")
      case True
      then have "pages_readable (nat limit) ?rem" by (intro pages_readable_short) simp
      with True good page tp ok show ?thesis by (simp add: entry_ok_def)
    next
      case False
      let ?l = "last (take (nat limit) ?rem)"
      have srt: "sorted_wrt (<) (map entry_order ?rem)"
        using sorted_range_rows [OF dist] by (simp add: L sorted_wrt_map sorted_wrt_filter)
      have dr: "filter (\<lambda>w. entry_order ?l < entry_order w) ?rem = drop (nat limit) ?rem"
        using False lim(2) by (intro filter_after_prefix [OF srt]) auto
      have "take (nat limit) ?rem \<noteq> []" using False lim(2) by auto
      then have lin: "?l \<in> set ?rem" by (metis last_in_set in_set_takeD)
      then have lt: "?l \<in> set L" "entry_order v < entry_order ?l" by auto
      have "filter (\<lambda>w. entry_order ?l < entry_order w) L = filter (\<lambda>w. entry_order ?l < entry_order w) ?rem"
        unfolding filter_filter using lt(2) by (intro filter_cong) auto
      then have rest: "filter (\<lambda>w. entry_order ?l < entry_order w) L = drop (nat limit) ?rem" unfolding dr .
      have "0 < n" using Suc.prems(2) False by (cases n) auto
      moreover have "int (length (filter (\<lambda>w. entry_order ?l < entry_order w) L)) \<le> limit * int n"
        unfolding rest using Suc.prems(2) False lim(2) by (simp add: algebra_simps)
      ultimately have "drainTimeline X S C start stop limit ua mf n (encodeTimelineCursor (cursor_at snap (fixedUTC start) (fixedUTC stop) ?l)) db
          = (if \<not> cursor_rejected ?l \<and> pages_readable (nat limit) (drop (nat limit) ?rem) then Some (map entry_of (drop (nat limit) ?rem)) else None)"
        using Suc.IH [OF lt(1)] rest by simp
      moreover have "pages_readable (nat limit) ?rem \<longleftrightarrow> \<not> cursor_rejected ?l \<and> pages_readable (nat limit) (drop (nat limit) ?rem)"
        using False lim(2) by (intro pages_readable_drop) auto
      ultimately show ?thesis using page tp ok False good snap by (simp add: entry_ok_def flip: map_append)
    qed
  qed
qed simp

text \<open>
  C15: What a client gets that follows \<^verbatim>\<open>next_cursor\<close> after a successful synchronisation for a range. It reads exactly the
  entries whose corrected start lies in the range, each once, ordered by corrected time, reception, source and id, if and only
  if no page but the last ends with an entry whose cursor is rejected -- a heartbeat received at a multiple of ten nanoseconds;
  with such a page it gets an error instead of the rest, whatever the number of requests. Entries of raw events and media
  segments never stop it, and neither does a heartbeat in the middle of a page.
\<close>

theorem timeline_pagination_complete:
  assumes "start < stop" "text_year start" "text_year stop" "1 \<le> limit" "limit \<le> maxPageSize C" "0 \<le> ua" "1 \<le> mf"
    and "syncTimelineProjection X S C no_faults False start stop ua mf [] False db = (Inr (), db')"
    and "distinct (map tl_id (tb_entries db'))" "\<forall>w \<in> set (tb_entries db'). 1 \<le> tl_id w \<and> tl_id w \<le> int64_max"
    and "entries = sort_key entry_order
      (filter (\<lambda>w. fixedUTC start \<le> tp_CorrectedStartUTC (tl_data w) \<and> tp_CorrectedStartUTC (tl_data w) < fixedUTC stop) (tb_entries db'))"
    and "\<forall>w \<in> set entries. entry_ok w"
    and "int (length entries) \<le> limit * int n" "0 < n"
  shows "drainTimeline X S C start stop limit ua mf n [] db
    = (if \<forall>k. 0 < k \<longrightarrow> k * nat limit < length entries \<longrightarrow> \<not> cursor_rejected (entries ! (k * nat limit - 1))
       then Some (map entry_of entries) else None)"
proof -
  let ?snap = "max_entry_id (tb_entries db')"
  let ?L = "range_rows ?snap (fixedUTC start) (fixedUTC stop) (tb_entries db')"
  define c0 where "c0 = \<lparr>tc_Version = 1, tc_RangeStartUTC = fixedUTC start, tc_RangeEndUTC = fixedUTC stop, tc_SnapshotID = ?snap, tc_CorrectedUTC = [],
     tc_ReceivedUTC = [], tc_SourceType = [], tc_SourceID = 0, tc_ProjectionID = 0\<rparr>"
  have "\<forall>w \<in> set rows. tl_id w \<le> max_entry_id rows" for rows unfolding max_entry_id_def by (induction rows) auto
  then have L: "?L = entries"
    unfolding range_rows_def assms(11) by (intro arg_cong [of _ _ "sort_key entry_order"] filter_cong) auto
  have "max_entry_id rows = 0 \<or> (\<exists>w \<in> set rows. max_entry_id rows = tl_id w)" for rows
    unfolding max_entry_id_def by (induction rows) (auto simp: max_def)
  then have snap: "?snap \<le> int64_max" using assms(10) by (metis int64_max_def zero_le_numeral zle_diff1_eq zero_less_power zero_less_numeral)
  have ok: "\<forall>w \<in> set ?L. entry_ok w \<and> 1 \<le> tl_id w" using assms(10,12) unfolding L by (auto simp: assms(11))
  have rem: "?L = filter (afterCursor c0) (range_rows (tc_SnapshotID c0) (fixedUTC start) (fixedUTC stop) (tb_entries db'))"
    by (simp add: c0_def filter_id_conv afterCursor_def Let_def)
  have page: "QueryTimeline X S C no_faults False start stop [] limit ua mf db
    = (timelinePage no_faults (fixedUTC start) (fixedUTC stop) c0 limit (tb_entries db'), db')"
    using assms(1,4,5,6,7,8) by (simp add: QueryTimeline_def Let_def c0_def)
  note tp = timeline_page_no_faults [OF assms(4) rem]
  have c0: "tc_SnapshotID c0 = ?snap" by (simp add: c0_def)
  obtain m where n: "n = Suc m" using assms(14) by (cases n) auto
  have "drainTimeline X S C start stop limit ua mf n [] db = (if pages_readable (nat limit) entries then Some (map entry_of entries) else None)"
  proof (cases "int (length ?L) \<le> limit")
    case True
    then have "pages_readable (nat limit) entries" unfolding L by (intro pages_readable_short) simp
    with True page tp ok n show ?thesis by (simp add: L entry_ok_def)
  next
    case False
    let ?l = "last (take (nat limit) ?L)"
    have dr: "filter (\<lambda>w. entry_order ?l < entry_order w) ?L = drop (nat limit) ?L"
      using False assms(4) by (intro filter_after_prefix [OF sorted_range_rows [OF assms(9)]]) auto
    have "take (nat limit) ?L \<noteq> []" using False assms(4) by auto
    then have lin: "?l \<in> set ?L" by (metis last_in_set in_set_takeD)
    have "0 < m" "int (length (drop (nat limit) ?L)) \<le> limit * int m"
      using assms(4,13) False n by (auto simp: L algebra_simps intro!: Suc_leI gr0I)
    with drain_timeline_rest [OF assms(1,4,5,6,7,2,3) snap refl assms(9) ok lin, of m X S] dr
    have "drainTimeline X S C start stop limit ua mf m (encodeTimelineCursor (cursor_at ?snap (fixedUTC start) (fixedUTC stop) ?l)) db'
        = (if \<not> cursor_rejected ?l \<and> pages_readable (nat limit) (drop (nat limit) ?L) then Some (map entry_of (drop (nat limit) ?L)) else None)" by simp
    moreover have "pages_readable (nat limit) ?L \<longleftrightarrow> \<not> cursor_rejected ?l \<and> pages_readable (nat limit) (drop (nat limit) ?L)"
      using False assms(4) by (intro pages_readable_drop) auto
    ultimately show ?thesis using page tp ok False c0 n by (simp add: entry_ok_def L flip: map_append)
  qed
  then show ?thesis unfolding pages_readable_def .
qed

section \<open>A cursor the server rejects\<close>

text \<open>
  C17: A page that ends with a heartbeat hands out a cursor that the server itself rejects.  A heartbeat entry
  carries its reception time as it was stored, without trailing zeros, but the decoder demands nine
  digits; so whenever the reception time is a multiple of ten nanoseconds, the request for the next page fails with
  \<^verbatim>\<open>TIMELINE_CURSOR_INVALID\<close>, and the rest of the range cannot be read.
\<close>

theorem timeline_heartbeat_cursor_rejected:
  assumes "QueryTimeline X S C no_faults busy start stop cursor limit ua mf db = (Inr page, db')" "tg_NextCursor page \<noteq> []"
    and "e = last (tg_Entries page)" "tp_SourceType (te_Data e) = ''heartbeat''"
    and "tp_ReceivedAtUTC (te_Data e) = rfc3339nano received" "text_year received" "nsec_of received mod 10 = 0"
    and "tp_CorrectedStartUTC (te_Data e) = fixedUTC corrected" "text_year corrected" "text_year start" "text_year stop"
    and "1 \<le> tp_SourceID (te_Data e)" "tp_SourceID (te_Data e) \<le> int64_max" "1 \<le> te_ID e" "te_ID e \<le> int64_max"
    and "0 \<le> tg_SnapshotID page" "tg_SnapshotID page \<le> int64_max"
  shows "fst (QueryTimeline X S C no_faults busy start stop (tg_NextCursor page) limit ua mf db') = Inl timeline_cursor_error"
proof -
  have ranges: "\<not> (\<not> start < stop \<or> limit < 1 \<or> limit > maxPageSize C \<or> ua < 0 \<or> mf < 1)"
    using assms(1) by (auto simp: QueryTimeline_def split: if_splits)
  then obtain c rows where tp: "timelinePage no_faults (fixedUTC start) (fixedUTC stop) c limit rows = Inr page"
    using assms(1) by (auto simp: QueryTimeline_def Let_def bind_result_def split: if_splits prod.splits sum.splits)
  let ?c = "\<lparr>tc_Version = 1, tc_RangeStartUTC = fixedUTC start, tc_RangeEndUTC = fixedUTC stop, tc_SnapshotID = tg_SnapshotID page,
     tc_CorrectedUTC = tp_CorrectedStartUTC (te_Data e), tc_ReceivedUTC = tp_ReceivedAtUTC (te_Data e), tc_SourceType = tp_SourceType (te_Data e),
     tc_SourceID = tp_SourceID (te_Data e), tc_ProjectionID = te_ID e\<rparr>"
  have enc: "tg_NextCursor page = encodeTimelineCursor ?c"
    using tp assms(2,3) by (auto simp: timelinePage_def Let_def bind_result_def split: sum.splits if_splits)
  have "plain_text ''heartbeat''" by code_simp
  then have plain: "cursor_plain ?c"
    using assms(4-17) coarse_time_not_fixed [OF assms(7,6)] plain_fixed length_fixedUTC by (simp add: cursor_plain_def)
  have "\<not> timelineCursorValid ?c"
    using assms(5,14) coarse_time_not_fixed(1) [OF assms(7,6)] by (auto simp: timelineCursorValid_def)
  with decode_encoded_cursor [OF plain] ranges show ?thesis unfolding enc by (simp add: QueryTimeline_def Let_def bind_result_def)
qed

section \<open>What a synchronisation collects\<close>

lemma parse_rfc3339nano_fixed: "text_year t \<Longrightarrow> parse_rfc3339nano (fixedUTC t) = Some t"
proof -
  assume t: "text_year t"
  have ns: "nsec_of t < 10 ^ 9" by (rule clock_bounds)
  obtain d r where dr: "fixed_digits 9 (nsec_of t) = d # r" by (metis length_fixed_digits list.exhaust list.size(3) zero_neq_numeral)
  have dig: "\<forall>c \<in> set (d # r). is_digit c" using fixed_digits_all_digits [of _ 9 "nsec_of t"] dr by metis
  have len: "length (d # r) = 9" using length_fixed_digits [of 9 "nsec_of t"] dr by metis
  have "\<not> is_digit CHR ''Z''" by (simp add: is_digit_def)
  then have "takeWhile is_digit (d # r @ ''Z'') = d # r" "dropWhile is_digit (d # r @ ''Z'') = ''Z''"
    using dig by (auto simp: takeWhile_append2 dropWhile_append2)
  then have "parse_frac9 (''.'' @ fixed_digits 9 (nsec_of t) @ ''Z'') = (nsec_of t, ''Z'')"
    using dig len digits_val_fixed [OF ns] dr by (simp add: comma_or_period_def)
  with t show ?thesis
    unfolding parse_rfc3339nano_def fixedUTC_def using instant_of_fields [of t] civil_of_day_valid [of "day_of t"]
    by (simp add: parse_datetime_text)
qed

text \<open>The projections the store's facts have.\<close>

definition fact_projection :: "duration \<Rightarrow> 'z timeline_db_scheme \<Rightarrow> timelineProjection \<Rightarrow> bool" where
  "fact_projection ua db p \<longleftrightarrow> (\<exists>w \<in> set (tb_raw db). rawEventProjection w ua = Inr p)
     \<or> (\<exists>w \<in> set (tb_heartbeats db). heartbeatProjection w ua = Inr p) \<or> (\<exists>w \<in> set (tb_segments db). mediaProjection w ua = Inr p)"

definition sources_ok :: "'z timeline_db_scheme \<Rightarrow> bool" where
  "sources_ok db \<longleftrightarrow> distinct (map row_id (tb_raw db)) \<and> distinct (map hrow_id (tb_heartbeats db)) \<and> distinct (map seg_id (tb_segments db))"

lemma projection_keys:
  "rawEventProjection w ua = Inr p \<Longrightarrow> tp_SourceType p = ''raw_event'' \<and> tp_SourceID p = row_id w"
  "heartbeatProjection h ua = Inr p \<Longrightarrow> tp_SourceType p = ''heartbeat'' \<and> tp_SourceID p = hrow_id h"
  "mediaProjection m ua = Inr p \<Longrightarrow> tp_SourceType p = ''media_segment'' \<and> tp_SourceID p = seg_id m"
  by (auto simp: rawEventProjection_def heartbeatProjection_def mediaProjection_def Let_def bind_result_Inr_iff split: if_splits option.splits)

text \<open>The reception times of the entries: rewritten in the fixed form for raw events and media, copied as stored for heartbeats.\<close>

lemma projection_received:
  "rawEventProjection w ua = Inr p \<Longrightarrow> parse_rfc3339nano (ev_ReceivedAtUTC (row_event w)) = Some t \<Longrightarrow> tp_ReceivedAtUTC p = received_text (tp_SourceType p) t"
  "mediaProjection m ua = Inr p \<Longrightarrow> parse_rfc3339nano (mm_ReceivedAtUTC (seg_data m)) = Some t \<Longrightarrow> tp_ReceivedAtUTC p = received_text (tp_SourceType p) t"
  "heartbeatProjection h ua = Inr p \<Longrightarrow> hb_ReceivedAtUTC (hrow_heartbeat h) = rfc3339nano t \<Longrightarrow> tp_ReceivedAtUTC p = received_text (tp_SourceType p) t"
  by (auto simp: rawEventProjection_def heartbeatProjection_def mediaProjection_def received_text_def Let_def bind_result_Inr_iff
      split: if_splits option.splits)

lemma distinct_map_eq: "distinct (map f xs) \<Longrightarrow> x \<in> set xs \<Longrightarrow> y \<in> set xs \<Longrightarrow> f x = f y \<Longrightarrow> x = y"
  by (auto simp: distinct_map inj_on_def)

lemma fact_projection_cases:
  assumes "fact_projection ua db p"
  obtains (raw) w where "w \<in> set (tb_raw db)" "rawEventProjection w ua = Inr p" "source_key p = (''raw_event'', row_id w)"
  | (heartbeat) w where "w \<in> set (tb_heartbeats db)" "heartbeatProjection w ua = Inr p" "source_key p = (''heartbeat'', hrow_id w)"
  | (media) w where "w \<in> set (tb_segments db)" "mediaProjection w ua = Inr p" "source_key p = (''media_segment'', seg_id w)"
  using assms unfolding fact_projection_def
proof (elim disjE bexE)
  fix w assume "w \<in> set (tb_raw db)" "rawEventProjection w ua = Inr p"
  with projection_keys(1) [OF this(2)] show thesis by (intro raw) (auto simp: source_key_def)
next
  fix w assume "w \<in> set (tb_heartbeats db)" "heartbeatProjection w ua = Inr p"
  with projection_keys(2) [OF this(2)] show thesis by (intro heartbeat) (auto simp: source_key_def)
next
  fix w assume "w \<in> set (tb_segments db)" "mediaProjection w ua = Inr p"
  with projection_keys(3) [OF this(2)] show thesis by (intro media) (auto simp: source_key_def)
qed

lemma fact_projection_unique:
  assumes "sources_ok db" "fact_projection ua db p" "fact_projection ua db q" "source_key p = source_key q"
  shows "p = q"
  using assms(2)
proof (cases rule: fact_projection_cases)
  case p: (raw w)
  from assms(3) show ?thesis
  proof (cases rule: fact_projection_cases)
    case (raw v)
    with p assms(1,4) have "w = v" by (intro distinct_map_eq [of row_id "tb_raw db"]) (auto simp: sources_ok_def)
    with p raw show ?thesis by simp
  qed (use p assms(4) in auto)
next
  case p: (heartbeat w)
  from assms(3) show ?thesis
  proof (cases rule: fact_projection_cases)
    case (heartbeat v)
    with p assms(1,4) have "w = v" by (intro distinct_map_eq [of hrow_id "tb_heartbeats db"]) (auto simp: sources_ok_def)
    with p heartbeat show ?thesis by simp
  qed (use p assms(4) in auto)
next
  case p: (media w)
  from assms(3) show ?thesis
  proof (cases rule: fact_projection_cases)
    case (media v)
    with p assms(1,4) have "w = v" by (intro distinct_map_eq [of seg_id "tb_segments db"]) (auto simp: sources_ok_def)
    with p media show ?thesis by simp
  qed (use p assms(4) in auto)
qed

lemma collect_rows_Inr:
  "collectRows flt label project mf mb i ws st = Inr st' \<Longrightarrow>
     set (fst st') = set (fst st) \<union> {p. \<exists>w \<in> set ws. project w = Inr (Some p)} \<and> (\<forall>w \<in> set ws. \<exists>r. project w = Inr r)"
proof (induction ws arbitrary: i st)
  case (Cons w ws)
  from Cons.prems obtain r where r: "project w = Inr r" by (auto simp: bind_result_Inr_iff)
  show ?case
  proof (cases r)
    case None
    with Cons.prems r have "collectRows flt label project mf mb (Suc i) ws st = Inr st'" by (auto simp: bind_result_Inr_iff)
    from Cons.IH [OF this] r None show ?thesis by auto
  next
    case (Some item)
    with Cons.prems r obtain st1 where a: "appendTimelineProjection st item mf mb = Inr st1"
      and c: "collectRows flt label project mf mb (Suc i) ws st1 = Inr st'" by (auto simp: bind_result_Inr_iff)
    from a have "fst st1 = fst st @ [item]" by (auto simp: appendTimelineProjection_def Let_def split: prod.splits if_splits)
    with Cons.IH [OF c] r Some show ?thesis by auto
  qed
qed simp

lemma collect_queries_Inr:
  "collectQueries flt labels project mf mb q i queries st = Inr st' \<Longrightarrow>
     set (fst st') = set (fst st) \<union> {p. \<exists>rows \<in> set queries. \<exists>w \<in> set rows. project w = Inr (Some p)}
     \<and> (\<forall>rows \<in> set queries. \<forall>w \<in> set rows. \<exists>r. project w = Inr r)"
proof (induction queries arbitrary: q i st)
  case (Cons rows queries)
  from Cons.prems obtain st1 q' i' where a: "collectRows flt (fst (snd labels)) project mf mb i rows st = Inr st1"
    and c: "collectQueries flt labels project mf mb q' i' queries st1 = Inr st'"
    by (cases labels) (auto simp: bind_result_Inr_iff)
  from collect_rows_Inr [OF a] Cons.IH [OF c] show ?case by auto
qed simp

lemma raw_query_rows: "rows \<in> set (rawEventProjectionQueries S cid ov a b ws) \<Longrightarrow> set rows \<subseteq> set ws"
  by (auto simp: rawEventProjectionQueries_def Let_def split: if_splits)

lemma heartbeat_query_rows: "rows \<in> set (heartbeatProjectionQueries cid ov a b ws) \<Longrightarrow> set rows \<subseteq> set ws"
  by (auto simp: heartbeatProjectionQueries_def Let_def split: if_splits)

lemma media_query_rows: "rows \<in> set (mediaProjectionQueries S cid ov a b ws) \<Longrightarrow> set rows \<subseteq> set ws"
  by (auto simp: mediaProjectionQueries_def Let_def split: if_splits)

lemma project_facts:
  "projectRaw start stop ua ov w = Inr (Some p) \<Longrightarrow> rawEventProjection w ua = Inr p"
  "projectHeartbeat ua h = Inr (Some p) \<longleftrightarrow> heartbeatProjection h ua = Inr p"
  "projectMedia start stop ua ov m = Inr (Some p) \<Longrightarrow> mediaProjection m ua = Inr p"
  by (auto simp: projectRaw_def projectHeartbeat_def projectMedia_def in_range_def bind_result_Inr_iff split: option.splits if_splits)

text \<open>What a successful collection contains, query by query.\<close>

lemma collect_projections_set:
  assumes "collectProjections S C flt start stop ua mf cid ov db = Inr ps"
  shows "set ps = {p. \<exists>rows \<in> set (rawEventProjectionQueries S cid ov (rfc3339nano (start - second)) (rfc3339nano (stop + second)) (tb_raw db)).
            \<exists>w \<in> set rows. projectRaw start stop ua ov w = Inr (Some p)}
      \<union> {p. \<exists>rows \<in> set (heartbeatProjectionQueries cid ov (fixedUTC start) (fixedUTC stop) (tb_heartbeats db)). \<exists>w \<in> set rows. heartbeatProjection w ua = Inr p}
      \<union> {p. \<exists>rows \<in> set (mediaProjectionQueries S cid ov (rfc3339nano (start - second)) (rfc3339nano (stop + second)) (tb_segments db)).
            \<exists>w \<in> set rows. projectMedia start stop ua ov w = Inr (Some p)}"
proof -
  from assms obtain st1 st2 st3 where
    "collectRawEventProjections S C flt start stop ua mf cid ov (tb_raw db) ([], 0) = Inr st1"
    "collectHeartbeatProjections C flt start stop ua mf cid ov (tb_heartbeats db) st1 = Inr st2"
    "collectMediaProjections S C flt start stop ua mf cid ov (tb_segments db) st2 = Inr st3" "ps = fst st3"
    by (auto simp: collectProjections_def bind_result_Inr_iff)
  note c = this [unfolded collectRawEventProjections_def collectHeartbeatProjections_def collectMediaProjections_def Let_def]
  from collect_queries_Inr [OF c(1)] collect_queries_Inr [OF c(2)] collect_queries_Inr [OF c(3)] c(4)
  show ?thesis by (simp add: project_facts(2))
qed

lemma collect_projections_facts:
  assumes "collectProjections S C flt start stop ua mf cid ov db = Inr ps" "p \<in> set ps"
  shows "fact_projection ua db p"
  using assms(2) unfolding collect_projections_set [OF assms(1)] fact_projection_def
  by (auto dest!: project_facts(1) project_facts(3) dest!: raw_query_rows heartbeat_query_rows media_query_rows)

section \<open>The prefilter loses nothing\<close>

text \<open>
  What is relied on of SQLite: \<^verbatim>\<open>julianday\<close> reads the times that the store writes and the queries bind -- \<^verbatim>\<open>YYYY-MM-DDTHH:MM:SS\<close>, at
  will with a fraction, and \<^verbatim>\<open>Z\<close>, in the years 0 to 9999, which is a documented time format -- and it and its sum with a clock
  offset are accurate to half a second.  Nothing is asked about any other text.
\<close>

definition julianday_accurate :: "sql_time \<Rightarrow> bool" where
  "julianday_accurate S \<longleftrightarrow> (\<exists>epoch :: rat. \<forall>t. text_year t \<longrightarrow>
     (\<exists>r. sq_julianday S (rfc3339nano t) = Some r \<and> \<bar>(r - epoch) * 86400 * 10 ^ 9 - of_int t\<bar> \<le> 10 ^ 9 / 2)
     \<and> (\<forall>ms. \<bar>ms\<bar> \<le> clockOffsetLimit \<longrightarrow>
          (\<exists>r. sq_corrected S (rfc3339nano t) ms = Some r \<and> \<bar>(r - epoch) * 86400 * 10 ^ 9 - of_int (t + ms * 10 ^ 6)\<bar> \<le> 10 ^ 9 / 2)))"

lemma corrected_in_candidates:
  assumes "julianday_accurate S" "text = rfc3339nano t" "text_year t" "\<bar>ms\<bar> \<le> clockOffsetLimit"
    and "text_year (start - second)" "text_year (stop + second)" "start \<le> t + ms * 10 ^ 6" "t + ms * 10 ^ 6 < stop"
  shows "sql_ge (sq_corrected S text ms) (sq_julianday S (rfc3339nano (start - second)))
    \<and> sql_less (sq_corrected S text ms) (sq_julianday S (rfc3339nano (stop + second)))"
proof -
  from assms(1) obtain epoch :: rat where E: "\<forall>t. text_year t \<longrightarrow>
     (\<exists>r. sq_julianday S (rfc3339nano t) = Some r \<and> \<bar>(r - epoch) * 86400 * 10 ^ 9 - of_int t\<bar> \<le> 10 ^ 9 / 2)
     \<and> (\<forall>ms. \<bar>ms\<bar> \<le> clockOffsetLimit \<longrightarrow>
          (\<exists>r. sq_corrected S (rfc3339nano t) ms = Some r \<and> \<bar>(r - epoch) * 86400 * 10 ^ 9 - of_int (t + ms * 10 ^ 6)\<bar> \<le> 10 ^ 9 / 2))"
    unfolding julianday_accurate_def by blast
  obtain r where r: "sq_corrected S text ms = Some r" "\<bar>(r - epoch) * 86400 * 10 ^ 9 - of_int (t + ms * 10 ^ 6)\<bar> \<le> 10 ^ 9 / 2"
    using E assms(2-4) by blast
  obtain a where a: "sq_julianday S (rfc3339nano (start - second)) = Some a" "\<bar>(a - epoch) * 86400 * 10 ^ 9 - of_int (start - second)\<bar> \<le> 10 ^ 9 / 2"
    using E assms(5) by blast
  obtain b where b: "sq_julianday S (rfc3339nano (stop + second)) = Some b" "\<bar>(b - epoch) * 86400 * 10 ^ 9 - of_int (stop + second)\<bar> \<le> 10 ^ 9 / 2"
    using E assms(6) by blast
  define x :: rat where "x = of_int (t + ms * 10 ^ 6)"
  have "of_int start \<le> x" "x < of_int stop" unfolding x_def of_int_le_iff of_int_less_iff by (rule assms)+
  moreover have "x - 10 ^ 9 / 2 \<le> (r - epoch) * 86400 * 10 ^ 9" "(r - epoch) * 86400 * 10 ^ 9 \<le> x + 10 ^ 9 / 2"
    using r(2) unfolding x_def [symmetric] abs_le_iff by linarith+
  moreover have "(a - epoch) * 86400 * 10 ^ 9 \<le> of_int start - 10 ^ 9 + 10 ^ 9 / 2"
    using a(2) unfolding abs_le_iff of_int_diff second_def by simp
  moreover have "of_int stop + 10 ^ 9 - 10 ^ 9 / 2 \<le> (b - epoch) * 86400 * 10 ^ 9"
    using b(2) unfolding abs_le_iff of_int_add second_def by simp
  ultimately have "(a - epoch) * 86400 * 10 ^ 9 \<le> (r - epoch) * 86400 * 10 ^ 9" "(r - epoch) * 86400 * 10 ^ 9 < (b - epoch) * 86400 * 10 ^ 9"
    by linarith+
  then have "a \<le> r" "r < b" by simp_all
  with r(1) a(1) b(1) show ?thesis by (simp add: sql_ge_def sql_less_def)
qed

section \<open>The table of timeline entries\<close>

definition timeline_ok :: "ext \<Rightarrow> timeline_row list \<Rightarrow> bool" where
  "timeline_ok X rows \<longleftrightarrow> distinct (map tl_id rows) \<and> (\<forall>w \<in> set rows. 1 \<le> tl_id w \<and> timeline_checks X (tl_data w))
     \<and> distinct (map (source_key \<circ> tl_data) rows) \<and> distinct (map (tp_StableID \<circ> tl_data) rows)"

abbreviation "shown rows p \<equiv> p \<in> tl_data ` set rows"

text \<open>A row stored under the source key of an item is replaced by it, or a row is added.\<close>

lemma upsert_cases:
  assumes "upsertTimelineProjection X item rows = Inr rows'"
  obtains (update) us w vs where "rows = us @ w # vs" "source_key (tl_data w) = source_key item"
      "\<forall>v \<in> set us. source_key (tl_data v) \<noteq> source_key item"
      "rows' = map (\<lambda>v. if source_key (tl_data v) = source_key item then v\<lparr>tl_data := item\<rparr> else v) rows"
      "timeline_checks X item" "\<forall>v \<in> set rows. tp_StableID (tl_data v) = tp_StableID item \<longrightarrow> source_key (tl_data v) = source_key item"
  | (insert) "\<forall>w \<in> set rows. source_key (tl_data w) \<noteq> source_key item" "rows' = rows @ [\<lparr>tl_id = next_id tl_id rows, tl_data = item\<rparr>]"
      "timeline_checks X item" "\<forall>v \<in> set rows. tp_StableID (tl_data v) \<noteq> tp_StableID item"
proof -
  have chk: "timeline_checks X item" and st: "\<not> list_ex (\<lambda>w. tp_StableID (tl_data w) = tp_StableID item \<and> source_key (tl_data w) \<noteq> source_key item) rows"
    using assms by (auto simp: upsertTimelineProjection_def split: if_splits)
  show thesis
  proof (cases "list_ex (\<lambda>w. source_key (tl_data w) = source_key item) rows")
    case True
    then obtain us w vs where "rows = us @ w # vs" "source_key (tl_data w) = source_key item" "\<forall>v \<in> set us. source_key (tl_data v) \<noteq> source_key item"
      using split_list_first_prop [of rows "\<lambda>w. source_key (tl_data w) = source_key item"] by (auto simp: list_ex_iff)
    moreover have "rows' = map (\<lambda>v. if source_key (tl_data v) = source_key item then v\<lparr>tl_data := item\<rparr> else v) rows"
      using assms chk st True by (auto simp: upsertTimelineProjection_def)
    ultimately show thesis using update chk st by (auto simp: list_ex_iff)
  next
    case False
    with assms chk st show thesis using insert by (auto simp: upsertTimelineProjection_def list_ex_iff)
  qed
qed

lemma upsert_ok:
  assumes "upsertTimelineProjection X item rows = Inr rows'" "timeline_ok X rows"
  shows "timeline_ok X rows'"
  using assms(1)
proof (cases rule: upsert_cases)
  case (update us w vs)
  have k: "\<forall>v \<in> set vs. source_key (tl_data v) \<noteq> source_key item" using assms(2) update(1,2) by (auto simp: timeline_ok_def image_iff)
  then have r: "rows' = us @ w\<lparr>tl_data := item\<rparr> # vs" using update(1-4) by (auto intro: map_idI)
  have "\<forall>v \<in> set us \<union> set vs. tp_StableID (tl_data v) \<noteq> tp_StableID item" using update(1,3,6) k by auto
  with k update assms(2) show ?thesis unfolding r by (auto simp: timeline_ok_def)
next
  case insert
  with assms(2) show ?thesis
    using next_id_greater [of _ rows tl_id] next_id_pos [of tl_id rows] by (fastforce simp: timeline_ok_def)
qed

lemma upsert_stored:
  assumes "upsertTimelineProjection X item rows = Inr rows'"
  shows "shown rows' item" "\<And>w. w \<in> set rows' \<Longrightarrow> w \<in> set rows \<or> tl_data w = item"
    "\<And>p. shown rows p \<Longrightarrow> source_key p \<noteq> source_key item \<or> p = item \<Longrightarrow> shown rows' p"
  using assms by (cases rule: upsert_cases; force simp: image_iff)+

lemma upsert_again:
  assumes "timeline_ok X rows" "shown rows item"
  shows "upsertTimelineProjection X item rows = Inr rows"
proof -
  from assms(2) obtain w where w: "w \<in> set rows" "tl_data w = item" by auto
  have k: "tl_data v = item" if "v \<in> set rows" "source_key (tl_data v) = source_key item" for v
    using distinct_map_eq [of "source_key \<circ> tl_data" rows v w] assms(1) that w by (simp add: timeline_ok_def)
  have st: "tl_data v = item" if "v \<in> set rows" "tp_StableID (tl_data v) = tp_StableID item" for v
    using distinct_map_eq [of "tp_StableID \<circ> tl_data" rows v w] assms(1) that w by (simp add: timeline_ok_def)
  have "timeline_checks X item" using assms(1) w by (auto simp: timeline_ok_def)
  moreover have "\<not> list_ex (\<lambda>v. tp_StableID (tl_data v) = tp_StableID item \<and> source_key (tl_data v) \<noteq> source_key item) rows"
    unfolding list_ex_iff using st by metis
  moreover have "list_ex (\<lambda>v. source_key (tl_data v) = source_key item) rows" unfolding list_ex_iff using w by metis
  moreover have "map (\<lambda>v. if source_key (tl_data v) = source_key item \<and> tl_data v \<noteq> item then v\<lparr>tl_data := item\<rparr> else v) rows = rows"
    using k by (intro map_idI) metis
  ultimately show ?thesis by (simp add: upsertTimelineProjection_def)
qed

definition consistent :: "timelineProjection list \<Rightarrow> bool" where
  "consistent items \<longleftrightarrow> (\<forall>x \<in> set items. \<forall>y \<in> set items. source_key x = source_key y \<longrightarrow> x = y)"

definition stores :: "timelineProjection list \<Rightarrow> timeline_row list \<Rightarrow> timeline_row list \<Rightarrow> bool" where
  "stores items rows rows' \<longleftrightarrow> (\<forall>x \<in> set items. shown rows' x) \<and> (\<forall>w \<in> set rows'. w \<in> set rows \<or> tl_data w \<in> set items)
     \<and> (\<forall>p. shown rows p \<longrightarrow> (\<forall>y \<in> set items. source_key y = source_key p \<longrightarrow> y = p) \<longrightarrow> shown rows' p)"

lemma stores_append:
  assumes "stores xs a b" "stores ys b c" "consistent (xs @ ys)" shows "stores (xs @ ys) a c"
proof -
  have "shown c x" if "x \<in> set xs" for x
    using assms(1,2) that assms(3) unfolding stores_def consistent_def by (metis in_set_conv_decomp_first append_is_Nil_conv Un_iff set_append)
  moreover have "shown c p" if "shown a p" "\<forall>y \<in> set (xs @ ys). source_key y = source_key p \<longrightarrow> y = p" for p
    using assms(1,2) that by (auto simp: stores_def)
  moreover have "w \<in> set a \<or> tl_data w \<in> set (xs @ ys)" if "w \<in> set c" for w
    using assms(1,2) that by (auto simp: stores_def)
  ultimately show ?thesis using assms(2) unfolding stores_def by (simp only: set_append ball_Un) blast
qed

lemma upsert_items_stores:
  "upsertItems X flt i items rows = Inr rows' \<Longrightarrow> consistent items \<Longrightarrow> stores items rows rows'"
proof (induction items arbitrary: i rows)
  case Nil
  then show ?case by (simp add: stores_def)
next
  case (Cons item items)
  from Cons.prems(1) obtain rows1 where u: "upsertTimelineProjection X item rows = Inr rows1" and r: "upsertItems X flt (Suc i) items rows1 = Inr rows'"
    by (auto simp: bind_result_Inr_iff split: sum.splits)
  have "stores [item] rows rows1" using upsert_stored [OF u] unfolding stores_def by auto
  moreover have "stores items rows1 rows'" using Cons.IH [OF r] Cons.prems(2) by (simp add: consistent_def)
  ultimately show ?case using stores_append [of "[item]" rows rows1 items rows'] Cons.prems(2) by simp
qed

lemma upsert_items_ok: "upsertItems X flt i items rows = Inr rows' \<Longrightarrow> timeline_ok X rows \<Longrightarrow> timeline_ok X rows'"
  by (induction items arbitrary: i rows) (auto simp: bind_result_Inr_iff split: sum.splits dest: upsert_ok)

lemma upsert_items_again: "timeline_ok X rows \<Longrightarrow> \<forall>x \<in> set items. shown rows x \<Longrightarrow> upsertItems X no_faults i items rows = Inr rows"
  by (induction items arbitrary: i) (auto simp: upsert_again bind_result_def db_call_def no_faults_def)

lemma chunk_cases:
  assumes "upsertTimelineProjectionChunk X flt off items rows = (r, rows')"
  obtains (failed) e where "r = Inl e" "rows' = rows" | (stored) "r = Inr ()" "upsertItems X flt off items rows = Inr rows'"
  using assms by (auto simp: upsertTimelineProjectionChunk_def bind_result_Inr_iff split: sum.splits)

lemma upsert_chunks_ok:
  "upsertChunks X flt off items rows = (r, rows') \<Longrightarrow> timeline_ok X rows \<Longrightarrow> timeline_ok X rows'"
proof (induction X flt off items rows rule: upsertChunks.induct)
  case (1 X flt off items rows)
  show ?case
  proof (cases "items = []")
    case True
    with "1.prems" show ?thesis by (simp add: upsertChunks.simps)
  next
    case False
    obtain r1 rows1 where c: "upsertTimelineProjectionChunk X flt off (take timelineProjectionChunkSize items) rows = (r1, rows1)" by fastforce
    from c have ok1: "timeline_ok X rows1" by (cases rule: chunk_cases) (auto simp: "1.prems"(2) upsert_items_ok)
    from c show ?thesis
    proof (cases rule: chunk_cases)
      case (failed e)
      with "1.prems" False c show ?thesis by (simp add: upsertChunks.simps [of X flt off items rows])
    next
      case stored
      then have "upsertChunks X flt (off + timelineProjectionChunkSize) (drop timelineProjectionChunkSize items) rows1 = (r, rows')"
        using "1.prems"(1) False c by (simp add: upsertChunks.simps [of X flt off items rows])
      from "1.IH" [OF False c [symmetric] _ this ok1] stored(1) show ?thesis by simp
    qed
  qed
qed

lemma upsert_chunks_stores:
  "upsertChunks X flt off items rows = (Inr u, rows') \<Longrightarrow> consistent items \<Longrightarrow> stores items rows rows'"
proof (induction X flt off items rows rule: upsertChunks.induct)
  case (1 X flt off items rows)
  let ?n = timelineProjectionChunkSize
  show ?case
  proof (cases "items = []")
    case True
    with "1.prems" show ?thesis by (simp add: upsertChunks.simps stores_def)
  next
    case False
    obtain r1 rows1 where c: "upsertTimelineProjectionChunk X flt off (take ?n items) rows = (r1, rows1)" by fastforce
    from c have "r1 = Inr () \<and> upsertItems X flt off (take ?n items) rows = Inr rows1"
      by (cases rule: chunk_cases) (use "1.prems"(1) False c in \<open>auto simp: upsertChunks.simps [of X flt off items rows]\<close>)
    then have i: "r1 = Inr ()" "upsertItems X flt off (take ?n items) rows = Inr rows1" by auto
    have "upsertChunks X flt (off + ?n) (drop ?n items) rows1 = (Inr u, rows')"
      using "1.prems"(1) False c i(1) by (simp add: upsertChunks.simps [of X flt off items rows])
    moreover have "consistent (take ?n items)" "consistent (drop ?n items)"
      using "1.prems"(2) by (auto simp: consistent_def dest: in_set_takeD in_set_dropD)
    ultimately have "stores (drop ?n items) rows1 rows'" "stores (take ?n items) rows rows1"
      using "1.IH" [OF False c [symmetric] i(1)] upsert_items_stores [OF i(2)] by auto
    with stores_append [of "take ?n items" rows rows1 "drop ?n items" rows'] "1.prems"(2) show ?thesis by simp
  qed
qed

lemma upsert_chunks_again:
  "timeline_ok X rows \<Longrightarrow> \<forall>x \<in> set items. shown rows x \<Longrightarrow> upsertChunks X no_faults off items rows = (Inr (), rows)"
proof (induction "length items" arbitrary: items off rule: less_induct)
  case less
  let ?n = timelineProjectionChunkSize
  show ?case
  proof (cases "items = []")
    case True
    then show ?thesis by (simp add: upsertChunks.simps)
  next
    case False
    have "upsertItems X no_faults off (take ?n items) rows = Inr rows"
      using less.prems by (intro upsert_items_again) (auto dest: in_set_takeD)
    then have "upsertTimelineProjectionChunk X no_faults off (take ?n items) rows = (Inr (), rows)"
      by (simp add: upsertTimelineProjectionChunk_def)
    moreover have "upsertChunks X no_faults (off + ?n) (drop ?n items) rows = (Inr (), rows)"
      using less.prems False by (intro less.hyps) (auto simp: timelineProjectionChunkSize_def dest: in_set_dropD)
    ultimately show ?thesis using False by (simp add: upsertChunks.simps [of X no_faults off items rows])
  qed
qed

section \<open>What a synchronisation achieves\<close>

lemma sync_cases:
  assumes "syncTimelineProjection X S C flt busy start stop ua mf cid ov db = (r, db')"
  obtains (failed) e where "r = Inl e" "db' = db"
  | (ran) ps rows where "collectProjections S C flt start stop ua mf cid ov db = Inr ps" "upsertChunks X flt 0 ps (tb_entries db) = (r, rows)"
      "db' = db\<lparr>tb_entries := rows\<rparr>"
proof (cases "bind_result (db_call flt CodeCanceled ''wait for timeline projection sync'' 0) (\<lambda>_.
           bind_result (guard_result (\<not> busy) (StoreErr CodeTimelineSyncBusy ''another timeline projection sync is already running'')) (\<lambda>_.
             collectProjections S C flt start stop ua mf cid ov db))")
  case (Inl e)
  with assms show ?thesis by (intro failed [of e]) (simp_all add: syncTimelineProjection_def)
next
  case (Inr ps)
  then have "collectProjections S C flt start stop ua mf cid ov db = Inr ps" by (auto simp: bind_result_Inr_iff)
  moreover obtain r' rows where u: "upsertChunks X flt 0 ps (tb_entries db) = (r', rows)" by fastforce
  ultimately show ?thesis using assms Inr by (intro ran [of ps rows]) (auto simp: syncTimelineProjection_def)
qed

lemma sync_ok:
  assumes "syncTimelineProjection X S C flt busy start stop ua mf cid ov db = (r, db')" "timeline_ok X (tb_entries db)"
  shows "timeline_ok X (tb_entries db')" "tb_raw db' = tb_raw db" "tb_heartbeats db' = tb_heartbeats db" "tb_segments db' = tb_segments db"
  using assms(1) by (cases rule: sync_cases; use assms(2) upsert_chunks_ok in auto)+

lemma collect_consistent:
  assumes "collectProjections S C flt start stop ua mf cid ov db = Inr ps" "sources_ok db" shows "consistent ps"
  using collect_projections_facts [OF assms(1)] fact_projection_unique [OF assms(2)] unfolding consistent_def by blast

lemma sync_stores:
  assumes "syncTimelineProjection X S C flt busy start stop ua mf cid ov db = (Inr u, db')" "sources_ok db"
  obtains ps where "collectProjections S C flt start stop ua mf cid ov db = Inr ps" "stores ps (tb_entries db) (tb_entries db')"
  using assms(1)
proof (cases rule: sync_cases)
  case (ran ps rows)
  from upsert_chunks_stores [OF ran(2) collect_consistent [OF ran(1) assms(2)]] ran show ?thesis by (intro that) auto
qed simp

text \<open>A collection that succeeds despite faults collects the same without them.\<close>

lemma collect_rows_no_faults: "collectRows flt l project mf mb i ws st = Inr st' \<Longrightarrow> collectRows no_faults l project mf mb i ws st = Inr st'"
proof (induction ws arbitrary: i st)
  case (Cons w ws)
  from Cons.prems obtain r where r: "project w = Inr r" by (auto simp: bind_result_Inr_iff)
  show ?case
  proof (cases r)
    case None
    with Cons.prems r have "collectRows flt l project mf mb (Suc i) ws st = Inr st'" by (auto simp: bind_result_Inr_iff)
    from Cons.IH [OF this] r None show ?thesis by simp
  next
    case (Some item)
    with Cons.prems r obtain st1 where a: "appendTimelineProjection st item mf mb = Inr st1"
      and c: "collectRows flt l project mf mb (Suc i) ws st1 = Inr st'" by (auto simp: bind_result_Inr_iff)
    from Cons.IH [OF c] a r Some show ?thesis by simp
  qed
qed simp

lemma collect_queries_no_faults:
  "collectQueries flt ls project mf mb q i queries st = Inr st' \<Longrightarrow> collectQueries no_faults ls project mf mb q i queries st = Inr st'"
proof (induction queries arbitrary: q i st)
  case (Cons rows queries)
  from Cons.prems obtain st1 where a: "collectRows flt (fst (snd ls)) project mf mb i rows st = Inr st1"
    and c: "collectQueries flt ls project mf mb (Suc q) (i + length rows) queries st1 = Inr st'"
    by (cases ls) (auto simp: bind_result_Inr_iff)
  from collect_rows_no_faults [OF a] Cons.IH [OF c] show ?case by (cases ls) (simp add: bind_result_Inr_iff)
qed simp

lemma collect_no_faults:
  assumes "collectProjections S C flt start stop ua mf cid ov db = Inr ps"
  shows "collectProjections S C no_faults start stop ua mf cid ov db = Inr ps"
proof -
  from assms obtain st1 st2 st3 where
    "collectRawEventProjections S C flt start stop ua mf cid ov (tb_raw db) ([], 0) = Inr st1"
    "collectHeartbeatProjections C flt start stop ua mf cid ov (tb_heartbeats db) st1 = Inr st2"
    "collectMediaProjections S C flt start stop ua mf cid ov (tb_segments db) st2 = Inr st3" "ps = fst st3"
    by (auto simp: collectProjections_def bind_result_Inr_iff)
  note c = this [unfolded collectRawEventProjections_def collectHeartbeatProjections_def collectMediaProjections_def Let_def]
  from c(1-3) [THEN collect_queries_no_faults] c(4) show ?thesis
    by (simp add: collectProjections_def collectRawEventProjections_def collectHeartbeatProjections_def collectMediaProjections_def Let_def)
qed

section \<open>Every fact in range is shown\<close>

definition offsets_ok :: "'z timeline_db_scheme \<Rightarrow> bool" where
  "offsets_ok db \<longleftrightarrow> (\<forall>w \<in> set (tb_raw db). \<bar>ev_ClockOffsetMS (row_event w)\<bar> \<le> clockOffsetLimit)
     \<and> (\<forall>w \<in> set (tb_segments db). \<bar>mm_ClockOffsetMS (seg_data w)\<bar> \<le> clockOffsetLimit)"

lemma duration_ms_offset: "\<bar>ms\<bar> \<le> clockOffsetLimit \<Longrightarrow> duration_ms ms = ms * 10 ^ 6"
  by (simp add: duration_ms_exact clockOffsetLimit_def millisecond_def)

lemma matches_in_range:
  "tp_CorrectedStartUTC p = fixedUTC t \<Longrightarrow> text_year t \<Longrightarrow> start \<le> t \<Longrightarrow> t < stop \<Longrightarrow> projectionMatchesRange p start stop ov = Inr True"
  by (simp add: projectionMatchesRange_def parse_rfc3339nano_fixed)

lemma raw_projection_start:
  assumes "rawEventProjection w ua = Inr p" "parse_rfc3339nano (ev_DeviceTimeUTC (row_event w)) = Some t"
  shows "tp_CorrectedStartUTC p = fixedUTC (t + duration_ms (ev_ClockOffsetMS (row_event w)))"
  using assms by (auto simp: rawEventProjection_def Let_def bind_result_Inr_iff split: if_splits option.splits)

lemma media_projection_start:
  assumes "mediaProjection w ua = Inr p" "parse_rfc3339nano (mm_DeviceStartUTC (seg_data w)) = Some t"
  shows "tp_CorrectedStartUTC p = fixedUTC (t + duration_ms (mm_ClockOffsetMS (seg_data w)))"
  using assms by (auto simp: mediaProjection_def Let_def bind_result_Inr_iff)

text \<open>The three sources of a timeline query without a collector, each with the rows in range.\<close>

lemma raw_collected:
  assumes "collectProjections S C flt start stop ua mf [] False db = Inr ps" "julianday_accurate S" "offsets_ok db"
    and "text_year (start - second)" "text_year (stop + second)" "w \<in> set (tb_raw db)"
    and "ev_DeviceTimeUTC (row_event w) = rfc3339nano t" "text_year t" "c = t + ev_ClockOffsetMS (row_event w) * 10 ^ 6" "text_year c" "start \<le> c" "c < stop"
  shows "\<exists>p \<in> set ps. rawEventProjection w ua = Inr p \<and> tp_CorrectedStartUTC p = fixedUTC c"
proof -
  let ?q = "rawEventProjectionQueries S [] False (rfc3339nano (start - second)) (rfc3339nano (stop + second)) (tb_raw db)"
  have lim: "\<bar>ev_ClockOffsetMS (row_event w)\<bar> \<le> clockOffsetLimit" using assms(3,6) by (auto simp: offsets_ok_def)
  then have off: "duration_ms (ev_ClockOffsetMS (row_event w)) = ev_ClockOffsetMS (row_event w) * 10 ^ 6" by (rule duration_ms_offset)
  have parsed: "parse_rfc3339nano (ev_DeviceTimeUTC (row_event w)) = Some t" using assms(7,8) parse_rfc3339nano_roundtrip by simp
  have "\<exists>rows \<in> set ?q. w \<in> set rows"
    using corrected_in_candidates [OF assms(2,7,8) lim assms(4,5)] assms(6,9-12)
    by (simp add: rawEventProjectionQueries_def Let_def raw_corrected_def)
  then obtain rows where rows: "rows \<in> set ?q" "w \<in> set rows" by blast
  from assms(1) have "\<exists>r. projectRaw start stop ua False w = Inr r"
    using rows by (fastforce simp: collectProjections_def collectRawEventProjections_def Let_def bind_result_Inr_iff dest!: collect_queries_Inr)
  then obtain p where p: "rawEventProjection w ua = Inr p" by (auto simp: projectRaw_def bind_result_Inr_iff)
  with raw_projection_start [OF p parsed] off assms(9) have cs: "tp_CorrectedStartUTC p = fixedUTC c" by simp
  have "projectRaw start stop ua False w = Inr (Some p)"
    using p matches_in_range [OF cs assms(10-12)] by (simp add: projectRaw_def in_range_def)
  with rows p cs show ?thesis unfolding collect_projections_set [OF assms(1)] by blast
qed

lemma media_collected:
  assumes "collectProjections S C flt start stop ua mf [] False db = Inr ps" "julianday_accurate S" "offsets_ok db"
    and "text_year (start - second)" "text_year (stop + second)" "w \<in> set (tb_segments db)"
    and "mm_DeviceStartUTC (seg_data w) = rfc3339nano t" "text_year t" "c = t + mm_ClockOffsetMS (seg_data w) * 10 ^ 6" "text_year c" "start \<le> c" "c < stop"
  shows "\<exists>p \<in> set ps. mediaProjection w ua = Inr p \<and> tp_CorrectedStartUTC p = fixedUTC c"
proof -
  let ?q = "mediaProjectionQueries S [] False (rfc3339nano (start - second)) (rfc3339nano (stop + second)) (tb_segments db)"
  have lim: "\<bar>mm_ClockOffsetMS (seg_data w)\<bar> \<le> clockOffsetLimit" using assms(3,6) by (auto simp: offsets_ok_def)
  then have off: "duration_ms (mm_ClockOffsetMS (seg_data w)) = mm_ClockOffsetMS (seg_data w) * 10 ^ 6" by (rule duration_ms_offset)
  have parsed: "parse_rfc3339nano (mm_DeviceStartUTC (seg_data w)) = Some t" using assms(7,8) parse_rfc3339nano_roundtrip by simp
  have "\<exists>rows \<in> set ?q. w \<in> set rows"
    using corrected_in_candidates [OF assms(2,7,8) lim assms(4,5)] assms(6,9-12)
    by (simp add: mediaProjectionQueries_def Let_def media_corrected_start_def)
  then obtain rows where rows: "rows \<in> set ?q" "w \<in> set rows" by blast
  from assms(1) have "\<exists>r. projectMedia start stop ua False w = Inr r"
    using rows by (fastforce simp: collectProjections_def collectMediaProjections_def Let_def bind_result_Inr_iff dest!: collect_queries_Inr)
  then obtain p where p: "mediaProjection w ua = Inr p" by (auto simp: projectMedia_def bind_result_Inr_iff)
  with media_projection_start [OF p parsed] off assms(9) have cs: "tp_CorrectedStartUTC p = fixedUTC c" by simp
  have "projectMedia start stop ua False w = Inr (Some p)"
    using p matches_in_range [OF cs assms(10-12)] by (simp add: projectMedia_def in_range_def)
  with rows p cs show ?thesis unfolding collect_projections_set [OF assms(1)] by blast
qed

lemma heartbeat_collected:
  assumes "collectProjections S C flt start stop ua mf [] False db = Inr ps" "w \<in> set (tb_heartbeats db)"
    and "fixedUTC start \<le> hb_CorrectedStartUTC (hrow_heartbeat w)" "hb_CorrectedStartUTC (hrow_heartbeat w) < fixedUTC stop"
  shows "\<exists>p \<in> set ps. heartbeatProjection w ua = Inr p"
proof -
  let ?q = "heartbeatProjectionQueries [] False (fixedUTC start) (fixedUTC stop) (tb_heartbeats db)"
  obtain rows where rows: "rows \<in> set ?q" "w \<in> set rows" using assms(2-4) by (auto simp: heartbeatProjectionQueries_def Let_def)
  from assms(1) have "\<exists>r. projectHeartbeat ua w = Inr r"
    using rows by (fastforce simp: collectProjections_def collectHeartbeatProjections_def Let_def bind_result_Inr_iff dest!: collect_queries_Inr)
  then obtain p where "heartbeatProjection w ua = Inr p" by (auto simp: projectHeartbeat_def bind_result_Inr_iff)
  with rows show ?thesis unfolding collect_projections_set [OF assms(1)] by blast
qed

section \<open>Properties of the synchronisation\<close>

text \<open>
  C14: The timeline shows every fact.  After a successful synchronisation for a range, every raw event and every media segment whose
  device time is stored in the form in which ingestion writes it (RFC 3339, UTC, a year from 0 to 9999) and whose
  clock-corrected start lies in the range, and every heartbeat whose stored corrected start does, has an entry with exactly its
  projection; every entry is an old one or the projection of a stored fact; the source tables are
  untouched; and synchronising once more changes nothing.  SQLite's imprecise \<^verbatim>\<open>julianday\<close> prefilter loses no fact as
  long as it reads such texts with an error of at most half a second.
\<close>

theorem timeline_sync_complete:
  assumes "syncTimelineProjection X S C flt busy start stop ua mf [] False db = (Inr u, db')"
    and "julianday_accurate S" "sources_ok db" "offsets_ok db" "timeline_ok X (tb_entries db)" "text_year (start - second)" "text_year (stop + second)"
  shows "(\<forall>w \<in> set (tb_raw db). \<forall>t c. ev_DeviceTimeUTC (row_event w) = rfc3339nano t \<longrightarrow> text_year t \<longrightarrow> c = t + ev_ClockOffsetMS (row_event w) * 10 ^ 6 \<longrightarrow>
        text_year c \<longrightarrow> start \<le> c \<longrightarrow> c < stop \<longrightarrow>
        (\<exists>p. rawEventProjection w ua = Inr p \<and> tp_CorrectedStartUTC p = fixedUTC c \<and> p \<in> tl_data ` set (tb_entries db')))
    \<and> (\<forall>w \<in> set (tb_segments db). \<forall>t c. mm_DeviceStartUTC (seg_data w) = rfc3339nano t \<longrightarrow> text_year t \<longrightarrow> c = t + mm_ClockOffsetMS (seg_data w) * 10 ^ 6 \<longrightarrow>
        text_year c \<longrightarrow> start \<le> c \<longrightarrow> c < stop \<longrightarrow>
        (\<exists>p. mediaProjection w ua = Inr p \<and> tp_CorrectedStartUTC p = fixedUTC c \<and> p \<in> tl_data ` set (tb_entries db')))
    \<and> (\<forall>w \<in> set (tb_heartbeats db). fixedUTC start \<le> hb_CorrectedStartUTC (hrow_heartbeat w) \<longrightarrow> hb_CorrectedStartUTC (hrow_heartbeat w) < fixedUTC stop \<longrightarrow>
        (\<exists>p. heartbeatProjection w ua = Inr p \<and> p \<in> tl_data ` set (tb_entries db')))
    \<and> (\<forall>w \<in> set (tb_entries db'). w \<in> set (tb_entries db) \<or> fact_projection ua db (tl_data w))
    \<and> tb_raw db' = tb_raw db \<and> tb_heartbeats db' = tb_heartbeats db \<and> tb_segments db' = tb_segments db
    \<and> syncTimelineProjection X S C no_faults False start stop ua mf [] False db' = (Inr (), db')"
proof -
  from sync_stores [OF assms(1,3)] obtain ps where ps: "collectProjections S C flt start stop ua mf [] False db = Inr ps"
    and st: "stores ps (tb_entries db) (tb_entries db')" .
  note ok = sync_ok [OF assms(1,5)]
  have shown: "\<forall>p \<in> set ps. p \<in> tl_data ` set (tb_entries db')" using st by (simp add: stores_def)
  have "collectProjections S C no_faults start stop ua mf [] False db' = Inr ps"
    using collect_no_faults [OF ps] ok(2-4) by (simp add: collectProjections_def)
  with upsert_chunks_again [OF ok(1) shown] have again: "syncTimelineProjection X S C no_faults False start stop ua mf [] False db' = (Inr (), db')"
    by (simp add: syncTimelineProjection_def)
  have "\<forall>w \<in> set (tb_entries db'). w \<in> set (tb_entries db) \<or> fact_projection ua db (tl_data w)"
    using st collect_projections_facts [OF ps] unfolding stores_def by blast
  moreover have "\<exists>p. rawEventProjection w ua = Inr p \<and> tp_CorrectedStartUTC p = fixedUTC c \<and> p \<in> tl_data ` set (tb_entries db')"
    if "w \<in> set (tb_raw db)" "ev_DeviceTimeUTC (row_event w) = rfc3339nano t" "text_year t" "c = t + ev_ClockOffsetMS (row_event w) * 10 ^ 6"
      "text_year c" "start \<le> c" "c < stop" for w t c
    using raw_collected [OF ps assms(2,4,6,7) that] shown by blast
  moreover have "\<exists>p. mediaProjection w ua = Inr p \<and> tp_CorrectedStartUTC p = fixedUTC c \<and> p \<in> tl_data ` set (tb_entries db')"
    if "w \<in> set (tb_segments db)" "mm_DeviceStartUTC (seg_data w) = rfc3339nano t" "text_year t" "c = t + mm_ClockOffsetMS (seg_data w) * 10 ^ 6"
      "text_year c" "start \<le> c" "c < stop" for w t c
    using media_collected [OF ps assms(2,4,6,7) that] shown by blast
  moreover have "\<exists>p. heartbeatProjection w ua = Inr p \<and> p \<in> tl_data ` set (tb_entries db')"
    if "w \<in> set (tb_heartbeats db)" "fixedUTC start \<le> hb_CorrectedStartUTC (hrow_heartbeat w)" "hb_CorrectedStartUTC (hrow_heartbeat w) < fixedUTC stop" for w
    using heartbeat_collected [OF ps that] shown by blast
  ultimately show ?thesis using again ok(2-4) by (intro conjI ballI allI impI) auto
qed

text \<open>
  Whatever faults occur and wherever a synchronisation stops, the table of timeline entries keeps its invariant: ids, source
  keys and stable ids stay unique and every row satisfies the table's checks; the facts are never changed.
\<close>

theorem timeline_sync_invariant:
  assumes "timeline_ok X (tb_entries db)"
  shows "timeline_ok X (tb_entries (snd (syncTimelineProjection X S C flt busy start stop ua mf cid ov db)))
    \<and> timeline_ok X (tb_entries (snd (QueryTimeline X S C flt busy start stop cursor limit ua mf db)))
    \<and> tb_raw (snd (QueryTimeline X S C flt busy start stop cursor limit ua mf db)) = tb_raw db"
proof -
  have s: "timeline_ok X (tb_entries (snd (syncTimelineProjection X S C flt busy start stop ua mf cid' ov' db)))"
    "tb_raw (snd (syncTimelineProjection X S C flt busy start stop ua mf cid' ov' db)) = tb_raw db" for cid' ov'
    using sync_ok [OF _ assms] by (metis prod.collapse)+
  have "snd (QueryTimeline X S C flt busy start stop cursor limit ua mf db)
      \<in> {db, snd (syncTimelineProjection X S C flt busy start stop ua mf [] False db)}"
    by (auto simp: QueryTimeline_def Let_def split: prod.splits sum.splits)
  with s assms show ?thesis by auto
qed

section \<open>Examples\<close>

text \<open>A \<^verbatim>\<open>julianday\<close> that, as SQLite's, counts whole milliseconds and reads nothing but times in the stored form.\<close>

definition stored_time :: "string \<Rightarrow> instant option" where
  "stored_time s = (case parse_rfc3339nano s of None \<Rightarrow> None | Some t \<Rightarrow> if text_year t \<and> rfc3339nano t = s then Some t else None)"

definition ms_julianday :: sql_time where
  "ms_julianday = \<lparr>sq_julianday = (\<lambda>s. map_option (\<lambda>t. of_int (t div 10 ^ 6) / 86400000) (stored_time s)),
     sq_corrected = (\<lambda>s ms. map_option (\<lambda>t. of_int (t div 10 ^ 6) / 86400000 + of_int ms / 86400000) (stored_time s)),
     sq_corrected_end = (\<lambda>s ms payload. None), sq_activitywatch = (\<lambda>payload. False)\<rparr>"

lemma stored_time_text: "text_year t \<Longrightarrow> stored_time (rfc3339nano t) = Some t"
  by (simp add: stored_time_def parse_rfc3339nano_roundtrip)

lemma ms_julianday_accurate: "julianday_accurate ms_julianday"
proof -
  have close: "\<bar>of_int (t div 10 ^ 6) * 10 ^ 6 - (of_int t :: rat)\<bar> \<le> 10 ^ 9 / 2" for t :: int
  proof -
    have "t mod 10 ^ 6 < 10 ^ 6" "0 \<le> t mod 10 ^ 6" by simp_all
    then have "t - 10 ^ 6 \<le> t div 10 ^ 6 * 10 ^ 6" "t div 10 ^ 6 * 10 ^ 6 \<le> t"
      unfolding minus_mod_eq_div_mult [symmetric] by linarith+
    then have "(of_int (t - 10 ^ 6) :: rat) \<le> of_int (t div 10 ^ 6 * 10 ^ 6)" "of_int (t div 10 ^ 6 * 10 ^ 6) \<le> (of_int t :: rat)"
      unfolding of_int_le_iff by blast+
    then show ?thesis by (simp add: abs_le_iff)
  qed
  show ?thesis
    unfolding julianday_accurate_def
  proof (rule exI [of _ 0], intro allI impI conjI)
    fix t ms :: int assume t: "text_year t"
    show "\<exists>r. sq_julianday ms_julianday (rfc3339nano t) = Some r \<and> \<bar>(r - 0) * 86400 * 10 ^ 9 - of_int t\<bar> \<le> 10 ^ 9 / 2"
      using close [of t] by (intro exI [of _ "of_int (t div 10 ^ 6) / 86400000"] conjI) (simp_all add: ms_julianday_def stored_time_text [OF t])
    show "\<exists>r. sq_corrected ms_julianday (rfc3339nano t) ms = Some r \<and> \<bar>(r - 0) * 86400 * 10 ^ 9 - of_int (t + ms * 10 ^ 6)\<bar> \<le> 10 ^ 9 / 2"
      using close [of t] by (intro exI [of _ "of_int (t div 10 ^ 6) / 86400000 + of_int ms / 86400000"] conjI)
        (simp_all add: ms_julianday_def stored_time_text [OF t] algebra_simps)
  qed
qed

definition sample_tl_cfg :: store_cfg where
  "sample_tl_cfg = sample_cfg\<lparr>maxTimelineProjectionBytes := 4096\<rparr>"

definition sample_raw_row :: raw_row where
  "sample_raw_row = \<lparr>row_id = 1, row_event = sample_event\<rparr>"

definition sample_raw_projection :: timelineProjection where
  "sample_raw_projection = \<lparr>tp_StableID = ''event:1'', tp_SourceType = ''raw_event'', tp_SourceID = 1, tp_CollectorID = ''phone'', tp_EventType = ''note'',
     tp_DeviceStartRaw = ''2026-01-02T03:04:05Z'', tp_DeviceEndRaw = [], tp_DeviceStartUTC = ''2026-01-02T03:04:05Z'', tp_DeviceEndUTC = [],
     tp_ReceivedAtUTC = ''2026-01-02T03:04:05.000000000Z'', tp_CorrectedStartUTC = ''2026-01-02T03:04:05.000000000Z'', tp_CorrectedEndUTC = [],
     tp_ClockOffsetMS = 0, tp_ClockErrorMS = 5, tp_ClockUncertain = False, tp_QualityFlagsJSON = ''[]'',
     tp_PayloadJSON = ev_PayloadJSON sample_event, tp_SourceSchemaVersion = 1\<rparr>"

lemma sample_years:
  "text_year (sample_now - hour - second)" "text_year (sample_now + hour + second)" "text_year (sample_now - hour)" "text_year (sample_now + hour)" "text_year sample_now"
  by (simp_all add: text_year_def, code_simp+)

lemma sample_fixed_parse: "parse_rfc3339nano ''2026-01-02T03:04:05.000000000Z'' = Some sample_now" by code_simp

lemma sample_hour: "0 < hour" "0 < second" by (simp_all add: hour_def minute_def second_def)

lemma sample_quality: "qualityJSON [] False = ''[]''" by code_simp

lemma sample_one: "int_digits 1 = ''1''" by code_simp

lemma sample_raw_projected: "rawEventProjection sample_raw_row second = Inr sample_raw_projection"
  using sample_now_parse sample_now_text sample_hb_texts(2) sample_quality sample_one
  by (simp add: rawEventProjection_def sample_raw_row_def sample_event_def sample_raw_projection_def duration_ms_exact millisecond_def second_def)

lemma sample_raw_in_range: "projectionMatchesRange sample_raw_projection (sample_now - hour) (sample_now + hour) False = Inr True"
  using sample_hour by (simp add: projectionMatchesRange_def sample_raw_projection_def sample_fixed_parse)

lemma sample_raw_checks: "timeline_checks sample_ext sample_raw_projection"
  by code_simp

lemma sample_raw_size: "timelineProjectionSize sample_raw_projection \<le> 4096"
  by code_simp

lemmas sample_raw_evals = sample_raw_projected sample_raw_in_range sample_raw_checks sample_raw_size sample_years

definition one_event :: timeline_db where
  "one_event = \<lparr>tb_raw = [sample_raw_row], tb_heartbeats = [], tb_segments = [], tb_entries = []\<rparr>"

lemma one_event_query:
  "rawEventProjectionQueries ms_julianday [] False (rfc3339nano (sample_now - hour - second)) (rfc3339nano (sample_now + hour + second)) [sample_raw_row] = [[sample_raw_row]]"
proof -
  have t: "ev_DeviceTimeUTC (row_event sample_raw_row) = rfc3339nano sample_now" "ev_ClockOffsetMS (row_event sample_raw_row) = 0"
    using sample_now_text by (simp_all add: sample_raw_row_def sample_event_def)
  from corrected_in_candidates [OF ms_julianday_accurate t(1) sample_raw_evals(9), of 0 "sample_now - hour" "sample_now + hour"] sample_raw_evals(5-8) t(2)
  show ?thesis by (simp add: rawEventProjectionQueries_def raw_corrected_def clockOffsetLimit_def hour_def minute_def second_def)
qed

lemma one_event_sync:
  "syncTimelineProjection sample_ext ms_julianday sample_tl_cfg no_faults False (sample_now - hour) (sample_now + hour) second 10 [] False one_event
     = (Inr (), one_event\<lparr>tb_entries := [\<lparr>tl_id = 1, tl_data = sample_raw_projection\<rparr>]\<rparr>)"
proof -
  have "collectProjections ms_julianday sample_tl_cfg no_faults (sample_now - hour) (sample_now + hour) second 10 [] False one_event = Inr [sample_raw_projection]"
    using sample_raw_evals(1,2,4) one_event_query
    by (simp add: collectProjections_def collectRawEventProjections_def collectHeartbeatProjections_def collectMediaProjections_def one_event_def
        heartbeatProjectionQueries_def mediaProjectionQueries_def projectRaw_def in_range_def appendTimelineProjection_def sample_tl_cfg_def Let_def)
  moreover have "upsertChunks sample_ext no_faults 0 [sample_raw_projection] [] = (Inr (), [\<lparr>tl_id = 1, tl_data = sample_raw_projection\<rparr>])"
    using sample_raw_evals(3)
    by (simp add: upsertChunks.simps timelineProjectionChunkSize_def upsertTimelineProjectionChunk_def upsertTimelineProjection_def next_id_def)
  ultimately show ?thesis by (simp add: syncTimelineProjection_def one_event_def)
qed

theorem timeline_sync_complete_witness:
  "\<exists>p. rawEventProjection sample_raw_row second = Inr p \<and> tp_CorrectedStartUTC p = fixedUTC sample_now
     \<and> p \<in> tl_data ` set (tb_entries (snd (syncTimelineProjection sample_ext ms_julianday sample_tl_cfg no_faults False (sample_now - hour) (sample_now + hour) second 10 [] False one_event)))"
proof -
  have t: "ev_DeviceTimeUTC (row_event sample_raw_row) = rfc3339nano sample_now" "ev_ClockOffsetMS (row_event sample_raw_row) = 0"
    using sample_now_text by (simp_all add: sample_raw_row_def sample_event_def)
  have "sources_ok one_event" "offsets_ok one_event" "timeline_ok sample_ext (tb_entries one_event)"
    using t(2) by (simp_all add: sources_ok_def offsets_ok_def timeline_ok_def one_event_def clockOffsetLimit_def)
  from timeline_sync_complete [OF one_event_sync ms_julianday_accurate this sample_raw_evals(5,6), THEN conjunct1] t sample_raw_evals(9)
  show ?thesis unfolding one_event_sync by (auto simp: one_event_def hour_def minute_def second_def)
qed

theorem timeline_sync_invariant_witness:
  "timeline_ok sample_ext (tb_entries (snd (QueryTimeline sample_ext ms_julianday sample_tl_cfg no_faults False (sample_now - hour) (sample_now + hour) [] 1 second 10 one_event)))"
  using timeline_sync_invariant [of sample_ext one_event] by (simp add: timeline_ok_def one_event_def)

text \<open>Two entries read in pages of one; with no facts to project, a synchronisation leaves the table alone.\<close>

definition entries_only :: "timeline_row list \<Rightarrow> timeline_db" where
  "entries_only rows = \<lparr>tb_raw = [], tb_heartbeats = [], tb_segments = [], tb_entries = rows\<rparr>"

lemma entries_only_sync:
  "syncTimelineProjection X S C no_faults False start stop ua mf [] False (entries_only rows) = (Inr (), entries_only rows)"
  by (simp add: syncTimelineProjection_def collectProjections_def collectRawEventProjections_def collectHeartbeatProjections_def collectMediaProjections_def
      entries_only_def rawEventProjectionQueries_def heartbeatProjectionQueries_def mediaProjectionQueries_def upsertChunks.simps Let_def)

lemma tb_entries_only: "tb_entries (entries_only rows) = rows" by (simp add: entries_only_def)

definition two_entries :: "timeline_row list" where
  "two_entries = [\<lparr>tl_id = 1, tl_data = sample_raw_projection\<rparr>, \<lparr>tl_id = 2, tl_data = sample_raw_projection\<lparr>tp_StableID := ''event:2'', tp_SourceID := 2\<rparr>\<rparr>]"

lemma two_entries_evals:
  "unmarshal_strings ''[]'' = Some []" "fixedUTC (sample_now - hour) \<le> ''2026-01-02T03:04:05.000000000Z''" "''2026-01-02T03:04:05.000000000Z'' < fixedUTC (sample_now + hour)"
  by code_simp+

definition two_heartbeats :: "timeline_row list" where
  "two_heartbeats = map (\<lambda>w. w\<lparr>tl_data := (tl_data w)\<lparr>tp_SourceType := ''heartbeat'', tp_EventType := ''collector.heartbeat'', tp_ReceivedAtUTC := ''2026-01-02T03:04:05Z''\<rparr>\<rparr>) two_entries"

lemma two_entries_ok: "\<forall>w \<in> set two_entries. entry_ok w \<and> \<not> cursor_rejected w"
  using two_entries_evals sample_raw_evals(9) sample_hb_texts(2)
  by (auto simp: two_entries_def entry_ok_def received_text_def cursor_rejected_def sample_raw_projection_def int64_max_def intro!: exI [of _ sample_now])

lemma two_heartbeats_ok: "\<forall>w \<in> set two_heartbeats. entry_ok w \<and> cursor_rejected w"
proof -
  have "nsec_of sample_now mod 10 = 0" by code_simp
  then show ?thesis
    using two_entries_evals sample_raw_evals(9) sample_hb_texts(2) sample_now_text
    by (auto simp: two_heartbeats_def two_entries_def entry_ok_def received_text_def cursor_rejected_def sample_raw_projection_def int64_max_def
        intro!: exI [of _ sample_now])
qed

text \<open>Entries of raw events are rejected by no cursor; of two heartbeats received at a full second the first one ends the reading.\<close>

theorem timeline_cursor_roundtrip_witness:
  "decodeTimelineCursor (encodeTimelineCursor (cursor_at 2 (fixedUTC (sample_now - hour)) (fixedUTC (sample_now + hour)) (hd two_entries)))
     = Inr (cursor_at 2 (fixedUTC (sample_now - hour)) (fixedUTC (sample_now + hour)) (hd two_entries))
   \<and> decodeTimelineCursor (encodeTimelineCursor (cursor_at 2 (fixedUTC (sample_now - hour)) (fixedUTC (sample_now + hour)) (hd two_heartbeats)))
     = Inl timeline_cursor_error"
proof -
  have "sample_now - hour < sample_now + hour" using sample_hour by simp
  then have "cursor_for 2 (sample_now - hour) (sample_now + hour) (hd two_entries)" "cursor_for 2 (sample_now - hour) (sample_now + hour) (hd two_heartbeats)"
    using two_entries_ok two_heartbeats_ok sample_years unfolding cursor_for_def
    by (simp_all add: two_heartbeats_def two_entries_def int64_max_def)
  moreover have "\<not> cursor_rejected (hd two_entries)" "cursor_rejected (hd two_heartbeats)"
    using two_entries_ok two_heartbeats_ok by (simp_all add: two_heartbeats_def two_entries_def)
  ultimately show ?thesis
    using timeline_cursor_roundtrip [OF _ refl, of 2 "sample_now - hour" "sample_now + hour" "hd two_entries"]
      timeline_cursor_roundtrip [OF _ refl, of 2 "sample_now - hour" "sample_now + hour" "hd two_heartbeats"] by simp
qed

lemma two_in_range:
  "sort_key entry_order (filter (\<lambda>w. fixedUTC (sample_now - hour) \<le> tp_CorrectedStartUTC (tl_data w)
     \<and> tp_CorrectedStartUTC (tl_data w) < fixedUTC (sample_now + hour)) (tb_entries (entries_only two_entries))) = two_entries"
  "sort_key entry_order (filter (\<lambda>w. fixedUTC (sample_now - hour) \<le> tp_CorrectedStartUTC (tl_data w)
     \<and> tp_CorrectedStartUTC (tl_data w) < fixedUTC (sample_now + hour)) (tb_entries (entries_only two_heartbeats))) = two_heartbeats"
  using two_entries_evals
  by (simp_all add: entries_only_def two_heartbeats_def two_entries_def sample_raw_projection_def entry_order_def less_eq_prod_def)

theorem timeline_pagination_complete_witness:
  "drainTimeline sample_ext ms_julianday sample_tl_cfg (sample_now - hour) (sample_now + hour) 1 second 10 2 [] (entries_only two_entries)
     = Some (map entry_of two_entries)
   \<and> drainTimeline sample_ext ms_julianday sample_tl_cfg (sample_now - hour) (sample_now + hour) 1 second 10 2 [] (entries_only two_heartbeats) = None"
proof -
  have g: "sample_now - hour < sample_now + hour" "(0 :: int) \<le> second" "1 \<le> maxPageSize sample_tl_cfg"
    using sample_hour by (simp_all add: sample_tl_cfg_def sample_cfg_def)
  note use = timeline_pagination_complete [where X = sample_ext and mf = 10 and n = 2,
      OF g(1) sample_raw_evals(7,8) _ g(3,2) _ entries_only_sync _ _ two_in_range(1) [symmetric]]
    timeline_pagination_complete [where X = sample_ext and mf = 10 and n = 2,
      OF g(1) sample_raw_evals(7,8) _ g(3,2) _ entries_only_sync _ _ two_in_range(2) [symmetric]]
  have "\<exists>k > 0. k * nat 1 < length two_heartbeats \<and> cursor_rejected (two_heartbeats ! (k * nat 1 - 1))"
    using two_heartbeats_ok by (intro exI [of _ 1]) (simp add: two_heartbeats_def two_entries_def)
  moreover have "\<not> cursor_rejected (two_entries ! (k * nat 1 - 1))" if "k * nat 1 < length two_entries" for k
    using two_entries_ok that by (metis diff_le_self le_less_trans nth_mem)
  ultimately show ?thesis
    using use two_entries_ok two_heartbeats_ok
    by (auto simp: tb_entries_only two_heartbeats_def two_entries_def int64_max_def)
qed

theorem timeline_heartbeat_cursor_rejected_witness:
  "\<exists>page. QueryTimeline sample_ext ms_julianday sample_tl_cfg no_faults False (sample_now - hour) (sample_now + hour) [] 1 second 10 (entries_only two_heartbeats)
       = (Inr page, entries_only two_heartbeats)
     \<and> fst (QueryTimeline sample_ext ms_julianday sample_tl_cfg no_faults False (sample_now - hour) (sample_now + hour) (tg_NextCursor page) 1 second 10
         (entries_only two_heartbeats)) = Inl timeline_cursor_error"
proof -
  let ?q = "QueryTimeline sample_ext ms_julianday sample_tl_cfg no_faults False (sample_now - hour) (sample_now + hour) [] 1 second 10 (entries_only two_heartbeats)"
  define c where "c = \<lparr>tc_Version = 1, tc_RangeStartUTC = fixedUTC (sample_now - hour), tc_RangeEndUTC = fixedUTC (sample_now + hour), tc_SnapshotID = 2, tc_CorrectedUTC = [],
     tc_ReceivedUTC = [], tc_SourceType = [], tc_SourceID = 0, tc_ProjectionID = 0\<rparr>"
  have rows: "range_rows 2 (fixedUTC (sample_now - hour)) (fixedUTC (sample_now + hour)) two_heartbeats = two_heartbeats"
    using two_entries_evals by (simp add: range_rows_def two_heartbeats_def two_entries_def sample_raw_projection_def entry_order_def less_eq_prod_def)
  have page: "timelinePage no_faults (fixedUTC (sample_now - hour)) (fixedUTC (sample_now + hour)) c 1 two_heartbeats = Inr
      \<lparr>tg_RangeStartUTC = fixedUTC (sample_now - hour), tg_RangeEndUTC = fixedUTC (sample_now + hour), tg_SnapshotID = 2, tg_Entries = [entry_of (hd two_heartbeats)],
        tg_NextCursor = encodeTimelineCursor (cursor_at 2 (fixedUTC (sample_now - hour)) (fixedUTC (sample_now + hour)) (hd two_heartbeats))\<rparr>"
    (is "_ = Inr ?page")
    by (subst timeline_page_no_faults [of 1 two_heartbeats])
      (use rows two_entries_evals in \<open>simp_all add: c_def afterCursor_def Let_def filter_id_conv two_heartbeats_def two_entries_def sample_raw_projection_def\<close>)
  have m: "max_entry_id two_heartbeats = 2" by (simp add: max_entry_id_def two_heartbeats_def two_entries_def)
  have g: "sample_now - hour < sample_now + hour" "0 \<le> second" "1 \<le> maxPageSize sample_tl_cfg"
    using sample_hour by (simp_all add: sample_tl_cfg_def sample_cfg_def)
  have q: "?q = (Inr ?page, entries_only two_heartbeats)"
    using page g by (simp add: QueryTimeline_def Let_def entries_only_sync m c_def tb_entries_only)
  have n: "nsec_of sample_now mod 10 = 0" by code_simp
  have "fst (QueryTimeline sample_ext ms_julianday sample_tl_cfg no_faults False (sample_now - hour) (sample_now + hour) (tg_NextCursor ?page) 1 second 10
         (entries_only two_heartbeats)) = Inl timeline_cursor_error"
    by (rule timeline_heartbeat_cursor_rejected [OF q _ refl _ _ sample_raw_evals(9) n _ sample_raw_evals(9,7,8)])
       (simp_all add: two_heartbeats_def two_entries_def entry_of_def sample_raw_projection_def sample_now_text sample_hb_texts(2) int64_max_def)
  with q show ?thesis by blast
qed

end
