(* ===== verification/Coverage_Store.thy ===== *)
theory Coverage_Store
  imports Timeline Coverage_Calc Config Keyed_Log
begin

text \<open>
  The stored coverage, \<^verbatim>\<open>internal/eventstore/coverage.go\<close>: for each enabled collector the timeline is synchronised, the collector's
  entries become facts, the coverage calculation turns them into intervals, and one transaction replaces the collector's
  intervals by the new generation; a collector whose rebuild fails is marked stale and keeps its intervals.
\<close>

abbreviation (input) "CodeCoverageRangeInvalid \<equiv> ''COVERAGE_RANGE_INVALID''"
abbreviation (input) "CodeCoverageBuildFailed \<equiv> ''COVERAGE_BUILD_FAILED''"

section \<open>Data\<close>

record CoverageInterval =
  ci_ID :: int
  ci_CollectorID :: string
  ci_StartUTC :: string
  ci_EndUTC :: string
  ci_Availability :: string
  ci_QualityFlags :: "string list"
  ci_ReasonCode :: string
  ci_Generation :: int
  ci_BuiltAtUTC :: string

record CoverageProjectionStatus =
  cs_CollectorID :: string
  cs_RangeStartUTC :: string
  cs_RangeEndUTC :: string
  cs_Generation :: int
  cs_Status :: string
  cs_ErrorCode :: string
  cs_FactWatermark :: int
  cs_BuiltAtUTC :: string

record CoverageResult =
  cr_RangeStartUTC :: string
  cr_RangeEndUTC :: string
  cr_Projections :: "CoverageProjectionStatus list"
  cr_Intervals :: "CoverageInterval list"

text \<open>A row of \<^verbatim>\<open>coverage_intervals\<close> has the flags as JSON.  A row of \<^verbatim>\<open>coverage_projection_state\<close> has the columns of the status;
  a NULL error code is the empty text.\<close>

record coverage_row =
  ri_interval :: CoverageInterval
  ri_flags_json :: string

record coverage_db = timeline_db +
  cb_intervals :: "coverage_row list"
  cb_states :: "CoverageProjectionStatus list"

section \<open>Facts from timeline entries\<close>

record coveragePayload =
  cp_State :: string
  cp_BucketType :: string
  cp_Data :: "(string \<times> jitem list) list"

definition zeroCoveragePayload :: coveragePayload where
  "zeroCoveragePayload = \<lparr>cp_State = [], cp_BucketType = [], cp_Data = []\<rparr>"

text \<open>
  Decoding into \<^verbatim>\<open>map[string]json.RawMessage\<close>: null empties the map, an object adds its members to it.
\<close>

definition dec_raw_map :: "jitem list \<Rightarrow> (string \<times> jitem list) list \<Rightarrow> (string \<times> jitem list) list option" where
  "dec_raw_map v old = (if map it_tok v = [TNull] then Some [] else map_option (\<lambda>ms. rev ms @ old) (value_members v))"

definition setStateField :: "string \<Rightarrow> jitem list \<Rightarrow> coveragePayload \<Rightarrow> coveragePayload option" where
  "setStateField name v st = (if name = ''state'' then map_option (\<lambda>x. st\<lparr>cp_State := x\<rparr>) (dec_str v (cp_State st)) else None)"

definition setActivityField :: "string \<Rightarrow> jitem list \<Rightarrow> coveragePayload \<Rightarrow> coveragePayload option" where
  "setActivityField name v st =
     (if name = ''bucket_type'' then map_option (\<lambda>x. st\<lparr>cp_BucketType := x\<rparr>) (dec_str v (cp_BucketType st))
      else if name = ''data'' then map_option (\<lambda>x. st\<lparr>cp_Data := x\<rparr>) (dec_raw_map v (cp_Data st))
      else None)"

text \<open>\<^verbatim>\<open>json.Unmarshal(payload.Data["status"], &status)\<close> with its error ignored.\<close>

definition activityStatus :: "coveragePayload \<Rightarrow> string" where
  "activityStatus payload =
     (case map_of (cp_Data payload) ''status'' of None \<Rightarrow> []
      | Some v \<Rightarrow> (case dec_str v [] of None \<Rightarrow> [] | Some s \<Rightarrow> s))"

text \<open>\<^const>\<open>None\<close> for a fact that is not usable.\<close>

definition timelineCoverageFact :: "timelineProjection \<Rightarrow> go_error + Fact option" where
  "timelineCoverageFact p =
     (if tp_CorrectedEndUTC p = [] then Inr None
      else case (parse_fixedUTC (tp_CorrectedStartUTC p), parse_fixedUTC (tp_CorrectedEndUTC p)) of
        (Some start, Some stop) \<Rightarrow>
          if stop < start then Inl (StoreErr CodeCoverageBuildFailed ''timeline coverage fact has invalid bounds'')
          else if start = stop then Inr None
          else bind_result (require_some (unmarshal_strings (tp_QualityFlagsJSON p))
              (StoreErr CodeCoverageBuildFailed ''timeline coverage quality flags are invalid'')) (\<lambda>flags.
            let ft = \<lparr>f_Start = start, f_End = stop, f_Availability = Covered, f_QualityFlags = flags, f_ReasonCode = ''EVIDENCE_INTERVAL'',
                  f_Priority = 20, f_StableID = tp_StableID p\<rparr>
            in if tp_SourceType p = ''heartbeat'' then
                 bind_result (require_some (unmarshal [''state''] setStateField zeroCoveragePayload (tp_PayloadJSON p))
                   (StoreErr CodeCoverageBuildFailed ''heartbeat projection payload is invalid'')) (\<lambda>payload.
                     Inr (Some (if cp_State payload = HeartbeatStateIdle
                       then ft\<lparr>f_Priority := 30, f_Availability := ConfirmedIdle, f_ReasonCode := ''HEARTBEAT_IDLE''\<rparr>
                       else ft\<lparr>f_Priority := 30, f_ReasonCode := ''HEARTBEAT_ACTIVE''\<rparr>)))
               else if tp_SourceType p = ''raw_event'' then
                 if tp_EventType p \<noteq> ''activitywatch.event'' then Inr None
                 else case unmarshal [''bucket_type'', ''data''] setActivityField zeroCoveragePayload (tp_PayloadJSON p) of
                   None \<Rightarrow> Inr None
                 | Some payload \<Rightarrow>
                     Inr (Some (if activityStatus payload = ''afk'' \<and> (cp_BucketType payload = ''afkstatus'' \<or> cp_BucketType payload = ''currentafkstatus'')
                       then ft\<lparr>f_Availability := ConfirmedIdle, f_Priority := 40, f_ReasonCode := ''ACTIVITYWATCH_AFK''\<rparr>
                       else ft\<lparr>f_ReasonCode := ''ACTIVITYWATCH_EVENT''\<rparr>))
               else if tp_SourceType p = ''media_segment'' then Inr (Some (ft\<lparr>f_Priority := 30, f_ReasonCode := ''MEDIA_ACCEPTED''\<rparr>))
               else Inl (StoreErr CodeCoverageBuildFailed ''unsupported timeline coverage source''))
      | _ \<Rightarrow> Inl (StoreErr CodeCoverageBuildFailed ''timeline coverage fact has invalid bounds''))"

section \<open>Rebuilding one collector\<close>

definition selectCoverageFacts :: "string \<Rightarrow> string \<Rightarrow> string \<Rightarrow> timeline_row list \<Rightarrow> timeline_row list" where
  "selectCoverageFacts collectorID endText fromText rows =
     sort_key (\<lambda>w. (tp_CorrectedStartUTC (tl_data w), tl_id w))
       (filter (\<lambda>w. let p = tl_data w in
          tp_CollectorID p = collectorID \<and> tp_CorrectedStartUTC p < endText
          \<and> (if tp_CorrectedEndUTC p = [] then tp_CorrectedStartUTC p else tp_CorrectedEndUTC p) > fromText
          \<and> tp_CorrectedEndUTC p \<noteq> [] \<and> tp_CorrectedEndUTC p > tp_CorrectedStartUTC p
          \<and> (tp_SourceType p \<in> set [''heartbeat'', ''media_segment''] \<or> (tp_SourceType p = ''raw_event'' \<and> tp_EventType p = ''activitywatch.event''))) rows)"

fun coverageFacts :: "faults \<Rightarrow> int \<Rightarrow> nat \<Rightarrow> timeline_row list \<Rightarrow> Fact list \<Rightarrow> int \<Rightarrow> go_error + Fact list \<times> int" where
  "coverageFacts flt maxFacts i [] facts watermark = Inr (facts, watermark)"
| "coverageFacts flt maxFacts i (w # ws) facts watermark =
     bind_result (db_read flt CodeCoverageBuildFailed ''scan coverage fact'' i) (\<lambda>_.
     bind_result (timelineCoverageFact (tl_data w)) (\<lambda>usable.
       case usable of None \<Rightarrow> coverageFacts flt maxFacts (Suc i) ws facts watermark
       | Some ft \<Rightarrow>
           if int (length facts) \<ge> maxFacts
           then Inl (StoreErr CodeTimelineFactLimit ''collector coverage exceeds the configured fact limit'')
           else coverageFacts flt maxFacts (Suc i) ws (facts @ [ft]) (if tl_id w > watermark then tl_id w else watermark)))"

text \<open>The CHECK constraints and the trigger of \<^verbatim>\<open>migrations/004_collectors_timeline.sql\<close>.\<close>

definition sqlite_constraint_trigger :: int where "sqlite_constraint_trigger = 1811"

definition coverage_interval_checks :: "ext \<Rightarrow> coverage_row \<Rightarrow> bool" where
  "coverage_interval_checks X w \<longleftrightarrow>
     (let c = ri_interval w in
      between 1 128 (ci_CollectorID c) \<and> sql_length (ci_StartUTC c) = 30 \<and> sql_length (ci_EndUTC c) = 30
      \<and> ci_Availability c \<in> set [Covered, ConfirmedIdle, Pending, Delayed, Offline, Unknown]
      \<and> json_valid X (ri_flags_json w) \<and> take 1 (ri_flags_json w) = ''['' \<and> between 1 128 (ci_ReasonCode c)
      \<and> ci_Generation c > 0 \<and> sql_length (ci_BuiltAtUTC c) = 30 \<and> ci_StartUTC c < ci_EndUTC c)"

definition intervals_overlap :: "coverage_row \<Rightarrow> coverage_row \<Rightarrow> bool" where
  "intervals_overlap existing w \<longleftrightarrow>
     ci_CollectorID (ri_interval existing) = ci_CollectorID (ri_interval w)
     \<and> ci_StartUTC (ri_interval existing) < ci_EndUTC (ri_interval w) \<and> ci_EndUTC (ri_interval existing) > ci_StartUTC (ri_interval w)"

definition insertCoverageInterval :: "ext \<Rightarrow> coverage_row \<Rightarrow> coverage_row list \<Rightarrow> sql_fault + coverage_row list" where
  "insertCoverageInterval X w rows =
     (if list_ex (\<lambda>existing. intervals_overlap existing w) rows then Inl (FaultSqlite sqlite_constraint_trigger)
      else if \<not> coverage_interval_checks X w then Inl (FaultSqlite sqlite_constraint_check)
      else if list_ex (\<lambda>v. ci_CollectorID (ri_interval v) = ci_CollectorID (ri_interval w) \<and> ci_StartUTC (ri_interval v) = ci_StartUTC (ri_interval w)
          \<and> ci_EndUTC (ri_interval v) = ci_EndUTC (ri_interval w)) rows
      then Inl (FaultSqlite sqlite_constraint_unique)
      else Inr (rows @ [w]))"

definition coverage_state_checks :: "CoverageProjectionStatus \<Rightarrow> bool" where
  "coverage_state_checks s \<longleftrightarrow>
     between 1 128 (cs_CollectorID s) \<and> sql_length (cs_RangeStartUTC s) = 30 \<and> sql_length (cs_RangeEndUTC s) = 30
     \<and> cs_Generation s > 0 \<and> cs_Status s \<in> set [''fresh'', ''stale''] \<and> cs_FactWatermark s \<ge> 0 \<and> sql_length (cs_BuiltAtUTC s) = 30
     \<and> cs_RangeStartUTC s < cs_RangeEndUTC s"

text \<open>\<^verbatim>\<open>INSERT ... ON CONFLICT(collector_id) DO UPDATE\<close>, given what the update makes of the stored row.\<close>

definition upsertCoverageState :: "(CoverageProjectionStatus \<Rightarrow> CoverageProjectionStatus) \<Rightarrow> CoverageProjectionStatus \<Rightarrow> CoverageProjectionStatus list
    \<Rightarrow> sql_fault + CoverageProjectionStatus list" where
  "upsertCoverageState update s rows =
     (if \<not> coverage_state_checks s then Inl (FaultSqlite sqlite_constraint_check)
      else if \<not> list_ex (\<lambda>v. cs_CollectorID v = cs_CollectorID s) rows then Inr (rows @ [s])
      else if \<not> list_all (\<lambda>v. cs_CollectorID v = cs_CollectorID s \<longrightarrow> coverage_state_checks (update v)) rows
      then Inl (FaultSqlite sqlite_constraint_check)
      else Inr (map (\<lambda>v. if cs_CollectorID v = cs_CollectorID s then update v else v) rows))"

definition storedGeneration :: "string \<Rightarrow> CoverageProjectionStatus list \<Rightarrow> int" where
  "storedGeneration collectorID rows =
     (case List.find (\<lambda>v. cs_CollectorID v = collectorID) rows of None \<Rightarrow> 0 | Some v \<Rightarrow> cs_Generation v)"

fun insertIntervals :: "ext \<Rightarrow> faults \<Rightarrow> string \<Rightarrow> int \<Rightarrow> string \<Rightarrow> nat \<Rightarrow> Interval list \<Rightarrow> coverage_row list
    \<Rightarrow> go_error + CoverageInterval list \<times> coverage_row list" where
  "insertIntervals X flt collectorID generation builtAt i [] rows = Inr ([], rows)"
| "insertIntervals X flt collectorID generation builtAt i (iv # ivs) rows =
     (let c = \<lparr>ci_ID = next_id (ci_ID \<circ> ri_interval) rows, ci_CollectorID = collectorID, ci_StartUTC = fixedUTC (iv_Start iv), ci_EndUTC = fixedUTC (iv_End iv),
            ci_Availability = iv_Availability iv, ci_QualityFlags = iv_QualityFlags iv, ci_ReasonCode = iv_ReasonCode iv,
            ci_Generation = generation, ci_BuiltAtUTC = builtAt\<rparr>
      in bind_result (db_call flt CodeCoverageBuildFailed ''insert coverage interval'' i) (\<lambda>_.
           case insertCoverageInterval X \<lparr>ri_interval = c, ri_flags_json = qualityJSON (iv_QualityFlags iv) False\<rparr> rows of
             Inl f \<Rightarrow> Inl (classifySQLiteError CodeCoverageBuildFailed ''insert coverage interval'' f)
           | Inr rows' \<Rightarrow>
               bind_result (db_read flt CodeCoverageBuildFailed ''read coverage interval id'' i) (\<lambda>_.
               bind_result (insertIntervals X flt collectorID generation builtAt (Suc i) ivs rows') (\<lambda>(stored, rows'').
                 Inr (c # stored, rows'')))))"

text \<open>The transaction that replaces the intervals of a collector; on an error nothing of it stays.\<close>

definition storeCoverage :: "ext \<Rightarrow> faults \<Rightarrow> string \<Rightarrow> string \<Rightarrow> string \<Rightarrow> string \<Rightarrow> int \<Rightarrow> Interval list \<Rightarrow> coverage_row list \<Rightarrow> CoverageProjectionStatus list
    \<Rightarrow> go_error + (CoverageProjectionStatus \<times> CoverageInterval list) \<times> coverage_row list \<times> CoverageProjectionStatus list" where
  "storeCoverage X flt collectorID startText endText builtAt watermark intervals rows states =
     bind_result (db_call flt CodeCoverageBuildFailed ''begin coverage rebuild'' 0) (\<lambda>_.
     bind_result (db_call flt CodeCoverageBuildFailed ''read coverage generation'' 0) (\<lambda>_.
       let generation = storedGeneration collectorID states + 1
       in bind_result (db_call flt CodeCoverageBuildFailed ''replace coverage intervals'' 0) (\<lambda>_.
          bind_result (insertIntervals X flt collectorID generation builtAt 0 intervals
              (filter (\<lambda>w. ci_CollectorID (ri_interval w) \<noteq> collectorID) rows)) (\<lambda>(stored, rows').
            let status = \<lparr>cs_CollectorID = collectorID, cs_RangeStartUTC = startText, cs_RangeEndUTC = endText, cs_Generation = generation,
                  cs_Status = ''fresh'', cs_ErrorCode = [], cs_FactWatermark = watermark, cs_BuiltAtUTC = builtAt\<rparr>
            in bind_result (db_call flt CodeCoverageBuildFailed ''save coverage projection state'' 0) (\<lambda>_.
                 case upsertCoverageState (\<lambda>_. status) status states of
                   Inl f \<Rightarrow> Inl (classifySQLiteError CodeCoverageBuildFailed ''save coverage projection state'' f)
                 | Inr states' \<Rightarrow>
                     bind_result (db_call flt CodeCoverageBuildFailed ''commit coverage rebuild'' 0) (\<lambda>_.
                       Inr ((status, stored), rows', states')))))))"

text \<open>
  The collector's rebuild; \<^const>\<open>None\<close> when the coverage calculation does not return.
\<close>

definition rebuildCollectorCoverage :: "ext \<Rightarrow> (string \<Rightarrow> location option) \<Rightarrow> faults \<Rightarrow> instant \<Rightarrow> CollectorConfig \<Rightarrow> instant \<Rightarrow> instant \<Rightarrow> instant \<Rightarrow> int
    \<Rightarrow> 'z coverage_db_scheme \<Rightarrow> ((go_error + CoverageProjectionStatus \<times> CoverageInterval list) \<times> 'z coverage_db_scheme) option" where
  "rebuildCollectorCoverage X loadLocation flt storeNow collector start stop now maxFacts db =
     (case bind_result (db_call flt CodeCoverageBuildFailed ''read coverage facts'' 0) (\<lambda>_.
           bind_result (coverageFacts flt maxFacts 0
              (selectCoverageFacts (cc_ID collector) (fixedUTC stop) (fixedUTC (start - OfflineAfterDuration collector)) (tb_entries db)) [] 0) (\<lambda>found.
           bind_result (db_call flt CodeCoverageBuildFailed ''iterate coverage facts'' 0) (\<lambda>_. Inr found))) of
        Inl e \<Rightarrow> Some (Inl e, db)
      | Inr (facts, watermark) \<Rightarrow>
          (case Build loadLocation collector start stop now facts of
             None \<Rightarrow> None
           | Some (Inl e) \<Rightarrow> Some (Inl (StoreErr CodeCoverageBuildFailed ''build coverage''), db)
           | Some (Inr intervals) \<Rightarrow>
               (case storeCoverage X flt (cc_ID collector) (fixedUTC start) (fixedUTC stop) (fixedUTC storeNow) watermark intervals (cb_intervals db) (cb_states db) of
                  Inl e \<Rightarrow> Some (Inl e, db)
                | Inr (result, rows, states) \<Rightarrow> Some (Inr result, db\<lparr>cb_intervals := rows, cb_states := states\<rparr>))))"

text \<open>Both statements may fail without notice.\<close>

definition markCoverageStale :: "faults \<Rightarrow> instant \<Rightarrow> string \<Rightarrow> instant \<Rightarrow> instant \<Rightarrow> go_error \<Rightarrow> 'z coverage_db_scheme \<Rightarrow> CoverageProjectionStatus \<times> 'z coverage_db_scheme" where
  "markCoverageStale flt storeNow collectorID start stop buildErr db =
     (let builtAt = fixedUTC storeNow;
          code = (if ErrorCode buildErr = [] then CodeCoverageBuildFailed else ErrorCode buildErr);
          read = (if flt ''read stale coverage generation'' 0 = None then storedGeneration collectorID (cb_states db) else 0);
          generation = (if read < 1 then 1 else read);
          status = \<lparr>cs_CollectorID = collectorID, cs_RangeStartUTC = fixedUTC start, cs_RangeEndUTC = fixedUTC stop, cs_Generation = generation,
            cs_Status = ''stale'', cs_ErrorCode = code, cs_FactWatermark = 0, cs_BuiltAtUTC = builtAt\<rparr>;
          update = (\<lambda>v. v\<lparr>cs_RangeStartUTC := fixedUTC start, cs_RangeEndUTC := fixedUTC stop, cs_Status := ''stale'', cs_ErrorCode := code, cs_BuiltAtUTC := builtAt\<rparr>);
          states = (if flt ''mark coverage stale'' 0 \<noteq> None then cb_states db
                    else case upsertCoverageState update status (cb_states db) of Inl _ \<Rightarrow> cb_states db | Inr states' \<Rightarrow> states')
      in (status, db\<lparr>cb_states := states\<rparr>))"

section \<open>Rebuilding all collectors\<close>

text \<open>What the outside does while one collector is processed.\<close>

record coverage_env =
  ce_faults :: faults
  ce_busy :: bool
  ce_now :: instant
  ce_stale_now :: instant
  ce_context_done :: bool

fun rebuildLoop :: "ext \<Rightarrow> sql_time \<Rightarrow> store_cfg \<Rightarrow> (string \<Rightarrow> location option) \<Rightarrow> (nat \<Rightarrow> coverage_env) \<Rightarrow> nat \<Rightarrow> CollectorConfig list \<Rightarrow> instant \<Rightarrow> instant \<Rightarrow> instant
    \<Rightarrow> duration \<Rightarrow> int \<Rightarrow> CoverageResult \<Rightarrow> 'z coverage_db_scheme \<Rightarrow> (CoverageResult \<times> go_error option \<times> 'z coverage_db_scheme) option" where
  "rebuildLoop X S C loadLocation env k [] start stop now uncertainAfter maxFacts result db = Some (result, None, db)"
| "rebuildLoop X S C loadLocation env k (collector # collectors) start stop now uncertainAfter maxFacts result db =
     (let e = env k; continue = rebuildLoop X S C loadLocation env (Suc k) collectors start stop now uncertainAfter maxFacts;
          stale = (\<lambda>err db. let (status, db') = markCoverageStale (ce_faults e) (ce_stale_now e) (cc_ID collector) start stop err db
                            in continue (result\<lparr>cr_Projections := cr_Projections result @ [status]\<rparr>) db')
      in if \<not> cc_Enabled collector then continue result db
         else case syncTimelineProjection X S C (ce_faults e) (ce_busy e) (start - OfflineAfterDuration collector) stop uncertainAfter maxFacts (cc_ID collector) True db of
           (Inl err, db1) \<Rightarrow>
             if ErrorCode err = CodeTimelineSyncBusy \<or> ErrorCode err = CodeCanceled then Some (result, Some err, db1) else stale err db1
         | (Inr _, db1) \<Rightarrow>
             (case rebuildCollectorCoverage X loadLocation (ce_faults e) (ce_now e) collector start stop now maxFacts db1 of
                None \<Rightarrow> None
              | Some (Inl err, db2) \<Rightarrow>
                  if ErrorCode err = CodeCanceled \<or> ce_context_done e then Some (result, Some err, db2) else stale err db2
              | Some (Inr (status, intervals), db2) \<Rightarrow>
                  continue (result\<lparr>cr_Projections := cr_Projections result @ [status], cr_Intervals := cr_Intervals result @ intervals\<rparr>) db2))"

definition RebuildCoverage :: "ext \<Rightarrow> sql_time \<Rightarrow> store_cfg \<Rightarrow> (string \<Rightarrow> location option) \<Rightarrow> (nat \<Rightarrow> coverage_env) \<Rightarrow> CollectorConfig list \<Rightarrow> instant \<Rightarrow> instant \<Rightarrow> instant
    \<Rightarrow> duration \<Rightarrow> int \<Rightarrow> 'z coverage_db_scheme \<Rightarrow> (CoverageResult \<times> go_error option \<times> 'z coverage_db_scheme) option" where
  "RebuildCoverage X S C loadLocation env collectors start stop now uncertainAfter maxFacts db =
     (if \<not> start < stop \<or> maxFacts < 1
      then Some (\<lparr>cr_RangeStartUTC = [], cr_RangeEndUTC = [], cr_Projections = [], cr_Intervals = []\<rparr>,
             Some (StoreErr CodeCoverageRangeInvalid ''coverage range or limits are invalid''), db)
      else rebuildLoop X S C loadLocation env 0 collectors start stop now uncertainAfter maxFacts
             \<lparr>cr_RangeStartUTC = fixedUTC start, cr_RangeEndUTC = fixedUTC stop, cr_Projections = [], cr_Intervals = []\<rparr> db)"

section \<open>Facts\<close>

text \<open>What a usable fact says is what its entry says.\<close>

definition entry_supports :: "timelineProjection \<Rightarrow> instant \<Rightarrow> string \<Rightarrow> bool" where
  "entry_supports p t availability \<longleftrightarrow>
     (\<exists>start stop. parse_fixedUTC (tp_CorrectedStartUTC p) = Some start \<and> parse_fixedUTC (tp_CorrectedEndUTC p) = Some stop \<and> start \<le> t \<and> t < stop)
     \<and> (\<exists>ft. timelineCoverageFact p = Inr (Some ft) \<and> f_Availability ft = availability)"

lemma coverage_fact_sound:
  assumes "timelineCoverageFact p = Inr (Some ft)"
  shows "parse_fixedUTC (tp_CorrectedStartUTC p) = Some (f_Start ft)" "parse_fixedUTC (tp_CorrectedEndUTC p) = Some (f_End ft)"
    "f_Start ft < f_End ft" "f_Availability ft \<in> {Covered, ConfirmedIdle}" "f_StableID ft = tp_StableID p"
    "f_ReasonCode ft \<in> set [''HEARTBEAT_IDLE'', ''HEARTBEAT_ACTIVE'', ''ACTIVITYWATCH_AFK'', ''ACTIVITYWATCH_EVENT'', ''MEDIA_ACCEPTED'']"
  using assms by (auto simp: timelineCoverageFact_def bind_result_Inr_iff Let_def split: if_splits option.splits)

lemma coverage_facts_Inr:
  "coverageFacts flt mf i ws facts wm = Inr (facts', wm') \<Longrightarrow>
     (\<forall>ft \<in> set facts'. ft \<in> set facts \<or> (\<exists>w \<in> set ws. timelineCoverageFact (tl_data w) = Inr (Some ft))) \<and> wm \<le> wm'"
proof (induction ws arbitrary: i facts wm)
  case (Cons w ws)
  from Cons.prems obtain r where r: "timelineCoverageFact (tl_data w) = Inr r" by (auto simp: bind_result_Inr_iff)
  show ?case
  proof (cases r)
    case None
    with Cons.prems r have "coverageFacts flt mf (Suc i) ws facts wm = Inr (facts', wm')" by (auto simp: bind_result_Inr_iff)
    from Cons.IH [OF this] show ?thesis by auto
  next
    case (Some ft)
    with Cons.prems r have "coverageFacts flt mf (Suc i) ws (facts @ [ft]) (if tl_id w > wm then tl_id w else wm) = Inr (facts', wm')"
      by (auto simp: bind_result_Inr_iff split: if_splits)
    from Cons.IH [OF this] r Some show ?thesis by (auto split: if_splits)
  qed
qed simp

lemma set_selectCoverageFacts:
  "w \<in> set (selectCoverageFacts cid endText fromText rows) \<Longrightarrow> w \<in> set rows \<and> tp_CollectorID (tl_data w) = cid"
  by (auto simp: selectCoverageFacts_def Let_def)

section \<open>One rebuild\<close>

definition interval_row :: "string \<Rightarrow> int \<Rightarrow> string \<Rightarrow> Interval \<Rightarrow> coverage_row \<Rightarrow> bool" where
  "interval_row cid g builtAt iv w \<longleftrightarrow>
     (let c = ri_interval w in ci_CollectorID c = cid \<and> ci_StartUTC c = fixedUTC (iv_Start iv) \<and> ci_EndUTC c = fixedUTC (iv_End iv)
      \<and> ci_Availability c = iv_Availability iv \<and> ci_QualityFlags c = iv_QualityFlags iv \<and> ci_ReasonCode c = iv_ReasonCode iv
      \<and> ci_Generation c = g \<and> ci_BuiltAtUTC c = builtAt \<and> ri_flags_json w = qualityJSON (iv_QualityFlags iv) False)"

definition intervals_ok :: "ext \<Rightarrow> coverage_row list \<Rightarrow> bool" where
  "intervals_ok X rows \<longleftrightarrow> distinct (map (ci_ID \<circ> ri_interval) rows) \<and> (\<forall>w \<in> set rows. 1 \<le> ci_ID (ri_interval w) \<and> coverage_interval_checks X w)
     \<and> sorted_wrt (\<lambda>v w. \<not> intervals_overlap v w) rows"

lemma insert_interval_ok:
  assumes "insertCoverageInterval X w rows = Inr rows'" "intervals_ok X rows" "ci_ID (ri_interval w) = next_id (ci_ID \<circ> ri_interval) rows"
  shows "rows' = rows @ [w]" "intervals_ok X rows'"
proof -
  from assms(1) show r: "rows' = rows @ [w]" by (auto simp: insertCoverageInterval_def split: if_splits)
  from assms show "intervals_ok X rows'"
    unfolding r using next_id_greater [of _ rows "ci_ID \<circ> ri_interval"] next_id_pos [of "ci_ID \<circ> ri_interval" rows]
    by (fastforce simp: intervals_ok_def sorted_wrt_append insertCoverageInterval_def list_ex_iff split: if_splits)
qed

lemma insert_intervals_Inr:
  "insertIntervals X flt cid g builtAt i ivs rows = Inr (stored, rows') \<Longrightarrow>
     \<exists>new. rows' = rows @ new \<and> map ri_interval new = stored \<and> list_all2 (interval_row cid g builtAt) ivs new
       \<and> (intervals_ok X rows \<longrightarrow> intervals_ok X rows')"
proof (induction ivs arbitrary: i rows stored)
  case (Cons iv ivs)
  let ?c = "\<lparr>ci_ID = next_id (ci_ID \<circ> ri_interval) rows, ci_CollectorID = cid, ci_StartUTC = fixedUTC (iv_Start iv), ci_EndUTC = fixedUTC (iv_End iv),
            ci_Availability = iv_Availability iv, ci_QualityFlags = iv_QualityFlags iv, ci_ReasonCode = iv_ReasonCode iv,
            ci_Generation = g, ci_BuiltAtUTC = builtAt\<rparr>"
  let ?w = "\<lparr>ri_interval = ?c, ri_flags_json = qualityJSON (iv_QualityFlags iv) False\<rparr>"
  from Cons.prems obtain rows1 stored1 where u: "insertCoverageInterval X ?w rows = Inr rows1"
    and r: "insertIntervals X flt cid g builtAt (Suc i) ivs rows1 = Inr (stored1, rows')" and s: "stored = ?c # stored1"
    by (auto simp: bind_result_Inr_iff Let_def split: sum.splits)
  have ok: "rows1 = rows @ [?w]" "intervals_ok X rows \<longrightarrow> intervals_ok X rows1"
    using insert_interval_ok [OF u] u by (auto simp: insertCoverageInterval_def split: if_splits)
  from Cons.IH [OF r] obtain new where new: "rows' = rows1 @ new" "map ri_interval new = stored1" "list_all2 (interval_row cid g builtAt) ivs new"
    "intervals_ok X rows1 \<longrightarrow> intervals_ok X rows'" by blast
  have "interval_row cid g builtAt iv ?w" by (simp add: interval_row_def)
  with new s ok show ?case by (intro exI [of _ "?w # new"]) auto
qed simp

lemma intervals_ok_filter: "intervals_ok X rows \<Longrightarrow> intervals_ok X (filter P rows)"
  by (auto simp: intervals_ok_def distinct_map_filter sorted_wrt_filter)

lemma store_coverage_Inr:
  assumes "storeCoverage X flt cid startText endText builtAt wm ivs rows states = Inr ((status, stored), rows', states')"
  obtains new where "rows' = filter (\<lambda>w. ci_CollectorID (ri_interval w) \<noteq> cid) rows @ new" "map ri_interval new = stored"
    "list_all2 (interval_row cid (storedGeneration cid states + 1) builtAt) ivs new" "intervals_ok X rows \<longrightarrow> intervals_ok X rows'"
    "status = \<lparr>cs_CollectorID = cid, cs_RangeStartUTC = startText, cs_RangeEndUTC = endText, cs_Generation = storedGeneration cid states + 1,
       cs_Status = ''fresh'', cs_ErrorCode = [], cs_FactWatermark = wm, cs_BuiltAtUTC = builtAt\<rparr>"
    "upsertCoverageState (\<lambda>_. status) status states = Inr states'"
proof -
  let ?st = "\<lparr>cs_CollectorID = cid, cs_RangeStartUTC = startText, cs_RangeEndUTC = endText, cs_Generation = storedGeneration cid states + 1,
       cs_Status = ''fresh'', cs_ErrorCode = [], cs_FactWatermark = wm, cs_BuiltAtUTC = builtAt\<rparr>"
  let ?rest = "filter (\<lambda>w. ci_CollectorID (ri_interval w) \<noteq> cid) rows"
  from assms have i: "insertIntervals X flt cid (storedGeneration cid states + 1) builtAt 0 ivs ?rest = Inr (stored, rows')"
    and s: "status = \<lparr>cs_CollectorID = cid, cs_RangeStartUTC = startText, cs_RangeEndUTC = endText, cs_Generation = storedGeneration cid states + 1,
       cs_Status = ''fresh'', cs_ErrorCode = [], cs_FactWatermark = wm, cs_BuiltAtUTC = builtAt\<rparr>"
    and u: "upsertCoverageState (\<lambda>_. status) status states = Inr states'"
    by (cases "upsertCoverageState (\<lambda>_. ?st) ?st states"; auto simp: storeCoverage_def bind_result_Inr_iff Let_def)+
  from insert_intervals_Inr [OF i] obtain new where new: "rows' = ?rest @ new" "map ri_interval new = stored"
    "list_all2 (interval_row cid (storedGeneration cid states + 1) builtAt) ivs new" "intervals_ok X ?rest \<longrightarrow> intervals_ok X rows'" by blast
  from new(4) intervals_ok_filter have "intervals_ok X rows \<longrightarrow> intervals_ok X rows'" by blast
  from that [OF new(1-3) this s u] show thesis .
qed

text \<open>A rebuild fails without effect or replaces the collector's intervals.\<close>

lemma rebuild_cases:
  assumes "rebuildCollectorCoverage X tz flt storeNow collector start stop now mf db = Some (r, db')"
  obtains (failed) e where "r = Inl e" "db' = db"
  | (rebuilt) facts wm ivs status stored rows states where
      "coverageFacts flt mf 0 (selectCoverageFacts (cc_ID collector) (fixedUTC stop) (fixedUTC (start - OfflineAfterDuration collector)) (tb_entries db)) [] 0
         = Inr (facts, wm)"
      "Build tz collector start stop now facts = Some (Inr ivs)"
      "storeCoverage X flt (cc_ID collector) (fixedUTC start) (fixedUTC stop) (fixedUTC storeNow) wm ivs (cb_intervals db) (cb_states db)
         = Inr ((status, stored), rows, states)"
      "r = Inr (status, stored)" "db' = db\<lparr>cb_intervals := rows, cb_states := states\<rparr>"
proof (cases "bind_result (db_call flt CodeCoverageBuildFailed ''read coverage facts'' 0) (\<lambda>_.
           bind_result (coverageFacts flt mf 0
              (selectCoverageFacts (cc_ID collector) (fixedUTC stop) (fixedUTC (start - OfflineAfterDuration collector)) (tb_entries db)) [] 0) (\<lambda>found.
           bind_result (db_call flt CodeCoverageBuildFailed ''iterate coverage facts'' 0) (\<lambda>_. Inr found)))")
  case (Inl e)
  with assms show thesis by (intro failed [of e]) (simp_all add: rebuildCollectorCoverage_def)
next
  case (Inr found)
  obtain facts wm where found: "found = (facts, wm)" by fastforce
  from Inr have c: "coverageFacts flt mf 0 (selectCoverageFacts (cc_ID collector) (fixedUTC stop) (fixedUTC (start - OfflineAfterDuration collector)) (tb_entries db)) [] 0
      = Inr (facts, wm)" by (auto simp: bind_result_Inr_iff found)
  note run = assms [unfolded rebuildCollectorCoverage_def Inr found, simplified]
  show thesis
  proof (cases "Build tz collector start stop now facts")
    case None
    with run show thesis by simp
  next
    case (Some b)
    show thesis
    proof (cases b)
      case (Inl e)
      with run Some show thesis by (intro failed [of "StoreErr CodeCoverageBuildFailed ''build coverage''"]) simp_all
    next
      case built: (Inr ivs)
      let ?s = "storeCoverage X flt (cc_ID collector) (fixedUTC start) (fixedUTC stop) (fixedUTC storeNow) wm ivs (cb_intervals db) (cb_states db)"
      show thesis
      proof (cases ?s)
        case (Inl e)
        with run Some built show thesis by (intro failed [of e]) simp_all
      next
        case (Inr x)
        obtain status stored rows states where x: "x = ((status, stored), rows, states)" by (metis prod.collapse)
        with run Some built Inr show thesis by (intro rebuilt [OF c _ Inr [unfolded x]]) simp_all
      qed
    qed
  qed
qed

section \<open>Invariants of a rebuild\<close>

text \<open>A property of the result and the tables that every step keeps holds in the end.\<close>

lemma rebuildLoop_invariant:
  assumes "rebuildLoop X S C tz env k cs start stop now ua mf result db = Some (result', err, db')" "I result db" "set cs \<subseteq> set cs0"
    and sync: "\<And>result db flt busy c r db1. I result db \<Longrightarrow>
      syncTimelineProjection X S C flt busy (start - OfflineAfterDuration c) stop ua mf (cc_ID c) True db = (r, db1) \<Longrightarrow> I result db1"
    and stale: "\<And>result db flt t c e st db1. I result db \<Longrightarrow> c \<in> set cs0 \<Longrightarrow> markCoverageStale flt t (cc_ID c) start stop e db = (st, db1) \<Longrightarrow>
      I (result\<lparr>cr_Projections := cr_Projections result @ [st]\<rparr>) db1"
    and rebuilt: "\<And>result db flt t c st ivs db1. I result db \<Longrightarrow> c \<in> set cs0 \<Longrightarrow> cc_Enabled c \<Longrightarrow>
      rebuildCollectorCoverage X tz flt t c start stop now mf db = Some (Inr (st, ivs), db1) \<Longrightarrow>
      I (result\<lparr>cr_Projections := cr_Projections result @ [st], cr_Intervals := cr_Intervals result @ ivs\<rparr>) db1"
  shows "I result' db'"
  using assms(1-3)
proof (induction cs arbitrary: k result db)
  case (Cons c cs)
  let ?e = "env k" and ?result = "\<lambda>st. result\<lparr>cr_Projections := cr_Projections result @ [st]\<rparr>"
  have sub: "set cs \<subseteq> set cs0" "c \<in> set cs0" using Cons.prems(3) by auto
  have st: ?case if "I result db1"
      "(let (st, db2) = markCoverageStale (ce_faults ?e) (ce_stale_now ?e) (cc_ID c) start stop e db1
        in rebuildLoop X S C tz env (Suc k) cs start stop now ua mf (?result st) db2) = Some (result', err, db')" for e db1
  proof -
    obtain st db2 where m: "markCoverageStale (ce_faults ?e) (ce_stale_now ?e) (cc_ID c) start stop e db1 = (st, db2)" by fastforce
    from Cons.IH [OF _ stale [OF that(1) sub(2) m] sub(1)] that(2) m show ?case by (simp add: Let_def)
  qed
  show ?case
  proof (cases "cc_Enabled c")
    case False
    with Cons.prems(1) have "rebuildLoop X S C tz env (Suc k) cs start stop now ua mf result db = Some (result', err, db')" by simp
    from Cons.IH [OF this Cons.prems(2) sub(1)] show ?thesis .
  next
    case True
    obtain r db1 where y: "syncTimelineProjection X S C (ce_faults ?e) (ce_busy ?e) (start - OfflineAfterDuration c) stop ua mf (cc_ID c) True db = (r, db1)" by fastforce
    note I1 = sync [OF Cons.prems(2) y]
    show ?thesis
    proof (cases r)
      case (Inl e)
      with Cons.prems(1) True y I1 st [OF I1, of e] show ?thesis by (auto simp: Let_def split: if_splits)
    next
      case (Inr u)
      let ?b = "rebuildCollectorCoverage X tz (ce_faults ?e) (ce_now ?e) c start stop now mf db1"
      note run = Cons.prems(1) [simplified, unfolded Let_def, simplified True y Inr, simplified]
      show ?thesis
      proof (cases ?b)
        case None
        with run show ?thesis by simp
      next
        case (Some rb)
        obtain rr db2 where rb: "rb = (rr, db2)" by fastforce
        from Some [unfolded rb] show ?thesis
        proof (cases rule: rebuild_cases)
          case (failed e)
          with run Some rb I1 st [OF I1, of e] show ?thesis by (auto simp: Let_def split: if_splits)
        next
          case (rebuilt facts wm ivs status stored rows states)
          from assms(6) [OF I1 sub(2) True Some [unfolded rb rebuilt(4)]]
          have I2: "I (result\<lparr>cr_Projections := cr_Projections result @ [status], cr_Intervals := cr_Intervals result @ stored\<rparr>) db2" .
          from run Some rb rebuilt(4) have "rebuildLoop X S C tz env (Suc k) cs start stop now ua mf
            (result\<lparr>cr_Projections := cr_Projections result @ [status], cr_Intervals := cr_Intervals result @ stored\<rparr>) db2 = Some (result', err, db')" by simp
          from Cons.IH [OF this I2 sub(1)] show ?thesis .
        qed
      qed
    qed
  qed
qed simp

section \<open>Evidence\<close>

lemma upsert_chunks_subset:
  "upsertChunks X flt off items rows = (r, rows') \<Longrightarrow> w \<in> set rows' \<Longrightarrow> w \<in> set rows \<or> tl_data w \<in> set items"
proof (induction X flt off items rows arbitrary: w rule: upsertChunks.induct)
  case (1 X flt off items rows)
  let ?n = timelineProjectionChunkSize
  have items: "w \<in> set rows \<or> tl_data w \<in> set its" if "upsertItems X flt i its rows = Inr rows1" "w \<in> set rows1" for i its rows rows1 w
    using that by (induction its arbitrary: i rows) (auto simp: bind_result_Inr_iff split: sum.splits dest: upsert_stored(2))
  show ?case
  proof (cases "items = []")
    case True
    with "1.prems" show ?thesis by (simp add: upsertChunks.simps)
  next
    case False
    obtain r1 rows1 where c: "upsertTimelineProjectionChunk X flt off (take ?n items) rows = (r1, rows1)" by fastforce
    from c show ?thesis
    proof (cases rule: chunk_cases)
      case (failed e)
      with "1.prems" False c show ?thesis by (simp add: upsertChunks.simps [of X flt off items rows])
    next
      case stored
      then have "upsertChunks X flt (off + ?n) (drop ?n items) rows1 = (r, rows')"
        using "1.prems"(1) False c by (simp add: upsertChunks.simps [of X flt off items rows])
      from "1.IH" [OF False c [symmetric] stored(1) this "1.prems"(2)] items [OF stored(2)] show ?thesis
        by (auto dest: in_set_takeD in_set_dropD)
    qed
  qed
qed

text \<open>Every timeline entry is the projection of a stored fact, under the uncertainty threshold of the synchronisation that wrote it.\<close>

definition entries_sourced :: "'z timeline_db_scheme \<Rightarrow> bool" where
  "entries_sourced db \<longleftrightarrow> (\<forall>w \<in> set (tb_entries db). \<exists>ua. fact_projection ua db (tl_data w))"

lemma sync_sources:
  assumes "syncTimelineProjection X S C flt busy start stop ua mf cid ov db = (r, db')"
  shows "tb_raw db' = tb_raw db" "tb_heartbeats db' = tb_heartbeats db" "tb_segments db' = tb_segments db"
  using assms by (cases rule: sync_cases; simp)+

lemma sync_sourced:
  assumes "syncTimelineProjection X S C flt busy start stop ua mf cid ov db = (r, db')" "entries_sourced db" shows "entries_sourced db'"
  using assms(1)
proof (cases rule: sync_cases)
  case (ran ps rows)
  have "\<exists>ua. fact_projection ua db (tl_data w)" if "w \<in> set rows" for w
    using upsert_chunks_subset [OF ran(2) that] collect_projections_facts [OF ran(1)] assms(2) by (auto simp: entries_sourced_def)
  then show ?thesis using ran(3) by (auto simp: entries_sourced_def fact_projection_def)
qed (use assms in simp)

lemma fact_projection_cong:
  "tb_raw db' = tb_raw db \<Longrightarrow> tb_heartbeats db' = tb_heartbeats db \<Longrightarrow> tb_segments db' = tb_segments db \<Longrightarrow> fact_projection ua db' p = fact_projection ua db p"
  by (simp add: fact_projection_def)

definition interval_supported :: "instant \<Rightarrow> instant \<Rightarrow> (timelineProjection \<Rightarrow> bool) \<Rightarrow> CoverageInterval \<Rightarrow> bool" where
  "interval_supported start stop known c \<longleftrightarrow>
     (\<exists>s e. ci_StartUTC c = fixedUTC s \<and> ci_EndUTC c = fixedUTC e \<and> start \<le> s \<and> s < e \<and> e \<le> stop
        \<and> (ci_Availability c \<in> {Covered, ConfirmedIdle} \<longrightarrow>
             (\<forall>t. s \<le> t \<and> t < e \<longrightarrow> (\<exists>p. known p \<and> tp_CollectorID p = ci_CollectorID c \<and> entry_supports p t (ci_Availability c)))))"

lemma rebuild_supported:
  assumes "rebuildCollectorCoverage X tz flt storeNow collector start stop now mf db = Some (Inr (st, stored), db')" "c \<in> set stored"
  shows "ci_CollectorID c = cc_ID collector \<and> interval_supported start stop (\<lambda>p. p \<in> tl_data ` set (tb_entries db)) c"
  using assms(1)
proof (cases rule: rebuild_cases)
  case (rebuilt facts wm ivs status stored' rows states)
  note build = rebuilt(2)
  from build have sep: "separated ivs" by (rule Build_cases)
  from store_coverage_Inr [OF rebuilt(3)] obtain new where "map ri_interval new = stored'"
    "list_all2 (interval_row (cc_ID collector) (storedGeneration (cc_ID collector) (cb_states db) + 1) (fixedUTC storeNow)) ivs new" by blast
  then obtain iv where iv: "iv \<in> set ivs" "ci_CollectorID c = cc_ID collector" "ci_StartUTC c = fixedUTC (iv_Start iv)" "ci_EndUTC c = fixedUTC (iv_End iv)"
      "ci_Availability c = iv_Availability iv"
    using assms(2) rebuilt(4) by (fastforce simp: list_all2_conv_all_nth in_set_conv_nth interval_row_def Let_def)
  have r: "start \<le> iv_Start iv" "iv_Start iv < iv_End iv" "iv_End iv \<le> stop"
    using Build_within [OF build] iv(1) by (auto simp: list_all_iff within_range_def)
  have "\<exists>p \<in> tl_data ` set (tb_entries db). tp_CollectorID p = cc_ID collector \<and> entry_supports p t (iv_Availability iv)"
    if "iv_Availability iv \<in> {Covered, ConfirmedIdle}" "iv_Start iv \<le> t" "t < iv_End iv" for t
  proof -
    have "coverage_at ivs t = Some (iv_Availability iv, iv_QualityFlags iv, iv_ReasonCode iv)"
      using coverage_at_member [OF sep iv(1)] that by (simp add: iv_has_def status_of_def)
    from covered_has_fact [OF build this that(1)] obtain ft where ft: "ft \<in> set facts" "f_Start ft \<le> t" "t < f_End ft" "f_Availability ft = iv_Availability iv" by blast
    with coverage_facts_Inr [OF rebuilt(1)] obtain w where
      w: "w \<in> set (selectCoverageFacts (cc_ID collector) (fixedUTC stop) (fixedUTC (start - OfflineAfterDuration collector)) (tb_entries db))"
      "timelineCoverageFact (tl_data w) = Inr (Some ft)" by auto
    with set_selectCoverageFacts [OF w(1)] coverage_fact_sound [OF w(2)] ft show ?thesis by (auto simp: entry_supports_def)
  qed
  with iv r show ?thesis unfolding interval_supported_def by (intro conjI exI [of _ "iv_Start iv"] exI [of _ "iv_End iv"]) auto
qed simp

text \<open>
  C18: Coverage is never claimed without a recorded fact, from the database to the answer: for every interval that \<^verbatim>\<open>RebuildCoverage\<close>
  returns -- whatever database faults occur on the way -- its bounds lie in the requested range, and if it is reported as \<open>covered\<close> or
  \<open>confirmed_idle\<close>, then at each of its instants some raw event, heartbeat or media segment stored for that very collector projects to an entry whose
  corrected interval contains the instant and which stands for that availability.
\<close>

theorem coverage_has_evidence:
  assumes "RebuildCoverage X S C tz env collectors start stop now ua mf db = Some (result, err, db')" "entries_sourced db"
  shows "\<forall>c \<in> set (cr_Intervals result). (\<exists>collector \<in> set collectors. cc_Enabled collector \<and> cc_ID collector = ci_CollectorID c)
    \<and> interval_supported start stop (\<lambda>p. \<exists>ua. fact_projection ua db p) c"
proof (cases "\<not> start < stop \<or> mf < 1")
  case True
  with assms(1) show ?thesis by (auto simp: RebuildCoverage_def)
next
  case False
  define I where "I = (\<lambda>(result :: CoverageResult) (db1 :: 'a coverage_db_scheme). entries_sourced db1
     \<and> (tb_raw db1, tb_heartbeats db1, tb_segments db1) = (tb_raw db, tb_heartbeats db, tb_segments db)
     \<and> (\<forall>c \<in> set (cr_Intervals result). (\<exists>collector \<in> set collectors. cc_Enabled collector \<and> cc_ID collector = ci_CollectorID c)
          \<and> interval_supported start stop (\<lambda>p. \<exists>ua. fact_projection ua db p) c))"
  have "I result db'"
  proof (rule rebuildLoop_invariant [where I = I and cs = collectors and ?cs0.0 = collectors])
    show "rebuildLoop X S C tz env 0 collectors start stop now ua mf
        \<lparr>cr_RangeStartUTC = fixedUTC start, cr_RangeEndUTC = fixedUTC stop, cr_Projections = [], cr_Intervals = []\<rparr> db = Some (result, err, db')"
      using assms(1) False by (simp add: RebuildCoverage_def)
    show "I \<lparr>cr_RangeStartUTC = fixedUTC start, cr_RangeEndUTC = fixedUTC stop, cr_Projections = [], cr_Intervals = []\<rparr> db"
      using assms(2) by (simp add: I_def)
    show "I result db2" if "I result db1"
      "syncTimelineProjection X S C flt busy (start - OfflineAfterDuration c) stop ua mf (cc_ID c) True db1 = (r, db2)" for result db1 flt busy c r db2
      using that sync_sourced [OF that(2)] sync_sources [OF that(2)] by (simp add: I_def)
    show "I (result\<lparr>cr_Projections := cr_Projections result @ [st]\<rparr>) db2"
      if "I result db1" "c \<in> set collectors" "markCoverageStale flt t (cc_ID c) start stop e db1 = (st, db2)" for result db1 flt t c e st db2
      using that by (auto simp: I_def markCoverageStale_def Let_def entries_sourced_def fact_projection_def)
    show "I (result\<lparr>cr_Projections := cr_Projections result @ [st], cr_Intervals := cr_Intervals result @ ivs\<rparr>) db2"
      if i: "I result db1" and c: "c \<in> set collectors" "cc_Enabled c"
        and r: "rebuildCollectorCoverage X tz flt t c start stop now mf db1 = Some (Inr (st, ivs), db2)" for result db1 flt t c st ivs db2
    proof -
      from r have "db2 = db1\<lparr>cb_intervals := cb_intervals db2, cb_states := cb_states db2\<rparr>" by (cases rule: rebuild_cases) auto
      then have s: "tb_raw db2 = tb_raw db1" "tb_heartbeats db2 = tb_heartbeats db1" "tb_segments db2 = tb_segments db1" "tb_entries db2 = tb_entries db1"
        by (metis (no_types, lifting) coverage_db.surjective coverage_db.update_convs timeline_db.select_convs)+
      have k: "\<exists>ua. fact_projection ua db p" if "p \<in> tl_data ` set (tb_entries db1)" for p
        using i that fact_projection_cong [of db1 db] by (auto simp: I_def entries_sourced_def)
      have "(\<exists>collector \<in> set collectors. cc_Enabled collector \<and> cc_ID collector = ci_CollectorID x)
          \<and> interval_supported start stop (\<lambda>p. \<exists>ua. fact_projection ua db p) x" if "x \<in> set ivs" for x
        using rebuild_supported [OF r that] c k unfolding interval_supported_def by metis
      moreover have "entries_sourced db2" using i fact_projection_cong [OF s(1-3)] s(4) by (simp add: I_def entries_sourced_def)
      ultimately show ?thesis using i s by (auto simp: I_def)
    qed
  qed simp
  then show ?thesis by (simp add: I_def)
qed

section \<open>The coverage tables\<close>

definition states_ok :: "CoverageProjectionStatus list \<Rightarrow> bool" where
  "states_ok states \<longleftrightarrow> distinct (map cs_CollectorID states) \<and> (\<forall>s \<in> set states. coverage_state_checks s)"

definition coverage_ok :: "ext \<Rightarrow> 'z coverage_db_scheme \<Rightarrow> bool" where
  "coverage_ok X db \<longleftrightarrow> timeline_ok X (tb_entries db) \<and> intervals_ok X (cb_intervals db) \<and> states_ok (cb_states db)
     \<and> (\<forall>w \<in> set (cb_intervals db). ci_Generation (ri_interval w) = storedGeneration (ci_CollectorID (ri_interval w)) (cb_states db))"

definition rows_of :: "string \<Rightarrow> 'z coverage_db_scheme \<Rightarrow> coverage_row list" where
  "rows_of cid db = filter (\<lambda>w. ci_CollectorID (ri_interval w) = cid) (cb_intervals db)"

lemma find_state: "states_ok states \<Longrightarrow> List.find (\<lambda>v. cs_CollectorID v = cid) states = Some s \<Longrightarrow> 0 < cs_Generation s"
  by (auto simp: states_ok_def coverage_state_checks_def find_Some_iff dest!: nth_mem)

lemma stored_generation_nonneg: "states_ok states \<Longrightarrow> 0 \<le> storedGeneration cid states"
  using find_state [of states cid] by (auto simp: storedGeneration_def split: option.splits intro: less_imp_le)

lemma find_map_update:
  "(\<And>v. cs_CollectorID v = cid \<Longrightarrow> cs_CollectorID (update v) = cid) \<Longrightarrow>
     List.find (\<lambda>v. cs_CollectorID v = c) (map (\<lambda>v. if cs_CollectorID v = cid then update v else v) states)
       = map_option (\<lambda>v. if cs_CollectorID v = cid then update v else v) (List.find (\<lambda>v. cs_CollectorID v = c) states)"
  by (induction states) auto

text \<open>The upsert of a state, for an update that keeps the collector.\<close>

lemma upsert_state_ok:
  assumes "upsertCoverageState update s states = Inr states'" "states_ok states"
    and "\<And>v. cs_CollectorID v = cs_CollectorID s \<Longrightarrow> cs_CollectorID (update v) = cs_CollectorID s"
  shows "states_ok states'"
    "storedGeneration c states' = (if c = cs_CollectorID s
       then (case List.find (\<lambda>v. cs_CollectorID v = c) states of None \<Rightarrow> cs_Generation s | Some v \<Rightarrow> cs_Generation (update v))
       else storedGeneration c states)"
proof -
  let ?f = "\<lambda>v. if cs_CollectorID v = cs_CollectorID s then update v else v"
  consider (insert) "states' = states @ [s]" "coverage_state_checks s" "\<forall>v \<in> set states. cs_CollectorID v \<noteq> cs_CollectorID s"
    | (update) "states' = map ?f states" "\<forall>v \<in> set states. cs_CollectorID v = cs_CollectorID s \<longrightarrow> coverage_state_checks (update v)"
        "\<exists>v \<in> set states. cs_CollectorID v = cs_CollectorID s"
    using assms(1) by (auto simp: upsertCoverageState_def list_ex_iff list_all_iff split: if_splits)
  then have "states_ok states' \<and> storedGeneration c states' = (if c = cs_CollectorID s
       then (case List.find (\<lambda>v. cs_CollectorID v = c) states of None \<Rightarrow> cs_Generation s | Some v \<Rightarrow> cs_Generation (update v))
       else storedGeneration c states)"
  proof cases
    case insert
    then have "List.find (\<lambda>v. cs_CollectorID v = cs_CollectorID s) states = None" by (auto simp: find_None_iff)
    with insert assms(2) show ?thesis by (auto simp: states_ok_def storedGeneration_def find_append_case split: option.splits)
  next
    case update
    have ids: "map cs_CollectorID (map ?f states) = map cs_CollectorID states" using assms(3) by simp
    then have "states_ok states'" using update assms(2) unfolding states_ok_def by (simp only: update(1) ids) auto
    moreover have found: "List.find (\<lambda>v. cs_CollectorID v = cs_CollectorID s) states \<noteq> None" using update(3) by (auto simp: find_None_iff)
    have id: "cs_CollectorID v = c" if "List.find (\<lambda>v. cs_CollectorID v = c) states = Some v" for v using that by (auto simp: find_Some_iff)
    have "storedGeneration c states' = (if c = cs_CollectorID s
       then (case List.find (\<lambda>v. cs_CollectorID v = c) states of None \<Rightarrow> cs_Generation s | Some v \<Rightarrow> cs_Generation (update v))
       else storedGeneration c states)"
    proof (cases "List.find (\<lambda>v. cs_CollectorID v = c) states")
      case None
      with found have "c \<noteq> cs_CollectorID s" by auto
      with None update(1) find_map_update [of "cs_CollectorID s" update c states, OF assms(3)] show ?thesis by (simp add: storedGeneration_def)
    next
      case (Some v)
      with id [OF Some] update(1) find_map_update [of "cs_CollectorID s" update c states, OF assms(3)] show ?thesis by (auto simp: storedGeneration_def)
    qed
    ultimately show ?thesis by blast
  qed
  then show "states_ok states'" "storedGeneration c states' = (if c = cs_CollectorID s
       then (case List.find (\<lambda>v. cs_CollectorID v = c) states of None \<Rightarrow> cs_Generation s | Some v \<Rightarrow> cs_Generation (update v))
       else storedGeneration c states)" by auto
qed

text \<open>Marking a collector stale changes at most its state, and a generation only from none to the first.\<close>

lemma mark_stale:
  assumes "markCoverageStale flt t cid start stop e db = (st, db')" "states_ok (cb_states db)"
  obtains states' where "db' = db\<lparr>cb_states := states'\<rparr>" "states_ok states'"
    "\<And>c. storedGeneration c states' = storedGeneration c (cb_states db) \<or> (storedGeneration c (cb_states db) = 0 \<and> storedGeneration c states' = 1)"
proof -
  define s where "s = fst (markCoverageStale flt t cid start stop e db)"
  define update where "update = (\<lambda>v :: CoverageProjectionStatus. v\<lparr>cs_RangeStartUTC := fixedUTC start, cs_RangeEndUTC := fixedUTC stop, cs_Status := ''stale'',
    cs_ErrorCode := (if ErrorCode e = [] then CodeCoverageBuildFailed else ErrorCode e), cs_BuiltAtUTC := fixedUTC t\<rparr>)"
  have s: "cs_CollectorID s = cid" "storedGeneration cid (cb_states db) = 0 \<Longrightarrow> cs_Generation s = 1"
    by (auto simp: s_def markCoverageStale_def Let_def)
  have "db' = db\<lparr>cb_states := (if flt ''mark coverage stale'' 0 \<noteq> None then cb_states db
      else case upsertCoverageState update s (cb_states db) of Inl _ \<Rightarrow> cb_states db | Inr states' \<Rightarrow> states')\<rparr>"
    using assms(1) by (auto simp: s_def update_def markCoverageStale_def Let_def)
  then consider "db' = db\<lparr>cb_states := cb_states db\<rparr>"
    | states' where "db' = db\<lparr>cb_states := states'\<rparr>" "upsertCoverageState update s (cb_states db) = Inr states'"
    by (cases "flt ''mark coverage stale'' 0"; cases "upsertCoverageState update s (cb_states db)") auto
  then show thesis
  proof cases
    case 1
    then show thesis using that assms(2) by blast
  next
    case (2 states')
    have up: "cs_CollectorID (update v) = cs_CollectorID v" "cs_Generation (update v) = cs_Generation v" for v by (simp_all add: update_def)
    note ok = upsert_state_ok [OF 2(2) assms(2), unfolded up]
    have "storedGeneration c states' = storedGeneration c (cb_states db) \<or> (storedGeneration c (cb_states db) = 0 \<and> storedGeneration c states' = 1)" for c
    proof (cases "List.find (\<lambda>v. cs_CollectorID v = c) (cb_states db)")
      case None
      then have "storedGeneration c (cb_states db) = 0" by (simp add: storedGeneration_def)
      with None ok(2) [of c] s show ?thesis by (auto split: if_splits)
    next
      case (Some v)
      with ok(2) [of c] show ?thesis by (auto simp: storedGeneration_def split: if_splits)
    qed
    with 2(1) ok(1) show thesis using that by blast
  qed
qed

text \<open>A rebuild that succeeds makes the new generation of its collector and leaves the others alone.\<close>

lemma rebuild_success:
  assumes "rebuildCollectorCoverage X tz flt storeNow collector start stop now mf db = Some (Inr (st, stored), db')" "coverage_ok X db"
  shows "coverage_ok X db' \<and> (\<forall>c. storedGeneration c (cb_states db') = (if c = cc_ID collector then storedGeneration c (cb_states db) + 1 else storedGeneration c (cb_states db)))
      \<and> (\<forall>c. c \<noteq> cc_ID collector \<longrightarrow> rows_of c db' = rows_of c db) \<and> map ri_interval (rows_of (cc_ID collector) db') = stored
      \<and> (\<forall>i \<in> set stored. ci_CollectorID i = cc_ID collector \<and> ci_Generation i = storedGeneration (cc_ID collector) (cb_states db'))
      \<and> st \<in> set (cb_states db') \<and> cs_CollectorID st = cc_ID collector \<and> cs_Status st = ''fresh''
      \<and> cs_Generation st = storedGeneration (cc_ID collector) (cb_states db')"
  using assms(1)
proof (cases rule: rebuild_cases)
  case (rebuilt facts wm ivs status stored' rows states)
    then have eq: "status = st" "stored' = stored" by auto
    let ?id = "cc_ID collector" and ?g = "storedGeneration (cc_ID collector) (cb_states db) + 1"
    let ?rest = "filter (\<lambda>w. ci_CollectorID (ri_interval w) \<noteq> ?id) (cb_intervals db)"
    from store_coverage_Inr [OF rebuilt(3)] obtain new where new: "rows = ?rest @ new" "map ri_interval new = stored'"
      "list_all2 (interval_row ?id ?g (fixedUTC storeNow)) ivs new" "intervals_ok X (cb_intervals db) \<longrightarrow> intervals_ok X rows"
      and st: "status = \<lparr>cs_CollectorID = ?id, cs_RangeStartUTC = fixedUTC start, cs_RangeEndUTC = fixedUTC stop, cs_Generation = ?g,
        cs_Status = ''fresh'', cs_ErrorCode = [], cs_FactWatermark = wm, cs_BuiltAtUTC = fixedUTC storeNow\<rparr>"
      and u: "upsertCoverageState (\<lambda>_. status) status (cb_states db) = Inr states" by blast
    from st have s: "cs_CollectorID status = ?id" "cs_Generation status = ?g" "cs_Status status = ''fresh''" by simp_all
    have states: "states_ok (cb_states db)" using assms(2) by (simp add: coverage_ok_def)
    note ok = upsert_state_ok [OF u states]
    have g: "storedGeneration c states = (if c = ?id then ?g else storedGeneration c (cb_states db))" for c
      using ok(2) [of c] s by (auto split: option.splits)
    have n: "ci_CollectorID (ri_interval w) = ?id \<and> ci_Generation (ri_interval w) = ?g" if "w \<in> set new" for w
      using new(3) that by (fastforce simp: list_all2_conv_all_nth in_set_conv_nth interval_row_def Let_def)
    have own: "filter (\<lambda>w. ci_CollectorID (ri_interval w) = ?id) rows = new"
      unfolding new(1) using n by (simp add: filter_id_conv)
    have other: "filter (\<lambda>w. ci_CollectorID (ri_interval w) = c) rows = filter (\<lambda>w. ci_CollectorID (ri_interval w) = c) (cb_intervals db)" if "c \<noteq> ?id" for c
      unfolding new(1) using n that by (auto simp: filter_empty_conv intro!: filter_cong)
    have "status \<in> set states" using u by (auto simp: upsertCoverageState_def list_ex_iff split: if_splits)
    moreover have "coverage_ok X db'"
      using assms(2) new(1,4) ok(1) s n g rebuilt(5) by (auto simp: coverage_ok_def)
    moreover have "\<forall>i \<in> set stored. ci_CollectorID i = ?id \<and> ci_Generation i = ?g" using n new(2) unfolding eq by auto
    moreover have "rows_of c db' = rows_of c db" if "c \<noteq> ?id" for c using other [OF that] rebuilt(5) by (simp add: rows_of_def)
    moreover have "map ri_interval (rows_of ?id db') = stored" using own new(2) rebuilt(5) eq by (simp add: rows_of_def)
    moreover have "cb_states db' = states" using rebuilt(5) by simp
    ultimately show ?thesis using g s eq by simp
qed simp

text \<open>
  C19: A rebuild replaces coverage as a whole or not at all.  Whatever faults occur and wherever it stops, the coverage tables keep their
  invariant: no two stored intervals of a collector overlap, every interval carries the generation of its collector's state, every
  row satisfies the table's checks.  Generations never decrease.  The stored intervals of a collector are either exactly those from before, or a new
  generation that the answer reports as fresh, and then they are exactly the intervals of that generation in the answer.
\<close>

theorem coverage_rebuild_atomic:
  assumes "RebuildCoverage X S C tz env collectors start stop now ua mf db = Some (result, err, db')" "coverage_ok X db"
  shows "coverage_ok X db'
    \<and> (\<forall>c. storedGeneration c (cb_states db) \<le> storedGeneration c (cb_states db')
        \<and> (rows_of c db' = rows_of c db
           \<or> (storedGeneration c (cb_states db) < storedGeneration c (cb_states db')
              \<and> (\<exists>st \<in> set (cr_Projections result). cs_CollectorID st = c \<and> cs_Status st = ''fresh'' \<and> cs_Generation st = storedGeneration c (cb_states db'))
              \<and> map ri_interval (rows_of c db') = filter (\<lambda>i. ci_CollectorID i = c \<and> ci_Generation i = storedGeneration c (cb_states db')) (cr_Intervals result))))"
proof (cases "\<not> start < stop \<or> mf < 1")
  case True
  with assms show ?thesis by (auto simp: RebuildCoverage_def)
next
  case False
  let ?g0 = "\<lambda>c. storedGeneration c (cb_states db)"
  define J where "J = (\<lambda>(result :: CoverageResult) (db1 :: 'a coverage_db_scheme) c. ?g0 c \<le> storedGeneration c (cb_states db1)
        \<and> (rows_of c db1 = rows_of c db
           \<or> (?g0 c < storedGeneration c (cb_states db1)
              \<and> (\<exists>st \<in> set (cr_Projections result). cs_CollectorID st = c \<and> cs_Status st = ''fresh'' \<and> cs_Generation st = storedGeneration c (cb_states db1))
              \<and> map ri_interval (rows_of c db1) = filter (\<lambda>i. ci_CollectorID i = c \<and> ci_Generation i = storedGeneration c (cb_states db1)) (cr_Intervals result))))"
  define I where "I = (\<lambda>(result :: CoverageResult) (db1 :: 'a coverage_db_scheme). coverage_ok X db1 \<and> (\<forall>c. J result db1 c)
     \<and> (\<forall>i \<in> set (cr_Intervals result). ci_Generation i \<le> storedGeneration (ci_CollectorID i) (cb_states db1)))"
  have pos: "0 \<le> ?g0 c" for c using assms(2) stored_generation_nonneg by (auto simp: coverage_ok_def)
  have "I result db'"
  proof (rule rebuildLoop_invariant [where I = I and cs = collectors and ?cs0.0 = collectors])
    show "rebuildLoop X S C tz env 0 collectors start stop now ua mf
        \<lparr>cr_RangeStartUTC = fixedUTC start, cr_RangeEndUTC = fixedUTC stop, cr_Projections = [], cr_Intervals = []\<rparr> db = Some (result, err, db')"
      using assms(1) False by (simp add: RebuildCoverage_def)
    show "I \<lparr>cr_RangeStartUTC = fixedUTC start, cr_RangeEndUTC = fixedUTC stop, cr_Projections = [], cr_Intervals = []\<rparr> db"
      using assms(2) by (simp add: I_def J_def)
    show "I result db2" if i: "I result db1"
      and y: "syncTimelineProjection X S C flt busy (start - OfflineAfterDuration c) stop ua mf (cc_ID c) True db1 = (r, db2)" for result db1 flt busy c r db2
    proof -
      from y have "cb_intervals db2 = cb_intervals db1 \<and> cb_states db2 = cb_states db1" by (cases rule: sync_cases) auto
      moreover have "timeline_ok X (tb_entries db2)" using sync_ok(1) [OF y] i by (simp add: I_def coverage_ok_def)
      ultimately show ?thesis using i by (simp add: I_def J_def coverage_ok_def rows_of_def)
    qed
    show "I (result\<lparr>cr_Projections := cr_Projections result @ [st]\<rparr>) db2"
      if i: "I result db1" and m: "markCoverageStale flt t (cc_ID c) start stop e db1 = (st, db2)" for result db1 flt t c e st db2
    proof -
      have "states_ok (cb_states db1)" using i by (simp add: I_def coverage_ok_def)
      with m obtain states' where db2: "db2 = db1\<lparr>cb_states := states'\<rparr>" and ok: "states_ok states'"
        and g: "\<And>c. storedGeneration c states' = storedGeneration c (cb_states db1) \<or> (storedGeneration c (cb_states db1) = 0 \<and> storedGeneration c states' = 1)"
        by (rule mark_stale) blast
      have ge: "storedGeneration c (cb_states db1) \<le> storedGeneration c states'" for c using g [of c] by auto
      have "J (result\<lparr>cr_Projections := cr_Projections result @ [st]\<rparr>) db2 c" for c
      proof -
        from i have "J result db1 c" by (simp add: I_def)
        with g [of c] pos [of c] show ?thesis by (auto simp: J_def db2 rows_of_def)
      qed
      moreover have "ci_Generation (ri_interval w) = storedGeneration (ci_CollectorID (ri_interval w)) states'" if "w \<in> set (cb_intervals db1)" for w
      proof -
        have "ci_Generation (ri_interval w) = storedGeneration (ci_CollectorID (ri_interval w)) (cb_states db1)" "0 < ci_Generation (ri_interval w)"
          using i that by (auto simp: I_def coverage_ok_def intervals_ok_def coverage_interval_checks_def Let_def)
        with g [of "ci_CollectorID (ri_interval w)"] show ?thesis by auto
      qed
      ultimately show ?thesis using i ok ge unfolding I_def coverage_ok_def db2 by (auto intro: order_trans)
    qed
    show "I (result\<lparr>cr_Projections := cr_Projections result @ [st], cr_Intervals := cr_Intervals result @ ivs\<rparr>) db2"
      if i: "I result db1" and r: "rebuildCollectorCoverage X tz flt t c start stop now mf db1 = Some (Inr (st, ivs), db2)" for result db1 flt t c st ivs db2
    proof -
      from i have "coverage_ok X db1" by (simp add: I_def)
      from rebuild_success [OF r this] have ok: "coverage_ok X db2"
        and g: "\<And>x. storedGeneration x (cb_states db2) = (if x = cc_ID c then storedGeneration x (cb_states db1) + 1 else storedGeneration x (cb_states db1))"
        and o: "\<And>x. x \<noteq> cc_ID c \<Longrightarrow> rows_of x db2 = rows_of x db1" and own: "map ri_interval (rows_of (cc_ID c) db2) = ivs"
        and ivs: "\<forall>i \<in> set ivs. ci_CollectorID i = cc_ID c \<and> ci_Generation i = storedGeneration (cc_ID c) (cb_states db2)"
        and st: "cs_CollectorID st = cc_ID c" "cs_Status st = ''fresh''" "cs_Generation st = storedGeneration (cc_ID c) (cb_states db2)" by auto
      let ?r = "result\<lparr>cr_Projections := cr_Projections result @ [st], cr_Intervals := cr_Intervals result @ ivs\<rparr>"
      have old: "ci_Generation x < storedGeneration (cc_ID c) (cb_states db2)" if "x \<in> set (cr_Intervals result)" "ci_CollectorID x = cc_ID c" for x
        using i g [of "cc_ID c"] that by (auto simp: I_def)
      have "J ?r db2 x" for x
      proof (cases "x = cc_ID c")
        case True
        have "filter (\<lambda>i. ci_CollectorID i = cc_ID c \<and> ci_Generation i = storedGeneration (cc_ID c) (cb_states db2)) (cr_Intervals result @ ivs) = ivs"
        proof -
          have "filter (\<lambda>i. ci_CollectorID i = cc_ID c \<and> ci_Generation i = storedGeneration (cc_ID c) (cb_states db2)) (cr_Intervals result) = []"
            by (auto simp: filter_empty_conv dest: old)
          with ivs show ?thesis by (simp add: filter_id_conv)
        qed
        moreover have "?g0 (cc_ID c) < storedGeneration (cc_ID c) (cb_states db2)" using i g [of "cc_ID c"] by (auto simp: I_def J_def dest: spec [of _ "cc_ID c"])
        ultimately show ?thesis using True own st by (simp add: J_def)
      next
        case False
        have e: "filter (\<lambda>i. ci_CollectorID i = x \<and> P i) ivs = []" for P using ivs False by (auto simp: filter_empty_conv)
        from i have "J result db1 x" by (simp add: I_def)
        with o [OF False] g [of x] False e show ?thesis by (auto simp: J_def)
      qed
      moreover have "ci_Generation x \<le> storedGeneration (ci_CollectorID x) (cb_states db2)" if "x \<in> set (cr_Intervals result @ ivs)" for x
      proof (cases "x \<in> set ivs")
        case True
        with ivs show ?thesis by auto
      next
        case False
        with that i g [of "ci_CollectorID x"] show ?thesis by (auto simp: I_def)
      qed
      ultimately show ?thesis unfolding I_def using ok by (intro conjI allI ballI) auto
    qed
  qed simp
  then show ?thesis by (simp add: I_def J_def)
qed

section \<open>The tables accept every computed coverage\<close>

lemma quality_json_valid:
  assumes "json_valid_documented X" "\<forall>v \<in> set flags. plain_text v"
  shows "json_valid X (qualityJSON flags False)" "take 1 (qualityJSON flags False) = ''[''"
proof -
  let ?a = "JArray (map JString (sort (remdups flags)))"
  have d: "decoder_tokens (marshal ?a) = (tokens_of ?a, True)" by (rule decoder_tokens_string_array) (use assms(2) in simp)
  have "jdepth ?a \<le> 1000" using jdepth_strings [of "sort (remdups flags)"] by simp
  from json_valid_documentedD [OF assms(1) d this] show "json_valid X (qualityJSON flags False)" by (simp add: qualityJSON_def)
  show "take 1 (qualityJSON flags False) = ''[''" by (simp add: qualityJSON_def)
qed

lemma fixedUTC_plain_length: "text_year t \<Longrightarrow> sql_length (fixedUTC t) = 30"
  by (simp add: sql_length_plain plain_fixedUTC length_fixedUTC)

text \<open>What an interval of the coverage calculation can say.\<close>

lemma build_status:
  assumes "Build tz collector start stop now facts = Some (Inr ivs)" "i \<in> set ivs"
  shows "iv_Availability i \<in> set [Covered, ConfirmedIdle, Pending, Delayed, Offline, Unknown]"
    "iv_ReasonCode i \<in> set [''SCHEDULED_FUTURE'', ''AWAITING_HEARTBEAT'', ''HEARTBEAT_MISSING'', ''HEARTBEAT_LATE'', ''HEARTBEAT_OFFLINE''] \<union> f_ReasonCode ` set facts"
    "set (iv_QualityFlags i) \<subseteq> (\<Union>f \<in> set facts. set (f_QualityFlags f))"
proof (atomize (full), rule Build_cases [OF assms(1)])
  fix plans
  assume sep: "separated ivs" and inv: "list_all (\<lambda>f. \<not> factInvalid f) facts"
    and c: "\<And>t. coverage_at ivs t = map_option (\<lambda>p. status_at collector (iv_ScheduleStart p) now (preparedFacts facts) t) (List.find (iv_has t) plans)"
  let ?t = "iv_Start i"
  have "iv_has ?t i" using sep assms(2) by (auto simp: separated_def list_all_iff iv_has_def)
  from coverage_at_member [OF sep assms(2) this] c [of ?t]
  have "map_option (\<lambda>p. status_at collector (iv_ScheduleStart p) now (preparedFacts facts) ?t) (List.find (iv_has ?t) plans) = Some (status_of i)" by simp
  then obtain p :: Interval where
    p: "status_at collector (iv_ScheduleStart p) now (preparedFacts facts) ?t = (iv_Availability i, iv_QualityFlags i, iv_ReasonCode i)"
    unfolding map_option_eq_Some status_of_def by auto
  show "iv_Availability i \<in> set [Covered, ConfirmedIdle, Pending, Delayed, Offline, Unknown]
    \<and> iv_ReasonCode i \<in> set [''SCHEDULED_FUTURE'', ''AWAITING_HEARTBEAT'', ''HEARTBEAT_MISSING'', ''HEARTBEAT_LATE'', ''HEARTBEAT_OFFLINE''] \<union> f_ReasonCode ` set facts
    \<and> set (iv_QualityFlags i) \<subseteq> (\<Union>f \<in> set facts. set (f_QualityFlags f))"
  proof (cases "covering_at (preparedFacts facts) ?t = []")
    case True
    with p show ?thesis by (auto simp: status_at_eq Let_def split: if_splits)
  next
    case False
    let ?cov = "covering_at (preparedFacts facts) ?t"
    have st: "iv_Availability i = f_Availability (arg_min_list precedence ?cov)" "iv_ReasonCode i = f_ReasonCode (arg_min_list precedence ?cov)"
      "iv_QualityFlags i = sorted_list_of_set (\<Union>f \<in> set ?cov. set (f_QualityFlags f))"
      using p False by (auto simp: status_at_eq Let_def)
    have cov: "set ?cov \<subseteq> normal_fact ` set facts" by (auto simp: covering_at_def set_preparedFacts)
    with arg_min_list_in [OF False, of precedence] obtain x where x: "x \<in> set facts" "arg_min_list precedence ?cov = normal_fact x" by auto
    have "set (iv_QualityFlags i) = (\<Union>f \<in> set ?cov. set (f_QualityFlags f))" unfolding st(3) by (rule set_sorted_list_of_set) simp
    also have "\<dots> \<subseteq> (\<Union>f \<in> set facts. set (f_QualityFlags f))" using cov by (fastforce simp: normal_fact_def normalizeFlags_def)
    finally show ?thesis using inv x st(1,2) by (auto simp: list_all_iff factInvalid_def normal_fact_def)
  qed
qed

definition storable :: "Interval \<Rightarrow> bool" where
  "storable i \<longleftrightarrow> text_year (iv_Start i) \<and> text_year (iv_End i) \<and> iv_Start i < iv_End i \<and> between 1 128 (iv_ReasonCode i)
     \<and> iv_Availability i \<in> set [Covered, ConfirmedIdle, Pending, Delayed, Offline, Unknown] \<and> (\<forall>v \<in> set (iv_QualityFlags i). plain_text v)"

lemma insert_intervals_succeed:
  assumes "json_valid_documented X" "between 1 128 cid" "0 < g" "text_year builtAt"
  shows "separated ivs \<Longrightarrow> \<forall>i \<in> set ivs. storable i \<Longrightarrow>
    \<forall>w \<in> set rows. ci_CollectorID (ri_interval w) = cid \<longrightarrow> (\<forall>i \<in> set ivs. ci_EndUTC (ri_interval w) \<le> fixedUTC (iv_Start i)) \<Longrightarrow>
    \<exists>stored rows'. insertIntervals X no_faults cid g (fixedUTC builtAt) k ivs rows = Inr (stored, rows')"
proof (induction ivs arbitrary: k rows)
  case (Cons iv ivs)
  let ?c = "\<lparr>ci_ID = next_id (ci_ID \<circ> ri_interval) rows, ci_CollectorID = cid, ci_StartUTC = fixedUTC (iv_Start iv), ci_EndUTC = fixedUTC (iv_End iv),
            ci_Availability = iv_Availability iv, ci_QualityFlags = iv_QualityFlags iv, ci_ReasonCode = iv_ReasonCode iv,
            ci_Generation = g, ci_BuiltAtUTC = fixedUTC builtAt\<rparr>"
  let ?w = "\<lparr>ri_interval = ?c, ri_flags_json = qualityJSON (iv_QualityFlags iv) False\<rparr>"
  have iv: "storable iv" using Cons.prems(2) by simp
  have lt: "fixedUTC (iv_Start iv) < fixedUTC (iv_End iv)" using iv by (simp add: storable_def fixedUTC_less_iff)
  have before: "ci_EndUTC (ri_interval w) \<le> fixedUTC (iv_Start iv)" if "w \<in> set rows" "ci_CollectorID (ri_interval w) = cid" for w
    using Cons.prems(3) that by simp
  have "\<not> list_ex (\<lambda>existing. intervals_overlap existing ?w) rows" using before by (auto simp: list_ex_iff intervals_overlap_def dest: leD)
  moreover have "coverage_interval_checks X ?w"
    using iv lt assms quality_json_valid [OF assms(1), of "iv_QualityFlags iv"]
    by (simp add: coverage_interval_checks_def storable_def fixedUTC_plain_length)
  moreover have "\<not> list_ex (\<lambda>v. ci_CollectorID (ri_interval v) = ci_CollectorID (ri_interval ?w) \<and> ci_StartUTC (ri_interval v) = ci_StartUTC (ri_interval ?w)
          \<and> ci_EndUTC (ri_interval v) = ci_EndUTC (ri_interval ?w)) rows"
    using before lt by (fastforce simp: list_ex_iff)
  ultimately have ins: "insertCoverageInterval X ?w rows = Inr (rows @ [?w])" by (simp add: insertCoverageInterval_def)
  have later: "fixedUTC (iv_End iv) \<le> fixedUTC (iv_Start i)" if "i \<in> set ivs" for i
  proof -
    have "iv_End iv \<le> iv_Start i" "text_year (iv_End iv)" "text_year (iv_Start i)"
      using Cons.prems(1,2) that by (auto simp: separated_def storable_def)
    then show ?thesis using fixedUTC_less_iff [of "iv_Start i" "iv_End iv"] by (simp add: not_less [symmetric])
  qed
  have "\<exists>stored rows'. insertIntervals X no_faults cid g (fixedUTC builtAt) (Suc k) ivs (rows @ [?w]) = Inr (stored, rows')"
    using Cons.prems later by (intro Cons.IH) (auto simp: separated_def)
  then show ?case using ins by (auto simp: Let_def)
qed simp

lemma upsert_state_succeeds: "coverage_state_checks s \<Longrightarrow> \<exists>states'. upsertCoverageState (\<lambda>_. s) s states = Inr states'"
  by (cases "list_ex (\<lambda>v. cs_CollectorID v = cs_CollectorID s) states") (simp_all add: upsertCoverageState_def list_all_iff)

lemma store_coverage_succeeds:
  assumes "json_valid_documented X" "between 1 128 cid" "text_year storeNow" "text_year start" "text_year stop" "start < stop" "0 \<le> wm" "states_ok states"
    and "separated ivs" "\<forall>i \<in> set ivs. storable i"
  shows "\<exists>result. storeCoverage X no_faults cid (fixedUTC start) (fixedUTC stop) (fixedUTC storeNow) wm ivs rows states = Inr result"
proof -
  let ?g = "storedGeneration cid states + 1"
  let ?st = "\<lparr>cs_CollectorID = cid, cs_RangeStartUTC = fixedUTC start, cs_RangeEndUTC = fixedUTC stop, cs_Generation = ?g, cs_Status = ''fresh'', cs_ErrorCode = [],
     cs_FactWatermark = wm, cs_BuiltAtUTC = fixedUTC storeNow\<rparr>"
  have g: "0 < ?g" using stored_generation_nonneg [OF assms(8), of cid] by simp
  obtain stored rows' where i: "insertIntervals X no_faults cid ?g (fixedUTC storeNow) 0 ivs (filter (\<lambda>w. ci_CollectorID (ri_interval w) \<noteq> cid) rows) = Inr (stored, rows')"
    using insert_intervals_succeed [OF assms(1,2) g assms(3,9,10), of "filter (\<lambda>w. ci_CollectorID (ri_interval w) \<noteq> cid) rows" 0] by auto
  have "coverage_state_checks ?st"
    using assms(2-7) g by (simp add: coverage_state_checks_def fixedUTC_plain_length fixedUTC_less_iff)
  then obtain states' where "upsertCoverageState (\<lambda>_. ?st) ?st states = Inr states'" using upsert_state_succeeds by blast
  with i show ?thesis by (simp add: storeCoverage_def Let_def)
qed

text \<open>The facts of a collector are read without an error when its entries are sound and few enough.\<close>

lemma coverage_facts_succeed:
  "\<forall>w \<in> set ws. \<exists>r. timelineCoverageFact (tl_data w) = Inr r \<Longrightarrow> int (length facts + length ws) \<le> mf \<Longrightarrow>
     \<exists>facts' wm'. coverageFacts no_faults mf k ws facts wm = Inr (facts', wm')"
proof (induction ws arbitrary: k facts wm)
  case (Cons w ws)
  from Cons.prems(1) obtain r where "timelineCoverageFact (tl_data w) = Inr r" by auto
  with Cons show ?case by (cases r) auto
qed simp

definition coverage_entry_ok :: "timelineProjection \<Rightarrow> bool" where
  "coverage_entry_ok p \<longleftrightarrow> (\<exists>r. timelineCoverageFact p = Inr r \<and> (\<forall>ft. r = Some ft \<longrightarrow> (\<forall>v \<in> set (f_QualityFlags ft). plain_text v)))"

text \<open>
  C20: A collector's coverage can always be rebuilt: without database faults, for a range within the years of four digits, a known time zone whose offsets
  differ by less than a day, and entries of the collector that are sound and not more than the limit, \<^verbatim>\<open>rebuildCollectorCoverage\<close> returns, and it
  succeeds -- in particular the intervals that the coverage calculation yields never violate a check of the table, and never trigger its rejection of overlapping intervals.
\<close>

theorem coverage_rebuild_succeeds:
  assumes "json_valid_documented X" "between 1 128 (cc_ID collector)" "text_year storeNow" "text_year start" "text_year stop" "start < stop"
    and "states_ok (cb_states db)" "tz (Timezone (cc_PlannedSchedule collector)) = Some loc" "\<forall>s s'. fst (loc s) - fst (loc s') < 86400"
    and "\<forall>w \<in> set (tb_entries db). tp_CollectorID (tl_data w) = cc_ID collector \<longrightarrow> coverage_entry_ok (tl_data w)" "int (length (tb_entries db)) \<le> mf"
  shows "\<exists>status stored db'. rebuildCollectorCoverage X tz no_faults storeNow collector start stop now mf db = Some (Inr (status, stored), db')"
proof -
  let ?sel = "selectCoverageFacts (cc_ID collector) (fixedUTC stop) (fixedUTC (start - OfflineAfterDuration collector)) (tb_entries db)"
  have "length ?sel \<le> length (tb_entries db)" by (simp add: selectCoverageFacts_def)
  moreover have "\<forall>w \<in> set ?sel. \<exists>r. timelineCoverageFact (tl_data w) = Inr r"
    using assms(10) set_selectCoverageFacts by (fastforce simp: coverage_entry_ok_def)
  ultimately obtain facts wm where f: "coverageFacts no_faults mf 0 ?sel [] 0 = Inr (facts, wm)"
    using coverage_facts_succeed [of ?sel "[]" mf 0 0] assms(11) by auto
  note facts = coverage_facts_Inr [OF f]
  have src: "\<exists>w \<in> set (tb_entries db). tp_CollectorID (tl_data w) = cc_ID collector \<and> timelineCoverageFact (tl_data w) = Inr (Some ft)" if "ft \<in> set facts" for ft
    using facts that set_selectCoverageFacts by fastforce
  have ft: "\<not> factInvalid ft" "between 1 128 (f_ReasonCode ft)" "\<forall>v \<in> set (f_QualityFlags ft). plain_text v" if "ft \<in> set facts" for ft
  proof -
    from src [OF that] obtain w where w: "w \<in> set (tb_entries db)" "tp_CollectorID (tl_data w) = cc_ID collector" "timelineCoverageFact (tl_data w) = Inr (Some ft)" by blast
    show "\<not> factInvalid ft" using coverage_fact_sound(3,4) [OF w(3)] by (auto simp: factInvalid_def)
    have "list_all (between 1 128) [''HEARTBEAT_IDLE'', ''HEARTBEAT_ACTIVE'', ''ACTIVITYWATCH_AFK'', ''ACTIVITYWATCH_EVENT'', ''MEDIA_ACCEPTED'']" by code_simp
    with coverage_fact_sound(6) [OF w(3)] show "between 1 128 (f_ReasonCode ft)" by (auto simp: list_all_iff)
    show "\<forall>v \<in> set (f_QualityFlags ft). plain_text v" using assms(10) w by (auto simp: coverage_entry_ok_def)
  qed
  obtain r where "datesLoop loc (Windows (cc_PlannedSchedule collector)) start stop (lastDate loc stop) (firstDate loc start) [] = Some r"
    using datesLoop_terminates [of loc] assms(9) by blast
  with assms(6,8) ft(1) obtain ivs where b: "Build tz collector start stop now facts = Some (Inr ivs)"
    by (auto simp: Build_def plannedIntervals_def Let_def list_ex_iff)
  have "storable i" if i: "i \<in> set ivs" for i
  proof -
    note st = build_status [OF b i]
    have w: "start \<le> iv_Start i" "iv_Start i < iv_End i" "iv_End i \<le> stop" using Build_within [OF b] i by (auto simp: list_all_iff within_range_def)
    have "list_all (between 1 128) [''SCHEDULED_FUTURE'', ''AWAITING_HEARTBEAT'', ''HEARTBEAT_MISSING'', ''HEARTBEAT_LATE'', ''HEARTBEAT_OFFLINE'']" by code_simp
    then have "between 1 128 (iv_ReasonCode i)" using st(2) ft(2) by (auto simp: list_all_iff)
    moreover have "text_year (iv_Start i)" "text_year (iv_End i)" using text_year_range [OF assms(4,5)] w by auto
    ultimately show ?thesis using st(1,3) w(2) ft(3) by (auto simp: storable_def)
  qed
  moreover from b have "separated ivs" by (rule Build_cases)
  ultimately obtain result where "storeCoverage X no_faults (cc_ID collector) (fixedUTC start) (fixedUTC stop) (fixedUTC storeNow) wm ivs (cb_intervals db) (cb_states db) = Inr result"
    using store_coverage_succeeds [OF assms(1-6) _ assms(7), of wm ivs "cb_intervals db"] facts by auto
  with f b show ?thesis by (cases result) (auto simp: rebuildCollectorCoverage_def)
qed

section \<open>Examples\<close>

text \<open>One heartbeat of the sample collector, not yet projected.\<close>

definition sample_hb_entry :: timelineProjection where
  "sample_hb_entry = \<lparr>tp_StableID = ''heartbeat:1'', tp_SourceType = ''heartbeat'', tp_SourceID = 1, tp_CollectorID = ''phone'', tp_EventType = ''collector.heartbeat'',
     tp_DeviceStartRaw = ''2026-01-02T03:04:05Z'', tp_DeviceEndRaw = ''2026-01-02T03:04:35Z'', tp_DeviceStartUTC = ''2026-01-02T03:04:05Z'',
     tp_DeviceEndUTC = ''2026-01-02T03:04:35Z'', tp_ReceivedAtUTC = ''2026-01-02T03:04:05Z'', tp_CorrectedStartUTC = ''2026-01-02T03:04:05.000000000Z'',
     tp_CorrectedEndUTC = ''2026-01-02T03:04:35.000000000Z'', tp_ClockOffsetMS = 0, tp_ClockErrorMS = 5, tp_ClockUncertain = False,
     tp_QualityFlagsJSON = ''['' @ quote ''corrupt'' @ '']'', tp_PayloadJSON = marshal (JObject [(''state'', JString ''active'')]), tp_SourceSchemaVersion = 1\<rparr>"

definition sample_hb_fact :: Fact where
  "sample_hb_fact = \<lparr>f_Start = sample_now, f_End = 63902919875000000000, f_Availability = ''covered'', f_QualityFlags = [''corrupt''],
     f_ReasonCode = ''HEARTBEAT_ACTIVE'', f_Priority = 30, f_StableID = ''heartbeat:1''\<rparr>"

definition heartbeat_db :: coverage_db where
  "heartbeat_db = \<lparr>tb_raw = [], tb_heartbeats = [\<lparr>hrow_id = 1, hrow_heartbeat = sample_hb_row\<rparr>], tb_segments = [], tb_entries = [], cb_intervals = [], cb_states = []\<rparr>"

definition quiet_env :: coverage_env where
  "quiet_env = \<lparr>ce_faults = no_faults, ce_busy = False, ce_now = sample_range_end, ce_stale_now = sample_range_end, ce_context_done = False\<rparr>"

lemma sample_cover_flags:
  "unmarshal_strings (''['' @ quote ''corrupt'' @ '']'') = Some [''corrupt'']" "qualityJSON [''corrupt''] False = ''['' @ quote ''corrupt'' @ '']''"
  by code_simp+

lemma sample_hb_state: "map_option cp_State (unmarshal [''state''] setStateField zeroCoveragePayload (marshal (JObject [(''state'', JString ''active'')]))) = Some ''active''"
  by code_simp

lemma sample_hb_parse: "parse_fixedUTC ''2026-01-02T03:04:05.000000000Z'' = Some sample_now" "parse_fixedUTC ''2026-01-02T03:04:35.000000000Z'' = Some 63902919875000000000"
  by code_simp+

lemma sample_hb_size: "timelineProjectionSize sample_hb_entry \<le> 4096" by code_simp

lemma sample_hb_entry_checks: "timeline_checks sample_ext sample_hb_entry" by code_simp

lemma sample_hb_projected: "heartbeatProjection \<lparr>hrow_id = 1, hrow_heartbeat = sample_hb_row\<rparr> second = Inr sample_hb_entry"
  using sample_cover_flags sample_one
  by (simp add: heartbeatProjection_def sample_hb_row_def sample_hb_entry_def duration_ms_exact millisecond_def second_def)

lemma sample_hb_fact_of: "timelineCoverageFact sample_hb_entry = Inr (Some sample_hb_fact)"
proof -
  obtain pl where "unmarshal [''state''] setStateField zeroCoveragePayload (marshal (JObject [(''state'', JString ''active'')])) = Some pl" "cp_State pl = ''active''"
    using sample_hb_state by auto
  then show ?thesis
    using sample_cover_flags(1) sample_hb_after(1)
    by (simp add: timelineCoverageFact_def sample_hb_entry_def sample_hb_parse sample_hb_fact_def del: marshal.simps)
qed

lemma sample_offline: "OfflineAfterDuration sample_collector = 300000000000" by code_simp

lemma sample_cover_texts: "fixedUTC (sample_now - 300000000000) = ''2026-01-02T02:59:05.000000000Z''" "fixedUTC sample_range_end = ''2026-01-02T03:20:05.000000000Z''"
  by code_simp+

lemma sample_cover_years: "text_year sample_range_end" "text_year sample_now" by (simp_all add: text_year_def, code_simp+)

text \<open>The sample schedule plans the sample time, and the fact covers it.\<close>

lemma sample_hb_build:
  obtains ivs i where "Build utc_zones sample_collector sample_now sample_range_end sample_range_end [sample_hb_fact] = Some (Inr ivs)"
    "i \<in> set ivs" "iv_Availability i = Covered"
proof -
  let ?loc = "fixed_zone 0"
  have z: "utc_zones (Timezone (cc_PlannedSchedule sample_collector)) = Some ?loc" by (simp add: utc_zones_def sample_collector_def sample_schedule_def)
  have st: "steady ?loc 0" by simp
  have less: "sample_now < sample_range_end" by (simp add: sample_now_def sample_range_end_def)
  have valid: "\<not> factInvalid sample_hb_fact" by (simp add: factInvalid_def sample_hb_fact_def sample_now_def)
  have off: "fst (?loc s) - fst (?loc s') < 86400" for s s' by (simp add: fixed_zone_def)
  from datesLoop_terminates [of ?loc, OF off] obtain r where
    "datesLoop ?loc (Windows (cc_PlannedSchedule sample_collector)) sample_now sample_range_end (lastDate ?loc sample_range_end) (firstDate ?loc sample_now) [] = Some r" by blast
  with z valid less obtain ivs where b: "Build utc_zones sample_collector sample_now sample_range_end sample_range_end [sample_hb_fact] = Some (Inr ivs)"
    by (auto simp: Build_def plannedIntervals_def Let_def)
  from b show thesis
  proof (rule Build_cases)
    fix plans
    assume p: "plannedIntervals utc_zones (cc_PlannedSchedule sample_collector) sample_now sample_range_end = Some (Inr plans)"
      and c: "\<And>t. coverage_at ivs t = map_option (\<lambda>p. status_at sample_collector (iv_ScheduleStart p) sample_range_end (preparedFacts [sample_hb_fact]) t) (List.find (iv_has t) plans)"
    have "scheduled_at (Windows (cc_PlannedSchedule sample_collector)) (local_clock ?loc sample_now)" by code_simp
    moreover from p obtain r where "datesLoop ?loc (Windows (cc_PlannedSchedule sample_collector)) sample_now sample_range_end
        (lastDate ?loc sample_range_end) (firstDate ?loc sample_now) [] = Some r" "\<And>t. any_has t plans \<longleftrightarrow> any_has t r"
      by (rule plannedIntervals_cases) (use z in auto)
    ultimately have "any_has sample_now plans" using planned_steady [OF st, of _ sample_now sample_range_end r sample_now] less by simp
    then obtain q where "List.find (iv_has sample_now) plans = Some q" using coverage_at_iff [of plans sample_now] by (auto simp: coverage_at_def)
    then have "coverage_at ivs sample_now = Some (status_at sample_collector (iv_ScheduleStart q) sample_range_end (preparedFacts [sample_hb_fact]) sample_now)" using c by simp
    moreover have "covering_at (preparedFacts [sample_hb_fact]) sample_now = preparedFacts [sample_hb_fact]" "preparedFacts [sample_hb_fact] = [normal_fact sample_hb_fact]"
      by (simp_all add: covering_at_def preparedFacts_def normal_fact_def sample_hb_fact_def sample_now_def)
    ultimately have "\<exists>fl rc. coverage_at ivs sample_now = Some (Covered, fl, rc)" by (simp add: status_at_eq Let_def) (simp add: sample_hb_fact_def)
    then have "\<exists>i \<in> set ivs. iv_Availability i = Covered"
      by (auto simp: coverage_at_def find_Some_iff status_of_def intro!: bexI [OF _ nth_mem])
    then obtain i where "i \<in> set ivs" "iv_Availability i = Covered" by blast
    with b show thesis by (rule that)
  qed
qed

lemma sample_hb_sync:
  "syncTimelineProjection sample_ext ms_julianday sample_tl_cfg no_faults False (sample_now - 300000000000) sample_range_end second 10 ''phone'' True heartbeat_db
     = (Inr (), heartbeat_db\<lparr>tb_entries := [\<lparr>tl_id = 1, tl_data = sample_hb_entry\<rparr>]\<rparr>)"
proof -
  let ?w = "\<lparr>hrow_id = 1, hrow_heartbeat = sample_hb_row\<rparr>"
  have q: "heartbeatProjectionQueries ''phone'' True ''2026-01-02T02:59:05.000000000Z'' ''2026-01-02T03:20:05.000000000Z'' [?w] = [[?w], []]"
    by (simp add: heartbeatProjectionQueries_def sample_hb_row_def)
  have "collectProjections ms_julianday sample_tl_cfg no_faults (sample_now - 300000000000) sample_range_end second 10 ''phone'' True heartbeat_db = Inr [sample_hb_entry]"
    using sample_hb_projected sample_hb_size q
    by (simp add: collectProjections_def collectRawEventProjections_def collectHeartbeatProjections_def collectMediaProjections_def heartbeat_db_def
        rawEventProjectionQueries_def mediaProjectionQueries_def projectHeartbeat_def appendTimelineProjection_def sample_tl_cfg_def sample_cover_texts Let_def)
  moreover have "upsertChunks sample_ext no_faults 0 [sample_hb_entry] [] = (Inr (), [\<lparr>tl_id = 1, tl_data = sample_hb_entry\<rparr>])"
    using sample_hb_entry_checks
    by (simp add: upsertChunks.simps timelineProjectionChunkSize_def upsertTimelineProjectionChunk_def upsertTimelineProjection_def next_id_def)
  ultimately show ?thesis by (simp add: syncTimelineProjection_def heartbeat_db_def)
qed

abbreviation "projected_db \<equiv> heartbeat_db\<lparr>tb_entries := [\<lparr>tl_id = 1, tl_data = sample_hb_entry\<rparr>]\<rparr>"

lemma sample_hb_facts:
  "coverageFacts no_faults 10 0 (selectCoverageFacts ''phone'' (fixedUTC sample_range_end) (fixedUTC (sample_now - 300000000000)) (tb_entries projected_db)) [] 0
     = Inr ([sample_hb_fact], 1)"
proof -
  have "selectCoverageFacts ''phone'' (fixedUTC sample_range_end) (fixedUTC (sample_now - 300000000000)) (tb_entries projected_db) = [\<lparr>tl_id = 1, tl_data = sample_hb_entry\<rparr>]"
    by (simp add: selectCoverageFacts_def sample_cover_texts sample_hb_entry_def)
  then show ?thesis by (simp add: sample_hb_fact_of)
qed

lemma sample_rebuild:
  obtains c result db' where
    "RebuildCoverage sample_ext ms_julianday sample_tl_cfg utc_zones (\<lambda>_. quiet_env) [sample_collector] sample_now sample_range_end sample_range_end second 10 heartbeat_db
       = Some (result, None, db')"
    "c \<in> set (cr_Intervals result)" "ci_Availability c = Covered"
proof -
  obtain ivs i where b: "Build utc_zones sample_collector sample_now sample_range_end sample_range_end [sample_hb_fact] = Some (Inr ivs)"
    and at: "i \<in> set ivs" "iv_Availability i = Covered" by (rule sample_hb_build)
  have id: "cc_ID sample_collector = ''phone''" "cc_Enabled sample_collector" by (simp_all add: sample_collector_def)
  have "storable i" if i: "i \<in> set ivs" for i
  proof -
    note st = build_status [OF b i]
    have w: "sample_now \<le> iv_Start i" "iv_Start i < iv_End i" "iv_End i \<le> sample_range_end" using Build_within [OF b] i by (auto simp: list_all_iff within_range_def)
    have "list_all (between 1 128) [''SCHEDULED_FUTURE'', ''AWAITING_HEARTBEAT'', ''HEARTBEAT_MISSING'', ''HEARTBEAT_LATE'', ''HEARTBEAT_OFFLINE'', ''HEARTBEAT_ACTIVE'']" "plain_text ''corrupt''" by code_simp+
    then show ?thesis using st w text_year_range [OF sample_cover_years(2,1)] by (auto simp: storable_def sample_hb_fact_def list_all_iff)
  qed
  moreover from b have sep: "separated ivs" by (rule Build_cases)
  moreover have "between 1 128 ''phone''" by code_simp
  moreover have "sample_now < sample_range_end" by (simp add: sample_now_def sample_range_end_def)
  ultimately obtain x where s: "storeCoverage sample_ext no_faults ''phone'' (fixedUTC sample_now) (fixedUTC sample_range_end) (fixedUTC sample_range_end) 1 ivs [] [] = Inr x"
    using store_coverage_succeeds [OF sample_ext_documented(2), of "''phone''" sample_range_end sample_now sample_range_end 1 "[]" ivs "[]"] sample_cover_years
    by (auto simp: states_ok_def)
  obtain status stored rows states where x: "x = ((status, stored), rows, states)" by (metis prod.collapse)
  obtain new where new: "map ri_interval new = stored"
    "list_all2 (interval_row ''phone'' (storedGeneration ''phone'' [] + 1) (fixedUTC sample_range_end)) ivs new"
  proof (rule store_coverage_Inr [OF s [unfolded x]])
    fix new
    assume "map ri_interval new = stored" "list_all2 (interval_row ''phone'' (storedGeneration ''phone'' [] + 1) (fixedUTC sample_range_end)) ivs new"
    then show thesis by (rule that)
  qed
  have r: "rebuildCollectorCoverage sample_ext utc_zones no_faults sample_range_end sample_collector sample_now sample_range_end sample_range_end 10 projected_db
      = Some (Inr (status, stored), projected_db\<lparr>cb_intervals := rows, cb_states := states\<rparr>)"
    using sample_hb_facts b s x by (simp add: rebuildCollectorCoverage_def id sample_offline heartbeat_db_def)
  from at obtain c where "c \<in> set stored" "ci_Availability c = Covered"
    using new by (fastforce simp: list_all2_conv_all_nth in_set_conv_nth interval_row_def Let_def)
  moreover have "RebuildCoverage sample_ext ms_julianday sample_tl_cfg utc_zones (\<lambda>_. quiet_env) [sample_collector] sample_now sample_range_end sample_range_end second 10 heartbeat_db
     = Some (\<lparr>cr_RangeStartUTC = fixedUTC sample_now, cr_RangeEndUTC = fixedUTC sample_range_end, cr_Projections = [status], cr_Intervals = stored\<rparr>, None,
         projected_db\<lparr>cb_intervals := rows, cb_states := states\<rparr>)"
    using r sample_hb_sync \<open>sample_now < sample_range_end\<close> by (simp add: RebuildCoverage_def Let_def id sample_offline quiet_env_def)
  ultimately show thesis using that by fastforce
qed

theorem coverage_has_evidence_witness:
  "\<exists>result db' c. RebuildCoverage sample_ext ms_julianday sample_tl_cfg utc_zones (\<lambda>_. quiet_env) [sample_collector] sample_now sample_range_end sample_range_end second 10 heartbeat_db
       = Some (result, None, db')
     \<and> c \<in> set (cr_Intervals result) \<and> ci_Availability c = Covered \<and> interval_supported sample_now sample_range_end (\<lambda>p. \<exists>ua. fact_projection ua heartbeat_db p) c"
proof -
  obtain c result db' where r: "RebuildCoverage sample_ext ms_julianday sample_tl_cfg utc_zones (\<lambda>_. quiet_env) [sample_collector] sample_now sample_range_end sample_range_end second 10
       heartbeat_db = Some (result, None, db')" "c \<in> set (cr_Intervals result)" "ci_Availability c = Covered" by (rule sample_rebuild)
  have "entries_sourced heartbeat_db" by (simp add: entries_sourced_def heartbeat_db_def)
  from coverage_has_evidence [OF r(1) this] r show ?thesis by blast
qed

theorem coverage_rebuild_atomic_witness:
  "\<exists>result db'. RebuildCoverage sample_ext ms_julianday sample_tl_cfg utc_zones (\<lambda>_. quiet_env) [sample_collector] sample_now sample_range_end sample_range_end second 10 heartbeat_db
       = Some (result, None, db') \<and> coverage_ok sample_ext db'"
proof -
  obtain c result db' where r: "RebuildCoverage sample_ext ms_julianday sample_tl_cfg utc_zones (\<lambda>_. quiet_env) [sample_collector] sample_now sample_range_end sample_range_end second 10
       heartbeat_db = Some (result, None, db')" "c \<in> set (cr_Intervals result)" "ci_Availability c = Covered" by (rule sample_rebuild)
  have "coverage_ok sample_ext heartbeat_db" by (simp add: coverage_ok_def heartbeat_db_def timeline_ok_def intervals_ok_def states_ok_def)
  from coverage_rebuild_atomic [OF r(1) this] r show ?thesis by blast
qed

theorem coverage_rebuild_succeeds_witness:
  "\<exists>status stored db'. rebuildCollectorCoverage sample_ext utc_zones no_faults sample_range_end sample_collector sample_now sample_range_end sample_range_end 10 projected_db
     = Some (Inr (status, stored), db')"
proof (rule coverage_rebuild_succeeds [where loc = "fixed_zone 0"])
  have p: "plain_text ''corrupt''" by code_simp
  show "\<forall>w \<in> set (tb_entries projected_db). tp_CollectorID (tl_data w) = cc_ID sample_collector \<longrightarrow> coverage_entry_ok (tl_data w)"
    using p by (simp add: coverage_entry_ok_def sample_hb_fact_of sample_hb_fact_def)
  show "between 1 128 (cc_ID sample_collector)" by code_simp
  show "sample_now < sample_range_end" by (simp add: sample_now_def sample_range_end_def)
qed (simp_all add: sample_ext_documented sample_cover_years states_ok_def heartbeat_db_def utc_zones_def sample_collector_def
       sample_schedule_def fixed_zone_def)

end
