(* ===== verification/Spec2Isabelle.thy ===== *)
theory Spec2Isabelle
  imports Event_Query Heartbeats Coverage_Calc Store_Migration Ops_Manager Checkpoints Timeline Coverage_Store
begin

text \<open>
  A verification library for the recorder core of \<^verbatim>\<open>study-monitor\<close>, a local service written in Go that
  receives events, heartbeats and video segments from collectors, keeps them in a SQLite
  database and a media directory, reports which part of the planned time was covered, and watches over
  disk space and retention.

  \<^bold>\<open>Parts of the program and the theories that model them.\<close>  Clients write through the HTTP API into the
  event store (\<^verbatim>\<open>internal/eventstore\<close>), one file per concern, over one SQLite database.  Every theory
  models one file; a function keeps its Go name, a struct is a record with its fields, a table is a list of rows in
  id order, and an error is a value of \<^verbatim>\<open>go_error\<close> (\<^verbatim>\<open>StoreErr\<close> or \<^verbatim>\<open>ValidationErr\<close>) on the left of a sum.
    \<^item> \<^verbatim>\<open>Strict_Json\<close> -- \<^verbatim>\<open>internal/strictjson/keys.go\<close>: the container stack that rejects duplicate and
      unexpected object keys.
    \<^item> \<^verbatim>\<open>Store_Base\<close> -- \<^verbatim>\<open>errors.go\<close> and the configuration in \<^verbatim>\<open>store.go\<close>; the fault model of the database.
    \<^item> \<^verbatim>\<open>Raw_Events\<close> -- \<^verbatim>\<open>event.go\<close>: validation and the idempotent, transactional append of event batches.
    \<^item> \<^verbatim>\<open>Event_Query\<close> -- \<^verbatim>\<open>query.go\<close>: cursors, pages under a snapshot bound, event families.
    \<^item> \<^verbatim>\<open>Heartbeats\<close> -- \<^verbatim>\<open>heartbeat.go\<close>: heartbeats, validated and appended like events.
    \<^item> \<^verbatim>\<open>Checkpoints\<close> -- \<^verbatim>\<open>activitywatch.go\<close>: how far a collector has read its source.
    \<^item> \<^verbatim>\<open>Store_Migration\<close> -- \<^verbatim>\<open>migration.go\<close>, \<^verbatim>\<open>readiness.go\<close> and the verification of a database file in
      \<^verbatim>\<open>operations.go\<close>: the four migration ledgers.
    \<^item> \<^verbatim>\<open>Media_Store\<close> -- \<^verbatim>\<open>media.go\<close>: media claims, the acceptance transaction, ingest events and the status projections.
    \<^item> \<^verbatim>\<open>Timeline\<close> -- \<^verbatim>\<open>timeline.go\<close>: the projection of the three kinds of facts onto timeline entries, and their pages.
    \<^item> \<^verbatim>\<open>Coverage_Store\<close> -- \<^verbatim>\<open>coverage.go\<close>: rebuilding the stored coverage of the collectors, on top of \<^verbatim>\<open>Timeline\<close> and \<^verbatim>\<open>Coverage_Calc\<close>.
    \<^item> \<^verbatim>\<open>Ops_Store\<close> -- the rest of \<^verbatim>\<open>operations.go\<close>: faults, module states, modes, retention facts, the dashboard history.
    \<^item> \<^verbatim>\<open>Ops_Manager\<close> -- \<^verbatim>\<open>internal/operations/manager.go\<close>: disk gates, WAL checkpoints, the cleaning of the staging
      directory, backup manifests and retention, on top of \<^verbatim>\<open>Ops_Store\<close> and \<^verbatim>\<open>Config\<close>.
    \<^item> \<^verbatim>\<open>Config\<close> -- \<^verbatim>\<open>internal/config/config.go\<close>: the configuration, its defaults, accessors and validators.
    \<^item> \<^verbatim>\<open>Coverage_Calc\<close> -- \<^verbatim>\<open>internal/coverage/coverage.go\<close>: planned windows and the classification of time.

  The Go language and its standard library, as far as the sources use them, are modelled in \<^verbatim>\<open>Prelude\<close>,
  \<^verbatim>\<open>Go_Calendar\<close>, \<^verbatim>\<open>Go_Time\<close>, \<^verbatim>\<open>Go_Duration\<close> and \<^verbatim>\<open>Go_Zone\<close> (package \<^verbatim>\<open>time\<close>), \<^verbatim>\<open>Go_Text\<close> (strings, UTF-8),
  \<^verbatim>\<open>Go_Path\<close> (package \<^verbatim>\<open>filepath\<close>, with Unix separators), \<^verbatim>\<open>Go_Json\<close> and \<^verbatim>\<open>Go_Json_Text\<close> (package \<^verbatim>\<open>json\<close>, on
  bytes), \<^verbatim>\<open>Go_Unmarshal\<close> (decoding into structs), \<^verbatim>\<open>Go_Float\<close> (64-bit floating point numbers in JSON) and
  \<^verbatim>\<open>Go_Base64\<close>.

  \<^bold>\<open>Interfaces.\<close>  \<^verbatim>\<open>Idempotent_Log\<close> has the locales \<^verbatim>\<open>idempotent_log\<close> and \<^verbatim>\<open>batch_log\<close>, the contract of the tables
  that batches are appended to; both are interpreted for raw events and for heartbeats.  \<^verbatim>\<open>Keyed_Log\<close> has
  \<^verbatim>\<open>keyed_table\<close>, the contract of a table of facts with unique keys, interpreted for ingest events, media states and the
  operations tables, and \<^verbatim>\<open>projection\<close>, the contract of a status table that shows the latest fact per key,
  interpreted for ingest status, segment status and module states.

  \<^bold>\<open>What is outside.\<close>  SHA-256 and SQLite's \<^verbatim>\<open>json_valid\<close> are fields of the parameter record \<^verbatim>\<open>ext\<close>; what the theorems
  use of them are the hypotheses \<^verbatim>\<open>sha256_documented\<close> and \<^verbatim>\<open>json_valid_documented\<close>.  Database statements fail as a
  parameter of type \<^verbatim>\<open>faults\<close> says, by the label of the statement and its number; a statement that
  does not fail does what SQLite documents, constraint checks included.  In \<^verbatim>\<open>Ops_Manager\<close> an
  environment record says, for every interaction, what the clock, the disk probe and the file system do.
  In \<^verbatim>\<open>Timeline\<close> SQLite's \<^verbatim>\<open>julianday\<close> is a parameter; its hypothesis
  \<^verbatim>\<open>julianday_accurate\<close> speaks only of the texts the store writes.  Time zones are lookup functions; the theorems that need it assume that a zone is well formed.

  \<^bold>\<open>What the lemmas show.\<close>  Per table: appends are atomic, keep the invariant (unique keys, increasing ids), and a replay
  changes nothing; every result reports truthfully what is stored; validation accepts
  exactly the well-formed inputs, and without faults a batch succeeds.  For queries: following the cursors
  yields every row of the snapshot exactly once.  For projections: the incremental status tables equal
  a rebuild from the facts along every history of store operations.  For coverage: the computed intervals refine an
  instant-by-instant definition.  For the manager: a run removes only files it has proved intact,
  covered by a backup and planned.

  \<^bold>\<open>Fuel and partiality.\<close>  \<^verbatim>\<open>parseJSONValue\<close> recurses with the number of tokens left as fuel, and each call
  consumes a token, so the fuel never runs out.  The date loop of \<^verbatim>\<open>plannedIntervals\<close> is a \<^verbatim>\<open>partial_function\<close>:
  it is proved to return in zones that skip no calendar day, and not to return in one that does.  All other recursions are total.

  \<^bold>\<open>Not modelled.\<close>  The HTTP API, the media ingest, the ActivityWatch poller, and the
  certification statistics; decoding the configuration file and
  the environment overrides; process start-up, logging, the dashboard's
  static files and the operating system probes, which only do input and output.  Goroutines are
  modelled one step at a time: a transaction or a manager task runs to its end, as SQLite's write lock and the
  manager's single loop ensure.
\<close>

end
